(* ===== verification/FluxionBase.thy ===== *)
theory FluxionBase
  imports Complex_Main "HOL-Library.AList" "HOL-Library.Char_ord" "HOL-Library.List_Lexorder"
    "HOL-Library.Sublist"
begin

text \<open>
  The prelude of the Fluxion Bus development: Python values as JSON carries them, the string
  methods the source calls, dictionaries as ordered association lists, and the generic lemmas
  the components share.

  A Python \<open>str\<close> is a \<^typ>\<open>string\<close>, a list of code points below 256. A \<open>float\<close> is a \<open>rat\<close>:
  the rounding of floating-point arithmetic is not modelled. A \<open>dict\<close> is an association list
  in insertion order with distinct keys; \<^const>\<open>AList.update\<close> replaces a value in place or appends a
  new key, which is what \<open>d[k] = v\<close> does.
\<close>

section \<open>Theorem collections\<close>

named_theorems text_simps \<open>facts about strip, lower and the splitting functions\<close>
named_theorems dict_simps \<open>facts about dictionary reads and writes\<close>

section \<open>Python values\<close>

datatype json =
    JNull
  | JBool bool
  | JInt int
  | JFloat rat
  | JStr string
  | JList "json list"
  | JDict "(string \<times> json) list"

type_synonym dict = "(string \<times> json) list"

text \<open>The truth value Python's \<open>if\<close>, \<open>and\<close>, \<open>or\<close> and \<open>not\<close> give a value.\<close>

fun truthy :: "json \<Rightarrow> bool" where
  "truthy JNull = False"
| "truthy (JBool b) = b"
| "truthy (JInt n) = (n \<noteq> 0)"
| "truthy (JFloat x) = (x \<noteq> 0)"
| "truthy (JStr s) = (s \<noteq> [])"
| "truthy (JList xs) = (xs \<noteq> [])"
| "truthy (JDict d) = (d \<noteq> [])"

text \<open>The exceptions the modelled code raises or catches.\<close>

datatype py_exc = ValueError | TypeError | KeyError | AttributeError | RuntimeError | OSError

definition py_or :: "json \<Rightarrow> json \<Rightarrow> json" where
  \<comment> \<open>\<open>a or b\<close>\<close>
  "py_or a b = (if truthy a then a else b)"

section \<open>Characters and strings\<close>

definition code :: "char \<Rightarrow> nat" where
  "code c = of_char c"

definition is_space :: "char \<Rightarrow> bool" where
  "is_space c = (let n = code c in (9 \<le> n \<and> n \<le> 13) \<or> (28 \<le> n \<and> n \<le> 32) \<or> n = 133 \<or> n = 160)"

definition lower_char :: "char \<Rightarrow> char" where
  "lower_char c = (let n = code c in
     if (65 \<le> n \<and> n \<le> 90) \<or> (192 \<le> n \<and> n \<le> 222 \<and> n \<noteq> 215) then char_of (n + 32) else c)"

definition lower :: "string \<Rightarrow> string" where
  "lower s = map lower_char s"

definition lstrip :: "string \<Rightarrow> string" where
  "lstrip s = dropWhile is_space s"

definition strip :: "string \<Rightarrow> string" where
  "strip s = rev (lstrip (rev (lstrip s)))"

text \<open>\<open>s.replace(c, r)\<close> for a one-character \<open>c\<close>.\<close>

definition replace_char :: "char \<Rightarrow> string \<Rightarrow> string \<Rightarrow> string" where
  "replace_char c r s = concat (map (\<lambda>x. if x = c then r else [x]) s)"

text \<open>\<open>s.split(sep)\<close> for a one-character separator: never the empty list.\<close>

fun split_on :: "char \<Rightarrow> string \<Rightarrow> string list" where
  "split_on c [] = [[]]"
| "split_on c (x # xs) =
     (if x = c then [] # split_on c xs
      else (case split_on c xs of [] \<Rightarrow> [[x]] | w # ws \<Rightarrow> (x # w) # ws))"

text \<open>\<open>s.split()\<close>: maximal runs of non-space characters.\<close>

fun words_acc :: "string \<Rightarrow> string \<Rightarrow> string list" where
  "words_acc w [] = (if w = [] then [] else [rev w])"
| "words_acc w (x # xs) =
     (if is_space x then (if w = [] then words_acc [] xs else rev w # words_acc [] xs)
      else words_acc (x # w) xs)"

definition split_ws :: "string \<Rightarrow> string list" where
  "split_ws s = words_acc [] s"

text \<open>\<open>s.partition(sep)\<close>, and \<open>s.split(sep, 1)\<close> on a string that contains \<open>sep\<close>.\<close>

definition before_char :: "char \<Rightarrow> string \<Rightarrow> string" where
  "before_char c s = takeWhile (\<lambda>x. x \<noteq> c) s"

definition after_char :: "char \<Rightarrow> string \<Rightarrow> string" where
  "after_char c s = tl (dropWhile (\<lambda>x. x \<noteq> c) s)"

definition contains :: "string \<Rightarrow> string \<Rightarrow> bool" where
  "contains pat s = sublist pat s"

text \<open>Line ends: what reading a file in text mode does to them.\<close>

abbreviation LF :: char where "LF \<equiv> char_of (10::nat)"
abbreviation CR :: char where "CR \<equiv> char_of (13::nat)"

fun normalize_newlines :: "string \<Rightarrow> string" where
  \<comment> \<open>\<open>.replace("\r\n", "\n").replace("\r", "\n")\<close>\<close>
  "normalize_newlines [] = []"
| "normalize_newlines (c # cs) =
     (if c = CR then LF # normalize_newlines (if cs \<noteq> [] \<and> hd cs = LF then tl cs else cs)
      else c # normalize_newlines cs)"

text \<open>\<open>int(s)\<close>: surrounding space, an optional sign, digits with single underscores between them.
  \<open>None\<close> is \<open>ValueError\<close>.\<close>

definition digit_of :: "char \<Rightarrow> int option" where
  "digit_of c = (let n = code c in if 48 \<le> n \<and> n \<le> 57 then Some (int n - 48) else None)"

fun parse_digits :: "int \<Rightarrow> string \<Rightarrow> int option" where
  "parse_digits acc [] = Some acc"
| "parse_digits acc (c # cs) =
     (case digit_of c of
        Some v \<Rightarrow> parse_digits (10 * acc + v) cs
      | None \<Rightarrow>
          if c \<noteq> CHR ''_'' then None
          else (case cs of
                  [] \<Rightarrow> None
                | d # ds \<Rightarrow>
                    (case digit_of d of None \<Rightarrow> None | Some v \<Rightarrow> parse_digits (10 * acc + v) ds)))"

definition parse_nat :: "string \<Rightarrow> int option" where
  "parse_nat s = (case s of [] \<Rightarrow> None
     | c # cs \<Rightarrow> (case digit_of c of None \<Rightarrow> None | Some v \<Rightarrow> parse_digits v cs))"

definition py_int :: "string \<Rightarrow> int option" where
  "py_int s = (case strip s of
       [] \<Rightarrow> None
     | c # cs \<Rightarrow>
         (if c = CHR ''-'' then map_option uminus (parse_nat cs)
          else if c = CHR ''+'' then parse_nat cs
          else parse_nat (c # cs)))"

text \<open>\<open>str(n)\<close> for an integer.\<close>

fun show_nat :: "nat \<Rightarrow> string" where
  "show_nat n = (if n < 10 then [char_of (48 + n)] else show_nat (n div 10) @ [char_of (48 + n mod 10)])"

declare show_nat.simps [simp del]

definition show_int :: "int \<Rightarrow> string" where
  "show_int n = (if n < 0 then CHR ''-'' # show_nat (nat (- n)) else show_nat (nat n))"

text \<open>
  \<open>str(v)\<close>. The rendering of floats, lists and dicts (Python's \<open>repr\<close>) is the parameter \<open>rp\<close>:
  no property depends on it.
\<close>

fun py_str :: "(json \<Rightarrow> string) \<Rightarrow> json \<Rightarrow> string" where
  "py_str rp JNull = ''None''"
| "py_str rp (JBool b) = (if b then ''True'' else ''False'')"
| "py_str rp (JInt n) = show_int n"
| "py_str rp (JStr s) = s"
| "py_str rp v = rp v"

text \<open>\<open>int(v)\<close> of a JSON value: floats are cut towards zero.\<close>

fun py_to_int :: "json \<Rightarrow> py_exc + int" where
  "py_to_int (JInt n) = Inr n"
| "py_to_int (JBool b) = Inr (if b then 1 else 0)"
| "py_to_int (JFloat x) = Inr (if x < 0 then \<lceil>x\<rceil> else \<lfloor>x\<rfloor>)"
| "py_to_int (JStr s) = (case py_int s of None \<Rightarrow> Inl ValueError | Some n \<Rightarrow> Inr n)"
| "py_to_int _ = Inl TypeError"

definition str_or :: "string \<Rightarrow> string \<Rightarrow> string" where
  \<comment> \<open>\<open>s or default\<close> on strings\<close>
  "str_or s d = (if s = [] then d else s)"

definition or_default :: "'a option \<Rightarrow> 'a \<Rightarrow> 'a" where
  \<comment> \<open>\<open>mapping.get(key, default)\<close>, and the value of an optional argument\<close>
  "or_default v d = (case v of None \<Rightarrow> d | Some x \<Rightarrow> x)"

section \<open>Dictionaries\<close>

definition dget :: "dict \<Rightarrow> string \<Rightarrow> json" where
  \<comment> \<open>\<open>d.get(k)\<close>: an absent key reads as \<open>None\<close>.\<close>
  "dget d k = (case map_of d k of None \<Rightarrow> JNull | Some v \<Rightarrow> v)"

definition dget_or :: "dict \<Rightarrow> string \<Rightarrow> json \<Rightarrow> json" where
  \<comment> \<open>\<open>d.get(k, default)\<close>.\<close>
  "dget_or d k v0 = (case map_of d k of None \<Rightarrow> v0 | Some v \<Rightarrow> v)"

definition dset :: "string \<Rightarrow> json \<Rightarrow> dict \<Rightarrow> dict" where
  "dset k v d = AList.update k v d"

lemma map_of_dset [simp, dict_simps]: "map_of (dset k v d) = (map_of d)(k \<mapsto> v)"
  by (simp add: dset_def update_conv')

lemma dget_dset [simp, dict_simps]: "dget (dset k v d) k' = (if k' = k then v else dget d k')"
  by (simp add: dget_def)

lemma distinct_dset [simp, dict_simps]: "distinct (map fst d) \<Longrightarrow> distinct (map fst (dset k v d))"
  by (simp add: dset_def distinct_update)

lemma dget_or_Nil [simp, dict_simps]: "dget_or [] k v0 = v0"
  by (simp add: dget_or_def)

lemma dget_or_Cons [simp, dict_simps]:
  "dget_or ((k, v) # d) k' v0 = (if k' = k then v else dget_or d k' v0)"
  by (simp add: dget_or_def)

lemma dget_Nil [simp, dict_simps]: "dget [] k = JNull"
  by (simp add: dget_def)

lemma dget_Cons [simp, dict_simps]: "dget ((k, v) # d) k' = (if k' = k then v else dget d k')"
  by (simp add: dget_def)

section \<open>Lemmas on strings\<close>

lemma dropWhile_rev_idem:
  "dropWhile P (rev (dropWhile P (rev (dropWhile P xs)))) = rev (dropWhile P (rev (dropWhile P xs)))"
proof (cases "dropWhile P xs")
  case Nil
  show ?thesis by (simp only: Nil rev.simps dropWhile.simps)
next
  case (Cons y ys)
  then have ny: "\<not> P y" by (simp add: dropWhile_eq_Cons_conv)
  have "dropWhile P (rev ys @ [y]) = dropWhile P (rev ys) @ [y]"
    by (rule dropWhile_append3) (rule ny)
  then show ?thesis using Cons ny by simp
qed

lemma strip_strip [simp, text_simps]: "strip (strip s) = strip s"
proof -
  have "lstrip (strip s) = strip s"
    unfolding strip_def lstrip_def by (rule dropWhile_rev_idem)
  then have "strip (strip s) = rev (lstrip (rev (strip s)))"
    by (simp add: strip_def)
  also have "\<dots> = rev (lstrip (lstrip (rev (lstrip s))))"
    by (simp add: strip_def)
  also have "\<dots> = strip s"
    by (simp add: strip_def lstrip_def dropWhile_idem)
  finally show ?thesis .
qed

lemma strip_Nil [simp, text_simps]: "strip [] = []"
  by (simp add: strip_def lstrip_def)

lemma length_lower [simp, text_simps]: "length (lower s) = length s"
  by (simp add: lower_def)

lemma lower_Nil [simp, text_simps]: "lower [] = []" "(lower s = []) = (s = [])"
  by (simp_all add: lower_def)

lemma replace_char_absent [text_simps]: "c \<notin> set s \<Longrightarrow> replace_char c r s = s"
  by (induction s) (auto simp: replace_char_def)

lemma split_on_nonempty [simp, text_simps]: "split_on c s \<noteq> []"
  by (induction s) (auto split: list.splits)

lemma split_on_absent [text_simps]: "c \<notin> set s \<Longrightarrow> split_on c s = [s]"
  by (induction s) auto

lemma code_char_of [simp]: "n < 256 \<Longrightarrow> code (char_of n) = n"
  by (simp add: code_def)

lemma code_inject [simp]: "(code c = code d) = (c = d)"
  by (simp add: code_def)

lemma code_less: "code c < 256"
  by (simp add: code_def)

lemma lower_char_idem: "lower_char (lower_char c) = lower_char c"
proof -
  have "code c < 256" by (rule code_less)
  then show ?thesis by (auto simp: lower_char_def Let_def)
qed

lemma lower_lower [simp, text_simps]: "lower (lower s) = lower s"
  by (simp add: lower_def lower_char_idem)

lemma is_space_lower_char: "is_space (lower_char c) = is_space c"
proof -
  have "code c < 256" by (rule code_less)
  then show ?thesis by (auto simp: lower_char_def is_space_def Let_def)
qed

lemma lstrip_lower: "lstrip (lower s) = lower (lstrip s)"
  by (induction s) (auto simp: lstrip_def lower_def is_space_lower_char)

lemma strip_lower: "strip (lower s) = lower (strip s)"
  using lstrip_lower [of s] lstrip_lower [of "rev (lstrip s)"]
  by (simp add: strip_def) (simp add: lower_def rev_map)

lemma strip_lower_strip [simp, text_simps]: "strip (lower (strip s)) = lower (strip s)"
  by (simp add: strip_lower)

lemma normalize_id: "CR \<notin> set s \<Longrightarrow> normalize_newlines s = s"
  by (induction s rule: normalize_newlines.induct) auto

lemma digit_of_range: "digit_of c = Some v \<Longrightarrow> 0 \<le> v \<and> v \<le> 9"
  by (auto simp: digit_of_def Let_def split: if_splits)

section \<open>Iteration\<close>

fun iter_json :: "json \<Rightarrow> py_exc + json list" where
  \<comment> \<open>what \<open>for x in v\<close> runs through: a dict its keys, a string its characters\<close>
  "iter_json (JList xs) = Inr xs"
| "iter_json (JDict d) = Inr (map (\<lambda>kv. JStr (fst kv)) d)"
| "iter_json (JStr s) = Inr (map (\<lambda>c. JStr [c]) s)"
| "iter_json _ = Inl TypeError"

fun dicts_of :: "json list \<Rightarrow> dict list" where
  \<comment> \<open>\<open>[x for x in xs if isinstance(x, dict)]\<close>\<close>
  "dicts_of [] = []"
| "dicts_of (JDict d # xs) = d # dicts_of xs"
| "dicts_of (_ # xs) = dicts_of xs"

lemma dicts_of_map [simp]: "dicts_of (map JDict ds) = ds"
  by (induction ds) simp_all

end
