(* ===== verification/IsoTime.thy ===== *)
theory IsoTime
  imports FluxionBase "HOL-Library.Monad_Syntax"
begin

text \<open>
  Instants, the calendar and ISO 8601 text. An aware UTC \<open>datetime\<close> is an \<^typ>\<open>int\<close>: the
  microseconds since 0001-01-01T00:00:00 UTC, valid below the end of year 9999.
  \<open>isoformat\<close> and \<open>fromisoformat\<close> model the standard library for the extended notation
  (\<open>YYYY-MM-DD[?HH[:MM[:SS[.f+]]][Z|+HH:MM]]\<close>), which is all that \<open>isoformat\<close> writes; the
  basic notation and week dates, which the library reads too, are read as \<open>None\<close> here.

  The locale \<open>time_codec\<close> is the interface the stores use for timestamps they write and read
  back: it is interpreted on each module's own pair of writer and reader.
\<close>

section \<open>Calendar\<close>

definition usec_per_sec :: int where "usec_per_sec = 1000000"
definition usec_per_min :: int where "usec_per_min = 60000000"
definition usec_per_hour :: int where "usec_per_hour = 3600000000"
definition usec_per_day :: int where "usec_per_day = 86400000000"
definition max_instant :: int where "max_instant = 3652059 * 86400000000"

lemmas usec_defs = usec_per_sec_def usec_per_min_def usec_per_hour_def usec_per_day_def max_instant_def

definition valid_instant :: "int \<Rightarrow> bool" where
  "valid_instant t \<longleftrightarrow> 0 \<le> t \<and> t < max_instant"

definition leap :: "int \<Rightarrow> bool" where
  "leap y \<longleftrightarrow> y mod 4 = 0 \<and> (y mod 100 \<noteq> 0 \<or> y mod 400 = 0)"

definition days_in_month :: "bool \<Rightarrow> int \<Rightarrow> int" where
  "days_in_month lp m = (if m = 2 then (if lp then 29 else 28)
     else if m = 4 \<or> m = 6 \<or> m = 9 \<or> m = 11 then 30 else 31)"

definition days_before_month :: "bool \<Rightarrow> int \<Rightarrow> int" where
  "days_before_month lp m = (if m \<le> 1 then 0 else if m = 2 then 31
     else (if lp then 1 else 0) +
       (if m = 3 then 59 else if m = 4 then 90 else if m = 5 then 120 else if m = 6 then 151
        else if m = 7 then 181 else if m = 8 then 212 else if m = 9 then 243
        else if m = 10 then 273 else if m = 11 then 304 else 334))"

definition month_of_yday :: "bool \<Rightarrow> int \<Rightarrow> int" where
  "month_of_yday lp n = (let k = (if lp then 1 else 0) in
     if n < 31 then 1 else if n < 59 + k then 2 else if n < 90 + k then 3
     else if n < 120 + k then 4 else if n < 151 + k then 5 else if n < 181 + k then 6
     else if n < 212 + k then 7 else if n < 243 + k then 8 else if n < 273 + k then 9
     else if n < 304 + k then 10 else if n < 334 + k then 11 else 12)"

definition ymd2ord :: "int \<Rightarrow> int \<Rightarrow> int \<Rightarrow> int" where
  "ymd2ord y m d = (y - 1) * 365 + (y - 1) div 4 - (y - 1) div 100 + (y - 1) div 400
     + days_before_month (leap y) m + d"

definition ord2ymd :: "int \<Rightarrow> int \<times> int \<times> int" where
  "ord2ymd ord =
     (let n = ord - 1;
          a = n div 146097; r1 = n mod 146097;
          b = r1 div 36524; r2 = r1 mod 36524;
          c = r2 div 1461;  r3 = r2 mod 1461;
          e = r3 div 365;   r4 = r3 mod 365;
          y = 400 * a + 100 * b + 4 * c + e + 1
      in if e = 4 \<or> b = 4 then (y - 1, 12, 31)
         else let lp = leap y; m = month_of_yday lp r4 in (y, m, r4 - days_before_month lp m + 1))"

lemma month_tables:
  "days_before_month lp 1 = 0" "days_before_month lp 2 = 31"
  "days_before_month lp 3 = (if lp then 60 else 59)" "days_before_month lp 4 = (if lp then 91 else 90)"
  "days_before_month lp 5 = (if lp then 121 else 120)" "days_before_month lp 6 = (if lp then 152 else 151)"
  "days_before_month lp 7 = (if lp then 182 else 181)" "days_before_month lp 8 = (if lp then 213 else 212)"
  "days_before_month lp 9 = (if lp then 244 else 243)" "days_before_month lp 10 = (if lp then 274 else 273)"
  "days_before_month lp 11 = (if lp then 305 else 304)" "days_before_month lp 12 = (if lp then 335 else 334)"
  "days_in_month lp 1 = 31" "days_in_month lp 2 = (if lp then 29 else 28)" "days_in_month lp 3 = 31"
  "days_in_month lp 4 = 30" "days_in_month lp 5 = 31" "days_in_month lp 6 = 30"
  "days_in_month lp 7 = 31" "days_in_month lp 8 = 31" "days_in_month lp 9 = 30"
  "days_in_month lp 10 = 31" "days_in_month lp 11 = 30" "days_in_month lp 12 = 31"
  by (simp_all add: days_before_month_def days_in_month_def)

lemma month_of_yday_bounds:
  assumes "0 \<le> n" and "n < (if lp then 366 else 365)"
  shows "1 \<le> month_of_yday lp n" and "month_of_yday lp n \<le> 12"
    and "days_before_month lp (month_of_yday lp n) \<le> n"
    and "n < days_before_month lp (month_of_yday lp n) + days_in_month lp (month_of_yday lp n)"
proof -
  show "1 \<le> month_of_yday lp n" and "month_of_yday lp n \<le> 12"
    by (simp_all add: month_of_yday_def Let_def)
  show "days_before_month lp (month_of_yday lp n) \<le> n"
    using assms by (cases lp) (simp_all add: month_of_yday_def Let_def month_tables)
  show "n < days_before_month lp (month_of_yday lp n) + days_in_month lp (month_of_yday lp n)"
    using assms by (cases lp) (simp_all add: month_of_yday_def Let_def month_tables)
qed

lemma year_blocks:
  fixes a b c e :: int
  assumes "0 \<le> b" "b \<le> 3" "0 \<le> c" "c \<le> 24" "0 \<le> e" "e \<le> 3"
  shows "(400 * a + 100 * b + 4 * c + e) div 4 = 100 * a + 25 * b + c"
    and "(400 * a + 100 * b + 4 * c + e) div 100 = 4 * a + b"
    and "(400 * a + 100 * b + 4 * c + e) div 400 = a"
    and "(400 * a + 100 * b + 4 * c + e) mod 4 = e"
    and "(400 * a + 100 * b + 4 * c + e) mod 100 = 4 * c + e"
    and "(400 * a + 100 * b + 4 * c + e) mod 400 = 100 * b + 4 * c + e"
proof -
  let ?x = "400 * a + 100 * b + 4 * c + e"
  have h: "?x = 4 * (100 * a + 25 * b + c) + e" "?x = 100 * (4 * a + b) + (4 * c + e)"
    "?x = 400 * a + (100 * b + 4 * c + e)"
    by simp_all
  show "?x div 4 = 100 * a + 25 * b + c" "?x mod 4 = e"
    using int_div_pos_eq [OF h(1)] int_mod_pos_eq [OF h(1)] assms by simp_all
  show "?x div 100 = 4 * a + b" "?x mod 100 = 4 * c + e"
    using int_div_pos_eq [OF h(2)] int_mod_pos_eq [OF h(2)] assms by simp_all
  show "?x div 400 = a" "?x mod 400 = 100 * b + 4 * c + e"
    using int_div_pos_eq [OF h(3)] int_mod_pos_eq [OF h(3)] assms by simp_all
qed

lemma ord2ymd_spec:
  assumes "0 \<le> n" and "ord2ymd (n + 1) = (y, m, d)"
  shows "ymd2ord y m d = n + 1 \<and> 1 \<le> y \<and> 1 \<le> m \<and> m \<le> 12 \<and> 1 \<le> d \<and> d \<le> days_in_month (leap y) m"
proof -
  define a where "a = n div 146097"
  define r1 where "r1 = n mod 146097"
  define b where "b = r1 div 36524"
  define r2 where "r2 = r1 mod 36524"
  define c where "c = r2 div 1461"
  define r3 where "r3 = r2 mod 1461"
  define e where "e = r3 div 365"
  define r4 where "r4 = r3 mod 365"
  define y0 where "y0 = 400 * a + 100 * b + 4 * c + e"
  have n: "n = 146097 * a + r1" "r1 = 36524 * b + r2" "r2 = 1461 * c + r3" "r3 = 365 * e + r4"
    by (simp_all add: a_def r1_def b_def r2_def c_def r3_def e_def r4_def)
  have r: "0 \<le> r1" "r1 < 146097" "0 \<le> r2" "r2 < 36524" "0 \<le> r3" "r3 < 1461" "0 \<le> r4" "r4 < 365"
    by (simp_all add: r1_def r2_def r3_def r4_def)
  have "0 \<le> a" using assms(1) by (simp add: a_def pos_imp_zdiv_nonneg_iff)
  moreover have "0 \<le> b" using r(1) by (simp add: b_def pos_imp_zdiv_nonneg_iff)
  moreover have "0 \<le> c" using r(3) by (simp add: c_def pos_imp_zdiv_nonneg_iff)
  moreover have "0 \<le> e" using r(5) by (simp add: e_def pos_imp_zdiv_nonneg_iff)
  moreover have "b \<le> 4" using n(2) r(2,3) by linarith
  moreover have "c \<le> 24" using n(3) r(4,5) by linarith
  moreover have "e \<le> 4" using n(4) r(6,7) by linarith
  ultimately have q: "0 \<le> a" "0 \<le> b" "b \<le> 4" "0 \<le> c" "c \<le> 24" "0 \<le> e" "e \<le> 4"
    by simp_all
  have ymd: "(y, m, d) = (if e = 4 \<or> b = 4 then (y0, 12, 31)
      else (y0 + 1, month_of_yday (leap (y0 + 1)) r4,
            r4 - days_before_month (leap (y0 + 1)) (month_of_yday (leap (y0 + 1)) r4) + 1))"
    unfolding assms(2) [symmetric] ord2ymd_def Let_def add_diff_cancel_right' r1_def [symmetric]
      a_def [symmetric] b_def [symmetric] r2_def [symmetric] c_def [symmetric] r3_def [symmetric]
      e_def [symmetric] r4_def [symmetric] y0_def [symmetric] diff_add_cancel
    by (rule refl)
  show ?thesis
  proof (cases "e = 4 \<or> b = 4")
    case True
    then have ymd': "y = y0" "m = 12" "d = 31" using ymd by auto
    show ?thesis
    proof (cases "b = 4")
      case True
      then have h: "c = 0" "e = 0" "r4 = 0" using r n q by auto
      have y: "y0 - 1 = 400 * a + 100 * 3 + 4 * 24 + 3" and y': "y0 = 400 * (a + 1)"
        using True h by (simp_all add: y0_def)
      have dv: "(y0 - 1) div 4 = 100 * a + 99" "(y0 - 1) div 100 = 4 * a + 3" "(y0 - 1) div 400 = a"
        unfolding y using year_blocks(1-3) [of 3 24 3 a] by simp_all
      have lp: "leap y0" unfolding leap_def y' using year_blocks(4,6) [of 0 0 0 "a + 1"] by simp
      have "ymd2ord y0 12 31 = (y0 - 1) * 365 + (100 * a + 99) - (4 * a + 3) + a + 366"
        by (simp add: ymd2ord_def dv lp month_tables)
      moreover have "n + 1 = (y0 - 1) * 365 + (100 * a + 99) - (4 * a + 3) + a + 366"
        unfolding y using n True h by simp
      ultimately show ?thesis using ymd' q y' lp by (simp add: month_tables)
    next
      case False
      then have h: "e = 4" "b \<le> 3" "r4 = 0" "c \<le> 23" using True r n q by auto
      have y: "y0 - 1 = 400 * a + 100 * b + 4 * c + 3"
        and y': "y0 = 400 * a + 100 * b + 4 * (c + 1) + 0" using h by (simp_all add: y0_def)
      have dv: "(y0 - 1) div 4 = 100 * a + 25 * b + c" "(y0 - 1) div 100 = 4 * a + b"
        "(y0 - 1) div 400 = a"
        unfolding y using year_blocks(1-3) [OF q(2) h(2) q(4,5), of 3 a] by simp_all
      have lp: "leap y0"
        unfolding leap_def y' using year_blocks(4,5) [of b "c + 1" 0 a] h q by simp
      have "ymd2ord y0 12 31
          = (y0 - 1) * 365 + (100 * a + 25 * b + c) - (4 * a + b) + a + 366"
        by (simp add: ymd2ord_def dv lp month_tables)
      moreover have "n + 1 = (y0 - 1) * 365 + (100 * a + 25 * b + c) - (4 * a + b) + a + 366"
        unfolding y using n h by simp
      ultimately show ?thesis using ymd' q y' h lp by (simp add: month_tables)
    qed
  next
    case False
    with q have le: "b \<le> 3" "e \<le> 3" by auto
    have dv: "y0 div 4 = 100 * a + 25 * b + c" "y0 div 100 = 4 * a + b" "y0 div 400 = a"
      unfolding y0_def using year_blocks(1-3) [OF q(2) le(1) q(4-6) le(2), of a] by simp_all
    have "0 \<le> r4 \<and> r4 < (if leap (y0 + 1) then 366 else 365)" using r by auto
    note mb = month_of_yday_bounds [OF this [THEN conjunct1] this [THEN conjunct2]]
    have ymd': "y = y0 + 1" "m = month_of_yday (leap y) r4" "d = r4 - days_before_month (leap y) m + 1"
      using ymd False by simp_all
    have "ymd2ord y m d = y0 * 365 + (100 * a + 25 * b + c) - (4 * a + b) + a + r4 + 1"
      by (simp add: ymd2ord_def ymd'(1,3) dv)
    moreover have "n = y0 * 365 + (100 * a + 25 * b + c) - (4 * a + b) + a + r4"
      using n by (simp add: y0_def)
    moreover have "0 \<le> y0" using q by (simp add: y0_def)
    ultimately show ?thesis using mb ymd' by simp
  qed
qed

lemma ymd2ord_year_bound:
  assumes "ymd2ord y m d \<le> 3652059" and "1 \<le> m" "1 \<le> d" "1 \<le> y"
  shows "y \<le> 9999"
proof (rule ccontr)
  have aux: "3652059 \<le> x * 365 + p - q + s"
    if "2499 \<le> p" "24 \<le> s" "q \<le> 99 + (x - 9999)" "9999 \<le> x" for p s q x :: int
    using that by linarith
  assume "\<not> y \<le> 9999"
  then have y: "9999 \<le> y - 1" by simp
  have "2499 \<le> (y - 1) div 4" and "24 \<le> (y - 1) div 400" and q: "99 \<le> (y - 1) div 100"
    using zdiv_mono1 [OF y, of 4] zdiv_mono1 [OF y, of 400] zdiv_mono1 [OF y, of 100] by simp_all
  moreover have "(y - 1) div 100 \<le> 99 + (y - 1 - 9999)"
  proof (cases "(y - 1) div 100 = 99")
    case True
    with y show ?thesis by simp
  next
    case False
    with q have "100 \<le> (y - 1) div 100" by simp
    moreover have "100 * ((y - 1) div 100) \<le> y - 1" by simp
    ultimately show ?thesis by linarith
  qed
  ultimately have "3652059 \<le> (y - 1) * 365 + (y - 1) div 4 - (y - 1) div 100 + (y - 1) div 400"
    using y aux [of "(y - 1) div 4" "(y - 1) div 400" "(y - 1) div 100" "y - 1"] by blast
  moreover have "0 \<le> days_before_month (leap y) m"
    by (simp add: days_before_month_def)
  ultimately show False using assms by (simp add: ymd2ord_def)
qed

section \<open>Writing an instant\<close>

definition dig :: "int \<Rightarrow> char" where
  "dig n = char_of (48 + nat (n mod 10))"

fun num :: "nat \<Rightarrow> int \<Rightarrow> string" where
  "num 0 n = []"
| "num (Suc k) n = num k (n div 10) @ [dig n]"

definition date_text :: "int \<Rightarrow> string" where
  \<comment> \<open>\<open>dt.date().isoformat()\<close>\<close>
  "date_text t = (case ord2ymd (t div usec_per_day + 1) of
     (y, m, d) \<Rightarrow> num 4 y @ ''-'' @ num 2 m @ ''-'' @ num 2 d)"

definition isoformat :: "int \<Rightarrow> string" where
  \<comment> \<open>\<open>dt.isoformat()\<close> of an aware UTC datetime\<close>
  "isoformat t =
     (let r = t mod usec_per_day; us = r mod usec_per_sec in
      date_text t @ ''T'' @ num 2 (r div usec_per_hour) @ '':'' @
      num 2 (r div usec_per_min mod 60) @ '':'' @ num 2 (r div usec_per_sec mod 60) @
      (if us = 0 then [] else ''.'' @ num 6 us) @ ''+00:00'')"

section \<open>Reading ISO text\<close>

text \<open>Parsers return the value read and the rest of the text; \<open>None\<close> is \<open>ValueError\<close>.\<close>

fun p_num :: "nat \<Rightarrow> int \<Rightarrow> string \<Rightarrow> (int \<times> string) option" where
  "p_num 0 acc s = Some (acc, s)"
| "p_num (Suc k) acc [] = None"
| "p_num (Suc k) acc (c # cs) =
     (case digit_of c of None \<Rightarrow> None | Some v \<Rightarrow> p_num k (10 * acc + v) cs)"

fun p_lit :: "char \<Rightarrow> string \<Rightarrow> string option" where
  "p_lit c [] = None"
| "p_lit c (x # xs) = (if x = c then Some xs else None)"

text \<open>Seconds with an optional fraction: any number of digits, cut at microseconds.\<close>

definition is_digit :: "char \<Rightarrow> bool" where
  "is_digit c \<longleftrightarrow> digit_of c \<noteq> None"

definition p_frac :: "string \<Rightarrow> (int \<times> string) option" where
  "p_frac s = (case s of [] \<Rightarrow> Some (0, [])
     | c # cs \<Rightarrow>
         if c = CHR ''.'' \<or> c = CHR '','' then
           (let ds = takeWhile is_digit cs; rest = dropWhile is_digit cs in
            if ds = [] then None
            else map_option (\<lambda>(v, _). (v, rest)) (p_num 6 0 (take 6 (ds @ replicate 6 (CHR ''0'')))))
         else Some (0, s))"

definition p_clock :: "string \<Rightarrow> (int \<times> string) option" where
  \<comment> \<open>\<open>HH[:MM[:SS[.f]]]\<close>, as microseconds of the day\<close>
  "p_clock s = do {
     (h, s1) \<leftarrow> p_num 2 0 s;
     (case p_lit CHR '':'' s1 of
        None \<Rightarrow> Some (h * usec_per_hour, s1)
      | Some s2 \<Rightarrow> do {
          (mi, s3) \<leftarrow> p_num 2 0 s2;
          if mi > 59 then None else
          (case p_lit CHR '':'' s3 of
             None \<Rightarrow> Some (h * usec_per_hour + mi * usec_per_min, s3)
           | Some s4 \<Rightarrow> do {
               (se, s5) \<leftarrow> p_num 2 0 s4;
               (us, s6) \<leftarrow> p_frac s5;
               if se > 59 then None
               else Some (h * usec_per_hour + mi * usec_per_min + se * usec_per_sec + us, s6) })
        })
   }"

definition p_zone :: "string \<Rightarrow> int option option" where
  \<comment> \<open>the end of the text, \<open>Z\<close>, or a signed offset: \<open>Some None\<close> is a naive datetime\<close>
  "p_zone s = (case s of [] \<Rightarrow> Some None
     | c # cs \<Rightarrow>
         if c = CHR ''Z'' then (if cs = [] then Some (Some 0) else None)
         else if c = CHR ''+'' \<or> c = CHR ''-'' then
           (case p_clock cs of
              Some (v, []) \<Rightarrow>
                (if v < usec_per_day then Some (Some (if c = CHR ''-'' then - v else v)) else None)
            | _ \<Rightarrow> None)
         else None)"

definition p_date :: "string \<Rightarrow> (int \<times> string) option" where
  \<comment> \<open>\<open>YYYY-MM-DD\<close>, as days since 0001-01-01\<close>
  "p_date s = do {
     (y, s1) \<leftarrow> p_num 4 0 s;
     s2 \<leftarrow> p_lit CHR ''-'' s1;
     (m, s3) \<leftarrow> p_num 2 0 s2;
     s4 \<leftarrow> p_lit CHR ''-'' s3;
     (d, s5) \<leftarrow> p_num 2 0 s4;
     if 1 \<le> y \<and> 1 \<le> m \<and> m \<le> 12 \<and> 1 \<le> d \<and> d \<le> days_in_month (leap y) m
     then Some (ymd2ord y m d - 1, s5) else None
   }"

definition fromisoformat :: "string \<Rightarrow> (int \<times> int option) option" where
  \<comment> \<open>the local reading in microseconds, and the UTC offset unless naive\<close>
  "fromisoformat s = do {
     (days, s1) \<leftarrow> p_date s;
     (case s1 of
        [] \<Rightarrow> Some (days * usec_per_day, None)
      | _ # s2 \<Rightarrow> do {
          (us, s3) \<leftarrow> p_clock s2;
          off \<leftarrow> p_zone s3;
          if us < usec_per_day then Some (days * usec_per_day + us, off) else None })
   }"

definition to_utc :: "int \<times> int option \<Rightarrow> int" where
  \<comment> \<open>naive datetimes are taken as UTC, aware ones are converted\<close>
  "to_utc p = (case p of (t, off) \<Rightarrow> t - (case off of None \<Rightarrow> 0 | Some k \<Rightarrow> k))"

text \<open>\<open>fluxion.scheduler.models.parse_iso\<close>.\<close>

definition parse_iso :: "string option \<Rightarrow> int option" where
  "parse_iso v = (case v of None \<Rightarrow> None
     | Some s \<Rightarrow> (if s = [] then None
         else map_option to_utc (fromisoformat (replace_char CHR ''Z'' ''+00:00'' s))))"

section \<open>Reading back what was written\<close>

lemma digit_of_dig [simp]: "digit_of (dig n) = Some (n mod 10)"
proof -
  have "nat (n mod 10) < 10" by simp
  moreover have "int (nat (n mod 10)) = n mod 10" by simp
  ultimately show ?thesis by (simp add: digit_of_def dig_def Let_def)
qed

lemma p_num_append:
  "p_num (j + k) acc s = Option.bind (p_num j acc s) (\<lambda>(a, r). p_num k a r)"
  by (induction j acc s rule: p_num.induct) (auto split: option.splits)

lemma p_num_num [simp]:
  assumes "0 \<le> n" and "n < 10 ^ k"
  shows "p_num k acc (num k n @ s) = Some (acc * 10 ^ k + n, s)"
  using assms
proof (induction k arbitrary: acc n s)
  case 0
  then show ?case by simp
next
  case (Suc k)
  have "0 \<le> n div 10" and "n div 10 < 10 ^ k" using Suc.prems by auto
  then have "p_num k acc (num k (n div 10) @ dig n # s)
      = Some (acc * 10 ^ k + n div 10, dig n # s)"
    by (rule Suc.IH)
  then show ?case
    using p_num_append [of k 1 acc "num k (n div 10) @ dig n # s"] by simp
qed

lemma length_num [simp]: "length (num k n) = k"
  by (induction k arbitrary: n) auto

lemma set_num_digits: "c \<in> set (num k n) \<Longrightarrow> is_digit c"
  by (induction k arbitrary: n) (auto simp: is_digit_def)

lemma not_digit [simp]:
  "\<not> is_digit CHR ''+''" "\<not> is_digit CHR ''Z''" "\<not> is_digit CHR ''-''" "\<not> is_digit CHR '':''"
  by (simp_all add: is_digit_def digit_of_def code_def)

lemma p_frac_num [simp]:
  assumes "0 \<le> n" and "n < 1000000"
  shows "p_frac (CHR ''.'' # num 6 n @ CHR ''+'' # s) = Some (n, CHR ''+'' # s)"
proof -
  have tw: "takeWhile is_digit (num 6 n @ CHR ''+'' # s) = num 6 n"
    using set_num_digits [of _ 6 n] by (simp add: takeWhile_append2)
  have dw: "dropWhile is_digit (num 6 n @ CHR ''+'' # s) = CHR ''+'' # s"
    using set_num_digits [of _ 6 n] by (simp add: dropWhile_append2)
  have ne: "num 6 n \<noteq> []" using length_num [of 6 n] by (metis list.size(3) zero_neq_numeral)
  have "p_num 6 0 (num 6 n @ []) = Some (0 * 10 ^ 6 + n, [])"
    by (rule p_num_num) (use assms in simp_all)
  then show ?thesis by (simp add: p_frac_def tw dw ne Let_def)
qed

lemma p_frac_plus [simp]: "p_frac (CHR ''+'' # s) = Some (0, CHR ''+'' # s)"
  by (simp add: p_frac_def)

lemma p_zone_utc [simp]: "p_zone ''+00:00'' = Some (Some 0)"
  by (simp add: p_zone_def p_clock_def digit_of_def code_def Let_def numeral_2_eq_2 usec_defs)

lemma p_date_text:
  assumes "valid_instant t"
  shows "p_date (date_text t @ s) = Some (t div usec_per_day, s)"
proof -
  obtain y m d where ymd: "ord2ymd (t div usec_per_day + 1) = (y, m, d)"
    by (cases "ord2ymd (t div usec_per_day + 1)")
  have n: "0 \<le> t div usec_per_day" "t div usec_per_day + 1 \<le> 3652059"
    using assms by (auto simp: valid_instant_def usec_defs pos_imp_zdiv_nonneg_iff)
  note sp = ord2ymd_spec [OF n(1) ymd]
  have y: "y \<le> 9999" using sp n(2) by (intro ymd2ord_year_bound [of y m d]) auto
  have d: "d \<le> 31" using sp by (auto simp: days_in_month_def split: if_splits)
  have "p_num 4 0 (num 4 y @ r) = Some (y, r)" "p_num 2 0 (num 2 m @ r) = Some (m, r)"
    "p_num 2 0 (num 2 d @ r) = Some (d, r)" for r
    using sp y d p_num_num [of y 4 0 r] p_num_num [of m 2 0 r] p_num_num [of d 2 0 r] by simp_all
  then show ?thesis using sp by (simp add: p_date_def date_text_def ymd)
qed

lemma clock_parts:
  assumes "0 \<le> r" and "r < usec_per_day"
  shows "r div usec_per_hour * usec_per_hour + r div usec_per_min mod 60 * usec_per_min
      + r div usec_per_sec mod 60 * usec_per_sec + r mod usec_per_sec = r"
    and "0 \<le> r div usec_per_hour" "r div usec_per_hour \<le> 23"
proof -
  define a where "a = r div usec_per_sec"
  have a: "r = usec_per_sec * a + r mod usec_per_sec" by (simp add: a_def)
  have m: "r div usec_per_min = a div 60" "r div usec_per_hour = a div 60 div 60"
    by (simp_all add: a_def usec_defs zdiv_zmult2_eq [symmetric])
  have "a = 60 * (a div 60) + a mod 60" "a div 60 = 60 * (a div 60 div 60) + a div 60 mod 60"
    by simp_all
  then have "a = 3600 * (a div 60 div 60) + 60 * (a div 60 mod 60) + a mod 60" by linarith
  then show "r div usec_per_hour * usec_per_hour + r div usec_per_min mod 60 * usec_per_min
      + r div usec_per_sec mod 60 * usec_per_sec + r mod usec_per_sec = r"
    unfolding m a_def [symmetric] using a by (simp add: usec_defs)
  show "0 \<le> r div usec_per_hour" "r div usec_per_hour \<le> 23"
    using assms by (auto simp: usec_defs pos_imp_zdiv_nonneg_iff)
qed

lemma p_clock_isoformat:
  assumes "0 \<le> r" and "r < usec_per_day"
  shows "p_clock (num 2 (r div usec_per_hour) @ CHR '':'' # num 2 (r div usec_per_min mod 60)
      @ CHR '':'' # num 2 (r div usec_per_sec mod 60)
      @ (if r mod usec_per_sec = 0 then [] else CHR ''.'' # num 6 (r mod usec_per_sec)) @ ''+00:00'')
    = Some (r, ''+00:00'')"
proof -
  note cp = clock_parts [OF assms]
  have p2: "p_num 2 0 (num 2 k @ s) = Some (k, s)" if "0 \<le> k" "k \<le> 59" for k s
    using p_num_num [of k 2 0 s] that by simp
  have us: "0 \<le> r mod usec_per_sec" "r mod usec_per_sec < 1000000"
    by (simp_all add: usec_defs)
  have b: "0 \<le> r div usec_per_min mod 60" "r div usec_per_min mod 60 \<le> 59"
    "0 \<le> r div usec_per_sec mod 60" "r div usec_per_sec mod 60 \<le> 59"
    by (simp_all add: pos_mod_bound [of 60, simplified] zless_imp_add1_zle)
  show ?thesis
    using cp us b by (auto simp: p_clock_def p2)
qed

lemma num_no_Z [simp]: "CHR ''Z'' \<notin> set (num k n)"
  using set_num_digits [of "CHR ''Z''" k n] by auto

lemma date_text_no_Z [simp]: "CHR ''Z'' \<notin> set (date_text t)"
  by (simp add: date_text_def split: prod.splits)

lemma isoformat_no_Z: "CHR ''Z'' \<notin> set (isoformat t)"
  by (simp add: isoformat_def Let_def)

lemma fromisoformat_isoformat:
  assumes "valid_instant t"
  shows "fromisoformat (isoformat t) = Some (t, Some 0)"
proof -
  have r: "0 \<le> t mod usec_per_day" "t mod usec_per_day < usec_per_day"
    by (simp_all add: usec_defs)
  have m: "t mod usec_per_day mod usec_per_sec = t mod usec_per_day mod usec_per_sec" ..
  have "isoformat t = date_text t @ CHR ''T'' #
     (num 2 (t mod usec_per_day div usec_per_hour) @ CHR '':'' #
      num 2 (t mod usec_per_day div usec_per_min mod 60)
      @ CHR '':'' # num 2 (t mod usec_per_day div usec_per_sec mod 60)
      @ (if t mod usec_per_day mod usec_per_sec = 0 then []
         else CHR ''.'' # num 6 (t mod usec_per_day mod usec_per_sec)) @ ''+00:00'')"
    by (simp add: isoformat_def Let_def)
  then show ?thesis
    using p_clock_isoformat [OF r] r
    by (simp add: fromisoformat_def p_date_text [OF assms])
qed

lemma isoformat_nonempty [simp]: "isoformat t \<noteq> []"
  by (simp add: isoformat_def Let_def)

lemma parse_iso_isoformat:
  "valid_instant t \<Longrightarrow> parse_iso (Some (isoformat t)) = Some t"
  by (simp add: parse_iso_def isoformat_no_Z replace_char_absent fromisoformat_isoformat to_utc_def)

lemma parse_iso_None [simp]: "parse_iso None = None" "parse_iso (Some []) = None"
  by (simp_all add: parse_iso_def)

section \<open>The timestamp interface\<close>

text \<open>
  What a module that stores timestamps relies on: the text it writes for an instant is not empty
  and reads back as that instant. Deadlines and ages computed from stored text are then those
  of the instants themselves.
\<close>

locale time_codec =
  fixes render :: "int \<Rightarrow> string"
    and parse :: "string \<Rightarrow> int option"
    and valid :: "int \<Rightarrow> bool"
  assumes parse_render: "valid t \<Longrightarrow> parse (render t) = Some t"
    and render_nonempty: "render t \<noteq> []"
begin

lemma render_inject: "valid t \<Longrightarrow> valid u \<Longrightarrow> render t = render u \<longleftrightarrow> t = u"
  by (metis parse_render option.inject)

lemma deadline_passed:
  "valid e \<Longrightarrow> (case parse (render e) of None \<Rightarrow> False | Some x \<Rightarrow> x \<le> now) \<longleftrightarrow> e \<le> now"
  by (simp add: parse_render)

lemma within_age:
  "valid t \<Longrightarrow> (case parse (render t) of None \<Rightarrow> False | Some x \<Rightarrow> now - x < d) \<longleftrightarrow> now - t < d"
  by (simp add: parse_render)

end

interpretation iso: time_codec isoformat "\<lambda>s. parse_iso (Some s)" valid_instant
  by unfold_locales (simp_all add: parse_iso_isoformat)

definition iso_char :: "char \<Rightarrow> bool" where
  "iso_char c \<longleftrightarrow> is_digit c \<or> c \<in> set ''-:T.+''"

lemma iso_char_no_space: "iso_char c \<Longrightarrow> \<not> is_space c"
  by (auto simp: iso_char_def is_digit_def digit_of_def is_space_def code_def Let_def split: if_splits)

lemma iso_char_literals [simp]:
  "iso_char CHR ''-''" "iso_char CHR '':''" "iso_char CHR ''T''" "iso_char CHR ''.''"
  "iso_char CHR ''+''" "iso_char CHR ''0''"
  by (simp_all add: iso_char_def is_digit_def digit_of_def code_def)

lemma iso_char_num [simp]: "list_all iso_char (num k n)"
  using set_num_digits [of _ k n] by (auto simp: list_all_iff iso_char_def)

lemma iso_char_date_text [simp]: "list_all iso_char (date_text t)"
  by (simp add: date_text_def split: prod.splits)

lemma iso_char_isoformat: "list_all iso_char (isoformat t)"
  by (simp add: isoformat_def Let_def)

lemma isoformat_no_space: "c \<in> set (isoformat t) \<Longrightarrow> \<not> is_space c"
  using iso_char_isoformat [of t] iso_char_no_space by (auto simp: list_all_iff)

lemma strip_no_space:
  assumes "\<And>c. c \<in> set s \<Longrightarrow> \<not> is_space c"
  shows "strip s = s"
proof -
  have "lstrip xs = xs" if "set xs \<subseteq> set s" for xs
    using assms that by (cases xs) (auto simp: lstrip_def)
  then show ?thesis by (simp add: strip_def)
qed

lemma strip_isoformat [simp]: "strip (isoformat t) = isoformat t"
  by (rule strip_no_space) (rule isoformat_no_space)

lemma length_isoformat: "length (isoformat t) \<le> 32"
  by (simp add: isoformat_def date_text_def Let_def split: prod.splits)

end
