(* ===== verification/SchedModels.thy ===== *)
theory SchedModels
  imports IsoTime
begin

text \<open>
  The schedule rules of \<open>scheduler/models.py\<close>: trigger, action, policy and rule, how each is read
  from a JSON object and written back. Reading may raise: \<open>AttributeError\<close> where a nested
  object is not a dict (it has no \<open>get\<close>), \<open>KeyError\<close> for a missing id, and what \<open>int()\<close> raises.
\<close>

record trigger =
  t_type :: string
  t_cron :: string
  t_timezone :: string
  t_provider :: string
  t_window_key :: string

record action =
  a_type :: string
  a_agent :: string
  a_prompt :: string
  a_project :: "string option"
  a_workspace :: string
  a_profile :: string
  a_mode :: string
  a_thread :: string
  a_task_name :: "string option"

record policy =
  cooldown_sec :: int
  catch_up :: string
  max_runs_per_day :: int
  jitter_sec :: int

record rule =
  r_id :: string
  r_name :: string
  r_enabled :: bool
  r_trigger :: trigger
  r_action :: action
  r_policy :: policy
  r_managed_by :: "string option"
  r_run_now :: bool
  r_created_at :: string
  r_updated_at :: string

definition opt_json :: "string option \<Rightarrow> json" where
  "opt_json v = (case v of None \<Rightarrow> JNull | Some s \<Rightarrow> JStr s)"

fun as_dict :: "json \<Rightarrow> py_exc + dict" where
  \<comment> \<open>the implicit check of \<open>raw.get\<close>\<close>
  "as_dict (JDict d) = Inr d"
| "as_dict _ = Inl AttributeError"

text \<open>\<open>str(raw.get(key, default)).strip()\<close> and its variant \<open>... or default\<close>.\<close>

definition get_text :: "(json \<Rightarrow> string) \<Rightarrow> dict \<Rightarrow> string \<Rightarrow> string \<Rightarrow> string" where
  "get_text rp d k v0 = strip (py_str rp (dget_or d k (JStr v0)))"

definition get_text_or :: "(json \<Rightarrow> string) \<Rightarrow> dict \<Rightarrow> string \<Rightarrow> string \<Rightarrow> string" where
  "get_text_or rp d k v0 = str_or (get_text rp d k v0) v0"

definition get_opt_text :: "(json \<Rightarrow> string) \<Rightarrow> dict \<Rightarrow> string \<Rightarrow> string option" where
  "get_opt_text rp d k = (if truthy (dget d k) then Some (strip (py_str rp (dget d k))) else None)"

definition trigger_from_dict :: "(json \<Rightarrow> string) \<Rightarrow> json \<Rightarrow> py_exc + trigger" where
  "trigger_from_dict rp raw = (case as_dict raw of Inl e \<Rightarrow> Inl e | Inr d \<Rightarrow>
     Inr \<lparr> t_type = get_text rp d ''type'' [], t_cron = get_text rp d ''cron'' [],
           t_timezone = get_text_or rp d ''timezone'' ''UTC'',
           t_provider = get_text rp d ''provider'' [], t_window_key = get_text rp d ''window_key'' [] \<rparr>)"

definition trigger_to_dict :: "trigger \<Rightarrow> json" where
  "trigger_to_dict t = JDict
     [(''type'', JStr (t_type t)), (''cron'', JStr (t_cron t)), (''timezone'', JStr (t_timezone t)),
      (''provider'', JStr (t_provider t)), (''window_key'', JStr (t_window_key t))]"

definition action_from_dict :: "(json \<Rightarrow> string) \<Rightarrow> json \<Rightarrow> py_exc + action" where
  "action_from_dict rp raw = (case as_dict raw of Inl e \<Rightarrow> Inl e | Inr d \<Rightarrow>
     Inr \<lparr> a_type = get_text_or rp d ''type'' ''subagent'', a_agent = get_text_or rp d ''agent'' ''auto'',
           a_prompt = py_str rp (dget_or d ''prompt'' (JStr [])),
           a_project = get_opt_text rp d ''project'',
           a_workspace = get_text_or rp d ''workspace'' ''.'',
           a_profile = get_text_or rp d ''profile'' ''inspect'',
           a_mode = get_text_or rp d ''mode'' ''read-only'',
           a_thread = get_text_or rp d ''thread'' ''scheduler'',
           a_task_name = get_opt_text rp d ''task_name'' \<rparr>)"

definition action_to_dict :: "action \<Rightarrow> json" where
  "action_to_dict a = JDict
     [(''type'', JStr (a_type a)), (''agent'', JStr (a_agent a)), (''prompt'', JStr (a_prompt a)),
      (''project'', opt_json (a_project a)), (''workspace'', JStr (a_workspace a)),
      (''profile'', JStr (a_profile a)), (''mode'', JStr (a_mode a)), (''thread'', JStr (a_thread a)),
      (''task_name'', opt_json (a_task_name a))]"

definition catch_up_modes :: "string list" where
  "catch_up_modes = [''skip'', ''run_once'']"

definition get_int :: "dict \<Rightarrow> string \<Rightarrow> int \<Rightarrow> int \<Rightarrow> py_exc + int" where
  \<comment> \<open>\<open>int(raw.get(key, default) or fallback)\<close>\<close>
  "get_int d k v0 fb = py_to_int (py_or (dget_or d k (JInt v0)) (JInt fb))"

definition policy_from_dict :: "(json \<Rightarrow> string) \<Rightarrow> json \<Rightarrow> py_exc + policy" where
  "policy_from_dict rp raw = (case as_dict raw of Inl e \<Rightarrow> Inl e | Inr d \<Rightarrow>
     (let cu = get_text_or rp d ''catch_up'' ''skip'';
          cu' = (if cu \<in> set catch_up_modes then cu else ''skip'') in
      case get_int d ''cooldown_sec'' 3600 0 of Inl e \<Rightarrow> Inl e | Inr cd \<Rightarrow>
      (case get_int d ''max_runs_per_day'' 24 1 of Inl e \<Rightarrow> Inl e | Inr mr \<Rightarrow>
      (case get_int d ''jitter_sec'' 0 0 of Inl e \<Rightarrow> Inl e | Inr ji \<Rightarrow>
        Inr \<lparr> cooldown_sec = max 0 cd, catch_up = cu', max_runs_per_day = max 1 mr,
              jitter_sec = max 0 ji \<rparr>))))"

definition policy_to_dict :: "policy \<Rightarrow> json" where
  "policy_to_dict p = JDict
     [(''cooldown_sec'', JInt (cooldown_sec p)), (''catch_up'', JStr (catch_up p)),
      (''max_runs_per_day'', JInt (max_runs_per_day p)), (''jitter_sec'', JInt (jitter_sec p))]"

text \<open>\<open>now\<close> is the text of the clock, read when a timestamp is missing or empty.\<close>

definition rule_from_dict :: "(json \<Rightarrow> string) \<Rightarrow> string \<Rightarrow> dict \<Rightarrow> py_exc + rule" where
  "rule_from_dict rp now d = (case map_of d ''id'' of None \<Rightarrow> Inl KeyError | Some i \<Rightarrow>
     (case trigger_from_dict rp (dget_or d ''trigger'' (JDict [])) of Inl e \<Rightarrow> Inl e | Inr t \<Rightarrow>
     (case action_from_dict rp (dget_or d ''action'' (JDict [])) of Inl e \<Rightarrow> Inl e | Inr a \<Rightarrow>
     (case policy_from_dict rp (dget_or d ''policy'' (JDict [])) of Inl e \<Rightarrow> Inl e | Inr p \<Rightarrow>
       Inr \<lparr> r_id = py_str rp i, r_name = py_str rp (dget_or d ''name'' (JStr [])),
             r_enabled = truthy (dget_or d ''enabled'' (JBool True)),
             r_trigger = t, r_action = a, r_policy = p,
             r_managed_by = get_opt_text rp d ''managed_by'',
             r_run_now = truthy (dget_or d ''run_now'' (JBool False)),
             r_created_at = str_or (py_str rp (dget_or d ''created_at'' (JStr []))) now,
             r_updated_at = str_or (py_str rp (dget_or d ''updated_at'' (JStr []))) now \<rparr>))))"

definition rule_to_dict :: "rule \<Rightarrow> dict" where
  "rule_to_dict r =
     [(''id'', JStr (r_id r)), (''name'', JStr (r_name r)), (''enabled'', JBool (r_enabled r)),
      (''trigger'', trigger_to_dict (r_trigger r)), (''action'', action_to_dict (r_action r)),
      (''policy'', policy_to_dict (r_policy r)), (''managed_by'', opt_json (r_managed_by r)),
      (''run_now'', JBool (r_run_now r)), (''created_at'', JStr (r_created_at r)),
      (''updated_at'', JStr (r_updated_at r))]"

section \<open>Well-formed rules\<close>

text \<open>
  What the readers establish: text fields are stripped, fields with a default are not empty,
  optional texts are not empty unless blank was given, and the numbers are in range.
\<close>

definition clean :: "string \<Rightarrow> bool" where
  "clean s \<longleftrightarrow> strip s = s"

definition clean_ne :: "string \<Rightarrow> bool" where
  "clean_ne s \<longleftrightarrow> strip s = s \<and> s \<noteq> []"

definition clean_opt :: "string option \<Rightarrow> bool" where
  "clean_opt v \<longleftrightarrow> (case v of None \<Rightarrow> True | Some s \<Rightarrow> clean_ne s)"

definition trigger_wf :: "trigger \<Rightarrow> bool" where
  "trigger_wf t \<longleftrightarrow> clean (t_type t) \<and> clean (t_cron t) \<and> clean_ne (t_timezone t) \<and>
     clean (t_provider t) \<and> clean (t_window_key t)"

definition action_wf :: "action \<Rightarrow> bool" where
  "action_wf a \<longleftrightarrow> clean_ne (a_type a) \<and> clean_ne (a_agent a) \<and> clean_opt (a_project a) \<and>
     clean_ne (a_workspace a) \<and> clean_ne (a_profile a) \<and> clean_ne (a_mode a) \<and>
     clean_ne (a_thread a) \<and> clean_opt (a_task_name a)"

definition policy_wf :: "policy \<Rightarrow> bool" where
  "policy_wf p \<longleftrightarrow> 0 \<le> cooldown_sec p \<and> catch_up p \<in> set catch_up_modes \<and>
     1 \<le> max_runs_per_day p \<and> 0 \<le> jitter_sec p"

definition rule_wf :: "rule \<Rightarrow> bool" where
  "rule_wf r \<longleftrightarrow> trigger_wf (r_trigger r) \<and> action_wf (r_action r) \<and> policy_wf (r_policy r) \<and>
     clean_opt (r_managed_by r) \<and> r_created_at r \<noteq> [] \<and> r_updated_at r \<noteq> []"

lemmas wf_defs = clean_def clean_ne_def clean_opt_def trigger_wf_def action_wf_def policy_wf_def rule_wf_def

lemma get_opt_text_opt_json [simp]:
  "clean_opt v \<Longrightarrow> dget d k = opt_json v \<Longrightarrow> get_opt_text rp d k = v"
  by (cases v) (auto simp: get_opt_text_def opt_json_def clean_opt_def clean_ne_def)

lemma trigger_roundtrip: "trigger_wf t \<Longrightarrow> trigger_from_dict rp (trigger_to_dict t) = Inr t"
  by (simp add: trigger_from_dict_def trigger_to_dict_def get_text_def get_text_or_def str_or_def
      wf_defs)

lemma action_roundtrip: "action_wf a \<Longrightarrow> action_from_dict rp (action_to_dict a) = Inr a"
  by (simp add: action_from_dict_def action_to_dict_def get_text_def get_text_or_def str_or_def
      action_wf_def clean_ne_def)

lemma strip_modes: "strip ''skip'' = ''skip''" "strip ''run_once'' = ''run_once''"
  by code_simp+

lemma policy_roundtrip:
  assumes "policy_wf p"
  shows "policy_from_dict rp (policy_to_dict p) = Inr p"
proof -
  have "strip (catch_up p) = catch_up p" "catch_up p \<noteq> []"
    using assms by (auto simp: policy_wf_def catch_up_modes_def strip_modes)
  then have cu: "get_text_or rp [(''cooldown_sec'', JInt (cooldown_sec p)), (''catch_up'', JStr (catch_up p)),
      (''max_runs_per_day'', JInt (max_runs_per_day p)), (''jitter_sec'', JInt (jitter_sec p))]
      ''catch_up'' ''skip'' = catch_up p"
    by (simp add: get_text_or_def get_text_def str_or_def)
  show ?thesis
    using assms cu
    by (simp add: policy_from_dict_def policy_to_dict_def get_int_def py_or_def policy_wf_def)
qed

lemma rule_roundtrip_lemma: "rule_wf r \<Longrightarrow> rule_from_dict rp now (rule_to_dict r) = Inr r"
  by (simp add: rule_from_dict_def rule_to_dict_def rule_wf_def trigger_roundtrip action_roundtrip
      policy_roundtrip str_or_def)

lemma policy_from_dict_wf: "policy_from_dict rp raw = Inr p \<Longrightarrow> policy_wf p"
  by (auto simp: policy_from_dict_def policy_wf_def Let_def catch_up_modes_def
      split: sum.splits if_splits)

section \<open>Reading back what was read\<close>

definition blank_free :: "rule \<Rightarrow> bool" where
  "blank_free r \<longleftrightarrow> a_project (r_action r) \<noteq> Some [] \<and> a_task_name (r_action r) \<noteq> Some [] \<and>
     r_managed_by r \<noteq> Some []"

lemma clean_get_text [simp]: "clean (get_text rp d k v0)"
  by (simp add: clean_def get_text_def)

lemma clean_ne_get_text_or: "clean_ne v0 \<Longrightarrow> clean_ne (get_text_or rp d k v0)"
  by (simp add: clean_ne_def get_text_or_def get_text_def str_or_def)

lemma clean_opt_get: "get_opt_text rp d k \<noteq> Some [] \<Longrightarrow> clean_opt (get_opt_text rp d k)"
  by (auto simp: get_opt_text_def clean_opt_def clean_ne_def)

lemma clean_defaults:
  "clean_ne ''UTC''" "clean_ne ''subagent''" "clean_ne ''auto''" "clean_ne ''.''" "clean_ne ''inspect''"
  "clean_ne ''read-only''" "clean_ne ''scheduler''"
  by (code_simp)+

lemma trigger_read_wf: "trigger_from_dict rp raw = Inr t \<Longrightarrow> trigger_wf t"
  by (auto simp: trigger_from_dict_def trigger_wf_def clean_ne_get_text_or clean_defaults
      split: sum.splits)

lemma action_read_wf:
  "action_from_dict rp raw = Inr a \<Longrightarrow> a_project a \<noteq> Some [] \<Longrightarrow> a_task_name a \<noteq> Some [] \<Longrightarrow> action_wf a"
  by (auto simp: action_from_dict_def action_wf_def clean_ne_get_text_or clean_defaults clean_opt_get
      split: sum.splits)

lemma str_or_ne: "v0 \<noteq> [] \<Longrightarrow> str_or s v0 \<noteq> []"
  by (simp add: str_or_def)

lemma rule_read_wf:
  assumes "rule_from_dict rp now d = Inr r" and "blank_free r" and "now \<noteq> []"
  shows "rule_wf r"
  using assms trigger_read_wf action_read_wf policy_from_dict_wf
  by (auto simp: rule_from_dict_def rule_wf_def blank_free_def str_or_ne clean_opt_get
      split: option.splits sum.splits)

section \<open>Properties\<close>

text \<open>A well-formed rule written by \<open>to_dict\<close> is read back unchanged by \<open>from_dict\<close>, whatever the
  clock says when it is read.\<close>

lemma rule_roundtrip:
  assumes "rule_wf r"
  shows "rule_from_dict rp now (rule_to_dict r) = Inr r"
  using assms by (rule rule_roundtrip_lemma)

definition sample_rule :: rule where
  "sample_rule = \<lparr> r_id = ''r1'', r_name = ''nightly'', r_enabled = True,
     r_trigger = \<lparr> t_type = ''cron'', t_cron = ''0 9 * * 5,7'', t_timezone = ''UTC'', t_provider = [],
                   t_window_key = [] \<rparr>,
     r_action = \<lparr> a_type = ''subagent'', a_agent = ''auto'', a_prompt = ''run'', a_project = None,
                  a_workspace = ''.'', a_profile = ''inspect'', a_mode = ''read-only'',
                  a_thread = ''scheduler'', a_task_name = None \<rparr>,
     r_policy = \<lparr> cooldown_sec = 3600, catch_up = ''run_once'', max_runs_per_day = 24, jitter_sec = 0 \<rparr>,
     r_managed_by = None, r_run_now = False, r_created_at = ''2026-01-01T00:00:00+00:00'',
     r_updated_at = ''2026-01-01T00:00:00+00:00'' \<rparr>"

lemma sample_rule_wf: "rule_wf sample_rule"
  by code_simp

text \<open>Reading normalises once and for all: a rule read from any JSON object has its policy in
  range, and unless an optional text was given as blank it is well formed, so saving it and
  loading it again gives the very same rule.\<close>

lemma rule_reread_stable:
  assumes "rule_from_dict rp now d = Inr r" and "now \<noteq> []"
  shows "policy_wf (r_policy r) \<and>
    (blank_free r \<longrightarrow> rule_from_dict rp later (rule_to_dict r) = Inr r)"
proof
  show "policy_wf (r_policy r)"
    using assms(1) policy_from_dict_wf by (auto simp: rule_from_dict_def split: option.splits sum.splits)
  show "blank_free r \<longrightarrow> rule_from_dict rp later (rule_to_dict r) = Inr r"
    using rule_read_wf [OF assms(1) _ assms(2)] rule_roundtrip_lemma by blast
qed

definition rough_dict :: dict where
  "rough_dict = [(''id'', JStr ''r2''), (''trigger'', JDict [(''type'', JStr '' cron '')]),
     (''policy'', JDict [(''cooldown_sec'', JInt (- 5)), (''catch_up'', JStr ''sometimes''),
        (''max_runs_per_day'', JInt 0)])]"

definition rough_rule :: rule where
  "rough_rule = \<lparr> r_id = ''r2'', r_name = [], r_enabled = True,
     r_trigger = \<lparr> t_type = ''cron'', t_cron = [], t_timezone = ''UTC'', t_provider = [], t_window_key = [] \<rparr>,
     r_action = \<lparr> a_type = ''subagent'', a_agent = ''auto'', a_prompt = [], a_project = None,
                  a_workspace = ''.'', a_profile = ''inspect'', a_mode = ''read-only'',
                  a_thread = ''scheduler'', a_task_name = None \<rparr>,
     r_policy = \<lparr> cooldown_sec = 0, catch_up = ''skip'', max_runs_per_day = 1, jitter_sec = 0 \<rparr>,
     r_managed_by = None, r_run_now = False, r_created_at = ''now'', r_updated_at = ''now'' \<rparr>"

lemma read_rough: "rule_from_dict (\<lambda>_. []) ''now'' rough_dict = Inr rough_rule"
  by code_simp

end
