(* ===== verification/JsonLines.thy ===== *)
theory JsonLines
  imports FluxionBase
begin

text \<open>
  The JSON-lines files the components keep (rules, runs, events, sessions): \<open>json.dumps\<close> with
  \<open>ensure_ascii=False\<close>, \<open>str.splitlines\<close>, and the text of a file of one document per line. The
  reader \<open>json.loads\<close> is a parameter \<open>loads\<close> of the definitions that call it (\<open>None\<close> is
  \<open>JSONDecodeError\<close>), and \<open>rp\<close> renders floats.
\<close>

section \<open>Writing JSON\<close>

definition hex_digit :: "nat \<Rightarrow> char" where
  "hex_digit n = char_of (if n < 10 then 48 + n else 87 + n)"

definition esc_char :: "char \<Rightarrow> string" where
  "esc_char c = (let n = code c in
     if n = 34 then [char_of (92::nat), char_of (34::nat)]
     else if n = 92 then [char_of (92::nat), char_of (92::nat)]
     else if n = 10 then [char_of (92::nat), CHR ''n'']
     else if n = 13 then [char_of (92::nat), CHR ''r'']
     else if n = 9 then [char_of (92::nat), CHR ''t'']
     else if n = 12 then [char_of (92::nat), CHR ''f'']
     else if n = 8 then [char_of (92::nat), CHR ''b'']
     else if n < 32 then char_of (92::nat) # ''u00'' @ [hex_digit (n div 16), hex_digit (n mod 16)]
     else [c])"

definition json_str :: "string \<Rightarrow> string" where
  "json_str s = char_of (34::nat) # concat (map esc_char s) @ [char_of (34::nat)]"

fun join_with :: "string \<Rightarrow> string list \<Rightarrow> string" where
  \<comment> \<open>\<open>sep.join(parts)\<close>\<close>
  "join_with sep [] = []"
| "join_with sep [x] = x"
| "join_with sep (x # y # ys) = x @ sep @ join_with sep (y # ys)"

fun dumps :: "(rat \<Rightarrow> string) \<Rightarrow> json \<Rightarrow> string" where
  "dumps rp JNull = ''null''"
| "dumps rp (JBool b) = (if b then ''true'' else ''false'')"
| "dumps rp (JInt n) = show_int n"
| "dumps rp (JFloat x) = rp x"
| "dumps rp (JStr s) = json_str s"
| "dumps rp (JList xs) = CHR ''['' # join_with '', '' (map (dumps rp) xs) @ '']''"
| "dumps rp (JDict d) =
     CHR ''{'' # join_with '', '' (map (\<lambda>kv. json_str (fst kv) @ '': '' @ dumps rp (snd kv)) d) @ ''}''"

section \<open>Lines\<close>

definition is_break :: "char \<Rightarrow> bool" where
  "is_break c = (let n = code c in (10 \<le> n \<and> n \<le> 13) \<or> (28 \<le> n \<and> n \<le> 30) \<or> n = 133)"

text \<open>\<open>s.splitlines()\<close>: a final line terminator does not start another line, and a carriage
  return with its line feed is one terminator.\<close>

fun splitlines_acc :: "string \<Rightarrow> string \<Rightarrow> string list" where
  "splitlines_acc cur [] = (if cur = [] then [] else [rev cur])"
| "splitlines_acc cur (c # cs) =
     (if is_break c
      then rev cur # splitlines_acc []
             (if code c = 13 \<and> cs \<noteq> [] \<and> code (hd cs) = 10 then tl cs else cs)
      else splitlines_acc (c # cur) cs)"

definition splitlines :: "string \<Rightarrow> string list" where
  "splitlines s = splitlines_acc [] s"

definition file_text :: "string list \<Rightarrow> string" where
  \<comment> \<open>\<open>"\n".join(lines) + ("\n" if lines else "")\<close>\<close>
  "file_text ls = join_with [char_of (10::nat)] ls @ (if ls = [] then [] else [char_of (10::nat)])"

section \<open>What a file of lines reads back as\<close>

definition unbroken :: "string \<Rightarrow> bool" where
  "unbroken s \<longleftrightarrow> (\<forall>c\<in>set s. \<not> is_break c)"

lemma unbroken_simps [simp, text_simps]:
  "unbroken []" "unbroken (c # s) \<longleftrightarrow> \<not> is_break c \<and> unbroken s"
  "unbroken (s @ t) \<longleftrightarrow> unbroken s \<and> unbroken t"
  by (auto simp: unbroken_def)

lemma file_text_simps [simp, text_simps]:
  "file_text [] = []" "file_text (l # ls) = l @ char_of (10::nat) # file_text ls"
proof -
  show "file_text [] = []" by (simp add: file_text_def)
  show "file_text (l # ls) = l @ char_of (10::nat) # file_text ls"
    by (cases ls) (simp_all add: file_text_def)
qed

lemma is_break_lf [simp]: "is_break (char_of (10::nat))"
  by (simp add: is_break_def)

lemma splitlines_line:
  "unbroken l \<Longrightarrow> splitlines_acc cur (l @ char_of (10::nat) # rest) = (rev cur @ l) # splitlines_acc [] rest"
proof (induction l arbitrary: cur)
  case Nil
  have "is_break (char_of (10::nat))" by simp
  moreover have "code (char_of (10::nat)) \<noteq> 13" by simp
  ultimately show ?case by simp
next
  case (Cons c l)
  then show ?case by simp
qed

lemma splitlines_file_text: "\<forall>l\<in>set ls. unbroken l \<Longrightarrow> splitlines (file_text ls) = ls"
  by (induction ls) (simp_all add: splitlines_def splitlines_line)

lemma splitlines_append_line:
  "\<forall>l\<in>set ls. unbroken l \<Longrightarrow> unbroken l \<Longrightarrow>
    splitlines (file_text ls @ l @ [char_of (10::nat)]) = ls @ [l]"
  by (induction ls) (simp_all add: splitlines_def splitlines_line)

lemma splitlines_acc_unbroken:
  "unbroken cur \<Longrightarrow> l \<in> set (splitlines_acc cur s) \<Longrightarrow> unbroken l"
proof (induction cur s rule: splitlines_acc.induct)
  case (1 cur)
  then show ?case by (auto simp: unbroken_def split: if_splits)
next
  case (2 cur c cs)
  show ?case
  proof (cases "is_break c")
    case True
    with 2 show ?thesis by (auto simp: unbroken_def)
  next
    case False
    with 2 show ?thesis by simp
  qed
qed

lemma splitlines_unbroken: "l \<in> set (splitlines s) \<Longrightarrow> unbroken l"
  unfolding splitlines_def by (rule splitlines_acc_unbroken) simp_all

section \<open>Which documents fit on a line\<close>

text \<open>\<open>json.dumps\<close> escapes every line terminator below U+0020 but writes U+0085 as it is.\<close>

definition nel_free_str :: "string \<Rightarrow> bool" where
  "nel_free_str s \<longleftrightarrow> (\<forall>c\<in>set s. code c \<noteq> 133)"

fun nel_free :: "json \<Rightarrow> bool" where
  "nel_free (JFloat x) = False"
| "nel_free (JStr s) = nel_free_str s"
| "nel_free (JList xs) = (\<forall>x\<in>set xs. nel_free x)"
| "nel_free (JDict d) = (\<forall>kv\<in>set d. nel_free_str (fst kv) \<and> nel_free (snd kv))"
| "nel_free _ = True"

lemma unbroken_join: "unbroken sep \<Longrightarrow> \<forall>x\<in>set xs. unbroken x \<Longrightarrow> unbroken (join_with sep xs)"
  by (induction sep xs rule: join_with.induct) simp_all

lemma unbroken_concat: "unbroken (concat xs) \<longleftrightarrow> (\<forall>x\<in>set xs. unbroken x)"
  by (induction xs) simp_all

lemma unbroken_show_nat: "unbroken (show_nat n)"
proof (induction n rule: show_nat.induct)
  case (1 n)
  have a: "\<not> is_break (char_of (48 + m))" if "m < 10" for m :: nat
    using that by (simp add: is_break_def)
  show ?case
  proof (cases "n < 10")
    case True
    with a [of n] show ?thesis by (simp add: show_nat.simps [of n])
  next
    case False
    with 1 a [of "n mod 10"] show ?thesis by (simp add: show_nat.simps [of n])
  qed
qed

lemma unbroken_show_int: "unbroken (show_int n)"
  by (simp add: show_int_def unbroken_show_nat is_break_def code_def)

lemma unbroken_hex: "n < 16 \<Longrightarrow> \<not> is_break (hex_digit n)"
  by (simp add: hex_digit_def is_break_def)

lemma is_break_literals [simp]:
  "\<not> is_break (char_of (34::nat))" "\<not> is_break (char_of (92::nat))" "\<not> is_break CHR ''n''"
  "\<not> is_break CHR ''r''" "\<not> is_break CHR ''t''" "\<not> is_break CHR ''f''" "\<not> is_break CHR ''b''"
  "\<not> is_break CHR ''u''" "\<not> is_break CHR ''0''" "\<not> is_break CHR ''{''" "\<not> is_break CHR ''}''"
  "\<not> is_break CHR ''[''" "\<not> is_break CHR '']''" "\<not> is_break CHR '',''" "\<not> is_break CHR '' ''"
  "\<not> is_break CHR '':''" "\<not> is_break CHR ''e''" "\<not> is_break CHR ''l''" "\<not> is_break CHR ''a''"
  "\<not> is_break CHR ''s''"
  by (simp_all add: is_break_def code_def)

lemma unbroken_esc: "code c \<noteq> 133 \<Longrightarrow> unbroken (esc_char c)"
proof -
  assume n: "code c \<noteq> 133"
  show ?thesis
  proof (cases "code c < 32")
    case True
    then have "code c div 16 < 16" "code c mod 16 < 16" by simp_all
    with True show ?thesis by (simp add: esc_char_def Let_def unbroken_hex)
  next
    case False
    with n have "\<not> is_break c" by (simp add: is_break_def Let_def)
    with False show ?thesis by (simp add: esc_char_def Let_def)
  qed
qed

lemma unbroken_json_str: "nel_free_str s \<Longrightarrow> unbroken (json_str s)"
  by (simp add: json_str_def nel_free_str_def unbroken_concat unbroken_esc)

lemma unbroken_dumps: "nel_free v \<Longrightarrow> unbroken (dumps rp v)"
proof (induction rp v rule: dumps.induct)
  case (3 rp n)
  show ?case by (simp add: unbroken_show_int)
next
  case (6 rp xs)
  then show ?case by (simp add: unbroken_join)
next
  case (7 rp d)
  have "unbroken (join_with '', ''
      (map (\<lambda>kv. json_str (fst kv) @ '': '' @ dumps rp (snd kv)) d))"
    by (rule unbroken_join) (use 7 in \<open>auto simp: unbroken_json_str\<close>)
  then show ?case by simp
qed (simp_all add: unbroken_json_str)

lemma strip_dumps_dict [simp]: "strip (dumps rp (JDict d)) = dumps rp (JDict d)"
  by (simp add: strip_def lstrip_def is_space_def code_def)

lemma dumps_dict_nonempty [simp]: "dumps rp (JDict d) \<noteq> []"
  by simp

end
