(* ===== verification/KeyedStore.thy ===== *)
theory KeyedStore
  imports FluxionBase
begin

text \<open>
  The contract every keyed store of the program promises: what a lookup returns after a write and
  after a removal. The rule file, the sticky-route table and the session tables interpret it, and
  its lemmas on overwriting, independence of keys and batches are then theirs.
\<close>

locale keyed_store =
  fixes lookup :: "'s \<Rightarrow> 'k \<Rightarrow> 'v option"
    and store :: "'k \<Rightarrow> 'v \<Rightarrow> 's \<Rightarrow> 's"
    and remove :: "'k \<Rightarrow> 's \<Rightarrow> 's"
    and fits :: "'k \<Rightarrow> 'v \<Rightarrow> bool"
  assumes lookup_store: "fits k v \<Longrightarrow> lookup (store k v s) k' = (if k' = k then Some v else lookup s k')"
    and lookup_remove: "lookup (remove k s) k' = (if k' = k then None else lookup s k')"
begin

lemma store_overwrites:
  "fits k v \<Longrightarrow> fits k w \<Longrightarrow> lookup (store k w (store k v s)) = lookup (store k w s)"
  by (rule ext) (simp add: lookup_store)

lemma store_commutes:
  "k \<noteq> k' \<Longrightarrow> fits k v \<Longrightarrow> fits k' w \<Longrightarrow>
    lookup (store k v (store k' w s)) = lookup (store k' w (store k v s))"
  by (rule ext) (simp add: lookup_store)

lemma remove_undoes: "lookup s k = None \<Longrightarrow> fits k v \<Longrightarrow> lookup (remove k (store k v s)) = lookup s"
  by (rule ext) (simp add: lookup_store lookup_remove)

lemma remove_twice: "lookup (remove k (remove k s)) = lookup (remove k s)"
  by (rule ext) (simp add: lookup_remove)

text \<open>A batch of writes to distinct keys: each key reads its own value, the rest is as before.\<close>

lemma store_batch:
  assumes "distinct (map fst kvs)" and "\<forall>(k, v)\<in>set kvs. fits k v"
  shows "lookup (fold (\<lambda>(k, v). store k v) kvs s) k =
    (case map_of kvs k of Some v \<Rightarrow> Some v | None \<Rightarrow> lookup s k)"
  using assms
proof (induction kvs arbitrary: s)
  case (Cons kv kvs)
  obtain k' v where kv: "kv = (k', v)" by (cases kv)
  with Cons.prems have nin: "k' \<notin> fst ` set kvs" and rest: "distinct (map fst kvs)"
    "\<forall>(k, v)\<in>set kvs. fits k v" and f: "fits k' v" by auto
  from nin have "map_of kvs k' = None" by (simp add: map_of_eq_None_iff)
  with Cons.IH [OF rest, of "store k' v s"] f show ?case
    by (simp add: kv lookup_store split: option.splits)
qed simp

end

section \<open>Rows keyed by a column\<close>

text \<open>
  The list form the stores use: the first row with the key is the one read and replaced, a new row
  goes to the end, a removal drops every row with the key.
\<close>

fun row_find :: "('a \<Rightarrow> 'k) \<Rightarrow> 'a list \<Rightarrow> 'k \<Rightarrow> 'a option" where
  "row_find key [] k = None"
| "row_find key (r # rs) k = (if key r = k then Some r else row_find key rs k)"

fun row_put :: "('a \<Rightarrow> 'k) \<Rightarrow> 'a \<Rightarrow> 'a list \<Rightarrow> 'a list" where
  "row_put key r [] = [r]"
| "row_put key r (x # xs) = (if key x = key r then r # xs else x # row_put key r xs)"

definition row_drop :: "('a \<Rightarrow> 'k) \<Rightarrow> 'k \<Rightarrow> 'a list \<Rightarrow> 'a list" where
  "row_drop key k rs = filter (\<lambda>r. key r \<noteq> k) rs"

lemma row_find_put [simp]: "row_find key (row_put key r rs) k = (if k = key r then Some r else row_find key rs k)"
  by (induction rs) auto

lemma row_find_drop [simp]: "row_find key (row_drop key k rs) k' = (if k' = k then None else row_find key rs k')"
  by (induction rs) (auto simp: row_drop_def)

lemma row_find_key: "row_find key rs k = Some r \<Longrightarrow> key r = k \<and> r \<in> set rs"
  by (induction rs) (auto split: if_splits)

lemma row_find_None: "row_find key rs k = None \<longleftrightarrow> k \<notin> key ` set rs"
  by (induction rs) auto

lemma length_row_drop: "length (row_drop key k rs) = length rs \<longleftrightarrow> row_find key rs k = None"
proof (induction rs)
  case (Cons r rs)
  have "length (filter P rs) \<noteq> Suc (length rs)" for P
    using length_filter_le [of P rs] by linarith
  with Cons show ?case by (auto simp: row_drop_def)
qed (simp add: row_drop_def)

lemma set_row_put: "set (row_put key r rs) \<subseteq> insert r (set rs)"
  by (induction rs) auto

lemma row_put_in [simp]: "r \<in> set (row_put key r rs)"
  by (induction rs) auto

lemma keys_row_put: "map key (row_put key r rs) = (if key r \<in> key ` set rs then map key rs else map key rs @ [key r])"
  by (induction rs) auto

lemma distinct_row_put: "distinct (map key rs) \<Longrightarrow> distinct (map key (row_put key r rs))"
  by (auto simp: keys_row_put)

lemma distinct_row_drop: "distinct (map key rs) \<Longrightarrow> distinct (map key (row_drop key k rs))"
  by (simp add: row_drop_def distinct_map_filter)

lemma row_find_map:
  "(\<And>r. key (f r) = key r) \<Longrightarrow> row_find key (map f rs) k = map_option f (row_find key rs k)"
  by (induction rs) auto

lemma row_find_filter:
  "distinct (map key rs) \<Longrightarrow> row_find key (filter P rs) k =
     (case row_find key rs k of Some r \<Rightarrow> (if P r then Some r else None) | None \<Rightarrow> None)"
proof (induction rs)
  case (Cons r rs)
  then have "key r = k \<Longrightarrow> row_find key rs k = None" by (auto simp: row_find_None)
  with Cons show ?case by auto
qed simp

lemma row_find_distinct:
  "distinct (map key rs) \<Longrightarrow> r \<in> set rs \<Longrightarrow> row_find key rs (key r) = Some r"
  by (induction rs) (auto simp: rev_image_eqI)

end
