(* ===== verification/SchedStore.thy ===== *)
theory SchedStore
  imports SchedModels JsonLines KeyedStore
begin

text \<open>
  The rule file and the run history of \<open>scheduler/store.py\<close> and the managed monitor rules of
  \<open>scheduler/autoping.py\<close>. A file is its text; every operation is the function its process runs
  under the file lock. \<open>loads\<close> is \<open>json.loads\<close> with \<open>None\<close> for \<open>JSONDecodeError\<close>; \<open>now\<close> is the
  clock's text, which a rule without timestamps reads as its own.
\<close>

section \<open>Rules\<close>

type_synonym loader = "string \<Rightarrow> json option"

text \<open>One line of \<open>load_rules\<close>: a line that does not parse, is no object, has no id or raises
  \<open>KeyError\<close> or \<open>ValueError\<close> is skipped; any other exception leaves the loop.\<close>

definition load_line :: "(json \<Rightarrow> string) \<Rightarrow> loader \<Rightarrow> string \<Rightarrow> string \<Rightarrow> py_exc + rule option" where
  "load_line rp loads now raw_line =
     (let line = strip raw_line in
      if line = [] then Inr None
      else (case loads line of
              Some (JDict d) \<Rightarrow>
                (if truthy (dget d ''id'')
                 then (case rule_from_dict rp now d of
                         Inr r \<Rightarrow> Inr (Some r)
                       | Inl e \<Rightarrow> (if e = KeyError \<or> e = ValueError then Inr None else Inl e))
                 else Inr None)
            | _ \<Rightarrow> Inr None))"

fun load_lines :: "(json \<Rightarrow> string) \<Rightarrow> loader \<Rightarrow> string \<Rightarrow> string list \<Rightarrow> py_exc + rule list" where
  "load_lines rp loads now [] = Inr []"
| "load_lines rp loads now (l # ls) =
     (case load_line rp loads now l of Inl e \<Rightarrow> Inl e
      | Inr m \<Rightarrow> (case load_lines rp loads now ls of Inl e \<Rightarrow> Inl e
          | Inr rs \<Rightarrow> Inr (case m of None \<Rightarrow> rs | Some r \<Rightarrow> r # rs)))"

definition load_rules :: "(json \<Rightarrow> string) \<Rightarrow> loader \<Rightarrow> string \<Rightarrow> string \<Rightarrow> py_exc + rule list" where
  "load_rules rp loads now content = load_lines rp loads now (splitlines content)"

definition rule_line :: "(rat \<Rightarrow> string) \<Rightarrow> rule \<Rightarrow> string" where
  "rule_line fl r = dumps fl (JDict (rule_to_dict r))"

definition save_rules :: "(rat \<Rightarrow> string) \<Rightarrow> rule list \<Rightarrow> string" where
  "save_rules fl rules = file_text (map (rule_line fl) rules)"

text \<open>\<open>mutate_rules\<close>: read, change, write back; when reading raises, nothing is written.\<close>

definition mutate_rules ::
  "(json \<Rightarrow> string) \<Rightarrow> (rat \<Rightarrow> string) \<Rightarrow> loader \<Rightarrow> string \<Rightarrow> (rule list \<Rightarrow> rule list) \<Rightarrow> string
     \<Rightarrow> py_exc + string" where
  "mutate_rules rp fl loads now f content =
     (case load_rules rp loads now content of Inl e \<Rightarrow> Inl e | Inr rs \<Rightarrow> Inr (save_rules fl (f rs)))"

definition find_rule :: "rule list \<Rightarrow> string \<Rightarrow> rule option" where
  "find_rule rs rule_id = row_find r_id rs rule_id"

definition get_rule ::
  "(json \<Rightarrow> string) \<Rightarrow> loader \<Rightarrow> string \<Rightarrow> string \<Rightarrow> string \<Rightarrow> py_exc + rule option" where
  "get_rule rp loads now content rule_id =
     (case load_rules rp loads now content of Inl e \<Rightarrow> Inl e | Inr rs \<Rightarrow> Inr (find_rule rs rule_id))"

definition put_rule :: "string \<Rightarrow> rule \<Rightarrow> rule list \<Rightarrow> rule list" where
  "put_rule rule_id r rs = row_put r_id r rs"

definition upsert_rule ::
  "(json \<Rightarrow> string) \<Rightarrow> (rat \<Rightarrow> string) \<Rightarrow> loader \<Rightarrow> string \<Rightarrow> rule \<Rightarrow> string \<Rightarrow> py_exc + string" where
  "upsert_rule rp fl loads now r content = mutate_rules rp fl loads now (put_rule (r_id r) r) content"

definition drop_rule :: "string \<Rightarrow> rule list \<Rightarrow> rule list" where
  "drop_rule rule_id rs = row_drop r_id rule_id rs"

definition delete_rule ::
  "(json \<Rightarrow> string) \<Rightarrow> (rat \<Rightarrow> string) \<Rightarrow> loader \<Rightarrow> string \<Rightarrow> string \<Rightarrow> string \<Rightarrow> py_exc + string \<times> bool" where
  "delete_rule rp fl loads now rule_id content =
     (case load_rules rp loads now content of Inl e \<Rightarrow> Inl e
      | Inr rs \<Rightarrow> (let kept = drop_rule rule_id rs in
                   Inr (save_rules fl kept, length kept \<noteq> length rs)))"

section \<open>Run history\<close>

definition append_run :: "(rat \<Rightarrow> string) \<Rightarrow> dict \<Rightarrow> string \<Rightarrow> string" where
  "append_run fl entry content = content @ dumps fl (JDict entry) @ [char_of (10::nat)]"

definition run_row :: "loader \<Rightarrow> string \<Rightarrow> dict option" where
  "run_row loads raw_line =
     (let line = strip raw_line in
      if line = [] then None
      else (case loads line of Some (JDict d) \<Rightarrow> Some d | _ \<Rightarrow> None))"

definition list_runs :: "loader \<Rightarrow> int \<Rightarrow> string \<Rightarrow> dict list" where
  "list_runs loads limit content =
     (let lines = splitlines content; n = nat (max 1 limit) in
      rev (List.map_filter (run_row loads) (drop (length lines - n) lines)))"

section \<open>Managed monitor rules (autoping)\<close>

definition managed_by_autoping :: string where "managed_by_autoping = ''autoping''"

definition autoping_providers :: "string list" where
  "autoping_providers = [''claude'', ''codex'', ''antigravity'']"

definition autoping_modes :: "string list" where
  "autoping_modes = [''off'', ''5h'', ''7d'', ''both'']"

definition five_hour_windows :: "string \<Rightarrow> string list" where
  "five_hour_windows provider =
     (if provider = ''antigravity'' then [''Gemini (5h)'', ''External Models (5h)'', ''Gemini'']
      else [''5h''])"

definition weekly_windows :: "string \<Rightarrow> string list" where
  "weekly_windows provider =
     (if provider = ''antigravity''
      then [''Gemini (Weekly)'', ''External Models (Weekly)'', ''External Models'']
      else [''7d''])"

definition is_alnum :: "char \<Rightarrow> bool" where
  "is_alnum c = (let n = code c in
     (48 \<le> n \<and> n \<le> 57) \<or> (65 \<le> n \<and> n \<le> 90) \<or> (97 \<le> n \<and> n \<le> 122) \<or>
     n \<in> {170, 178, 179, 181, 185, 186, 188, 189, 190} \<or> (192 \<le> n \<and> n \<noteq> 215 \<and> n \<noteq> 247))"

definition strip_char :: "char \<Rightarrow> string \<Rightarrow> string" where
  "strip_char c s = rev (dropWhile (\<lambda>x. x = c) (rev (dropWhile (\<lambda>x. x = c) s)))"

definition autoping_rule_id :: "string \<Rightarrow> string \<Rightarrow> string" where
  "autoping_rule_id provider window_key =
     ''managed_autoping_'' @ provider @ ''_'' @
     strip_char CHR ''_'' (map (\<lambda>ch. if is_alnum ch then lower_char ch else CHR ''_'') window_key)"

definition mode_windows :: "string \<Rightarrow> string \<Rightarrow> string list" where
  "mode_windows provider mode =
     (if mode = ''both'' then five_hour_windows provider @ weekly_windows provider
      else if mode = ''5h'' then five_hour_windows provider
      else if mode = ''7d'' then weekly_windows provider
      else [])"

definition mode_from_windows :: "string \<Rightarrow> string set \<Rightarrow> string" where
  "mode_from_windows provider windows =
     (let five = set (five_hour_windows provider); weekly = set (weekly_windows provider) in
      if five \<subseteq> windows \<and> weekly \<subseteq> windows then ''both''
      else if five \<subseteq> windows then ''5h''
      else if weekly \<subseteq> windows then ''7d''
      else ''off'')"

definition autoping_owned :: "string \<Rightarrow> rule \<Rightarrow> bool" where
  "autoping_owned provider r \<longleftrightarrow>
     r_managed_by r = Some managed_by_autoping \<and> t_provider (r_trigger r) = provider"

definition enabled_windows :: "rule list \<Rightarrow> string \<Rightarrow> string set" where
  "enabled_windows rules provider =
     set (map (\<lambda>r. t_window_key (r_trigger r))
       (filter (\<lambda>r. autoping_owned provider r \<and> r_enabled r) rules))"

definition get_autoping_modes :: "rule list \<Rightarrow> (string \<times> string) list" where
  "get_autoping_modes rules =
     map (\<lambda>p. (p, mode_from_windows p (enabled_windows rules p))) autoping_providers"

text \<open>\<open>provider.title()\<close> for the three lower-case provider names.\<close>

definition provider_title :: "string \<Rightarrow> string" where
  "provider_title provider =
     (if provider = ''claude'' then ''Claude'' else if provider = ''codex'' then ''Codex''
      else ''Antigravity'')"

definition monitor_name :: "string \<Rightarrow> string \<Rightarrow> string" where
  "monitor_name provider window_key = provider_title provider @ '' Monitor ('' @ window_key @ '')''"

definition monitor_action :: "string \<Rightarrow> action" where
  "monitor_action provider =
     \<lparr> a_type = ''notify'', a_agent = provider, a_prompt = [], a_project = None, a_workspace = ''.'',
       a_profile = ''inspect'', a_mode = ''read-only'', a_thread = ''scheduler'', a_task_name = None \<rparr>"

definition new_monitor :: "string \<Rightarrow> string \<Rightarrow> string \<Rightarrow> rule" where
  "new_monitor now provider window_key =
     \<lparr> r_id = autoping_rule_id provider window_key, r_name = monitor_name provider window_key,
       r_enabled = True,
       r_trigger = \<lparr> t_type = ''quota_refresh'', t_cron = [], t_timezone = ''UTC'',
                     t_provider = provider, t_window_key = window_key \<rparr>,
       r_action = monitor_action provider,
       r_policy = \<lparr> cooldown_sec = 600, catch_up = ''skip'', max_runs_per_day = 48, jitter_sec = 0 \<rparr>,
       r_managed_by = Some managed_by_autoping, r_run_now = False,
       r_created_at = now, r_updated_at = now \<rparr>"

definition renew_monitor :: "string \<Rightarrow> string \<Rightarrow> string \<Rightarrow> rule \<Rightarrow> rule" where
  "renew_monitor now provider window_key r =
     r\<lparr> r_enabled := True, r_name := monitor_name provider window_key,
        r_action := monitor_action provider,
        r_policy := (r_policy r)\<lparr>cooldown_sec := 600, max_runs_per_day := 48\<rparr>,
        r_updated_at := now \<rparr>"

text \<open>The rules of the provider found so far, by window key: a later one replaces an earlier one.\<close>

fun existing_monitor :: "string \<Rightarrow> rule list \<Rightarrow> string \<Rightarrow> rule option" where
  "existing_monitor provider [] wk = None"
| "existing_monitor provider (r # rs) wk =
     (case existing_monitor provider rs wk of
        Some x \<Rightarrow> Some x
      | None \<Rightarrow> (if autoping_owned provider r \<and> t_window_key (r_trigger r) = wk then Some r else None))"

definition monitor_for :: "string \<Rightarrow> string \<Rightarrow> rule list \<Rightarrow> string \<Rightarrow> rule" where
  "monitor_for now provider rules wk =
     (case existing_monitor provider rules wk of
        None \<Rightarrow> new_monitor now provider wk
      | Some r \<Rightarrow> renew_monitor now provider wk r)"

definition autoping_mutate :: "string \<Rightarrow> string \<Rightarrow> string \<Rightarrow> rule list \<Rightarrow> rule list" where
  "autoping_mutate now provider mode rules =
     filter (\<lambda>r. \<not> autoping_owned provider r) rules @
     map (monitor_for now provider rules) (mode_windows provider mode)"

definition set_autoping_mode ::
  "(json \<Rightarrow> string) \<Rightarrow> (rat \<Rightarrow> string) \<Rightarrow> loader \<Rightarrow> string \<Rightarrow> string \<Rightarrow> string \<Rightarrow> string
     \<Rightarrow> py_exc + string \<times> (string \<times> string) list" where
  "set_autoping_mode rp fl loads now provider0 mode0 content =
     (let provider = lower (strip provider0); mode = lower (strip mode0) in
      if provider \<notin> set autoping_providers then Inl ValueError
      else if mode \<notin> set autoping_modes then Inl ValueError
      else (case mutate_rules rp fl loads now (autoping_mutate now provider mode) content of
              Inl e \<Rightarrow> Inl e
            | Inr content' \<Rightarrow> (case load_rules rp loads now content' of
                  Inl e \<Rightarrow> Inl e | Inr rs \<Rightarrow> Inr (content', get_autoping_modes rs))))"

section \<open>Reading what was written\<close>

interpretation rules: keyed_store find_rule put_rule drop_rule "\<lambda>k r. r_id r = k"
  by unfold_locales (simp_all add: find_rule_def put_rule_def drop_rule_def)

text \<open>A rule the file carries: well formed, with an id, free of U+0085, and \<open>json.loads\<close> reads its
  line as the object that was dumped.\<close>

definition storable :: "(rat \<Rightarrow> string) \<Rightarrow> loader \<Rightarrow> rule \<Rightarrow> bool" where
  "storable fl loads r \<longleftrightarrow> rule_wf r \<and> r_id r \<noteq> [] \<and> nel_free (JDict (rule_to_dict r)) \<and>
     loads (rule_line fl r) = Some (JDict (rule_to_dict r))"

lemma load_saved_line:
  assumes "storable fl loads r"
  shows "load_line rp loads now (rule_line fl r) = Inr (Some r)"
proof -
  have "truthy (dget (rule_to_dict r) ''id'')"
    using assms by (simp add: rule_to_dict_def storable_def)
  moreover have "strip (rule_line fl r) = rule_line fl r" "rule_line fl r \<noteq> []"
    by (simp_all add: rule_line_def del: dumps.simps)
  ultimately show ?thesis
    using assms by (simp add: load_line_def storable_def rule_roundtrip_lemma)
qed

lemma load_lines_append:
  "load_lines rp loads now (xs @ ys) =
     (case load_lines rp loads now xs of Inl e \<Rightarrow> Inl e
      | Inr rs \<Rightarrow> (case load_lines rp loads now ys of Inl e \<Rightarrow> Inl e | Inr rs' \<Rightarrow> Inr (rs @ rs')))"
  by (induction xs) (auto split: sum.splits option.splits)

lemma load_saved_lines:
  "\<forall>r\<in>set rs. storable fl loads r \<Longrightarrow> load_lines rp loads now (map (rule_line fl) rs) = Inr rs"
  by (induction rs) (simp_all add: load_saved_line)

lemma storable_unbroken: "storable fl loads r \<Longrightarrow> unbroken (rule_line fl r)"
  unfolding storable_def rule_line_def by (rule unbroken_dumps) blast

lemma load_save:
  assumes "\<forall>r\<in>set rs. storable fl loads r"
  shows "load_rules rp loads now (save_rules fl rs) = Inr rs"
proof -
  have "\<forall>l\<in>set (map (rule_line fl) rs). unbroken l"
    using assms by (auto simp: storable_unbroken)
  then show ?thesis
    by (simp add: load_rules_def save_rules_def splitlines_file_text load_saved_lines [OF assms])
qed

lemma storable_put: "\<forall>x\<in>set rs. storable fl loads x \<Longrightarrow> storable fl loads r \<Longrightarrow>
    \<forall>x\<in>set (put_rule k r rs). storable fl loads x"
  using set_row_put [of r_id r rs] by (auto simp: put_rule_def)

lemma storable_drop: "\<forall>x\<in>set rs. storable fl loads x \<Longrightarrow> \<forall>x\<in>set (drop_rule k rs). storable fl loads x"
  by (auto simp: drop_rule_def row_drop_def)

lemma bad_line_raises:
  assumes "loads (strip l) = Some (JDict d)" and "strip l \<noteq> []" and "truthy (dget d ''id'')"
    and "rule_from_dict rp now d = Inl AttributeError"
    and "load_lines rp loads now before = Inr rs"
  shows "load_lines rp loads now (before @ l # rest) = Inl AttributeError"
  using assms by (simp add: load_lines_append load_line_def)

lemma null_trigger_raises:
  assumes "map_of d ''id'' = Some v" and "map_of d ''trigger'' = Some JNull"
  shows "rule_from_dict rp now d = Inl AttributeError"
  using assms by (simp add: rule_from_dict_def trigger_from_dict_def dget_or_def)

section \<open>Monitors\<close>

lemma monitor_for_owned [simp]:
  "autoping_owned provider (monitor_for now provider rules wk)"
  "r_enabled (monitor_for now provider rules wk)"
proof -
  have own: "existing_monitor provider rs wk = Some r \<Longrightarrow>
      autoping_owned provider r \<and> t_window_key (r_trigger r) = wk" for rs r
    by (induction rs) (auto split: option.splits if_splits)
  then show "autoping_owned provider (monitor_for now provider rules wk)"
    "r_enabled (monitor_for now provider rules wk)"
    by (auto simp: monitor_for_def new_monitor_def renew_monitor_def autoping_owned_def split: option.splits)
qed

lemma monitor_for_window [simp]: "t_window_key (r_trigger (monitor_for now provider rules wk)) = wk"
proof -
  have own: "existing_monitor provider rs wk = Some r \<Longrightarrow> t_window_key (r_trigger r) = wk" for rs r
    by (induction rs) (auto split: option.splits if_splits)
  then show ?thesis
    by (auto simp: monitor_for_def new_monitor_def renew_monitor_def split: option.splits)
qed

lemma owned_other: "autoping_owned p r \<Longrightarrow> autoping_owned q r \<Longrightarrow> p = q"
  by (simp add: autoping_owned_def)

lemma enabled_after_set:
  "enabled_windows (autoping_mutate now p mode rules) q =
     (if q = p then set (mode_windows p mode) else enabled_windows rules q)"
proof (cases "q = p")
  case True
  then show ?thesis by (auto simp: enabled_windows_def autoping_mutate_def image_iff)
next
  case False
  then have n: "\<not> autoping_owned q (monitor_for now p rules wk)" for wk
    using owned_other monitor_for_owned(1) by blast
  have "\<not> autoping_owned p r" if "autoping_owned q r" for r
    using False that owned_other by blast
  with False n show ?thesis
    by (auto simp: enabled_windows_def autoping_mutate_def)
qed

lemma mode_of_windows:
  "p \<in> set autoping_providers \<Longrightarrow> mode \<in> set autoping_modes \<Longrightarrow>
    mode_from_windows p (set (mode_windows p mode)) = mode"
proof -
  have "\<forall>p\<in>set autoping_providers. \<forall>mode\<in>set autoping_modes.
      mode_from_windows p (set (mode_windows p mode)) = mode"
    by code_simp
  then show "p \<in> set autoping_providers \<Longrightarrow> mode \<in> set autoping_modes \<Longrightarrow>
    mode_from_windows p (set (mode_windows p mode)) = mode" by blast
qed

section \<open>Properties\<close>

text \<open>The rule file keeps what it is given: rules written by \<open>save_rules\<close> are loaded back in
  order and unchanged, provided none of their texts carries U+0085.\<close>

lemma rule_file_roundtrip:
  assumes "\<forall>r\<in>set rs. storable fl loads r"
  shows "load_rules rp loads now (save_rules fl rs) = Inr rs"
  using assms by (rule load_save)

definition echo_loader :: "rule list \<Rightarrow> loader" where
  "echo_loader rs s = map_option (\<lambda>r. JDict (rule_to_dict r)) (row_find (rule_line (\<lambda>_. [])) rs s)"

lemma sample_nel_free: "nel_free (JDict (rule_to_dict sample_rule))"
  by code_simp

lemma sample_storable: "storable (\<lambda>_. []) (echo_loader (sample_rule # rs)) sample_rule"
proof -
  have "r_id sample_rule \<noteq> []" by (simp add: sample_rule_def)
  then show ?thesis
    unfolding storable_def echo_loader_def
    by (simp only: sample_rule_wf sample_nel_free row_find.simps simp_thms if_True option.map)
qed

text \<open>Creating, reading and deleting through the file: after \<open>upsert_rule\<close> the rule's id reads the
  new rule and every other id what it read before; after \<open>delete_rule\<close> the id reads nothing, the
  others are untouched, and the answer tells whether the id was there.\<close>

lemma rule_store_crud:
  assumes "\<forall>x\<in>set rs. storable fl loads x" and "storable fl loads r"
  shows "\<exists>c'. upsert_rule rp fl loads now r (save_rules fl rs) = Inr c' \<and>
      (\<forall>k. get_rule rp loads now c' k = Inr (if k = r_id r then Some r else find_rule rs k)) \<and>
    (\<exists>c''. delete_rule rp fl loads now i (save_rules fl rs) = Inr (c'', find_rule rs i \<noteq> None) \<and>
      (\<forall>k. get_rule rp loads now c'' k = Inr (if k = i then None else find_rule rs k)))"
proof -
  have len: "length (drop_rule i rs) \<noteq> length rs \<longleftrightarrow> find_rule rs i \<noteq> None"
    by (simp add: drop_rule_def find_rule_def length_row_drop)
  have "get_rule rp loads now (save_rules fl (put_rule (r_id r) r rs)) k =
      Inr (if k = r_id r then Some r else find_rule rs k)" for k
    by (simp add: get_rule_def load_save [OF storable_put [OF assms]] rules.lookup_store)
  moreover have "get_rule rp loads now (save_rules fl (drop_rule i rs)) k =
      Inr (if k = i then None else find_rule rs k)" for k
    by (simp add: get_rule_def load_save [OF storable_drop [OF assms(1)]] rules.lookup_remove)
  ultimately show ?thesis
    using len by (simp add: upsert_rule_def mutate_rules_def delete_rule_def load_save [OF assms(1)] Let_def)
qed

text \<open>One malformed line stops the whole file: a line that parses to an object with an id and a
  null trigger makes \<open>load_rules\<close> raise \<open>AttributeError\<close>, which its handler does not catch, so
  every read, upsert and delete on that file fails although all other lines are good.\<close>

lemma null_trigger_blocks_store:
  assumes "loads (strip l) = Some (JDict d)" and "strip l \<noteq> []"
    and "map_of d ''id'' = Some (JStr i)" and "i \<noteq> []" and "map_of d ''trigger'' = Some JNull"
    and "splitlines content = map (rule_line fl) good @ l # others"
    and "\<forall>r\<in>set good. storable fl loads r"
  shows "load_rules rp loads now content = Inl AttributeError \<and>
    get_rule rp loads now content k = Inl AttributeError \<and>
    upsert_rule rp fl loads now r content = Inl AttributeError \<and>
    delete_rule rp fl loads now k content = Inl AttributeError"
proof -
  have "truthy (dget d ''id'')" using assms(3,4) by (simp add: dget_def)
  then have "load_rules rp loads now content = Inl AttributeError"
    using bad_line_raises [OF assms(1,2) _ null_trigger_raises [OF assms(3,5)] load_saved_lines [OF assms(7)]]
    by (simp add: load_rules_def assms(6))
  then show ?thesis
    by (simp add: get_rule_def upsert_rule_def mutate_rules_def delete_rule_def)
qed

text \<open>A rule can be lost by its own text: when the line written for a rule carries U+0085, which
  \<open>json.dumps\<close> leaves as it is, \<open>splitlines\<close> cuts the line there, and no line read back is the
  line written; with a \<open>json.loads\<close> that rejects the fragments the saved rule is gone.\<close>

lemma nel_rule_lost:
  assumes "\<not> unbroken (rule_line fl r)"
    and "\<forall>l\<in>set (splitlines (save_rules fl [r])). loads (strip l) = None"
  shows "rule_line fl r \<notin> set (splitlines (save_rules fl [r])) \<and>
    load_rules rp loads now (save_rules fl [r]) = Inr []"
proof
  show "rule_line fl r \<notin> set (splitlines (save_rules fl [r]))"
    using assms(1) splitlines_unbroken by blast
  have "load_lines rp loads now ls = Inr []" if "\<forall>l\<in>set ls. loads (strip l) = None" for ls
    using that by (induction ls) (simp_all add: load_line_def Let_def)
  then show "load_rules rp loads now (save_rules fl [r]) = Inr []"
    using assms(2) by (simp add: load_rules_def)
qed

definition nel_rule :: rule where
  "nel_rule = sample_rule\<lparr>r_name := [CHR ''a'', char_of (133::nat), CHR ''b'']\<rparr>"

lemma nel_rule_broken: "\<not> unbroken (rule_line (\<lambda>_. []) nel_rule)"
proof -
  have "is_break (char_of (133::nat))" by (simp add: is_break_def)
  moreover have "esc_char (char_of (133::nat)) = [char_of (133::nat)]"
    by (simp add: esc_char_def)
  ultimately show ?thesis
    by (simp add: rule_line_def rule_to_dict_def nel_rule_def json_str_def)
qed

text \<open>The run history reads newest first: after a record is appended to a history of one record
  per line, listing shows it first and then the older ones, never more than the limit asked for
  (at least one).\<close>

lemma runs_newest_first:
  assumes "content = file_text (map (\<lambda>d. dumps fl (JDict d)) old)"
    and "\<forall>d\<in>set (old @ [new]). nel_free (JDict d) \<and> loads (dumps fl (JDict d)) = Some (JDict d)"
  shows "list_runs loads limit (append_run fl new content) = take (nat (max 1 limit)) (new # rev old)"
proof -
  let ?line = "\<lambda>d. dumps fl (JDict d)"
  have "\<forall>l\<in>set (map ?line old). unbroken l" "unbroken (?line new)"
    using assms(2) by (auto simp del: dumps.simps nel_free.simps simp: unbroken_dumps)
  then have lines: "splitlines (append_run fl new content) = map ?line (old @ [new])"
    using splitlines_append_line [of "map ?line old" "?line new"]
    by (simp add: append_run_def assms(1) del: dumps.simps)
  have row: "run_row loads (?line d) = Some d" if "d \<in> set (old @ [new])" for d
  proof -
    have "loads (?line d) = Some (JDict d)" using assms(2) that by blast
    then show ?thesis by (simp add: run_row_def del: dumps.simps)
  qed
  have "List.map_filter (run_row loads) (map ?line ds) = ds" if "set ds \<subseteq> set (old @ [new])" for ds
    using that row by (induction ds) (auto simp del: dumps.simps)
  then have dropped: "List.map_filter (run_row loads) (drop n (map ?line (old @ [new]))) = drop n (old @ [new])" for n
    using set_drop_subset [of n "old @ [new]"] by (simp only: drop_map)
  have "list_runs loads limit (append_run fl new content) =
      rev (drop (length (old @ [new]) - nat (max 1 limit)) (old @ [new]))"
    by (simp only: list_runs_def lines Let_def dropped length_map)
  also have "\<dots> = take (nat (max 1 limit)) (rev (old @ [new]))"
    by (rule take_rev [symmetric])
  finally show ?thesis by simp
qed

text \<open>Choosing a monitor mode takes effect and nothing else: after \<open>set_autoping_mode\<close> rewrites the
  rules, the provider reads back the chosen mode, every other provider the mode it had, and all
  rules that are not this provider's monitors are kept in order.\<close>

lemma autoping_mode_takes:
  assumes "p \<in> set autoping_providers" and "mode \<in> set autoping_modes"
  shows "get_autoping_modes (autoping_mutate now p mode rules) =
      map (\<lambda>(q, m). (q, if q = p then mode else m)) (get_autoping_modes rules) \<and>
    filter (\<lambda>r. \<not> autoping_owned p r) (autoping_mutate now p mode rules) =
      filter (\<lambda>r. \<not> autoping_owned p r) rules"
  using mode_of_windows [OF assms]
  by (auto simp: get_autoping_modes_def enabled_after_set)
    (simp add: autoping_mutate_def filter_empty_conv)

end
