(* ===== verification/Cron.thy ===== *)
theory Cron
  imports IsoTime
begin

text \<open>
  The cron matcher of \<open>scheduler/cron.py\<close>: parsing a five-field expression, matching one local
  time, and the scan of the half-open window (start, end] for a matching minute. The time zone
  database is the parameter \<open>zones\<close>: a zone name gives its UTC offset at each instant, or \<open>None\<close>
  for a name \<open>ZoneInfo\<close> refuses.
\<close>

section \<open>Parsing\<close>

datatype cron_error =
    EmptyField
  | EmptyListElement
  | BadStep string
  | StepNotPositive string
  | BadRange string
  | BadValue string
  | OutOfOrder string
  | OutOfRange int int int
  | MatchedNothing string
  | WrongFieldCount nat

type_synonym cron_field = "int set \<times> bool"

definition field_ranges :: "(int \<times> int) list" where
  "field_ranges = [(0, 59), (0, 23), (1, 31), (1, 12), (0, 7)]"

definition max_scan_minutes :: int where
  "max_scan_minutes = 14 * 24 * 60"

text \<open>\<open>range(start, end + 1, step)\<close> for a positive step.\<close>

definition py_range_incl :: "int \<Rightarrow> int \<Rightarrow> int \<Rightarrow> int list" where
  "py_range_incl st en step =
     (if st \<le> en then map (\<lambda>i. st + int i * step) [0..<Suc (nat ((en - st) div step))] else [])"

fun add_values :: "int \<Rightarrow> int \<Rightarrow> int list \<Rightarrow> int set \<Rightarrow> cron_error + int set" where
  "add_values lo hi [] acc = Inr acc"
| "add_values lo hi (v # vs) acc =
     (if v < lo \<or> v > hi then Inl (OutOfRange v lo hi) else add_values lo hi vs (insert v acc))"

text \<open>The base and the step of one list element: \<open>base/step\<close>, step 1 when there is no slash.\<close>

definition part_step :: "string \<Rightarrow> cron_error + string \<times> int" where
  "part_step part =
     (if CHR ''/'' \<in> set part then
        (case py_int (after_char CHR ''/'' part) of
           None \<Rightarrow> Inl (BadStep part)
         | Some k \<Rightarrow> (if k \<le> 0 then Inl (StepNotPositive part)
                      else Inr (before_char CHR ''/'' part, k)))
      else Inr (part, 1))"

definition part_bounds :: "int \<Rightarrow> int \<Rightarrow> string \<Rightarrow> string \<Rightarrow> cron_error + int \<times> int" where
  "part_bounds lo hi part base =
     (if base = ''*'' then Inr (lo, hi)
      else if CHR ''-'' \<in> set base then
        (case (py_int (before_char CHR ''-'' base), py_int (after_char CHR ''-'' base)) of
           (Some a, Some b) \<Rightarrow> Inr (a, b)
         | _ \<Rightarrow> Inl (BadRange part))
      else (case py_int base of None \<Rightarrow> Inl (BadValue part) | Some a \<Rightarrow> Inr (a, a)))"

fun parse_parts :: "int \<Rightarrow> int \<Rightarrow> string list \<Rightarrow> int set \<Rightarrow> cron_error + int set" where
  "parse_parts lo hi [] acc = Inr acc"
| "parse_parts lo hi (p # ps) acc =
     (let part = strip p in
      if part = [] then Inl EmptyListElement
      else (case part_step part of Inl e \<Rightarrow> Inl e | Inr (base, step) \<Rightarrow>
        (case part_bounds lo hi part base of Inl e \<Rightarrow> Inl e | Inr (st, en) \<Rightarrow>
          if st > en then Inl (OutOfOrder part)
          else (case add_values lo hi (py_range_incl st en step) acc of
                  Inl e \<Rightarrow> Inl e
                | Inr acc' \<Rightarrow> parse_parts lo hi ps acc'))))"

definition parse_field :: "string \<Rightarrow> int \<Rightarrow> int \<Rightarrow> cron_error + cron_field" where
  "parse_field tok lo hi =
     (let t = strip tok in
      if t = [] then Inl EmptyField
      else let is_wild = (t = ''*'' \<or> take 2 t = ''*/'') in
        (case parse_parts lo hi (split_on CHR '','' t) {} of
           Inl e \<Rightarrow> Inl e
         | Inr vs \<Rightarrow> (if vs = {} then Inl (MatchedNothing t) else Inr (vs, is_wild))))"

fun parse_fields :: "(string \<times> int \<times> int) list \<Rightarrow> cron_error + cron_field list" where
  "parse_fields [] = Inr []"
| "parse_fields ((tok, lo, hi) # rest) =
     (case parse_field tok lo hi of Inl e \<Rightarrow> Inl e
      | Inr f \<Rightarrow> (case parse_fields rest of Inl e \<Rightarrow> Inl e | Inr fs \<Rightarrow> Inr (f # fs)))"

definition normalize_dow :: "cron_field \<Rightarrow> cron_field" where
  "normalize_dow f = (case f of (vs, w) \<Rightarrow>
     ((if 7 \<in> vs then (\<lambda>v. if v = 7 then 0 else v) ` vs else vs), w))"

definition parse_cron :: "string \<Rightarrow> cron_error + cron_field list" where
  "parse_cron expr =
     (let fields = split_ws expr in
      if length fields \<noteq> 5 then Inl (WrongFieldCount (length fields))
      else (case parse_fields (zip fields field_ranges) of
              Inl e \<Rightarrow> Inl e
            | Inr parsed \<Rightarrow> Inr (parsed[4 := normalize_dow (parsed ! 4)])))"

section \<open>Matching a local time\<close>

record civil =
  cv_minute :: int
  cv_hour :: int
  cv_day :: int
  cv_month :: int
  cv_isoweekday :: int  \<comment> \<open>Monday 1 .. Sunday 7\<close>

definition civil_of :: "int \<Rightarrow> civil" where
  "civil_of t =
     (let day = t div usec_per_day; r = t mod usec_per_day in
      case ord2ymd (day + 1) of (y, m, d) \<Rightarrow>
        \<lparr> cv_minute = r div usec_per_min mod 60, cv_hour = r div usec_per_hour,
          cv_day = d, cv_month = m, cv_isoweekday = day mod 7 + 1 \<rparr>)"

definition cron_dow :: "civil \<Rightarrow> int" where
  "cron_dow dt = cv_isoweekday dt mod 7"

definition matches :: "cron_field list \<Rightarrow> civil \<Rightarrow> bool" where
  "matches parsed dt =
     (let (minute_v, _) = parsed ! 0; (hour_v, _) = parsed ! 1; (dom_v, dom_wild) = parsed ! 2;
          (month_v, _) = parsed ! 3; (dow_v, dow_wild) = parsed ! 4 in
      if cv_minute dt \<notin> minute_v then False
      else if cv_hour dt \<notin> hour_v then False
      else if cv_month dt \<notin> month_v then False
      else let dom_ok = cv_day dt \<in> dom_v; dow_ok = cron_dow dt \<in> dow_v in
        if dom_wild \<and> dow_wild then True
        else if dom_wild then dow_ok
        else if dow_wild then dom_ok
        else dom_ok \<or> dow_ok)"

section \<open>Scanning a window\<close>

definition minute_floor :: "int \<Rightarrow> int" where
  "minute_floor t = t - t mod usec_per_min"

text \<open>The second loop: step minute by minute up to \<open>en\<close>, stop at the first match.\<close>

function scan_minutes :: "(int \<Rightarrow> bool) \<Rightarrow> int \<Rightarrow> int \<Rightarrow> bool" where
  "scan_minutes hit cur en =
     (if cur \<le> en then (if hit cur then True else scan_minutes hit (cur + usec_per_min) en)
      else False)"
  by pat_completeness auto
termination
  by (relation "measure (\<lambda>(hit, cur, en). nat (en + 1 - cur))") (auto simp: usec_defs)

declare scan_minutes.simps [simp del]

text \<open>The first loop: the first minute boundary strictly after \<open>st\<close>.\<close>

function first_boundary :: "int \<Rightarrow> int \<Rightarrow> int" where
  "first_boundary cur st = (if cur \<le> st then first_boundary (cur + usec_per_min) st else cur)"
  by pat_completeness auto
termination
  by (relation "measure (\<lambda>(cur, st). nat (st + 1 - cur))") (auto simp: usec_defs)

declare first_boundary.simps [simp del]

definition resolve_zone :: "(string \<Rightarrow> (int \<Rightarrow> int) option) \<Rightarrow> string \<Rightarrow> int \<Rightarrow> int" where
  "resolve_zone zones name =
     (case zones (if name = [] then ''UTC'' else name) of Some off \<Rightarrow> off | None \<Rightarrow> (\<lambda>_. 0))"

definition cron_hit :: "(string \<Rightarrow> (int \<Rightarrow> int) option) \<Rightarrow> cron_field list \<Rightarrow> string \<Rightarrow> int \<Rightarrow> bool" where
  "cron_hit zones parsed tz_name t = matches parsed (civil_of (t + resolve_zone zones tz_name t))"

definition clamp_start :: "int \<Rightarrow> int \<Rightarrow> int" where
  "clamp_start st en =
     (if en - st > max_scan_minutes * usec_per_min then en - max_scan_minutes * usec_per_min else st)"

definition occurred_between ::
  "(string \<Rightarrow> (int \<Rightarrow> int) option) \<Rightarrow> cron_field list \<Rightarrow> string \<Rightarrow> int \<Rightarrow> int \<Rightarrow> bool" where
  "occurred_between zones parsed tz_name st en =
     (if en \<le> st then False
      else let st' = clamp_start st en in
        scan_minutes (cron_hit zones parsed tz_name) (first_boundary (minute_floor st') st') en)"

section \<open>The parser\<close>

lemma add_values_spec:
  "add_values lo hi vs acc = Inr r \<Longrightarrow> r = acc \<union> set vs \<and> (\<forall>v\<in>set vs. lo \<le> v \<and> v \<le> hi)"
  by (induction lo hi vs acc rule: add_values.induct) (auto split: if_splits)

lemma py_range_incl_nonempty: "st \<le> en \<Longrightarrow> py_range_incl st en step \<noteq> []"
  by (simp add: py_range_incl_def)

lemma parse_parts_range:
  "parse_parts lo hi ps acc = Inr r \<Longrightarrow> acc \<subseteq> r \<and> (\<forall>v\<in>r - acc. lo \<le> v \<and> v \<le> hi)"
proof (induction lo hi ps acc arbitrary: r rule: parse_parts.induct)
  case (2 lo hi p ps acc)
  from "2.prems" obtain base step st en acc' where
      "part_step (strip p) = Inr (base, step)" "part_bounds lo hi (strip p) base = Inr (st, en)"
      "strip p \<noteq> []" "\<not> st > en"
      and av: "add_values lo hi (py_range_incl st en step) acc = Inr acc'"
      and rest: "parse_parts lo hi ps acc' = Inr r"
    by (auto simp: Let_def split: if_splits sum.splits)
  then have "acc' \<subseteq> r \<and> (\<forall>v\<in>r - acc'. lo \<le> v \<and> v \<le> hi)"
    using "2.IH" by simp
  with add_values_spec [OF av] show ?case by blast
qed simp

lemma parse_parts_nonempty:
  "parse_parts lo hi ps acc = Inr r \<Longrightarrow> ps \<noteq> [] \<Longrightarrow> r \<noteq> {}"
proof (induction lo hi ps acc arbitrary: r rule: parse_parts.induct)
  case (2 lo hi p ps acc)
  from "2.prems" obtain base step st en acc' where
      "\<not> st > en" and av: "add_values lo hi (py_range_incl st en step) acc = Inr acc'"
      and rest: "parse_parts lo hi ps acc' = Inr r"
    by (auto simp: Let_def split: if_splits sum.splits)
  then have "acc' \<noteq> {}"
    using add_values_spec [OF av] py_range_incl_nonempty [of st en step] by auto
  with parse_parts_range [OF rest] show ?case by auto
qed simp

lemma parse_field_range:
  assumes "parse_field tok lo hi = Inr (vs, w)"
  shows "vs \<noteq> {} \<and> (\<forall>v\<in>vs. lo \<le> v \<and> v \<le> hi)"
  using assms parse_parts_range [of lo hi "split_on CHR '','' (strip tok)" "{}" vs]
  by (auto simp: parse_field_def Let_def split: if_splits sum.splits)

lemma parse_fields_spec:
  "parse_fields xs = Inr fs \<Longrightarrow>
    list_all2 (\<lambda>(tok, lo, hi) (vs, w). vs \<noteq> {} \<and> (\<forall>v\<in>vs. lo \<le> v \<and> v \<le> hi)) xs fs"
proof (induction xs arbitrary: fs rule: parse_fields.induct)
  case (2 tok lo hi rest)
  from "2.prems" obtain vs w fs' where f: "parse_field tok lo hi = Inr (vs, w)"
      and r: "parse_fields rest = Inr fs'" and fs: "fs = (vs, w) # fs'"
    by (auto split: sum.splits)
  from "2.IH" [OF f r] parse_field_range [OF f] show ?case by (simp add: fs)
qed simp

text \<open>A list element of the value set that survives \<open>parse_cron\<close> is one the clock can show.\<close>

definition field_ok :: "int \<Rightarrow> int \<Rightarrow> cron_field \<Rightarrow> bool" where
  "field_ok lo hi f \<longleftrightarrow> fst f \<noteq> {} \<and> (\<forall>v\<in>fst f. lo \<le> v \<and> v \<le> hi)"

lemma normalize_dow_ok: "field_ok 0 7 f \<Longrightarrow> field_ok 0 6 (normalize_dow f)"
proof -
  assume a: "field_ok 0 7 f"
  have "v \<le> 6" if "v \<in> fst f" "v \<noteq> 7" for v
  proof -
    have "v \<le> 7" using a that(1) by (simp add: field_ok_def)
    with that(2) show ?thesis by simp
  qed
  with a show ?thesis by (auto simp: field_ok_def normalize_dow_def split: prod.splits) metis
qed

lemma list5: "length xs = 5 \<Longrightarrow> \<exists>a b c d e. xs = [a, b, c, d, e]"
  by (auto simp: length_Suc_conv eval_nat_numeral)

lemma parse_cron_fields:
  assumes "parse_cron expr = Inr parsed"
  shows "length parsed = 5 \<and> field_ok 0 59 (parsed ! 0) \<and> field_ok 0 23 (parsed ! 1) \<and>
    field_ok 1 31 (parsed ! 2) \<and> field_ok 1 12 (parsed ! 3) \<and> field_ok 0 6 (parsed ! 4)"
proof -
  let ?zs = "zip (split_ws expr) field_ranges"
  from assms obtain fs where len: "length (split_ws expr) = 5" and pf: "parse_fields ?zs = Inr fs"
    and parsed: "parsed = fs[4 := normalize_dow (fs ! 4)]"
    by (auto simp: parse_cron_def Let_def split: if_splits sum.splits)
  from list5 [OF len] obtain a b c d e where ws: "split_ws expr = [a, b, c, d, e]" by blast
  note sp = parse_fields_spec [OF pf, unfolded ws field_ranges_def]
  then have "length fs = 5" by (auto dest: list_all2_lengthD)
  from list5 [OF this] obtain f0 f1 f2 f3 f4 where fs: "fs = [f0, f1, f2, f3, f4]" by blast
  have ok: "field_ok 0 59 f0" "field_ok 0 23 f1" "field_ok 1 31 f2" "field_ok 1 12 f3" "field_ok 0 7 f4"
    using sp by (auto simp: fs field_ok_def split: prod.splits)
  then show ?thesis using normalize_dow_ok [OF ok(5)] by (simp add: parsed fs)
qed

section \<open>The scan\<close>

definition boundary :: "int \<Rightarrow> bool" where
  "boundary t \<longleftrightarrow> usec_per_min dvd t"

lemma scan_minutes_iff:
  "scan_minutes hit cur en \<longleftrightarrow> (\<exists>k::nat. cur + int k * usec_per_min \<le> en \<and> hit (cur + int k * usec_per_min))"
proof (induction hit cur en rule: scan_minutes.induct)
  case (1 hit cur en)
  show ?case
  proof (cases "cur \<le> en \<and> \<not> hit cur")
    case True
    have "(\<exists>k::nat. cur + int k * usec_per_min \<le> en \<and> hit (cur + int k * usec_per_min))
      = (\<exists>k::nat. cur + usec_per_min + int k * usec_per_min \<le> en
            \<and> hit (cur + usec_per_min + int k * usec_per_min))" (is "?l = ?r")
    proof
      assume ?l
      then obtain k :: nat where k: "cur + int k * usec_per_min \<le> en" "hit (cur + int k * usec_per_min)"
        by blast
      with True obtain j where "k = Suc j" by (cases k) auto
      with k show ?r by (intro exI [of _ j]) (simp add: algebra_simps)
    next
      assume ?r
      then obtain k :: nat where "cur + usec_per_min + int k * usec_per_min \<le> en"
        "hit (cur + usec_per_min + int k * usec_per_min)" by blast
      then show ?l by (intro exI [of _ "Suc k"]) (simp add: algebra_simps)
    qed
    with True "1.IH" show ?thesis by (simp add: scan_minutes.simps [of hit cur en])
  next
    case False
    then consider "en < cur" | "cur \<le> en" "hit cur" by linarith
    then show ?thesis
    proof cases
      case 1
      then have "\<not> cur + int k * usec_per_min \<le> en" for k :: nat
        by (simp add: usec_defs)
      with 1 show ?thesis by (simp add: scan_minutes.simps [of hit cur en])
    next
      case 2
      then show ?thesis
        by (auto simp: scan_minutes.simps [of hit cur en] intro: exI [of _ 0])
    qed
  qed
qed

lemma first_boundary_floor: "first_boundary (minute_floor st) st = minute_floor st + usec_per_min"
proof -
  have "minute_floor st \<le> st" "st < minute_floor st + usec_per_min"
    by (auto simp: minute_floor_def usec_defs)
  then show ?thesis
    by (simp add: first_boundary.simps [of "minute_floor st"]
        first_boundary.simps [of "minute_floor st + usec_per_min"])
qed

lemma boundary_after:
  "(\<exists>k::nat. t = minute_floor st + usec_per_min + int k * usec_per_min) \<longleftrightarrow> boundary t \<and> st < t"
proof
  assume "\<exists>k::nat. t = minute_floor st + usec_per_min + int k * usec_per_min"
  then obtain k :: nat where k: "t = minute_floor st + usec_per_min + int k * usec_per_min" by blast
  have fl: "minute_floor st = usec_per_min * (st div usec_per_min)"
    by (simp add: minute_floor_def minus_mod_eq_mult_div)
  have "t = usec_per_min * (st div usec_per_min + 1 + int k)"
    by (simp add: k fl algebra_simps)
  moreover have "st < minute_floor st + usec_per_min" by (simp add: minute_floor_def usec_defs)
  ultimately show "boundary t \<and> st < t" using k by (auto simp: boundary_def usec_defs)
next
  assume a: "boundary t \<and> st < t"
  then obtain q where q: "t = usec_per_min * q" by (auto simp: boundary_def)
  define p where "p = st div usec_per_min"
  have fl: "minute_floor st = usec_per_min * p"
    by (simp add: minute_floor_def minus_mod_eq_mult_div p_def)
  have "minute_floor st \<le> st" by (simp add: minute_floor_def usec_defs)
  then have "usec_per_min * p < usec_per_min * q" using a q fl by simp
  then have "p + 1 \<le> q" by (simp add: usec_defs)
  then have "t = minute_floor st + usec_per_min + int (nat (q - p - 1)) * usec_per_min"
    by (simp add: q fl algebra_simps)
  then show "\<exists>k::nat. t = minute_floor st + usec_per_min + int k * usec_per_min" ..
qed

lemma scan_from_boundary:
  "scan_minutes hit (first_boundary (minute_floor st) st) en \<longleftrightarrow>
    (\<exists>t. boundary t \<and> st < t \<and> t \<le> en \<and> hit t)"
  by (simp add: scan_minutes_iff first_boundary_floor) (metis boundary_after)

lemma occurred_between_iff:
  "occurred_between zones parsed tz st en \<longleftrightarrow>
    (\<exists>t. boundary t \<and> clamp_start st en < t \<and> t \<le> en \<and> cron_hit zones parsed tz t)"
proof (cases "en \<le> st")
  case True
  then have "en \<le> clamp_start st en" by (simp add: clamp_start_def max_scan_minutes_def usec_defs)
  with True show ?thesis by (auto simp: occurred_between_def)
next
  case False
  then show ?thesis by (simp add: occurred_between_def Let_def scan_from_boundary)
qed

lemma clamp_start_id: "en - st \<le> max_scan_minutes * usec_per_min \<Longrightarrow> clamp_start st en = st"
  by (simp add: clamp_start_def)

lemma window_split:
  assumes "(a::int) \<le> b" and "b \<le> c"
  shows "(\<exists>t. P t \<and> a < t \<and> t \<le> c \<and> Q t) \<longleftrightarrow>
    (\<exists>t. P t \<and> a < t \<and> t \<le> b \<and> Q t) \<or> (\<exists>t. P t \<and> b < t \<and> t \<le> c \<and> Q t)"
proof -
  have "a < t \<and> t \<le> c \<longleftrightarrow> a < t \<and> t \<le> b \<or> b < t \<and> t \<le> c" for t
    using assms by linarith
  then show ?thesis by blast
qed

section \<open>Properties\<close>

text \<open>Every field list \<open>parse_cron\<close> accepts has five fields, each a non-empty set of values the
  clock can show: minutes 0-59, hours 0-23, days 1-31, months 1-12, weekdays 0-6, the accepted
  weekday 7 having become Sunday 0.\<close>

lemma parse_cron_in_range:
  assumes "parse_cron expr = Inr parsed"
  shows "length parsed = 5 \<and>
    (\<forall>v\<in>fst (parsed ! 0). 0 \<le> v \<and> v \<le> 59) \<and> (\<forall>v\<in>fst (parsed ! 1). 0 \<le> v \<and> v \<le> 23) \<and>
    (\<forall>v\<in>fst (parsed ! 2). 1 \<le> v \<and> v \<le> 31) \<and> (\<forall>v\<in>fst (parsed ! 3). 1 \<le> v \<and> v \<le> 12) \<and>
    (\<forall>v\<in>fst (parsed ! 4). 0 \<le> v \<and> v \<le> 6) \<and> (\<forall>i<5. fst (parsed ! i) \<noteq> {})"
proof -
  have "fst (parsed ! i) \<noteq> {}" if "i < 5" for i
  proof -
    have "i = 0 \<or> i = 1 \<or> i = 2 \<or> i = 3 \<or> i = 4" using that by auto
    then show ?thesis using parse_cron_fields [OF assms] by (auto simp: field_ok_def)
  qed
  with parse_cron_fields [OF assms] show ?thesis by (simp add: field_ok_def)
qed

definition weekday_nine :: "cron_field list" where
  "weekday_nine = [({0}, False), ({9}, False), (set [1..31], True), (set [1..12], True), ({0, 5}, False)]"

lemma parse_weekday_nine: "parse_cron ''0 9 * * 5,7'' = Inr weekday_nine"
  by code_simp

text \<open>C11: The scan of \<open>occurred_between\<close> is exact: it answers true just when some whole minute of the
  half-open window, cut to the last fourteen days, matches the expression on the rule's local
  clock. Both loops end, and no boundary is skipped or tested twice.\<close>

theorem occurred_between_exact:
  "occurred_between zones parsed tz st en \<longleftrightarrow>
    (\<exists>t. usec_per_min dvd t \<and> max st (en - max_scan_minutes * usec_per_min) < t \<and> t \<le> en \<and>
       matches parsed (civil_of (t + resolve_zone zones tz t)))"
proof -
  have "clamp_start st en = max st (en - max_scan_minutes * usec_per_min)"
    by (simp add: clamp_start_def max_def)
  then show ?thesis by (simp add: occurred_between_iff boundary_def cron_hit_def)
qed

text \<open>Adjacent windows compose: over a span of at most fourteen days, evaluating \<open>(a, c]\<close> in one go
  finds an occurrence exactly when evaluating \<open>(a, b]\<close> and then \<open>(b, c]\<close> does, so ticks neither
  lose nor invent a match at their seams.\<close>

lemma cron_windows_compose:
  assumes "a \<le> b" and "b \<le> c" and "c - a \<le> max_scan_minutes * usec_per_min"
  shows "occurred_between zones parsed tz a c \<longleftrightarrow>
    occurred_between zones parsed tz a b \<or> occurred_between zones parsed tz b c"
proof -
  have "clamp_start a c = a" "clamp_start a b = a" "clamp_start b c = b"
    using assms by (simp_all add: clamp_start_id)
  then show ?thesis
    by (simp only: occurred_between_iff window_split [OF assms(1,2)])
qed

end
