(* ===== verification/SchedEngine.thy ===== *)
theory SchedEngine
  imports SchedModels Cron
begin

text \<open>
  The firing decision of \<open>scheduler/engine.py\<close>: cooldown and daily cap, the cron trigger, and the
  quota-refresh trigger with its edge test, its two-observation debounce and the quarantine of
  backward samples. The reason text of a decision is a datatype, one constructor per message
  of the code. An observation is the dict \<open>{used_percent, resets_at, observed_at}\<close>; a missing key
  reads as \<open>None\<close>. A stored \<open>pending_refresh\<close> dict is its \<open>baseline\<close> entry, \<open>Some None\<close> when that
  entry is not a dict.
\<close>

section \<open>Usage snapshots (usage/models.py): the fields the scheduler reads\<close>

record usage_window =
  w_key :: string
  w_used :: "rat option"
  w_resets_at :: "string option"
  w_minutes :: "int option"
  w_remaining :: "rat option"
  w_total :: "rat option"

record provider_usage =
  pu_provider :: string
  pu_status :: string
  pu_windows :: "usage_window list"
  pu_fetched_at :: string
  pu_resets :: "dict option"

record observation =
  o_used :: "rat option"
  o_resets_at :: "string option"
  o_observed_at :: "string option"

record rule_state =
  last_fired_at :: "string option"
  last_eval_at :: "string option"
  runs_today :: int
  runs_today_date :: string
  last_usage :: "observation option"
  pending_refresh :: "observation option option"
  suspect_usage :: "observation option"

definition empty_state :: rule_state where
  "empty_state = \<lparr> last_fired_at = None, last_eval_at = None, runs_today = 0, runs_today_date = [],
     last_usage = None, pending_refresh = None, suspect_usage = None \<rparr>"

section \<open>Decisions\<close>

datatype reason =
    ManualTrigger
  | Cooldown
  | DailyCapReached
  | UnknownTrigger string
  | BadCron cron_error
  | CronMatch string string
  | NoCronMatch
  | NoUsage string string
  | BaselineEstablished
  | ResetAdvanced string string
  | AdvancedNotFresh rat
  | ResetsCleared string string
  | ClearedNotFresh rat
  | UsageDropped string string rat rat
  | NoRefreshEdge
  | PendingConfirmation reason
  | EmptyReason

datatype edge_kind = NoEdge | EdgeResetAdvanced | EdgeResetsCleared | EdgeUsageDropped rat rat

record fire_decision =
  fire :: bool
  fd_reason :: reason
  fd_edge :: edge_kind

definition hold :: "reason \<Rightarrow> fire_decision" where
  "hold r = \<lparr> fire = False, fd_reason = r, fd_edge = NoEdge \<rparr>"

definition go :: "reason \<Rightarrow> edge_kind \<Rightarrow> fire_decision" where
  "go r k = \<lparr> fire = True, fd_reason = r, fd_edge = k \<rparr>"

lemma fire_hold_go [simp]: "\<not> fire (hold r)" "fire (go r k)" "fd_reason (hold r) = r"
  "fd_reason (go r k) = r" "fd_edge (go r k) = k" "fd_edge (hold r) = NoEdge"
  by (simp_all add: hold_def go_def)

definition refresh_drop_margin :: rat where "refresh_drop_margin = 20"
definition refresh_low_ceiling :: rat where "refresh_low_ceiling = 15"
definition refresh_reset_epsilon :: int where "refresh_reset_epsilon = 90 * 1000000"
definition refresh_rolling_tolerance :: int where "refresh_rolling_tolerance = 300 * 1000000"

lemmas refresh_consts = refresh_drop_margin_def refresh_low_ceiling_def refresh_reset_epsilon_def
  refresh_rolling_tolerance_def

section \<open>Observing a window\<close>

fun find_window :: "usage_window list \<Rightarrow> string \<Rightarrow> usage_window option" where
  "find_window [] k = None"
| "find_window (w # ws) k = (if w_key w = k then Some w else find_window ws k)"

fun observe_window :: "provider_usage list \<Rightarrow> string \<Rightarrow> string \<Rightarrow> observation option" where
  "observe_window [] provider window_key = None"
| "observe_window (pu # rest) provider window_key =
     (if pu_provider pu = provider \<and> pu_status pu = ''ok'' then
        (case find_window (pu_windows pu) window_key of
           Some w \<Rightarrow> Some \<lparr> o_used = w_used w, o_resets_at = w_resets_at w,
                            o_observed_at = Some (pu_fetched_at pu) \<rparr>
         | None \<Rightarrow> observe_window rest provider window_key)
      else observe_window rest provider window_key)"

section \<open>The refresh edge\<close>

definition window_fresh :: "observation \<Rightarrow> bool" where
  "window_fresh cur = (case o_used cur of None \<Rightarrow> True | Some u \<Rightarrow> u \<le> refresh_low_ceiling)"

definition observed_elapsed :: "observation \<Rightarrow> observation \<Rightarrow> int option" where
  "observed_elapsed prev cur =
     (case (parse_iso (o_observed_at cur), parse_iso (o_observed_at prev)) of
        (Some c, Some p) \<Rightarrow> Some (c - p) | _ \<Rightarrow> None)"

text \<open>A reset estimate that rolls forward with the clock: not a new window.\<close>

definition rolling_estimate :: "observation \<Rightarrow> observation \<Rightarrow> int \<Rightarrow> bool" where
  "rolling_estimate prev cur reset_advance \<longleftrightarrow>
     reset_advance > refresh_reset_epsilon \<and>
     ((parse_iso (o_observed_at prev) = None \<and> parse_iso (o_observed_at cur) \<noteq> None) \<or>
      (case observed_elapsed prev cur of None \<Rightarrow> False
       | Some el \<Rightarrow> el > 0 \<and> \<bar>reset_advance - el\<bar> \<le> refresh_rolling_tolerance))"

definition usage_drop_edge :: "trigger \<Rightarrow> observation \<Rightarrow> observation \<Rightarrow> fire_decision" where
  "usage_drop_edge trig prev cur =
     (case (o_used cur, o_used prev) of
        (Some cu, Some pu) \<Rightarrow>
          (if pu - cu \<ge> refresh_drop_margin \<and> cu \<le> refresh_low_ceiling
           then go (UsageDropped (t_provider trig) (t_window_key trig) pu cu) (EdgeUsageDropped pu cu)
           else hold NoRefreshEdge)
      | _ \<Rightarrow> hold NoRefreshEdge)"

definition detect_refresh_edge :: "trigger \<Rightarrow> observation \<Rightarrow> observation \<Rightarrow> fire_decision" where
  "detect_refresh_edge trig prev cur =
     (let cur_reset = parse_iso (o_resets_at cur); prev_reset = parse_iso (o_resets_at prev);
          used = (case o_used cur of None \<Rightarrow> 0 | Some u \<Rightarrow> u) in
      case (cur_reset, prev_reset) of
        (Some c, Some p) \<Rightarrow>
          (if c - p > refresh_reset_epsilon \<and> \<not> rolling_estimate prev cur (c - p) then
             (if \<not> window_fresh cur then hold (AdvancedNotFresh used)
              else go (ResetAdvanced (t_provider trig) (t_window_key trig)) EdgeResetAdvanced)
           else usage_drop_edge trig prev cur)
      | (None, Some p) \<Rightarrow>
          (if \<not> window_fresh cur then hold (ClearedNotFresh used)
           else go (ResetsCleared (t_provider trig) (t_window_key trig)) EdgeResetsCleared)
      | _ \<Rightarrow> usage_drop_edge trig prev cur)"

section \<open>The triggers\<close>

definition eval_quota_refresh ::
  "trigger \<Rightarrow> rule_state \<Rightarrow> provider_usage list \<Rightarrow> fire_decision \<times> rule_state" where
  "eval_quota_refresh trig st usage =
     (case observe_window usage (t_provider trig) (t_window_key trig) of
        None \<Rightarrow> (hold (NoUsage (t_provider trig) (t_window_key trig)), st)
      | Some cur \<Rightarrow>
        (case last_usage st of
           None \<Rightarrow> (hold BaselineEstablished, st)
         | Some prev \<Rightarrow>
           (let rearm = (\<lambda>st'. let edge = detect_refresh_edge trig prev cur in
                  if fire edge
                  then (hold (PendingConfirmation (fd_reason edge)), st'\<lparr>pending_refresh := Some (Some prev)\<rparr>)
                  else (edge, st'))
            in case pending_refresh st of
                 None \<Rightarrow> rearm st
               | Some baseline \<Rightarrow>
                   (let confirm = (case baseline of Some b \<Rightarrow> detect_refresh_edge trig b cur
                                   | None \<Rightarrow> hold EmptyReason);
                        st' = st\<lparr>pending_refresh := None\<rparr>
                    in if fire confirm then (confirm, st') else rearm st'))))"

definition cron_window_start :: "rule \<Rightarrow> rule_state \<Rightarrow> int \<Rightarrow> int \<Rightarrow> int" where
  "cron_window_start r st now tick_sec =
     (let last_eval = parse_iso (last_eval_at st);
          recent = now - (tick_sec + 30) * usec_per_sec in
      case last_eval of
        None \<Rightarrow> recent
      | Some le \<Rightarrow> (if catch_up (r_policy r) = ''run_once'' then le else max le recent))"

definition eval_cron ::
  "(string \<Rightarrow> (int \<Rightarrow> int) option) \<Rightarrow> rule \<Rightarrow> rule_state \<Rightarrow> int \<Rightarrow> int \<Rightarrow> fire_decision" where
  "eval_cron zones r st now tick_sec =
     (case parse_cron (t_cron (r_trigger r)) of
        Inl e \<Rightarrow> hold (BadCron e)
      | Inr parsed \<Rightarrow>
          (if occurred_between zones parsed (str_or (t_timezone (r_trigger r)) ''UTC'')
                (cron_window_start r st now tick_sec) now
           then go (CronMatch (t_cron (r_trigger r)) (t_timezone (r_trigger r))) NoEdge
           else hold NoCronMatch))"

definition in_cooldown :: "rule \<Rightarrow> rule_state \<Rightarrow> int \<Rightarrow> bool" where
  "in_cooldown r st now \<longleftrightarrow>
     (case parse_iso (last_fired_at st) of None \<Rightarrow> False
      | Some fired_at \<Rightarrow> now - fired_at < cooldown_sec (r_policy r) * usec_per_sec)"

definition cap_reached :: "rule \<Rightarrow> rule_state \<Rightarrow> int \<Rightarrow> bool" where
  "cap_reached r st now \<longleftrightarrow>
     runs_today_date st = date_text now \<and> runs_today st \<ge> max_runs_per_day (r_policy r)"

definition evaluate_rule ::
  "(string \<Rightarrow> (int \<Rightarrow> int) option) \<Rightarrow> rule \<Rightarrow> rule_state \<Rightarrow> int \<Rightarrow> provider_usage list \<Rightarrow> int
     \<Rightarrow> fire_decision \<times> rule_state" where
  "evaluate_rule zones r st now usage tick_sec =
     (if r_run_now r then (go ManualTrigger NoEdge, st)
      else if in_cooldown r st now then (hold Cooldown, st)
      else if cap_reached r st now then (hold DailyCapReached, st)
      else if t_type (r_trigger r) = ''cron'' then (eval_cron zones r st now tick_sec, st)
      else if t_type (r_trigger r) = ''quota_refresh'' then eval_quota_refresh (r_trigger r) st usage
      else (hold (UnknownTrigger (t_type (r_trigger r))), st))"

section \<open>The baseline\<close>

definition is_backward_jump :: "observation \<Rightarrow> observation \<Rightarrow> bool" where
  "is_backward_jump prev cur =
     (case (parse_iso (o_resets_at cur), parse_iso (o_resets_at prev)) of
        (Some c, Some p) \<Rightarrow> p - c > refresh_reset_epsilon | _ \<Rightarrow> False)"

definition advance_baseline :: "rule_state \<Rightarrow> observation \<Rightarrow> rule_state" where
  "advance_baseline st cur =
     (if (case last_usage st of None \<Rightarrow> False | Some prev \<Rightarrow> is_backward_jump prev cur)
         \<and> suspect_usage st = None
      then st\<lparr>suspect_usage := Some cur\<rparr>
      else st\<lparr>suspect_usage := None, last_usage := Some cur\<rparr>)"

text \<open>What one poll does to a quota-refresh rule's state in the daemon's tick.\<close>

definition poll ::
  "trigger \<Rightarrow> rule_state \<Rightarrow> provider_usage list \<Rightarrow> fire_decision \<times> rule_state" where
  "poll trig st usage =
     (case eval_quota_refresh trig st usage of (d, st') \<Rightarrow>
        (d, case observe_window usage (t_provider trig) (t_window_key trig) of
              None \<Rightarrow> st' | Some obs \<Rightarrow> advance_baseline st' obs))"

section \<open>Lemmas\<close>

lemma is_backward_jump_no_advance:
  assumes "is_backward_jump prev cur"
  shows "detect_refresh_edge trig prev cur = usage_drop_edge trig prev cur"
  using assms
  by (auto simp: is_backward_jump_def detect_refresh_edge_def refresh_consts Let_def
      split: option.splits)

lemma rearm_result:
  "fire (fst (let edge = detect_refresh_edge trig prev cur in
     if fire edge then (hold (PendingConfirmation (fd_reason edge)), f st) else (edge, st))) = False"
  by (simp add: Let_def)

lemma eval_quota_fires_iff:
  "fire (fst (eval_quota_refresh trig st usage)) \<longleftrightarrow>
     (\<exists>cur prev b. observe_window usage (t_provider trig) (t_window_key trig) = Some cur \<and>
        last_usage st = Some prev \<and> pending_refresh st = Some (Some b) \<and>
        fire (detect_refresh_edge trig b cur))"
  by (auto simp: eval_quota_refresh_def Let_def split: option.splits)

lemma eval_quota_frame:
  assumes "eval_quota_refresh trig st usage = (d, st')"
  shows "last_usage st' = last_usage st" "suspect_usage st' = suspect_usage st"
    "last_fired_at st' = last_fired_at st" "runs_today st' = runs_today st"
    "runs_today_date st' = runs_today_date st" "last_eval_at st' = last_eval_at st"
  using assms by (auto simp: eval_quota_refresh_def Let_def split: option.splits if_splits)

lemma eval_quota_pending:
  assumes "eval_quota_refresh trig st usage = (d, st')"
    and "observe_window usage (t_provider trig) (t_window_key trig) = Some cur"
    and "last_usage st = Some prev"
    and "\<not> fire d"
  shows "pending_refresh st' =
    (if fire (detect_refresh_edge trig prev cur) then Some (Some prev) else None)"
  using assms by (auto simp: eval_quota_refresh_def Let_def split: option.splits if_splits)

lemma advance_baseline_frame:
  "pending_refresh (advance_baseline st cur) = pending_refresh st"
  "last_fired_at (advance_baseline st cur) = last_fired_at st"
  "runs_today (advance_baseline st cur) = runs_today st"
  "runs_today_date (advance_baseline st cur) = runs_today_date st"
  by (simp_all add: advance_baseline_def)

lemma evaluate_frame:
  assumes "evaluate_rule zones r st now usage tick = (d, st')"
  shows "last_fired_at st' = last_fired_at st" "runs_today st' = runs_today st"
    "runs_today_date st' = runs_today_date st" "last_usage st' = last_usage st"
    "suspect_usage st' = suspect_usage st"
proof -
  consider "st' = st" | "eval_quota_refresh (r_trigger r) st usage = (d, st')"
    using assms by (simp add: evaluate_rule_def split: if_splits)
  then have "last_fired_at st' = last_fired_at st \<and> runs_today st' = runs_today st \<and>
    runs_today_date st' = runs_today_date st \<and> last_usage st' = last_usage st \<and>
    suspect_usage st' = suspect_usage st"
    by cases (simp_all add: eval_quota_frame)
  then show "last_fired_at st' = last_fired_at st" "runs_today st' = runs_today st"
    "runs_today_date st' = runs_today_date st" "last_usage st' = last_usage st"
    "suspect_usage st' = suspect_usage st"
    by simp_all
qed

lemma evaluate_fire_guards:
  assumes "fire (fst (evaluate_rule zones r st now usage tick))" and "\<not> r_run_now r"
  shows "\<not> in_cooldown r st now" "\<not> cap_reached r st now"
  using assms by (auto simp: evaluate_rule_def split: if_splits)

section \<open>Polls\<close>

lemma edge_fresh: "fire (detect_refresh_edge trig prev cur) \<Longrightarrow> window_fresh cur"
  by (auto simp: detect_refresh_edge_def usage_drop_edge_def window_fresh_def Let_def
      split: option.splits if_splits)

lemma edge_needs_change:
  "o_resets_at cur = o_resets_at prev \<Longrightarrow>
    detect_refresh_edge trig prev cur = usage_drop_edge trig prev cur"
  by (simp add: detect_refresh_edge_def refresh_consts Let_def split: option.splits)

lemma poll_fst: "fst (poll trig st u) = fst (eval_quota_refresh trig st u)"
  by (simp add: poll_def split: prod.splits)

lemma poll_snd:
  "observe_window u (t_provider trig) (t_window_key trig) = Some c \<Longrightarrow>
    snd (poll trig st u) = advance_baseline (snd (eval_quota_refresh trig st u)) c"
  "observe_window u (t_provider trig) (t_window_key trig) = None \<Longrightarrow>
    snd (poll trig st u) = snd (eval_quota_refresh trig st u)"
  by (simp_all add: poll_def split: prod.splits)

lemma eval_quota_unarmed:
  assumes "pending_refresh st = None" and "last_usage st = Some prev"
    and "observe_window u (t_provider trig) (t_window_key trig) = Some c"
  shows "snd (eval_quota_refresh trig st u) =
      (if fire (detect_refresh_edge trig prev c) then st\<lparr>pending_refresh := Some (Some prev)\<rparr> else st)"
    and "\<not> fire (fst (eval_quota_refresh trig st u))"
  using assms by (simp_all add: eval_quota_refresh_def Let_def)

lemma eval_quota_no_obs:
  "observe_window u (t_provider trig) (t_window_key trig) = None \<Longrightarrow>
    snd (eval_quota_refresh trig st u) = st"
  "last_usage st = None \<Longrightarrow> snd (eval_quota_refresh trig st u) = st"
  by (auto simp: eval_quota_refresh_def split: option.splits)

lemma unarmed_no_fire: "pending_refresh st = None \<Longrightarrow> \<not> fire (fst (poll trig st u))"
  by (simp add: poll_fst eval_quota_fires_iff)

section \<open>Properties\<close>

definition demo_trigger :: trigger where
  "demo_trigger = \<lparr> t_type = ''quota_refresh'', t_cron = [], t_timezone = ''UTC'',
     t_provider = ''codex'', t_window_key = ''5h'' \<rparr>"

definition demo_usage :: "rat \<Rightarrow> string \<Rightarrow> string \<Rightarrow> provider_usage list" where
  "demo_usage used resets fetched =
     [\<lparr> pu_provider = ''codex'', pu_status = ''ok'',
        pu_windows = [\<lparr> w_key = ''5h'', w_used = Some used, w_resets_at = Some resets,
                        w_minutes = Some 300, w_remaining = None, w_total = None \<rparr>],
        pu_fetched_at = fetched, pu_resets = None \<rparr>]"

definition demo_obs :: "rat \<Rightarrow> string \<Rightarrow> string \<Rightarrow> observation" where
  "demo_obs used resets fetched =
     \<lparr> o_used = Some used, o_resets_at = Some resets, o_observed_at = Some fetched \<rparr>"

definition demo_state :: rule_state where
  "demo_state = empty_state\<lparr>last_usage :=
     Some (demo_obs 80 ''2026-01-01T05:00:00Z'' ''2026-01-01T04:58:00Z'')\<rparr>"

lemma demo_observe [simp]:
  "observe_window (demo_usage u r f) (t_provider demo_trigger) (t_window_key demo_trigger) = Some (demo_obs u r f)"
  by (simp add: demo_usage_def demo_trigger_def demo_obs_def)

lemma demo_texts:
  "parse_iso (Some ''2026-01-01T00:00:00Z'') = Some 63902822400000000"
  "parse_iso (Some ''2026-01-01T05:00:00Z'') = Some 63902840400000000"
  "parse_iso (Some ''2026-01-01T10:00:00Z'') = Some 63902858400000000"
  "parse_iso (Some ''2026-01-01T04:58:00Z'') = Some 63902840280000000"
  "parse_iso (Some ''2026-01-01T05:01:00Z'') = Some 63902840460000000"
  "parse_iso (Some ''2026-01-01T05:02:00Z'') = Some 63902840520000000"
  by code_simp+

lemmas demo_defs = demo_state_def demo_obs_def demo_texts detect_refresh_edge_def usage_drop_edge_def
  rolling_estimate_def observed_elapsed_def window_fresh_def refresh_consts Let_def

lemma demo_first_edge:
  "fire (detect_refresh_edge demo_trigger (demo_obs 80 ''2026-01-01T05:00:00Z'' ''2026-01-01T04:58:00Z'')
     (demo_obs 1 ''2026-01-01T10:00:00Z'' ''2026-01-01T05:01:00Z''))"
  "fire (detect_refresh_edge demo_trigger (demo_obs 80 ''2026-01-01T05:00:00Z'' ''2026-01-01T04:58:00Z'')
     (demo_obs 2 ''2026-01-01T10:00:00Z'' ''2026-01-01T05:02:00Z''))"
  by (simp_all add: demo_defs)

text \<open>C8: A genuine reset is announced: if two consecutive polls both see an edge against the held
  baseline, the second one fires, and afterwards nothing is left pending.\<close>

theorem confirmed_refresh_fires:
  assumes "pending_refresh st = None" and "last_usage st = Some prev"
    and "observe_window u1 (t_provider trig) (t_window_key trig) = Some c1"
    and "observe_window u2 (t_provider trig) (t_window_key trig) = Some c2"
    and "fire (detect_refresh_edge trig prev c1)" and "fire (detect_refresh_edge trig prev c2)"
  shows "fire (fst (poll trig (snd (poll trig st u1)) u2)) \<and>
    pending_refresh (snd (poll trig (snd (poll trig st u1)) u2)) = None"
proof -
  let ?st1 = "snd (poll trig st u1)"
  have p: "pending_refresh ?st1 = Some (Some prev)"
    using assms by (simp add: poll_snd eval_quota_unarmed advance_baseline_frame)
  have "last_usage ?st1 \<noteq> None"
    using assms by (simp add: poll_snd eval_quota_unarmed advance_baseline_def)
  then obtain b1 where b1: "last_usage ?st1 = Some b1" by blast
  have "fst (eval_quota_refresh trig ?st1 u2) = detect_refresh_edge trig prev c2 \<and>
    pending_refresh (snd (eval_quota_refresh trig ?st1 u2)) = None"
    using p b1 assms(4,6) by (simp add: eval_quota_refresh_def Let_def)
  then show ?thesis
    using assms(4,6) by (simp add: poll_fst poll_snd advance_baseline_frame)
qed

theorem confirmed_refresh_fires_witness:
  "fire (fst (poll demo_trigger (snd (poll demo_trigger demo_state
      (demo_usage 1 ''2026-01-01T10:00:00Z'' ''2026-01-01T05:01:00Z'')))
      (demo_usage 2 ''2026-01-01T10:00:00Z'' ''2026-01-01T05:02:00Z'')))"
  by (rule confirmed_refresh_fires [THEN conjunct1, OF _ _ demo_observe demo_observe demo_first_edge])
    (simp_all add: demo_state_def empty_state_def)

text \<open>A refresh is never announced on a window that is already well used: a firing poll has just
  observed the window with usage unknown or at most the low ceiling of fifteen percent, however
  far the reset timestamp jumped.\<close>

lemma refresh_fires_only_fresh:
  assumes "fire (fst (poll trig st usage))"
  shows "\<exists>cur. observe_window usage (t_provider trig) (t_window_key trig) = Some cur \<and>
    (case o_used cur of None \<Rightarrow> True | Some used \<Rightarrow> used \<le> 15)"
proof -
  obtain cur b where "observe_window usage (t_provider trig) (t_window_key trig) = Some cur"
      "fire (detect_refresh_edge trig b cur)"
    using assms by (auto simp: poll_fst eval_quota_fires_iff)
  with edge_fresh [of trig b cur] show ?thesis
    by (auto simp: window_fresh_def refresh_low_ceiling_def split: option.splits)
qed

text \<open>One stale snapshot is harmless: a sample whose reset timestamp moved backward, with no
  usage drop, neither fires nor replaces the baseline, and when the next poll shows the held
  reset timestamp again with no usage drop, that poll does not fire or arm either and the rule is back to
  an ordinary state with the new sample as baseline.\<close>

lemma backward_glitch_is_silent:
  assumes "pending_refresh st = None" and "suspect_usage st = None" and "last_usage st = Some prev"
    and "observe_window u1 (t_provider trig) (t_window_key trig) = Some g"
    and "is_backward_jump prev g" and "\<not> fire (usage_drop_edge trig prev g)"
    and "observe_window u2 (t_provider trig) (t_window_key trig) = Some c"
    and "o_resets_at c = o_resets_at prev" and "\<not> fire (usage_drop_edge trig prev c)"
  shows "\<not> fire (fst (poll trig st u1)) \<and> last_usage (snd (poll trig st u1)) = Some prev \<and>
    \<not> fire (fst (poll trig (snd (poll trig st u1)) u2)) \<and>
    snd (poll trig (snd (poll trig st u1)) u2) = st\<lparr>last_usage := Some c\<rparr>"
proof -
  have e1: "\<not> fire (detect_refresh_edge trig prev g)"
    using assms(5,6) by (simp add: is_backward_jump_no_advance)
  have st1: "snd (poll trig st u1) = st\<lparr>suspect_usage := Some g\<rparr>"
    using assms(1-5) e1 by (simp add: poll_snd eval_quota_unarmed advance_baseline_def)
  have e2: "\<not> fire (detect_refresh_edge trig prev c)"
    using assms(8,9) by (simp add: edge_needs_change)
  have nb: "\<not> is_backward_jump prev c"
    using assms(8) by (simp add: is_backward_jump_def refresh_consts split: option.splits)
  have "snd (poll trig (st\<lparr>suspect_usage := Some g\<rparr>) u2) = st\<lparr>last_usage := Some c\<rparr>"
    using assms(1-3,7) e2 nb by (simp add: poll_snd eval_quota_unarmed advance_baseline_def)
  with st1 assms(1,3) show ?thesis by (simp add: unarmed_no_fire)
qed

lemma in_cooldown_iso:
  "valid_instant f \<Longrightarrow> last_fired_at st = Some (isoformat f) \<Longrightarrow>
    in_cooldown r st now \<longleftrightarrow> now - f < cooldown_sec (r_policy r) * usec_per_sec"
  using iso.within_age [of f now "cooldown_sec (r_policy r) * usec_per_sec"]
  by (simp add: in_cooldown_def split: option.splits)

definition every_minute_rule :: rule where
  "every_minute_rule = sample_rule\<lparr>r_trigger := (r_trigger sample_rule)\<lparr>t_cron := ''* * * * *''\<rparr>\<rparr>"

text \<open>C10: Downtime is caught up once: for a run-once cron rule last evaluated at \<open>le\<close> at most fourteen
  days ago, evaluating at \<open>now\<close> fires just when a matching minute passed since \<open>le\<close>; and splitting
  that stretch by an evaluation at \<open>m\<close> in between changes nothing, one of the two fires exactly
  when the single one would have.\<close>

theorem run_once_covers_downtime:
  assumes "parse_cron (t_cron (r_trigger r)) = Inr parsed" and "catch_up (r_policy r) = ''run_once''"
    and "valid_instant le" and "valid_instant m" and "le \<le> m" and "m \<le> now"
    and "now - le \<le> max_scan_minutes * usec_per_min"
  shows "(fire (eval_cron zones r (st\<lparr>last_eval_at := Some (isoformat le)\<rparr>) now tick) \<longleftrightarrow>
      (\<exists>t. usec_per_min dvd t \<and> le < t \<and> t \<le> now \<and>
         cron_hit zones parsed (str_or (t_timezone (r_trigger r)) ''UTC'') t)) \<and>
    (fire (eval_cron zones r (st\<lparr>last_eval_at := Some (isoformat le)\<rparr>) now tick) \<longleftrightarrow>
      fire (eval_cron zones r (st\<lparr>last_eval_at := Some (isoformat le)\<rparr>) m tick) \<or>
      fire (eval_cron zones r (st\<lparr>last_eval_at := Some (isoformat m)\<rparr>) now tick))"
proof -
  let ?tz = "str_or (t_timezone (r_trigger r)) ''UTC''"
  have f: "fire (eval_cron zones r (st\<lparr>last_eval_at := Some (isoformat a)\<rparr>) b tick) \<longleftrightarrow>
      (\<exists>t. boundary t \<and> a < t \<and> t \<le> b \<and> cron_hit zones parsed ?tz t)"
    if "valid_instant a" "b - a \<le> max_scan_minutes * usec_per_min" for a b
    using that assms(1,2)
    by (simp add: eval_cron_def cron_window_start_def parse_iso_isoformat occurred_between_iff clamp_start_id)
  have spans: "m - le \<le> max_scan_minutes * usec_per_min" "now - m \<le> max_scan_minutes * usec_per_min"
    using assms(5-7) by linarith+
  show ?thesis
    by (simp only: f [OF assms(3,7)] f [OF assms(3) spans(1)] f [OF assms(4) spans(2)]
        window_split [OF assms(5,6)] boundary_def)
qed

lemma parse_sample_cron: "parse_cron (t_cron (r_trigger sample_rule)) = Inr weekday_nine"
  by (simp add: sample_rule_def parse_weekday_nine)

theorem run_once_covers_downtime_witness:
  "fire (eval_cron (\<lambda>_. None) sample_rule
       (empty_state\<lparr>last_eval_at := Some (isoformat 63902850000000000)\<rparr>) 63902908800000000 60) \<longleftrightarrow>
    fire (eval_cron (\<lambda>_. None) sample_rule
       (empty_state\<lparr>last_eval_at := Some (isoformat 63902850000000000)\<rparr>) 63902880000000000 60) \<or>
    fire (eval_cron (\<lambda>_. None) sample_rule
       (empty_state\<lparr>last_eval_at := Some (isoformat 63902880000000000)\<rparr>) 63902908800000000 60)"
  by (rule run_once_covers_downtime [THEN conjunct2, OF parse_sample_cron])
    (simp_all add: sample_rule_def valid_instant_def max_scan_minutes_def usec_defs)

end
