(* ===== verification/Daemon.thy ===== *)
theory Daemon
  imports SchedEngine
begin

text \<open>
  The scheduler daemon of \<open>scheduler/daemon.py\<close>: one tick over the loaded rules, what a firing rule
  does, the anchoring burst per quota pool, and the reset-credit alerts. A tick reads everything
  it does not own from \<open>env\<close>: the clock, the settings, the usage snapshot, what \<open>submit\<close> answers
  and which model the live Antigravity catalog offers for a pool. Its messages to the outside
  are events, in the order the code sends them.
\<close>

section \<open>State, environment and events\<close>

datatype channel = Slack | Telegram | QQBot | Feishu | Wechat | Line | MacOS

datatype submit_outcome = Handle bool | Raised  \<comment> \<open>\<open>handle.accepted\<close>, or an exception\<close>

record run_request =
  rq_agent :: string
  rq_prompt :: string
  rq_project :: "string option"
  rq_workspace :: string
  rq_thread :: string
  rq_task_name :: string
  rq_profile :: string
  rq_mode :: string
  rq_session_policy :: string
  rq_preamble :: "bool option"
  rq_model :: "string option"

datatype event =
    ResetNote channel string
  | RunRecord string run_request submit_outcome
  | PingRecord string run_request submit_outcome
  | PingSkipped string
  | AnchorFailed channel string int
  | GrantNote channel string nat nat
  | ExpiryNote channel string

record anchor =
  an_event :: string
  an_provider :: string
  an_windows :: "string set"
  an_attempts :: int
  an_exhausted_logged :: bool

record env =
  e_now :: int
  e_zones :: "string \<Rightarrow> (int \<Rightarrow> int) option"
  e_tick_sec :: int
  e_usage :: "provider_usage list"
  e_default_executor :: string
  e_autoping :: bool
  e_max_attempts :: int
  e_enabled :: "channel \<Rightarrow> bool"
  e_menu :: "channel \<Rightarrow> bool"
  e_darwin :: bool
  e_notify_grant :: bool
  e_notify_expiry :: bool
  e_data_dir :: string
  e_submit :: "run_request \<Rightarrow> submit_outcome"
  e_ping_model :: "string \<Rightarrow> string option"
  e_fresh_id :: "string \<Rightarrow> string"
  e_repr :: "json \<Rightarrow> string"

record credit_state =
  cr_seen :: "string set"
  cr_notified :: "string set"
  cr_init :: bool

record daemon =
  d_rules :: "rule list"
  d_states :: "(string \<times> rule_state) list"
  d_anchors :: "(string \<times> anchor) list"
  d_credits :: credit_state

definition compute_tick :: "int \<Rightarrow> int" where
  "compute_tick usage_refresh_sec = max 15 (min usage_refresh_sec 60)"

definition should_notify :: "env \<Rightarrow> channel \<Rightarrow> bool" where
  "should_notify env c = (if c = MacOS then e_darwin env \<and> e_menu env MacOS else e_enabled env c \<and> e_menu env c)"

definition all_channels :: "channel list" where
  "all_channels = [Slack, Telegram, QQBot, Feishu, Wechat, Line, MacOS]"

definition notified :: "env \<Rightarrow> channel list" where
  "notified env = filter (should_notify env) all_channels"

section \<open>Quota pools\<close>

definition anchor_providers :: "string list" where
  "anchor_providers = [''codex'', ''antigravity'']"

definition pool_key :: "string \<Rightarrow> string \<Rightarrow> string" where
  "pool_key provider window_key =
     (if provider = ''antigravity'' then
        (let key = lower window_key in
         if contains ''external'' key then ''antigravity:external''
         else if contains ''gemini'' key then ''antigravity:gemini''
         else provider)
      else provider)"

definition pool_provider :: "string \<Rightarrow> string" where
  "pool_provider pk = before_char CHR '':'' pk"

definition pool_model :: "env \<Rightarrow> string \<Rightarrow> string option" where
  "pool_model env pk = (if prefix ''antigravity:'' pk then e_ping_model env pk else None)"

definition pool_matches_window :: "string \<Rightarrow> usage_window \<Rightarrow> bool" where
  "pool_matches_window pk w =
     (if CHR '':'' \<notin> set pk then True else contains (after_char CHR '':'' pk) (lower (w_key w)))"

definition anchor_tolerance :: int where "anchor_tolerance = 30 * 1000000"

definition window_anchored :: "int \<Rightarrow> provider_usage \<Rightarrow> usage_window \<Rightarrow> bool" where
  "window_anchored now pu w =
     (let win = (case w_minutes w of None \<Rightarrow> 0 | Some m \<Rightarrow> m) * usec_per_min;
          fetched = (case parse_iso (Some (pu_fetched_at pu)) of None \<Rightarrow> now | Some f \<Rightarrow> f) in
      case parse_iso (w_resets_at w) of
        None \<Rightarrow> False
      | Some reset \<Rightarrow> win > 0 \<and> \<not> reset - fetched \<ge> win - anchor_tolerance)"

fun anchored_windows :: "int \<Rightarrow> string set \<Rightarrow> provider_usage \<Rightarrow> usage_window list \<Rightarrow> string set option" where
  \<comment> \<open>the inner loop: \<open>None\<close> is \<open>return False\<close>, otherwise the keys found\<close>
  "anchored_windows now keys pu [] = Some {}"
| "anchored_windows now keys pu (w # ws) =
     (if w_key w \<in> keys
      then (if window_anchored now pu w
            then map_option (insert (w_key w)) (anchored_windows now keys pu ws) else None)
      else anchored_windows now keys pu ws)"

fun anchored_scan :: "int \<Rightarrow> string \<Rightarrow> string set \<Rightarrow> provider_usage list \<Rightarrow> string set option" where
  "anchored_scan now provider keys [] = Some {}"
| "anchored_scan now provider keys (pu # rest) =
     (if pu_provider pu \<noteq> provider \<or> pu_status pu \<noteq> ''ok'' then anchored_scan now provider keys rest
      else (case anchored_windows now keys pu (pu_windows pu) of
              None \<Rightarrow> None
            | Some found \<Rightarrow> map_option (\<lambda>s. found \<union> s) (anchored_scan now provider keys rest)))"

definition pool_anchored :: "provider_usage list \<Rightarrow> string \<Rightarrow> string set \<Rightarrow> int \<Rightarrow> bool" where
  "pool_anchored usage pk keys now =
     (case anchored_scan now (pool_provider pk) keys usage of None \<Rightarrow> False | Some found \<Rightarrow> keys \<subseteq> found)"

definition resets_later :: "int \<Rightarrow> usage_window \<Rightarrow> bool" where
  "resets_later now w = (case parse_iso (w_resets_at w) of None \<Rightarrow> False | Some r \<Rightarrow> r > now)"

definition at_cap :: "usage_window \<Rightarrow> bool" where
  "at_cap w = (case w_used w of None \<Rightarrow> False | Some u \<Rightarrow> u \<ge> 99)"

definition pool_exhausted :: "provider_usage list \<Rightarrow> string \<Rightarrow> int \<Rightarrow> bool" where
  "pool_exhausted usage pk now =
     list_ex (\<lambda>pu. pu_provider pu = pool_provider pk \<and>
        list_ex (\<lambda>w. pool_matches_window pk w \<and> at_cap w \<and> resets_later now w) (pu_windows pu)) usage"

section \<open>Exhausted providers\<close>

definition balance_spent :: "usage_window \<Rightarrow> bool" where
  "balance_spent w = (case (w_remaining w, w_total w) of (Some r, Some t) \<Rightarrow> t > 0 \<and> r \<le> 0 | _ \<Rightarrow> False)"

fun spent_window :: "int \<Rightarrow> usage_window list \<Rightarrow> usage_window option" where
  "spent_window now [] = None"
| "spent_window now (w # ws) =
     (if (at_cap w \<or> balance_spent w) \<and> resets_later now w then Some w else spent_window now ws)"

fun provider_spent :: "string \<Rightarrow> (usage_window \<Rightarrow> bool) \<Rightarrow> provider_usage list \<Rightarrow> int \<Rightarrow> usage_window option" where
  "provider_spent provider sel [] now = None"
| "provider_spent provider sel (pu # rest) now =
     (if pu_provider pu = provider
      then (case spent_window now (filter sel (pu_windows pu)) of
              Some w \<Rightarrow> Some w | None \<Rightarrow> provider_spent provider sel rest now)
      else provider_spent provider sel rest now)"

definition is_provider_exhausted ::
  "string \<Rightarrow> provider_usage list \<Rightarrow> int \<Rightarrow> bool \<times> string option" where
  "is_provider_exhausted provider usage now =
     (case provider_spent provider (\<lambda>_. True) usage now of
        None \<Rightarrow> (False, None) | Some w \<Rightarrow> (True, w_resets_at w))"

definition is_provider_exhausted_for_autoping ::
  "string \<Rightarrow> provider_usage list \<Rightarrow> int \<Rightarrow> bool \<times> string option" where
  "is_provider_exhausted_for_autoping provider usage now =
     (if provider = ''claude''
      then (case provider_spent provider (\<lambda>w. w_key w \<in> {''5h'', ''7d''}) usage now of
              None \<Rightarrow> (False, None) | Some w \<Rightarrow> (True, w_resets_at w))
      else is_provider_exhausted provider usage now)"

definition target_provider :: "env \<Rightarrow> rule \<Rightarrow> string" where
  "target_provider env r =
     (let agent = strip (a_agent (r_action r)) in
      if agent = [] \<or> agent = ''auto'' then
        (if t_type (r_trigger r) = ''quota_refresh'' \<and> t_provider (r_trigger r) \<noteq> []
         then t_provider (r_trigger r) else e_default_executor env)
      else agent)"

section \<open>Requests\<close>

definition ping_prompt :: string where
  "ping_prompt = ''Reply with a brief 'hello'. This is a keep-alive ping to open a quota window '' @
     [char_of (226::nat), char_of (128::nat), char_of (148::nat)] @ '' do not perform any other work.''"

definition ping_workspace :: "env \<Rightarrow> string" where
  "ping_workspace env = e_data_dir env @ ''/autoping_workspace''"

definition build_request :: "env \<Rightarrow> rule \<Rightarrow> run_request" where
  "build_request env r =
     (let act = r_action r;
          agent0 = strip (a_agent act);
          agent = (if agent0 = [] \<or> agent0 = ''auto'' then
                     (if t_type (r_trigger r) = ''quota_refresh'' \<and> t_provider (r_trigger r) \<noteq> []
                      then t_provider (r_trigger r) else ''auto'')
                   else agent0) in
      if a_type act = ''ping'' then
        \<lparr> rq_agent = agent, rq_prompt = str_or (strip (a_prompt act)) ping_prompt,
          rq_project = a_project act, rq_workspace = ping_workspace env,
          rq_thread = str_or (a_thread act) ''scheduler'',
          rq_task_name = (case a_task_name act of Some n \<Rightarrow> str_or n (''ping-'' @ r_id r)
                          | None \<Rightarrow> ''ping-'' @ r_id r),
          rq_profile = ''inspect'', rq_mode = ''read-only'', rq_session_policy = ''new'',
          rq_preamble = Some False,
          rq_model = (if t_provider (r_trigger r) = ''antigravity''
                      then e_ping_model env (t_window_key (r_trigger r)) else None) \<rparr>
      else
        \<lparr> rq_agent = agent, rq_prompt = a_prompt act, rq_project = a_project act,
          rq_workspace = str_or (a_workspace act) ''.'',
          rq_thread = str_or (a_thread act) ''scheduler'',
          rq_task_name = (case a_task_name act of Some n \<Rightarrow> str_or n (''sched-'' @ r_id r)
                          | None \<Rightarrow> ''sched-'' @ r_id r),
          rq_profile = str_or (a_profile act) ''inspect'', rq_mode = str_or (a_mode act) ''read-only'',
          rq_session_policy = ''auto'', rq_preamble = None, rq_model = None \<rparr>)"

definition anchor_request :: "env \<Rightarrow> string \<Rightarrow> string \<Rightarrow> string \<Rightarrow> run_request" where
  "anchor_request env pk provider event_id =
     (let safe = replace_char CHR '':'' ''-'' pk in
      \<lparr> rq_agent = provider, rq_prompt = ping_prompt, rq_project = None,
        rq_workspace = ping_workspace env, rq_thread = ''autoping-'' @ safe @ ''-'' @ event_id,
        rq_task_name = ''ping-'' @ safe, rq_profile = ''inspect'', rq_mode = ''read-only'',
        rq_session_policy = ''auto'', rq_preamble = Some False, rq_model = pool_model env pk \<rparr>)"

text \<open>\<open>_submit_anchor_ping\<close>: what it returns and the record it writes.\<close>

definition submit_anchor_ping :: "env \<Rightarrow> string \<Rightarrow> string \<Rightarrow> string \<Rightarrow> bool \<times> event list" where
  "submit_anchor_ping env pk provider event_id =
     (let rq = anchor_request env pk provider event_id in
      if provider = ''antigravity'' \<and> (rq_model rq = None \<or> rq_model rq = Some []) then (True, [PingSkipped pk])
      else (e_submit env rq = Handle True, [PingRecord pk rq (e_submit env rq)]))"

section \<open>Firing\<close>

definition fire_rule ::
  "env \<Rightarrow> bool \<Rightarrow> rule \<Rightarrow> rule_state \<Rightarrow> rule_state \<times> event list" where
  "fire_rule env do_submit r st =
     (let notes = (if t_type (r_trigger r) = ''quota_refresh''
                   then map (\<lambda>c. ResetNote c (r_id r)) (notified env) else []) in
      if \<not> do_submit then (st, notes)
      else let rq = build_request env r; res = e_submit env rq in
        (case res of
           Handle _ \<Rightarrow> st\<lparr>last_fired_at := Some (isoformat (e_now env)), runs_today := runs_today st + 1\<rparr>
         | Raised \<Rightarrow> st,
         notes @ [RunRecord (r_id r) rq res]))"

definition start_anchoring ::
  "env \<Rightarrow> bool \<Rightarrow> rule \<Rightarrow> rule_state \<Rightarrow> (string \<times> anchor) list
     \<Rightarrow> rule_state \<times> (string \<times> anchor) list \<times> event list" where
  "start_anchoring env notify r st anchors =
     (let wk = t_window_key (r_trigger r); provider = t_provider (r_trigger r);
          pk = pool_key provider wk in
      case map_of anchors pk of
        Some an \<Rightarrow> (st, AList.update pk (an\<lparr>an_windows := insert wk (an_windows an)\<rparr>) anchors, [])
      | None \<Rightarrow>
          (case (if notify then fire_rule env False r st else (st, [])) of
             (st', evs) \<Rightarrow>
               (st', AList.update pk \<lparr> an_event = e_fresh_id env pk, an_provider = provider,
                      an_windows = {wk}, an_attempts = 0, an_exhausted_logged = False \<rparr> anchors, evs)))"

definition roll_daily :: "rule_state \<Rightarrow> int \<Rightarrow> rule_state" where
  "roll_daily st now =
     (if runs_today_date st \<noteq> date_text now
      then st\<lparr>runs_today_date := date_text now, runs_today := 0\<rparr> else st)"

text \<open>What a fired decision does: notify and ping, arm a burst, defer, or submit the run.\<close>

definition handle_fire ::
  "env \<Rightarrow> rule \<Rightarrow> rule_state \<Rightarrow> (string \<times> anchor) list
     \<Rightarrow> rule_state \<times> (string \<times> anchor) list \<times> event list" where
  "handle_fire env r st anchors =
     (let provider = target_provider env r; act = a_type (r_action r);
          watched = t_provider (r_trigger r) in
      if act = ''notify'' then
        (case fire_rule env False r st of (st1, ev1) \<Rightarrow>
          if \<not> e_autoping env then (st1, anchors, ev1)
          else if watched \<in> set anchor_providers
          then (case start_anchoring env False r st1 anchors of (st2, an2, ev2) \<Rightarrow> (st2, an2, ev1 @ ev2))
          else if fst (is_provider_exhausted_for_autoping provider (e_usage env) (e_now env))
          then (st1, anchors, ev1)
          else (st1, anchors, ev1 @ snd (submit_anchor_ping env provider provider (e_fresh_id env provider))))
      else if act = ''ping'' \<and> watched \<in> set anchor_providers
      then start_anchoring env True r st anchors
      else if fst (is_provider_exhausted provider (e_usage env) (e_now env)) \<and> \<not> r_run_now r
      then (st, anchors, [])
      else (case fire_rule env True r st of (st1, ev1) \<Rightarrow> (st1, anchors, ev1)))"

definition clear_run_now :: "string \<Rightarrow> string \<Rightarrow> rule list \<Rightarrow> rule list" where
  "clear_run_now now rule_id rules =
     map (\<lambda>r. if r_id r = rule_id then r\<lparr>r_run_now := False, r_updated_at := now\<rparr> else r) rules"

text \<open>The evaluation of one rule: its state after the engine and the baseline bookkeeping.\<close>

definition evaluate_step :: "env \<Rightarrow> rule \<Rightarrow> rule_state \<Rightarrow> fire_decision \<times> rule_state" where
  "evaluate_step env r st0 =
     (case evaluate_rule (e_zones env) r (roll_daily st0 (e_now env)) (e_now env) (e_usage env) (e_tick_sec env) of
        (decision, st) \<Rightarrow>
          (let st' = (if t_type (r_trigger r) = ''quota_refresh'' then
                        (case observe_window (e_usage env) (t_provider (r_trigger r)) (t_window_key (r_trigger r)) of
                           None \<Rightarrow> st | Some obs \<Rightarrow> advance_baseline st obs)
                      else st)
           in (decision, st'\<lparr>last_eval_at := Some (isoformat (e_now env))\<rparr>)))"

definition tick_rule :: "env \<Rightarrow> rule \<Rightarrow> daemon \<Rightarrow> daemon \<times> event list" where
  "tick_rule env r d =
     (if \<not> r_enabled r \<and> \<not> r_run_now r then (d, [])
      else let st0 = (case map_of (d_states d) (r_id r) of None \<Rightarrow> empty_state | Some st \<Rightarrow> st) in
        (case evaluate_step env r st0 of (decision, st) \<Rightarrow>
          if \<not> fire decision then (d\<lparr>d_states := AList.update (r_id r) st (d_states d)\<rparr>, [])
          else (case handle_fire env r st (d_anchors d) of (st', anchors', evs) \<Rightarrow>
            (d\<lparr>d_states := AList.update (r_id r) st' (d_states d), d_anchors := anchors',
               d_rules := (if r_run_now r then clear_run_now (isoformat (e_now env)) (r_id r) (d_rules d)
                           else d_rules d)\<rparr>, evs))))"

fun tick_rules :: "env \<Rightarrow> rule list \<Rightarrow> daemon \<Rightarrow> daemon \<times> event list" where
  "tick_rules env [] d = (d, [])"
| "tick_rules env (r # rs) d =
     (case tick_rule env r d of (d1, ev1) \<Rightarrow>
        (case tick_rules env rs d1 of (d2, ev2) \<Rightarrow> (d2, ev1 @ ev2)))"

section \<open>The anchoring burst\<close>

definition failed_channels :: "channel list" where
  \<comment> \<open>the channels \<open>_notify_anchor_failed\<close> tries\<close>
  "failed_channels = [Slack, Telegram, QQBot, Feishu, Wechat, MacOS]"

definition attempt_cap :: "env \<Rightarrow> int" where
  "attempt_cap env = max 1 (e_max_attempts env)"

definition anchor_step :: "env \<Rightarrow> string \<Rightarrow> anchor \<Rightarrow> anchor option \<times> event list" where
  "anchor_step env pk an =
     (if pool_anchored (e_usage env) pk (an_windows an) (e_now env) then (None, [])
      else if pool_exhausted (e_usage env) pk (e_now env)
      then (Some (an\<lparr>an_exhausted_logged := True\<rparr>), [])
      else let an1 = an\<lparr>an_exhausted_logged := False\<rparr> in
        if an_attempts an1 \<ge> attempt_cap env
        then (None, map (\<lambda>c. AnchorFailed c pk (an_attempts an1)) (filter (should_notify env) failed_channels))
        else (case submit_anchor_ping env pk (an_provider an1) (an_event an1) of
                (ok, evs) \<Rightarrow> (Some (if ok then an1\<lparr>an_attempts := an_attempts an1 + 1\<rparr> else an1), evs)))"

fun advance_anchoring :: "env \<Rightarrow> (string \<times> anchor) list \<Rightarrow> (string \<times> anchor) list \<times> event list" where
  "advance_anchoring env [] = ([], [])"
| "advance_anchoring env ((pk, an) # rest) =
     (case anchor_step env pk an of (an', ev1) \<Rightarrow>
        (case advance_anchoring env rest of (rest', ev2) \<Rightarrow>
          ((case an' of None \<Rightarrow> rest' | Some a \<Rightarrow> (pk, a) # rest'), ev1 @ ev2)))"

section \<open>Reset credits\<close>

definition credit_id :: "env \<Rightarrow> dict \<Rightarrow> string" where
  "credit_id env c = py_str (e_repr env) (dget c ''id'')"

definition available :: "dict \<Rightarrow> bool" where
  "available c \<longleftrightarrow> dget c ''status'' = JStr ''available''"

definition valid_credits :: "json list \<Rightarrow> dict list" where
  "valid_credits cs =
     List.map_filter (\<lambda>c. case c of JDict d \<Rightarrow> (if truthy (dget d ''id'') then Some d else None) | _ \<Rightarrow> None) cs"

fun provider_credits_acc ::
  "(string \<times> dict list) list \<Rightarrow> provider_usage list \<Rightarrow> (string \<times> dict list) list" where
  "provider_credits_acc acc [] = acc"
| "provider_credits_acc acc (u # us) =
     provider_credits_acc
       (if pu_status u \<noteq> ''ok'' then acc
        else (case pu_resets u of
                None \<Rightarrow> acc
              | Some d \<Rightarrow> (case dget d ''credits'' of
                    JList cs \<Rightarrow> AList.update (pu_provider u) (valid_credits cs) acc
                  | _ \<Rightarrow> acc))) us"

definition provider_credits :: "provider_usage list \<Rightarrow> (string \<times> dict list) list" where
  "provider_credits usage = provider_credits_acc [] usage"

definition credit_ids :: "env \<Rightarrow> (string \<times> dict list) list \<Rightarrow> string set" where
  "credit_ids env pcs = set (concat (map (\<lambda>(p, cs). map (credit_id env) cs) pcs))"

definition new_grants ::
  "env \<Rightarrow> string set \<Rightarrow> (string \<times> dict list) list \<Rightarrow> (string \<times> dict list \<times> nat) list" where
  "new_grants env seen pcs =
     filter (\<lambda>(p, fresh, n). fresh \<noteq> [])
       (map (\<lambda>(p, cs). (p, filter (\<lambda>c. credit_id env c \<notin> seen \<and> available c) cs,
                          length (filter available cs))) pcs)"

definition check_credit_grant :: "env \<Rightarrow> credit_state \<Rightarrow> credit_state \<times> event list" where
  "check_credit_grant env cs =
     (let pcs = provider_credits (e_usage env); ids = credit_ids env pcs in
      if pcs = [] then (cs, [])
      else if \<not> cr_init cs then (cs\<lparr>cr_seen := ids, cr_init := True\<rparr>, [])
      else (cs\<lparr>cr_seen := cr_seen cs \<union> ids\<rparr>,
            if e_notify_grant env
            then concat (map (\<lambda>(p, fresh, n). map (\<lambda>c. GrantNote c p (length fresh) n) (notified env))
                   (new_grants env (cr_seen cs) pcs))
            else []))"

definition parse_iso_json :: "env \<Rightarrow> json \<Rightarrow> int option" where
  "parse_iso_json env v = (if truthy v then parse_iso (Some (py_str (e_repr env) v)) else None)"

definition expiring :: "env \<Rightarrow> dict \<Rightarrow> bool" where
  "expiring env c \<longleftrightarrow> available c \<and>
     (case parse_iso_json env (dget c ''expires_at'') of
        None \<Rightarrow> False
      | Some t \<Rightarrow> 0 < t - e_now env \<and> t - e_now env \<le> 86400 * usec_per_sec)"

fun expiry_loop :: "env \<Rightarrow> dict list \<Rightarrow> string set \<Rightarrow> string set \<times> event list" where
  "expiry_loop env [] seen = (seen, [])"
| "expiry_loop env (c # cs) seen =
     (if expiring env c \<and> credit_id env c \<notin> seen
      then (case expiry_loop env cs (insert (credit_id env c) seen) of
              (d, evs) \<Rightarrow> (d, map (\<lambda>ch. ExpiryNote ch (credit_id env c)) (notified env) @ evs))
      else expiry_loop env cs seen)"

definition check_credit_expiry :: "env \<Rightarrow> credit_state \<Rightarrow> credit_state \<times> event list" where
  "check_credit_expiry env cs =
     (let pcs = provider_credits (e_usage env) in
      if \<not> e_notify_expiry env \<or> pcs = [] \<or> notified env = [] then (cs, [])
      else (case expiry_loop env (concat (map snd pcs)) (cr_notified cs) of
              (d, evs) \<Rightarrow> (cs\<lparr>cr_notified := d \<inter> credit_ids env pcs\<rparr>, evs)))"

section \<open>One tick\<close>

definition tick :: "env \<Rightarrow> daemon \<Rightarrow> daemon \<times> event list" where
  "tick env d =
     (case tick_rules env (d_rules d) d of (d1, ev1) \<Rightarrow>
        (case advance_anchoring env (d_anchors d1) of (anchors', ev2) \<Rightarrow>
        (case check_credit_grant env (d_credits d1) of (cs1, ev3) \<Rightarrow>
        (case check_credit_expiry env cs1 of (cs2, ev4) \<Rightarrow>
          (d1\<lparr>d_anchors := anchors', d_credits := cs2,
              d_states := filter (\<lambda>(rid, _). rid \<in> r_id ` set (d_rules d)) (d_states d1)\<rparr>,
           ev1 @ ev2 @ ev3 @ ev4)))))"

section \<open>One rule\<close>

lemma roll_daily_simps [simp]:
  "last_fired_at (roll_daily st now) = last_fired_at st"
  "runs_today_date (roll_daily st now) = date_text now"
  by (simp_all add: roll_daily_def)

lemma evaluate_step_frame:
  assumes "evaluate_step env r st0 = (decision, st)"
  shows "last_fired_at st = last_fired_at st0"
    and "runs_today st = runs_today (roll_daily st0 (e_now env))"
    and "runs_today_date st = date_text (e_now env)"
    and "fire decision \<Longrightarrow> \<not> r_run_now r \<Longrightarrow> \<not> cap_reached r (roll_daily st0 (e_now env)) (e_now env)"
    and "fire decision \<Longrightarrow> \<not> r_run_now r \<Longrightarrow> \<not> in_cooldown r st0 (e_now env)"
proof -
  obtain st1 where ev: "evaluate_rule (e_zones env) r (roll_daily st0 (e_now env)) (e_now env)
      (e_usage env) (e_tick_sec env) = (decision, st1)"
    using assms by (auto simp: evaluate_step_def split: prod.splits)
  note fr = evaluate_frame [OF ev]
  have "last_fired_at st = last_fired_at st1 \<and> runs_today st = runs_today st1 \<and>
      runs_today_date st = runs_today_date st1"
    using assms ev by (auto simp: evaluate_step_def Let_def advance_baseline_frame split: option.splits)
  with fr show "last_fired_at st = last_fired_at st0"
    "runs_today st = runs_today (roll_daily st0 (e_now env))"
    "runs_today_date st = date_text (e_now env)" by simp_all
  show "fire decision \<Longrightarrow> \<not> r_run_now r \<Longrightarrow> \<not> cap_reached r (roll_daily st0 (e_now env)) (e_now env)"
    using evaluate_fire_guards(2) ev by (metis fst_conv)
  show "fire decision \<Longrightarrow> \<not> r_run_now r \<Longrightarrow> \<not> in_cooldown r st0 (e_now env)"
    using evaluate_fire_guards(1) ev by (metis (mono_tags, lifting) fst_conv in_cooldown_def roll_daily_simps(1))
qed

lemma fire_rule_notify [simp]: "fst (fire_rule env False r st) = st"
  by (simp add: fire_rule_def)

lemma start_anchoring_state [simp]: "fst (start_anchoring env notify r st anchors) = st"
  by (auto simp: start_anchoring_def Let_def split: option.splits prod.splits)
    (metis fire_rule_notify fst_conv)+

lemma fire_rule_state:
  "fst (fire_rule env True r st) =
     (case e_submit env (build_request env r) of
        Handle _ \<Rightarrow> st\<lparr>last_fired_at := Some (isoformat (e_now env)), runs_today := runs_today st + 1\<rparr>
      | Raised \<Rightarrow> st)"
  by (simp add: fire_rule_def Let_def)

text \<open>Which actions only notify or arm a burst, and never submit the rule itself.\<close>

definition uncounted :: "rule \<Rightarrow> bool" where
  "uncounted r \<longleftrightarrow> a_type (r_action r) = ''notify'' \<or>
     (a_type (r_action r) = ''ping'' \<and> t_provider (r_trigger r) \<in> set anchor_providers)"

lemma handle_fire_state:
  "fst (handle_fire env r st anchors) =
     (if uncounted r \<or> (fst (is_provider_exhausted (target_provider env r) (e_usage env) (e_now env)) \<and> \<not> r_run_now r)
      then st else fst (fire_rule env True r st))"
proof -
  obtain n where n: "fire_rule env False r st = (st, n)"
    by (metis fire_rule_notify prod.exhaust_sel)
  obtain s2 a2 e2 where sa: "start_anchoring env False r st anchors = (s2, a2, e2)"
    by (metis prod.exhaust_sel)
  then have s2: "s2 = st" using start_anchoring_state [of env False r st anchors] by simp
  show ?thesis
    by (auto simp: handle_fire_def uncounted_def Let_def n sa s2 split: prod.splits)
qed

lemma tick_rule_state:
  "map_of (d_states (fst (tick_rule env r d))) k =
     (if k = r_id r \<and> (r_enabled r \<or> r_run_now r)
      then (case evaluate_step env r (case map_of (d_states d) (r_id r) of None \<Rightarrow> empty_state | Some st \<Rightarrow> st) of
              (decision, st) \<Rightarrow> Some (if fire decision then fst (handle_fire env r st (d_anchors d)) else st))
      else map_of (d_states d) k)"
  by (auto simp: tick_rule_def Let_def update_conv' split: prod.splits)

definition state_of :: "daemon \<Rightarrow> rule \<Rightarrow> rule_state" where
  "state_of d r = (case map_of (d_states d) (r_id r) of None \<Rightarrow> empty_state | Some st \<Rightarrow> st)"

definition within_cap :: "rule \<Rightarrow> rule_state \<Rightarrow> bool" where
  "within_cap r st \<longleftrightarrow> runs_today st \<le> max_runs_per_day (r_policy r)"

lemma tick_rule_within_cap:
  assumes "within_cap r (state_of d r)" and "0 \<le> max_runs_per_day (r_policy r)" and "\<not> r_run_now r"
  shows "within_cap r (state_of (fst (tick_rule env r d)) r)"
proof (cases "r_enabled r")
  case False
  with assms show ?thesis by (simp add: state_of_def tick_rule_state)
next
  case True
  let ?st0 = "state_of d r"
  obtain decision st where ev: "evaluate_step env r ?st0 = (decision, st)" by (metis prod.exhaust)
  note fr = evaluate_step_frame [OF ev]
  have rolled: "within_cap r (roll_daily ?st0 (e_now env))"
    using assms(1,2) by (simp add: within_cap_def roll_daily_def)
  have new: "state_of (fst (tick_rule env r d)) r =
      (if fire decision then fst (handle_fire env r st (d_anchors d)) else st)"
    using True ev by (simp add: state_of_def [of "fst (tick_rule env r d)"] tick_rule_state state_of_def [symmetric])
  show ?thesis
  proof (cases "fire decision")
    case False
    with new rolled fr(2) show ?thesis by (simp add: within_cap_def)
  next
    case fired: True
    have "runs_today st < max_runs_per_day (r_policy r)"
      using fr(4) [OF fired assms(3)] fr(2) by (simp add: cap_reached_def)
    then show ?thesis
      using new fired by (auto simp: within_cap_def handle_fire_state fire_rule_state split: submit_outcome.split)
  qed
qed

lemma tick_rule_other: "r_id r \<noteq> r_id r' \<Longrightarrow> state_of (fst (tick_rule env r d)) r' = state_of d r'"
  by (simp add: state_of_def tick_rule_state)

lemma tick_rule_rules:
  "\<not> r_run_now r \<Longrightarrow> d_rules (fst (tick_rule env r d)) = d_rules d"
  by (auto simp: tick_rule_def Let_def split: prod.splits)

section \<open>Whole ticks\<close>

definition rails_ok :: "daemon \<Rightarrow> bool" where
  "rails_ok d \<longleftrightarrow> (\<forall>r\<in>set (d_rules d). \<not> r_run_now r \<and> 0 \<le> max_runs_per_day (r_policy r) \<and>
     within_cap r (state_of d r)) \<and> distinct (map r_id (d_rules d))"

lemma tick_rules_cap:
  assumes "distinct (map r_id rs)" and "\<forall>r\<in>set rs. \<not> r_run_now r \<and> 0 \<le> max_runs_per_day (r_policy r)"
    and "\<forall>r\<in>set rs \<union> X. within_cap r (state_of d r)" and "\<forall>r\<in>X. r_id r \<notin> r_id ` set rs"
  shows "(\<forall>r\<in>set rs \<union> X. within_cap r (state_of (fst (tick_rules env rs d)) r)) \<and>
    d_rules (fst (tick_rules env rs d)) = d_rules d"
  using assms
proof (induction rs arbitrary: d X)
  case (Cons r rs)
  let ?d1 = "fst (tick_rule env r d)"
  have r: "within_cap r (state_of ?d1 r)" using Cons.prems by (simp add: tick_rule_within_cap)
  have others: "within_cap x (state_of ?d1 x)" if "x \<in> set rs \<union> X" for x
  proof -
    have "r_id r \<noteq> r_id x" using that Cons.prems by auto
    then show ?thesis using that Cons.prems by (simp add: tick_rule_other)
  qed
  have "(\<forall>x\<in>set rs \<union> insert r X. within_cap x (state_of (fst (tick_rules env rs ?d1)) x)) \<and>
      d_rules (fst (tick_rules env rs ?d1)) = d_rules ?d1"
    by (rule Cons.IH) (use Cons.prems r others in auto)
  moreover have "fst (tick_rules env (r # rs) d) = fst (tick_rules env rs ?d1)"
    by (simp split: prod.splits)
  ultimately show ?case using Cons.prems by (simp add: tick_rule_rules)
qed simp

lemma tick_parts:
  "d_rules (fst (tick env d)) = d_rules (fst (tick_rules env (d_rules d) d))"
  "d_states (fst (tick env d)) =
     filter (\<lambda>(rid, _). rid \<in> r_id ` set (d_rules d)) (d_states (fst (tick_rules env (d_rules d) d)))"
  "d_anchors (fst (tick env d)) = fst (advance_anchoring env (d_anchors (fst (tick_rules env (d_rules d) d))))"
  "set (snd (tick env d)) = set (snd (tick_rules env (d_rules d) d)) \<union>
     set (snd (advance_anchoring env (d_anchors (fst (tick_rules env (d_rules d) d))))) \<union>
     set (snd (check_credit_grant env (d_credits (fst (tick_rules env (d_rules d) d))))) \<union>
     set (snd (check_credit_expiry env (fst (check_credit_grant env (d_credits (fst (tick_rules env (d_rules d) d)))))))"
  by (auto simp: tick_def case_prod_beta)

lemma tick_rails:
  assumes "rails_ok d"
  shows "rails_ok (fst (tick env d))"
proof -
  let ?d1 = "fst (tick_rules env (d_rules d) d)"
  have cap: "\<forall>r\<in>set (d_rules d). within_cap r (state_of ?d1 r)" and rl: "d_rules ?d1 = d_rules d"
    using tick_rules_cap [of "d_rules d" "{}" d env] assms by (auto simp: rails_ok_def)
  have rules: "d_rules (fst (tick env d)) = d_rules d"
    using rl by (simp add: tick_parts)
  have "map_of (filter (\<lambda>(rid, _). rid \<in> K) xs) k = (if k \<in> K then map_of xs k else None)"
    for K and xs :: "(string \<times> rule_state) list" and k by (induction xs) auto
  then have "state_of (fst (tick env d)) r = state_of ?d1 r" if "r \<in> set (d_rules d)" for r
    using that by (simp add: tick_parts state_of_def)
  with cap rules assms show ?thesis by (simp add: rails_ok_def)
qed

section \<open>Bursts\<close>

fun anchor_run :: "string \<Rightarrow> env list \<Rightarrow> anchor option \<Rightarrow> anchor option" where
  \<comment> \<open>the burst of one pool over the ticks of the given environments\<close>
  "anchor_run pk envs None = None"
| "anchor_run pk [] (Some an) = Some an"
| "anchor_run pk (env # envs) (Some an) = anchor_run pk envs (fst (anchor_step env pk an))"

lemma anchor_step_result:
  "fst (anchor_step env pk an) =
     (if pool_anchored (e_usage env) pk (an_windows an) (e_now env) then None
      else if pool_exhausted (e_usage env) pk (e_now env) then Some (an\<lparr>an_exhausted_logged := True\<rparr>)
      else if an_attempts an \<ge> attempt_cap env then None
      else Some (an\<lparr>an_exhausted_logged := False,
         an_attempts := an_attempts an +
           (if fst (submit_anchor_ping env pk (an_provider an) (an_event an)) then 1 else 0)\<rparr>))"
  by (simp add: anchor_step_def Let_def split: prod.splits)

text \<open>A tick on which a ping is due and is taken: the pool has room and the submission succeeds.\<close>

definition ping_taken :: "string \<Rightarrow> anchor \<Rightarrow> int \<Rightarrow> env \<Rightarrow> bool" where
  "ping_taken pk an cap env \<longleftrightarrow> attempt_cap env = cap \<and> \<not> pool_exhausted (e_usage env) pk (e_now env) \<and>
     fst (submit_anchor_ping env pk (an_provider an) (an_event an))"

lemma anchor_run_ends:
  assumes "\<forall>env\<in>set envs. ping_taken pk an cap env" and "cap - an_attempts an < int (length envs)"
    and "an_attempts an \<le> cap"
  shows "anchor_run pk envs (Some an) = None"
  using assms
proof (induction envs arbitrary: an)
  case (Cons env envs)
  have t: "ping_taken pk an cap env" using Cons.prems(1) by simp
  show ?case
  proof (cases "fst (anchor_step env pk an)")
    case None
    then show ?thesis by simp
  next
    case (Some an')
    with t have lt: "an_attempts an < cap"
      and an': "an' = an\<lparr>an_exhausted_logged := False, an_attempts := an_attempts an + 1\<rparr>"
      by (auto simp: anchor_step_result ping_taken_def split: if_splits)
    have "\<forall>e\<in>set envs. ping_taken pk an' cap e"
      using Cons.prems(1) by (simp add: an' ping_taken_def)
    then have "anchor_run pk envs (Some an') = None"
      by (rule Cons.IH) (use Cons.prems(2) lt in \<open>simp_all add: an'\<close>)
    with Some show ?thesis by simp
  qed
qed simp

lemma anchor_step_events:
  "PingRecord pk' rq res \<in> set (snd (anchor_step env pk an)) \<Longrightarrow>
    rq = anchor_request env pk (an_provider an) (an_event an)"
  by (auto simp: anchor_step_def submit_anchor_ping_def Let_def split: prod.splits if_splits)

lemma advance_events:
  "ev \<in> set (snd (advance_anchoring env anchors)) \<Longrightarrow> \<exists>(pk, an)\<in>set anchors. ev \<in> set (snd (anchor_step env pk an))"
  by (induction anchors) (fastforce split: prod.splits)+

lemma tick_rules_events:
  "ev \<in> set (snd (tick_rules env rs d)) \<Longrightarrow> \<exists>r\<in>set rs. \<exists>d'. ev \<in> set (snd (tick_rule env r d'))"
proof (induction rs arbitrary: d)
  case (Cons r rs)
  then show ?case by (simp add: case_prod_beta) blast
qed simp

lemma fire_rule_events:
  "RunRecord i rq res \<in> set (snd (fire_rule env sub r st)) \<Longrightarrow> sub \<and> rq = build_request env r"
  "PingRecord pk rq res \<notin> set (snd (fire_rule env sub r st))"
  by (auto simp: fire_rule_def Let_def split: if_splits)

lemma start_anchoring_events:
  "RunRecord i rq res \<notin> set (snd (snd (start_anchoring env notify r st anchors)))"
  "PingRecord pk rq res \<notin> set (snd (snd (start_anchoring env notify r st anchors)))"
  by (auto simp: start_anchoring_def Let_def fire_rule_def split: option.splits)

lemma handle_fire_events:
  assumes "RunRecord i rq res \<in> set (snd (snd (handle_fire env r st anchors)))"
  shows "rq = build_request env r" and "\<not> uncounted r"
    and "r_run_now r \<or> \<not> fst (is_provider_exhausted (target_provider env r) (e_usage env) (e_now env))"
  using assms fire_rule_events(1) [of i rq res env] start_anchoring_events(1) [of i rq res env]
  by (auto simp: handle_fire_def uncounted_def submit_anchor_ping_def Let_def case_prod_beta split: if_splits)

lemma handle_fire_pings:
  assumes "PingRecord pk rq res \<in> set (snd (snd (handle_fire env r st anchors)))"
  shows "\<exists>provider event_id. rq = anchor_request env pk provider event_id"
  using assms fire_rule_events(2) [of pk rq res env] start_anchoring_events(2) [of pk rq res env]
  by (auto simp: handle_fire_def submit_anchor_ping_def Let_def case_prod_beta split: if_splits)

lemma tick_rule_events:
  "ev \<in> set (snd (tick_rule env r d)) \<Longrightarrow> \<exists>st. ev \<in> set (snd (snd (handle_fire env r st (d_anchors d))))"
  by (auto simp: tick_rule_def Let_def case_prod_beta split: if_splits)

lemma credit_events:
  "ev \<in> set (snd (check_credit_grant env cs)) \<Longrightarrow> \<exists>c p a b. ev = GrantNote c p a b"
  "ev \<in> set (snd (check_credit_expiry env cs)) \<Longrightarrow> \<exists>c i. ev = ExpiryNote c i"
proof -
  show "ev \<in> set (snd (check_credit_grant env cs)) \<Longrightarrow> \<exists>c p a b. ev = GrantNote c p a b"
    by (auto simp: check_credit_grant_def Let_def split: if_splits prod.splits)
  have "ev \<in> set (snd (expiry_loop env xs seen)) \<Longrightarrow> \<exists>c i. ev = ExpiryNote c i" for xs seen
    by (induction env xs seen rule: expiry_loop.induct) (auto split: prod.splits if_splits)
  then show "ev \<in> set (snd (check_credit_expiry env cs)) \<Longrightarrow> \<exists>c i. ev = ExpiryNote c i"
    by (auto simp: check_credit_expiry_def Let_def case_prod_beta split: if_splits)
qed

lemma anchor_request_safe: "rq_mode (anchor_request env pk p i) = ''read-only'' \<and>
    rq_profile (anchor_request env pk p i) = ''inspect'' \<and> rq_workspace (anchor_request env pk p i) = ping_workspace env"
  by (simp add: anchor_request_def Let_def)

lemma build_request_ping: "a_type (r_action r) = ''ping'' \<Longrightarrow> rq_mode (build_request env r) = ''read-only'' \<and>
    rq_profile (build_request env r) = ''inspect'' \<and> rq_workspace (build_request env r) = ping_workspace env"
  by (simp add: build_request_def Let_def)

section \<open>Credits\<close>

lemma expiry_loop_seen:
  "seen \<subseteq> fst (expiry_loop env cs seen)"
  "ExpiryNote ch i \<in> set (snd (expiry_loop env cs seen)) \<Longrightarrow>
    i \<notin> seen \<and> i \<in> fst (expiry_loop env cs seen) \<and> (\<exists>c\<in>set cs. credit_id env c = i \<and> expiring env c)"
proof -
  show "seen \<subseteq> fst (expiry_loop env cs seen)"
    by (induction env cs seen rule: expiry_loop.induct) (auto split: prod.splits)
  then have mono: "s \<subseteq> fst (expiry_loop e xs s)" for s e xs
    by (induction e xs s rule: expiry_loop.induct) (auto split: prod.splits)
  show "ExpiryNote ch i \<in> set (snd (expiry_loop env cs seen)) \<Longrightarrow>
    i \<notin> seen \<and> i \<in> fst (expiry_loop env cs seen) \<and> (\<exists>c\<in>set cs. credit_id env c = i \<and> expiring env c)"
  proof (induction env cs seen rule: expiry_loop.induct)
    case (2 env c cs seen)
    let ?ins = "insert (credit_id env c) seen"
    show ?case
    proof (cases "expiring env c \<and> credit_id env c \<notin> seen")
      case True
      have "credit_id env c \<in> fst (expiry_loop env cs ?ins)" using mono [of ?ins env cs] by blast
      with True 2 show ?thesis by (auto split: prod.splits)
    next
      case False
      with 2 show ?thesis by auto
    qed
  qed simp
qed

lemma expiry_loop_alerts:
  "c \<in> set cs \<Longrightarrow> expiring env c \<Longrightarrow> credit_id env c \<notin> seen \<Longrightarrow> ch \<in> set (notified env) \<Longrightarrow>
    ExpiryNote ch (credit_id env c) \<in> set (snd (expiry_loop env cs seen))"
proof (induction env cs seen rule: expiry_loop.induct)
  case (2 env x cs seen)
  show ?case
  proof (cases "credit_id env x = credit_id env c \<and> expiring env x")
    case True
    with 2 show ?thesis by (auto split: prod.splits)
  next
    case False
    with 2 show ?thesis by (auto split: prod.splits)
  qed
qed simp

section \<open>Properties\<close>

text \<open>C12: The daily cap holds over any run of the daemon: with distinct rule ids and no manual run
  pending, if no cap is negative and every rule's count of today's runs is within its policy's cap,
  then it still is after any sequence of ticks, whatever the clock, the usage and the answers of
  \<open>submit\<close> are. A manual run is counted too, but not held back by the cap.\<close>

theorem daily_cap_holds:
  assumes "rails_ok d"
  shows "\<forall>r\<in>set (d_rules (fold (\<lambda>env d. fst (tick env d)) envs d)).
    runs_today (state_of (fold (\<lambda>env d. fst (tick env d)) envs d) r) \<le> max_runs_per_day (r_policy r)"
proof -
  have "rails_ok (fold (\<lambda>env d. fst (tick env d)) envs d)"
    using assms by (induction envs arbitrary: d) (simp_all add: tick_rails)
  then show ?thesis by (simp add: rails_ok_def within_cap_def)
qed

definition demo_env :: env where
  "demo_env = \<lparr> e_now = 63902908800000000, e_zones = (\<lambda>_. None), e_tick_sec = 60, e_usage = [],
     e_default_executor = ''codex'', e_autoping = True, e_max_attempts = 2, e_enabled = (\<lambda>_. True),
     e_menu = (\<lambda>_. True), e_darwin = False, e_notify_grant = True, e_notify_expiry = True,
     e_data_dir = ''/data'', e_submit = (\<lambda>_. Handle True), e_ping_model = (\<lambda>_. Some ''m''),
     e_fresh_id = (\<lambda>_. ''e1''), e_repr = (\<lambda>_. []) \<rparr>"

definition demo_daemon :: daemon where
  "demo_daemon = \<lparr> d_rules = [every_minute_rule], d_states = [], d_anchors = [],
     d_credits = \<lparr> cr_seen = {}, cr_notified = {}, cr_init = False \<rparr> \<rparr>"

lemma demo_rails: "rails_ok demo_daemon"
  by (simp add: rails_ok_def demo_daemon_def every_minute_rule_def sample_rule_def within_cap_def state_of_def
      empty_state_def)

theorem daily_cap_holds_witness:
  "list_all (\<lambda>r. runs_today (state_of (fold (\<lambda>env d. fst (tick env d)) [demo_env, demo_env] demo_daemon) r)
      \<le> max_runs_per_day (r_policy r))
    (d_rules (fold (\<lambda>env d. fst (tick env d)) [demo_env, demo_env] demo_daemon))"
  unfolding list_all_iff by (rule daily_cap_holds [OF demo_rails])

text \<open>The rails do not see notifications: a rule that only notifies, or pings a pool that needs
  anchoring, keeps its last fire and today's count whatever it does, so neither its cooldown nor
  its daily cap ever holds it back.\<close>

lemma notify_fires_not_counted:
  assumes "uncounted r"
  shows "last_fired_at (state_of (fst (tick_rule env r d)) r) = last_fired_at (state_of d r) \<and>
    runs_today (state_of (fst (tick_rule env r d)) r) \<le> max 0 (runs_today (state_of d r))"
proof -
  obtain decision st where ev: "evaluate_step env r (state_of d r) = (decision, st)" by (metis prod.exhaust)
  note fr = evaluate_step_frame [OF ev]
  have "state_of (fst (tick_rule env r d)) r = (if r_enabled r \<or> r_run_now r then st else state_of d r)"
    using ev assms
    by (simp add: state_of_def [of "fst (tick_rule env r d)"] tick_rule_state state_of_def [symmetric] handle_fire_state)
  with fr(1,2) show ?thesis by (auto simp: roll_daily_def)
qed

definition monitor_rule :: rule where
  "monitor_rule = sample_rule\<lparr>r_trigger := demo_trigger, r_action := (r_action sample_rule)\<lparr>a_type := ''notify''\<rparr>\<rparr>"

text \<open>C13: An anchoring burst ends: once more ticks than the attempt cap have passed on each of which
  the pool has room and the ping is taken, the burst is over, anchored or given up.\<close>

theorem burst_ends:
  assumes "\<forall>env\<in>set envs. ping_taken pk an cap env" and "cap - an_attempts an < int (length envs)"
    and "an_attempts an \<le> cap"
  shows "anchor_run pk envs (Some an) = None"
  using assms by (rule anchor_run_ends)

definition demo_anchor :: anchor where
  "demo_anchor = \<lparr> an_event = ''e1'', an_provider = ''codex'', an_windows = {''5h''}, an_attempts = 0,
     an_exhausted_logged = False \<rparr>"

theorem burst_ends_witness: "anchor_run ''codex'' [demo_env, demo_env, demo_env] (Some demo_anchor) = None"
  by (rule burst_ends [where cap = 2])
    (simp_all add: ping_taken_def demo_env_def demo_anchor_def attempt_cap_def pool_exhausted_def
      submit_anchor_ping_def Let_def)

text \<open>A burst whose submissions fail never gives up: only accepted pings count as attempts, so
  while \<open>submit\<close> raises and the pool is neither anchored nor exhausted the burst is still there
  after any number of ticks, below its cap for ever.\<close>

lemma failed_burst_never_ends:
  assumes "\<forall>env\<in>set envs. \<not> pool_anchored (e_usage env) pk (an_windows an) (e_now env) \<and>
      \<not> pool_exhausted (e_usage env) pk (e_now env) \<and> an_attempts an < attempt_cap env \<and>
      e_submit env = (\<lambda>_. Raised)"
    and "an_provider an \<noteq> ''antigravity''"
  shows "anchor_run pk envs (Some an) \<noteq> None"
  using assms
proof (induction envs arbitrary: an)
  case (Cons env envs)
  then have "fst (anchor_step env pk an) = Some (an\<lparr>an_exhausted_logged := False\<rparr>)"
    by (simp add: anchor_step_result submit_anchor_ping_def Let_def)
  then show ?case using Cons by simp
qed simp



text \<open>Pings cannot write: every keep-alive ping a tick submits, in a burst or directly, asks for
  the inspect profile in read-only mode inside the daemon's own ping directory.\<close>

lemma pings_are_read_only:
  assumes "PingRecord pk rq res \<in> set (snd (tick env d))"
  shows "rq_mode rq = ''read-only'' \<and> rq_profile rq = ''inspect'' \<and> rq_workspace rq = ping_workspace env"
proof -
  consider (rules) "PingRecord pk rq res \<in> set (snd (tick_rules env (d_rules d) d))"
    | (burst) anchors where "PingRecord pk rq res \<in> set (snd (advance_anchoring env anchors))"
    using assms credit_events by (fastforce simp: tick_parts)
  then have "\<exists>p q i. rq = anchor_request env p q i"
  proof cases
    case rules
    then show ?thesis using tick_rules_events tick_rule_events handle_fire_pings by meson
  next
    case burst
    then show ?thesis using advance_events anchor_step_events by fastforce
  qed
  then show ?thesis using anchor_request_safe by blast
qed

text \<open>One expiry alert per credit: an alert is sent only for a credit of the snapshot that is
  available, lapses within a day and was not alerted before; it is then remembered, and the next
  check on a snapshot that still lists it sends nothing for it.\<close>

lemma expiry_alert_once:
  assumes "ExpiryNote ch i \<in> set (snd (check_credit_expiry env cs))"
  shows "i \<notin> cr_notified cs \<and> i \<in> cr_notified (fst (check_credit_expiry env cs)) \<and>
    ExpiryNote ch' i \<notin> set (snd (check_credit_expiry env' (fst (check_credit_expiry env cs))))"
proof -
  let ?pcs = "provider_credits (e_usage env)"
  have ev: "ExpiryNote ch i \<in> set (snd (expiry_loop env (concat (map snd ?pcs)) (cr_notified cs)))"
    using assms by (auto simp: check_credit_expiry_def Let_def case_prod_beta split: if_splits)
  note l = expiry_loop_seen(2) [OF ev]
  then have "i \<in> credit_ids env ?pcs" by (fastforce simp: credit_ids_def)
  moreover have "fst (check_credit_expiry env cs) =
      cs\<lparr>cr_notified := fst (expiry_loop env (concat (map snd ?pcs)) (cr_notified cs)) \<inter> credit_ids env ?pcs\<rparr>"
    using assms by (auto simp: check_credit_expiry_def Let_def case_prod_beta split: if_splits)
  ultimately have seen: "i \<in> cr_notified (fst (check_credit_expiry env cs))" using l by simp
  have "ExpiryNote ch' i \<notin> set (snd (check_credit_expiry env' cs'))" if "i \<in> cr_notified cs'" for cs'
    using that expiry_loop_seen(2) [of ch' i env']
    by (auto simp: check_credit_expiry_def Let_def case_prod_beta split: if_splits)
  with seen l show ?thesis by blast
qed

definition credit_row :: "string \<Rightarrow> json" where
  "credit_row i = JDict [(''id'', JStr i), (''status'', JStr ''available''),
     (''expires_at'', JStr ''2026-01-01T05:00:00Z'')]"

definition credit_snapshot :: "string \<Rightarrow> string \<Rightarrow> provider_usage" where
  "credit_snapshot provider i = \<lparr> pu_provider = provider, pu_status = ''ok'', pu_windows = [],
     pu_fetched_at = [], pu_resets = Some [(''credits'', JList [credit_row i])] \<rparr>"

definition credit_env :: "provider_usage list \<Rightarrow> env" where
  "credit_env us = demo_env\<lparr>e_now := 63902822400000000, e_usage := us\<rparr>"

definition fresh_credits :: credit_state where
  "fresh_credits = \<lparr> cr_seen = {}, cr_notified = {}, cr_init = False \<rparr>"

lemma first_alert:
  "ExpiryNote Slack ''a'' \<in> set (snd (check_credit_expiry (credit_env [credit_snapshot ''codex'' ''a'']) fresh_credits))"
  by code_simp

text \<open>A provider missing from one snapshot makes its alerts repeat: the memory keeps only ids of the
  current snapshot, so after one check on a snapshot in which only other providers report credits
  an already alerted credit is alerted again as soon as its provider is back.\<close>

lemma expiry_alert_repeats:
  assumes "provider_credits (e_usage gap) \<noteq> []" and "i \<notin> credit_ids gap (provider_credits (e_usage gap))"
    and "e_notify_expiry gap" and "notified gap \<noteq> []"
    and "(p, cs) \<in> set (provider_credits (e_usage env))" and "c \<in> set cs" and "credit_id env c = i"
    and "expiring env c" and "e_notify_expiry env" and "ch \<in> set (notified env)"
  shows "ExpiryNote ch i \<in> set (snd (check_credit_expiry env (fst (check_credit_expiry gap st))))"
proof -
  have "i \<notin> cr_notified (fst (check_credit_expiry gap st))"
    using assms(1-4) by (simp add: check_credit_expiry_def Let_def case_prod_beta)
  moreover have "provider_credits (e_usage env) \<noteq> []" "notified env \<noteq> []" using assms(5,10) by auto
  moreover have "c \<in> set (concat (map snd (provider_credits (e_usage env))))" using assms(5,6) by force
  ultimately show ?thesis
    using expiry_loop_alerts [OF _ assms(8) _ assms(10)] assms(7,9)
    by (auto simp: check_credit_expiry_def Let_def case_prod_beta)
qed

end
