(* ===== verification/DaemonHistory.thy ===== *)
theory DaemonHistory
  imports Daemon
begin

text \<open>
  The debounce of the quota trigger over a history of the daemon's loop (\<open>scheduler/daemon.py\<close>,
  \<open>scheduler/engine.py\<close>): the rule is evaluated once a tick, may be disabled, edited, run by hand or
  held back by its rails in between, and its usage may be missing from a poll. A fire was confirmed
  by the poll just before it among those that looked at the window; what the polls that did not
  look may hide is shown by a run.
\<close>

section \<open>Polls that look and polls that do not\<close>

type_synonym rule_tick = "env \<times> rule"

definition ticked :: "rule_tick list \<Rightarrow> daemon \<Rightarrow> daemon" where
  \<comment> \<open>the daemon after the loop has passed the rule once for each entry, in its form of that tick\<close>
  "ticked ts d = fold (\<lambda>(env, r) d. fst (tick_rule env r d)) ts d"

definition observed :: "rule \<Rightarrow> env \<Rightarrow> observation option" where
  "observed r env = observe_window (e_usage env) (t_provider (r_trigger r)) (t_window_key (r_trigger r))"

definition held_back :: "env \<Rightarrow> rule \<Rightarrow> rule_state \<Rightarrow> bool" where
  "held_back env r st \<longleftrightarrow> in_cooldown r st (e_now env) \<or> cap_reached r (roll_daily st (e_now env)) (e_now env)"

definition passed_over :: "daemon \<Rightarrow> rule_tick \<Rightarrow> bool" where
  \<comment> \<open>a tick that does not compare the window: disabled, run by hand, held back, or no usage\<close>
  "passed_over d t \<longleftrightarrow> (case t of (env, r) \<Rightarrow>
     \<not> r_enabled r \<or> r_run_now r \<or> held_back env r (state_of d r) \<or> observed r env = None)"

definition same_watch :: "rule \<Rightarrow> rule_tick list \<Rightarrow> bool" where
  \<comment> \<open>entries of one quota rule that keeps its window; all else of it may be edited\<close>
  "same_watch r ts \<longleftrightarrow> t_type (r_trigger r) = ''quota_refresh'' \<and>
     list_all (\<lambda>(env, r'). r_id r' = r_id r \<and> r_trigger r' = r_trigger r) ts"

definition edge_against :: "rule \<Rightarrow> observation \<Rightarrow> env \<Rightarrow> bool" where
  "edge_against r prev env \<longleftrightarrow> (case observed r env of None \<Rightarrow> False | Some c \<Rightarrow> fire (detect_refresh_edge (r_trigger r) prev c))"

lemma same_edges: "r_trigger r' = r_trigger r \<Longrightarrow> edge_against r' prev env = edge_against r prev env"
  by (simp add: edge_against_def observed_def split: option.splits)

lemma ticked_snoc: "ticked (ts @ [t]) d = fst (tick_rule (fst t) (snd t) (ticked ts d))"
  by (simp add: ticked_def split_def)

lemma pending_handled [simp]:
  "pending_refresh (fst (handle_fire env r st an)) = pending_refresh st"
  by (auto simp: handle_fire_state fire_rule_state split: submit_outcome.split)

lemma pending_rolled [simp]:
  "pending_refresh (roll_daily st now) = pending_refresh st" "last_usage (roll_daily st now) = last_usage st"
  by (simp_all add: roll_daily_def)

lemma cooldown_rolled [simp]: "in_cooldown r (roll_daily st now) t = in_cooldown r st t"
  by (simp add: in_cooldown_def)

lemma pending_stepped:
  "pending_refresh (snd (evaluate_step env r st)) =
     pending_refresh (snd (evaluate_rule (e_zones env) r (roll_daily st (e_now env)) (e_now env) (e_usage env) (e_tick_sec env)))"
  "fst (evaluate_step env r st) =
     fst (evaluate_rule (e_zones env) r (roll_daily st (e_now env)) (e_now env) (e_usage env) (e_tick_sec env))"
  by (auto simp: evaluate_step_def Let_def advance_baseline_frame split: prod.splits option.splits)

lemma same_state: "r_id r' = r_id r \<Longrightarrow> state_of d r' = state_of d r"
  by (simp add: state_of_def)

lemma state_ticked:
  "state_of (fst (tick_rule env r d)) r =
    (if r_enabled r \<or> r_run_now r
     then (case evaluate_step env r (state_of d r) of (decision, st) \<Rightarrow>
        if fire decision then fst (handle_fire env r st (d_anchors d)) else st)
     else state_of d r)"
  by (auto simp: state_of_def [of "fst (tick_rule env r d)"] tick_rule_state state_of_def [symmetric] split: prod.splits)

lemma pending_ticked:
  "pending_refresh (state_of (fst (tick_rule env r d)) r) =
    (if r_enabled r \<or> r_run_now r then pending_refresh (snd (evaluate_step env r (state_of d r)))
     else pending_refresh (state_of d r))"
  by (simp add: state_ticked split: prod.splits)

lemma last_usage_ticked:
  "last_usage (state_of d r) \<noteq> None \<Longrightarrow> last_usage (state_of (fst (tick_rule env r d)) r) \<noteq> None"
proof -
  assume l: "last_usage (state_of d r) \<noteq> None"
  obtain decision st where ev: "evaluate_step env r (state_of d r) = (decision, st)" by (metis prod.exhaust)
  obtain st1 where "evaluate_rule (e_zones env) r (roll_daily (state_of d r) (e_now env)) (e_now env)
      (e_usage env) (e_tick_sec env) = (decision, st1)"
    using ev by (auto simp: evaluate_step_def split: prod.splits)
  with ev l evaluate_frame(4) [OF this] have "last_usage st \<noteq> None"
    by (auto simp: evaluate_step_def Let_def advance_baseline_def split: option.splits)
  with ev l show ?thesis by (auto simp: state_ticked handle_fire_state fire_rule_state split: submit_outcome.split)
qed

text \<open>A tick that is passed over keeps the latch; any other one clears it, or arms it with the baseline
  it saw an edge against.\<close>

lemma passed_over_keeps:
  assumes "passed_over d (env, r)" and "t_type (r_trigger r) = ''quota_refresh''"
  shows "pending_refresh (state_of (fst (tick_rule env r d)) r) = pending_refresh (state_of d r)"
  using assms
  by (auto simp: pending_ticked passed_over_def held_back_def observed_def pending_stepped evaluate_rule_def eval_quota_no_obs)

lemma looking_arms:
  assumes "\<not> passed_over d (env, r)" and "t_type (r_trigger r) = ''quota_refresh''"
    and "pending_refresh (state_of d r) = None \<or> last_usage (state_of d r) \<noteq> None"
  shows "pending_refresh (state_of (fst (tick_rule env r d)) r) = None \<or>
    (\<exists>prev. last_usage (state_of d r) = Some prev \<and> edge_against r prev env \<and>
      pending_refresh (state_of (fst (tick_rule env r d)) r) = Some (Some prev))"
  using assms
  by (auto simp: pending_ticked passed_over_def held_back_def observed_def edge_against_def pending_stepped evaluate_rule_def
      eval_quota_refresh_def Let_def split: option.splits if_splits)

section \<open>The history of a latch\<close>

definition armed_by :: "rule \<Rightarrow> daemon \<Rightarrow> rule_tick list \<Rightarrow> observation \<Rightarrow> bool" where
  \<comment> \<open>some tick saw an edge against \<open>prev\<close>, then the baseline, and none after it looked at the window\<close>
  "armed_by r d ts prev \<longleftrightarrow> (\<exists>before t after. ts = before @ t # after \<and> \<not> passed_over (ticked before d) t \<and>
     last_usage (state_of (ticked before d) r) = Some prev \<and> edge_against r prev (fst t) \<and>
     (\<forall>gap u rest. after = gap @ u # rest \<longrightarrow> passed_over (ticked (before @ t # gap) d) u))"

lemma armed_by_snoc:
  assumes "armed_by r d ts prev" and "passed_over (ticked ts d) u"
  shows "armed_by r d (ts @ [u]) prev"
proof -
  obtain before t after where a: "ts = before @ t # after" "\<not> passed_over (ticked before d) t"
      "last_usage (state_of (ticked before d) r) = Some prev" "edge_against r prev (fst t)"
      "\<And>gap u rest. after = gap @ u # rest \<Longrightarrow> passed_over (ticked (before @ t # gap) d) u"
    using assms(1) unfolding armed_by_def by blast
  have "passed_over (ticked (before @ t # gap) d) v" if "after @ [u] = gap @ v # rest" for gap v rest
    using that a(1,5) assms(2) by (cases rest rule: rev_cases) auto
  moreover have "ts @ [u] = before @ t # (after @ [u])" using a(1) by simp
  ultimately show ?thesis using a(2-4) unfolding armed_by_def by blast
qed

lemma latch_history:
  assumes "same_watch r ts" and "pending_refresh (state_of d r) = None"
  shows "pending_refresh (state_of (ticked ts d) r) = None \<or>
    (\<exists>prev. pending_refresh (state_of (ticked ts d) r) = Some (Some prev) \<and>
      last_usage (state_of (ticked ts d) r) \<noteq> None \<and> armed_by r d ts prev)"
  using assms(1)
proof (induction ts rule: rev_induct)
  case Nil
  then show ?case using assms(2) by (simp add: ticked_def)
next
  case (snoc u ts)
  obtain env r' where u: "u = (env, r')" by (cases u)
  have r': "r_id r' = r_id r" "r_trigger r' = r_trigger r" "same_watch r ts" "t_type (r_trigger r') = ''quota_refresh''"
    using snoc.prems u by (auto simp: same_watch_def)
  have s: "state_of (ticked (ts @ [u]) d) r = state_of (fst (tick_rule env r' (ticked ts d))) r'"
    "state_of (ticked ts d) r' = state_of (ticked ts d) r"
    using u by (simp_all add: ticked_snoc same_state [OF r'(1)])
  note IH = snoc.IH [OF r'(3)]
  show ?case
  proof (cases "passed_over (ticked ts d) u")
    case True
    then have "pending_refresh (state_of (ticked (ts @ [u]) d) r) = pending_refresh (state_of (ticked ts d) r)"
      using passed_over_keeps [of "ticked ts d" env r'] r'(4) s u by simp
    then show ?thesis using IH armed_by_snoc [OF _ True] last_usage_ticked [of "ticked ts d" r' env] s by auto
  next
    case False
    have "pending_refresh (state_of (ticked ts d) r') = None \<or> last_usage (state_of (ticked ts d) r') \<noteq> None"
      using IH s(2) by auto
    from looking_arms [OF False [unfolded u] r'(4) this]
    show ?thesis
    proof
      assume "pending_refresh (state_of (fst (tick_rule env r' (ticked ts d))) r') = None"
      then show ?thesis using s by simp
    next
      assume "\<exists>prev. last_usage (state_of (ticked ts d) r') = Some prev \<and> edge_against r' prev env \<and>
        pending_refresh (state_of (fst (tick_rule env r' (ticked ts d))) r') = Some (Some prev)"
      then obtain prev where p: "last_usage (state_of (ticked ts d) r) = Some prev" "edge_against r prev env"
          "pending_refresh (state_of (ticked (ts @ [u]) d) r) = Some (Some prev)"
        using s same_edges [OF r'(2)] by auto
      then have "armed_by r d (ts @ [u]) prev" using False u unfolding armed_by_def by fastforce
      moreover have "last_usage (state_of (ticked (ts @ [u]) d) r) \<noteq> None"
        using last_usage_ticked [of "ticked ts d" r' env] p(1) s by simp
      ultimately show ?thesis using p(3) by blast
    qed
  qed
qed

lemma quota_fire:
  assumes "fire (fst (evaluate_step env r st))" and "\<not> r_run_now r" and "t_type (r_trigger r) = ''quota_refresh''"
  shows "\<exists>b. pending_refresh st = Some (Some b) \<and> edge_against r b env \<and> \<not> held_back env r st"
  using assms
  by (auto simp: pending_stepped evaluate_rule_def eval_quota_fires_iff observed_def edge_against_def held_back_def split: if_splits)

section \<open>Properties\<close>

text \<open>C7: A quota rule fires on its own only on a confirmed refresh. Whatever happened to it since nothing was
  pending (ticks with or without usage, rails, edits of anything but its window, manual runs, being
  disabled), the firing tick sees an edge against a baseline, and an earlier tick saw an edge
  against that same baseline while it was the current one; all the ticks between the two did not
  look at the window, because the rule was disabled, run by hand or held back by its cooldown or
  daily cap, or because the poll had no usage for the window. So of the polls that look, two
  consecutive ones saw the refresh.\<close>

theorem refresh_needs_two_polls:
  assumes "same_watch r ts" and "pending_refresh (state_of d r) = None" and "\<not> r_run_now r"
    and "fire (fst (evaluate_step env r (state_of (ticked ts d) r)))"
  shows "\<exists>prev before t after. ts = before @ t # after \<and>
    last_usage (state_of (ticked before d) r) = Some prev \<and> edge_against r prev (fst t) \<and> edge_against r prev env \<and>
    \<not> passed_over (ticked before d) t \<and>
    (\<forall>gap u rest. after = gap @ u # rest \<longrightarrow> passed_over (ticked (before @ t # gap) d) u)"
proof -
  have "t_type (r_trigger r) = ''quota_refresh''" using assms(1) by (simp add: same_watch_def)
  from quota_fire [OF assms(4,3) this] latch_history [OF assms(1,2)]
  obtain prev where "edge_against r prev env" "armed_by r d ts prev" by auto
  then show ?thesis unfolding armed_by_def by blast
qed

definition watch_rule :: rule where
  "watch_rule = sample_rule\<lparr>r_trigger := demo_trigger\<rparr>"

definition watch_daemon :: daemon where
  "watch_daemon = demo_daemon\<lparr>d_rules := [watch_rule], d_states := [(''r1'', demo_state)]\<rparr>"

definition sees :: "int \<Rightarrow> provider_usage list \<Rightarrow> env" where
  "sees now usage = demo_env\<lparr>e_now := now, e_usage := usage\<rparr>"

definition reset_at :: "string \<Rightarrow> provider_usage list" where
  \<comment> \<open>the window started anew\<close>
  "reset_at = demo_usage 1 ''2026-01-01T10:00:00Z''"

definition silent_gap :: "rule_tick list" where
  \<comment> \<open>the reset is seen, and the next poll has no usage\<close>
  "silent_gap = [(sees 63902840460000000 (reset_at ''2026-01-01T05:01:00Z''), watch_rule), (sees 63902840490000000 [], watch_rule)]"

lemma silent_gap_fires:
  "fire (fst (evaluate_step (sees 63902840520000000 (reset_at ''2026-01-01T05:02:00Z'')) watch_rule
     (state_of (ticked silent_gap watch_daemon) watch_rule)))"
  by code_simp

lemma silent_gap_watch: "same_watch watch_rule silent_gap" "pending_refresh (state_of watch_daemon watch_rule) = None"
    "\<not> r_run_now watch_rule"
  by code_simp+

theorem refresh_needs_two_polls_witness:
  "list_ex (\<lambda>t. \<exists>prev. edge_against watch_rule prev (fst t)) silent_gap"
proof -
  obtain prev before t after where t: "silent_gap = before @ t # after" "edge_against watch_rule prev (fst t)"
    using refresh_needs_two_polls [OF silent_gap_watch silent_gap_fires] by blast
  have "t \<in> set silent_gap" unfolding t(1) by simp
  with t(2) show ?thesis unfolding list_ex_iff by blast
qed

text \<open>What the polls in between would have shown is not asked. Here the edge is one stale sample; the user
  runs the rule by hand, which starts its cooldown and keeps the latch; the polls inside the
  cooldown show the old window again; and one more stale sample after it is taken for the
  confirmation of the first one.\<close>

definition glitch_twice :: "rule_tick list" where
  "glitch_twice =
     [(sees 63902840460000000 (reset_at ''2026-01-01T05:01:00Z''), watch_rule),
      (sees 63902840461000000 [], watch_rule\<lparr>r_run_now := True\<rparr>),
      (sees 63902840520000000 (demo_usage 80 ''2026-01-01T05:00:00Z'' ''2026-01-01T05:02:00Z''), watch_rule),
      (sees 63902840521000000 (demo_usage 80 ''2026-01-01T05:00:00Z'' ''2026-01-01T05:02:00Z''), watch_rule)]"

lemma cooldown_hides_revert:
  "last_usage (state_of (ticked glitch_twice watch_daemon) watch_rule) = Some (demo_obs 80 ''2026-01-01T05:00:00Z'' ''2026-01-01T05:02:00Z'') \<and>
    fire (fst (evaluate_step (sees 63902850000000000 (reset_at ''2026-01-01T05:02:00Z'')) watch_rule
      (state_of (ticked glitch_twice watch_daemon) watch_rule)))"
  by code_simp

section \<open>The runs of a rule\<close>

fun ran :: "event \<Rightarrow> bool" where
  "ran (RunRecord k rq (Handle b)) = True"
| "ran ev = False"

definition submitted :: "daemon \<Rightarrow> rule_tick \<Rightarrow> bool" where
  \<comment> \<open>the tick submits a run of the rule, and \<open>submit\<close> returns a handle\<close>
  "submitted d t = (case t of (env, r) \<Rightarrow> list_ex ran (snd (tick_rule env r d)))"

fun run_times :: "daemon \<Rightarrow> rule_tick list \<Rightarrow> int list" where
  "run_times d [] = []"
| "run_times d (t # ts) = (if submitted d t then [e_now (fst t)] else []) @ run_times (fst (tick_rule (fst t) (snd t) d)) ts"

lemma run_times_snoc:
  "run_times d (ts @ [t]) = run_times d ts @ (if submitted (ticked ts d) t then [e_now (fst t)] else [])"
  by (induction ts arbitrary: d) (auto simp: ticked_def split_def)

definition would_submit :: "env \<Rightarrow> rule \<Rightarrow> bool" where
  \<comment> \<open>a fire of the rule is a run, its provider is not spent, and \<open>submit\<close> does not raise\<close>
  "would_submit env r \<longleftrightarrow> \<not> uncounted r \<and>
     (r_run_now r \<or> \<not> fst (is_provider_exhausted (target_provider env r) (e_usage env) (e_now env))) \<and>
     e_submit env (build_request env r) \<noteq> Raised"

lemma ran_fire: "list_ex ran (snd (fire_rule env True r st)) \<longleftrightarrow> e_submit env (build_request env r) \<noteq> Raised"
  by (cases "e_submit env (build_request env r)") (auto simp: fire_rule_def Let_def list_ex_iff)

lemma ran_D: "ran ev \<Longrightarrow> \<exists>k rq b. ev = RunRecord k rq (Handle b)"
  by (cases ev rule: ran.cases) simp_all

lemma ran_handled: "list_ex ran (snd (snd (handle_fire env r st an))) \<longleftrightarrow> would_submit env r"
proof (cases "uncounted r \<or> (\<not> r_run_now r \<and> fst (is_provider_exhausted (target_provider env r) (e_usage env) (e_now env)))")
  case True
  then have "\<not> list_ex ran (snd (snd (handle_fire env r st an)))"
    using handle_fire_events(2,3) [of _ _ _ env r st an] by (auto simp: list_ex_iff dest!: ran_D)
  with True show ?thesis by (auto simp: would_submit_def)
next
  case False
  then have "snd (snd (handle_fire env r st an)) = snd (fire_rule env True r st)"
    by (auto simp: handle_fire_def uncounted_def Let_def case_prod_beta)
  with False show ?thesis by (simp add: ran_fire would_submit_def)
qed

lemma submitted_iff:
  "submitted d (env, r) \<longleftrightarrow> (r_enabled r \<or> r_run_now r) \<and> fire (fst (evaluate_step env r (state_of d r))) \<and> would_submit env r"
  by (auto simp: submitted_def tick_rule_def state_of_def [symmetric] Let_def case_prod_beta ran_handled)

text \<open>What a passing of the rule leaves in its state.\<close>

lemma rails_ticked:
  assumes "submitted d (env, r)"
  shows "last_fired_at (state_of (fst (tick_rule env r d)) r) = Some (isoformat (e_now env)) \<and>
    runs_today (state_of (fst (tick_rule env r d)) r) = runs_today (roll_daily (state_of d r) (e_now env)) + 1 \<and>
    runs_today_date (state_of (fst (tick_rule env r d)) r) = date_text (e_now env)"
proof -
  obtain decision st where ev: "evaluate_step env r (state_of d r) = (decision, st)" by (metis prod.exhaust)
  have "state_of (fst (tick_rule env r d)) r = st\<lparr>last_fired_at := Some (isoformat (e_now env)), runs_today := runs_today st + 1\<rparr>"
    using assms ev
    by (cases "e_submit env (build_request env r)")
      (auto simp: submitted_iff would_submit_def state_ticked handle_fire_state fire_rule_state)
  then show ?thesis using evaluate_step_frame(2,3) [OF ev] by simp
qed

lemma rails_idle:
  assumes "\<not> submitted d (env, r)"
  shows "last_fired_at (state_of (fst (tick_rule env r d)) r) = last_fired_at (state_of d r) \<and>
    (state_of (fst (tick_rule env r d)) r = state_of d r \<or>
     runs_today (state_of (fst (tick_rule env r d)) r) = runs_today (roll_daily (state_of d r) (e_now env)) \<and>
     runs_today_date (state_of (fst (tick_rule env r d)) r) = date_text (e_now env))"
proof -
  obtain decision st where ev: "evaluate_step env r (state_of d r) = (decision, st)" by (metis prod.exhaust)
  have "state_of (fst (tick_rule env r d)) r = (if r_enabled r \<or> r_run_now r then st else state_of d r)"
    using assms ev
    by (cases "e_submit env (build_request env r)")
      (auto simp: submitted_iff would_submit_def state_ticked handle_fire_state fire_rule_state)
  then show ?thesis using evaluate_step_frame(1-3) [OF ev] by simp
qed

lemma same_day:
  assumes "valid_instant a" and "valid_instant c" and "a \<le> b" and "b \<le> c" and "date_text a = date_text c"
  shows "date_text a = date_text b"
proof -
  have "a div usec_per_day = c div usec_per_day"
    using p_date_text [OF assms(1), of "[]"] p_date_text [OF assms(2), of "[]"] assms(5) by simp
  moreover have "a div usec_per_day \<le> b div usec_per_day" "b div usec_per_day \<le> c div usec_per_day"
    using assms(3,4) by (simp_all add: zdiv_mono1 usec_defs)
  ultimately have "a div usec_per_day = b div usec_per_day" by linarith
  then show ?thesis by (simp add: date_text_def)
qed

definition clocked :: "string \<Rightarrow> rule_tick list \<Rightarrow> bool" where
  \<comment> \<open>entries of one rule, whose clock shows valid times and never goes back\<close>
  "clocked k ts \<longleftrightarrow> sorted (map (\<lambda>t. e_now (fst t)) ts) \<and> list_all (\<lambda>t. valid_instant (e_now (fst t)) \<and> r_id (snd t) = k) ts"

definition booked :: "rule_state \<Rightarrow> int list \<Rightarrow> int \<Rightarrow> bool" where
  \<comment> \<open>what the state knows of the runs at the times \<open>R\<close>, none after \<open>T\<close>\<close>
  "booked st R T \<longleftrightarrow> sorted R \<and> list_all (\<lambda>t. valid_instant t \<and> t \<le> T) R \<and>
     (R \<noteq> [] \<longrightarrow> last_fired_at st = Some (isoformat (last R)) \<and>
        (\<exists>tl. runs_today_date st = date_text tl \<and> last R \<le> tl \<and> tl \<le> T)) \<and>
     int (length (filter (\<lambda>t. date_text t = runs_today_date st) R)) \<le> runs_today st"

lemma sorted_last: "sorted R \<Longrightarrow> t \<in> set R \<Longrightarrow> t \<le> last R" for R :: "int list"
  by (induction R rule: rev_induct) (auto simp: sorted_append)

lemma booked_today:
  assumes "booked st R T" and "T \<le> now" and "valid_instant now"
  shows "int (length (filter (\<lambda>t. date_text t = date_text now) R)) \<le> runs_today (roll_daily st now)"
proof (cases "runs_today_date st = date_text now")
  case True
  then show ?thesis using assms(1) by (simp add: roll_daily_def booked_def)
next
  case False
  have "date_text t \<noteq> date_text now" if "t \<in> set R" for t
  proof
    assume d: "date_text t = date_text now"
    have "R \<noteq> []" using that by auto
    then obtain tl where tl: "runs_today_date st = date_text tl" "last R \<le> tl" "tl \<le> T"
      using assms(1) by (auto simp: booked_def)
    have "valid_instant t" "t \<le> last R" using assms(1) that sorted_last by (auto simp: booked_def list_all_iff)
    then have "date_text t = date_text tl" using tl(2,3) assms(2) by (intro same_day [OF _ assms(3) _ _ d]) simp_all
    with d tl(1) False show False by simp
  qed
  then have "filter (\<lambda>t. date_text t = date_text now) R = []" by (simp add: filter_empty_conv)
  then show ?thesis using False by (simp add: roll_daily_def)
qed

lemma booked_step:
  assumes "booked (state_of d r) R T" and "T \<le> e_now env" and "valid_instant (e_now env)"
  shows "booked (state_of (fst (tick_rule env r d)) r) (R @ (if submitted d (env, r) then [e_now env] else [])) (e_now env)"
proof -
  note today = booked_today [OF assms]
  have R: "sorted R" "\<forall>t\<in>set R. valid_instant t \<and> t \<le> e_now env" "R \<noteq> [] \<Longrightarrow> last R \<le> e_now env"
    using assms(1,2) by (auto simp: booked_def list_all_iff)
  show ?thesis
  proof (cases "submitted d (env, r)")
    case True
    then show ?thesis using rails_ticked [OF True] today R assms(3)
      by (auto simp: booked_def sorted_append list_all_iff intro!: exI [of _ "e_now env"])
  next
    case False
    from rails_idle [OF False] show ?thesis
    proof (elim conjE disjE)
      assume "state_of (fst (tick_rule env r d)) r = state_of d r"
      then show ?thesis using False assms by (force simp: booked_def list_all_iff)
    qed (use False today R assms(1) in \<open>auto simp: booked_def list_all_iff\<close>)
  qed
qed

lemma booked_history:
  assumes "clocked (r_id r) (ts @ [u])" and "0 \<le> runs_today (state_of d r)"
  shows "\<exists>T. T \<le> e_now (fst u) \<and> booked (state_of (ticked ts d) r) (run_times d ts) T"
  using assms(1)
proof (induction ts arbitrary: u rule: rev_induct)
  case Nil
  have "booked (state_of d r) [] (e_now (fst u))" using assms(2) by (simp add: booked_def)
  then show ?case by (auto simp: ticked_def)
next
  case (snoc v ts)
  obtain env r' where v: "v = (env, r')" by (cases v)
  have c: "clocked (r_id r) (ts @ [v])" "r_id r' = r_id r" "valid_instant (e_now env)" "e_now env \<le> e_now (fst u)"
    using snoc.prems v by (auto simp: clocked_def sorted_append list_all_iff)
  obtain T where T: "T \<le> e_now env" "booked (state_of (ticked ts d) r') (run_times d ts) T"
    using snoc.IH [OF c(1)] v same_state [OF c(2)] by auto
  show ?case using booked_step [OF T(2,1) c(3)] c(4) v same_state [OF c(2)] by (auto simp: run_times_snoc ticked_snoc)
qed

text \<open>C9: A rule's own runs keep its rails. In any history of a rule since its counters were not negative,
  with a clock that does not go back, whatever happened in between (other fires, manual runs, edits,
  being disabled, raising \<open>submit\<close>s): a run that the daemon submits without a manual trigger comes at
  least the rule's cooldown after every run of it submitted before, and on its day fewer runs than
  the daily cap have been submitted before, manual ones included.\<close>

theorem runs_respect_rails:
  assumes "clocked (r_id r) (ts @ [(env, r)])" and "0 \<le> runs_today (state_of d r)"
    and "submitted (ticked ts d) (env, r)" and "\<not> r_run_now r"
  shows "(\<forall>t\<in>set (run_times d ts). t + cooldown_sec (r_policy r) * 1000000 \<le> e_now env) \<and>
    int (length (filter (\<lambda>t. date_text t = date_text (e_now env)) (run_times d ts))) < max_runs_per_day (r_policy r)"
proof -
  obtain T where T: "T \<le> e_now env" "booked (state_of (ticked ts d) r) (run_times d ts) T"
    using booked_history [OF assms(1,2)] by auto
  obtain decision st where ev: "evaluate_step env r (state_of (ticked ts d) r) = (decision, st)" by (metis prod.exhaust)
  then have f: "fire decision" using assms(3) by (simp add: submitted_iff)
  have "valid_instant (e_now env)" using assms(1) by (simp add: clocked_def)
  note today = booked_today [OF T(2,1) this]
  have "runs_today (roll_daily (state_of (ticked ts d) r) (e_now env)) < max_runs_per_day (r_policy r)"
    using evaluate_step_frame(4) [OF ev f assms(4)] by (simp add: cap_reached_def)
  moreover have "t + cooldown_sec (r_policy r) * 1000000 \<le> e_now env" if t: "t \<in> set (run_times d ts)" for t
  proof -
    have ne: "run_times d ts \<noteq> []" using t by auto
    then have "valid_instant (last (run_times d ts))" "last_fired_at (state_of (ticked ts d) r) = Some (isoformat (last (run_times d ts)))"
        "t \<le> last (run_times d ts)"
      using T(2) t sorted_last by (auto simp: booked_def list_all_iff)
    then show ?thesis using evaluate_step_frame(5) [OF ev f assms(4)] in_cooldown_iso
      by (force simp: usec_per_sec_def)
  qed
  ultimately show ?thesis using today by simp
qed

definition minute_env :: "int \<Rightarrow> env" where
  "minute_env n = demo_env\<lparr>e_now := 63902908800000000 + n * 60 * 1000000\<rparr>"

definition busy_hour :: "rule_tick list" where
  \<comment> \<open>a rule of every minute with a cooldown of an hour, evaluated now and after one minute\<close>
  "busy_hour = [(minute_env 0, every_minute_rule), (minute_env 1, every_minute_rule)]"

lemma busy_hour_runs: "run_times demo_daemon busy_hour = [63902908800000000]"
  and busy_hour_next: "submitted (ticked busy_hour demo_daemon) (minute_env 60, every_minute_rule)"
  by code_simp+

theorem runs_respect_rails_witness:
  "list_all (\<lambda>t. t + 3600 * 1000000 \<le> e_now (minute_env 60)) (run_times demo_daemon busy_hour)"
proof -
  have c: "clocked (r_id every_minute_rule) (busy_hour @ [(minute_env 60, every_minute_rule)])"
    "0 \<le> runs_today (state_of demo_daemon every_minute_rule)" "\<not> r_run_now every_minute_rule"
    by code_simp+
  have "cooldown_sec (r_policy every_minute_rule) = 3600" by code_simp
  then show ?thesis using runs_respect_rails [OF c(1,2) busy_hour_next c(3)] by (simp add: list_all_iff)
qed

end
