(* ===== verification/GwRouting.thy ===== *)
theory GwRouting
  imports JsonLines
begin

text \<open>
  Capability matching (\<open>provider_gateway/capabilities.py\<close>), request identity
  (\<open>provider_gateway/identity.py\<close>) and route selection (\<open>provider_gateway/routing.py\<close>). The mappings a
  router is built from are only read through \<open>get\<close>, so they are functions to options. Weights and
  scores are rationals. The set of candidates already tried is a list, in the order its iteration
  yields them. SHA-256 is a parameter.
\<close>

section \<open>Capabilities\<close>

definition boolean_capabilities :: "string list" where
  "boolean_capabilities = [''responses_native'', ''streaming'', ''tool_calling'', ''parallel_tool_calling'',
     ''reasoning'', ''reasoning_summary'', ''image_input'', ''compact'']"

record capabilities =
  cap_flags :: "string set"
  max_context_tokens :: "int option"
  max_output_tokens :: "int option"

record requirements =
  required :: "string set"
  min_context_tokens :: "int option"

fun positive_int :: "json \<Rightarrow> int option" where
  "positive_int (JInt n) = (if n > 0 then Some n else None)"
| "positive_int _ = None"

definition capabilities_from_config :: "dict \<Rightarrow> capabilities" where
  "capabilities_from_config config =
     \<lparr> cap_flags = set (filter (\<lambda>name. truthy (dget config name)) boolean_capabilities),
       max_context_tokens = positive_int (dget config ''max_context_tokens''),
       max_output_tokens = positive_int (dget config ''max_output_tokens'') \<rparr>"

definition supports :: "capabilities \<Rightarrow> string \<Rightarrow> bool" where
  "supports caps name \<longleftrightarrow> name \<in> cap_flags caps"

datatype reject =
    MissingCap string
  | ContextTooSmall int int
  | UnknownCandidate
  | AlreadyTried
  | Verdict string

definition unmet_by :: "requirements \<Rightarrow> capabilities \<Rightarrow> reject list" where
  "unmet_by req caps =
     map MissingCap (filter (\<lambda>name. \<not> supports caps name) (sorted_list_of_set (required req))) @
     (case (min_context_tokens req, max_context_tokens caps) of
        (Some need, Some avail) \<Rightarrow> (if avail < need then [ContextTooSmall avail need] else [])
      | _ \<Rightarrow> [])"

fun has_image_input :: "json \<Rightarrow> bool" where
  "has_image_input (JDict d) =
     ((case dget d ''type'' of JStr t \<Rightarrow> contains ''image'' t | _ \<Rightarrow> False) \<or>
      (\<exists>kv\<in>set d. has_image_input (snd kv)))"
| "has_image_input (JList xs) = (\<exists>x\<in>set xs. has_image_input x)"
| "has_image_input _ = False"

definition required_of :: "dict \<Rightarrow> bool \<Rightarrow> string list" where
  "required_of body is_compaction =
     (if truthy (dget_or body ''stream'' (JBool False)) then [''streaming''] else []) @
     (case dget body ''tools'' of
        JList (_ # _) \<Rightarrow> ''tool_calling'' #
          (if dget body ''parallel_tool_calls'' = JBool True then [''parallel_tool_calling''] else [])
      | _ \<Rightarrow> []) @
     (case dget body ''reasoning'' of
        JDict (kv # kvs) \<Rightarrow> ''reasoning'' #
          (if truthy (dget (kv # kvs) ''summary'') then [''reasoning_summary''] else [])
      | _ \<Rightarrow> []) @
     (if has_image_input (dget body ''input'') then [''image_input''] else []) @
     (if is_compaction then [''compact''] else [])"

definition derive_requirements :: "dict \<Rightarrow> bool \<Rightarrow> int option \<Rightarrow> requirements" where
  "derive_requirements body is_compaction min_ctx =
     \<lparr> required = set (required_of body is_compaction), min_context_tokens = min_ctx \<rparr>"

type_synonym rejections = "(string \<times> reject list) list"

fun filter_candidates ::
  "(string \<times> capabilities) list \<Rightarrow> requirements \<Rightarrow> string list \<Rightarrow> rejections \<Rightarrow> string list \<times> rejections" where
  "filter_candidates [] req eligible rejected = (eligible, rejected)"
| "filter_candidates ((name, caps) # rest) req eligible rejected =
     (let reasons = unmet_by req caps in
      if reasons \<noteq> [] then filter_candidates rest req eligible (AList.update name reasons rejected)
      else filter_candidates rest req (eligible @ [name]) rejected)"

section \<open>Identity\<close>

datatype confidence = Ephemeral | Inferred | Explicit

text \<open>How far an identity can be trusted is an order: a guess is below an inference, an inference
  below a protocol id.\<close>

instantiation confidence :: linorder
begin

fun rank :: "confidence \<Rightarrow> nat" where
  "rank Ephemeral = 0"
| "rank Inferred = 1"
| "rank Explicit = 2"

definition less_eq_confidence :: "confidence \<Rightarrow> confidence \<Rightarrow> bool" where
  "less_eq_confidence a b \<longleftrightarrow> rank a \<le> rank b"

definition less_confidence :: "confidence \<Rightarrow> confidence \<Rightarrow> bool" where
  "less_confidence a b \<longleftrightarrow> rank a < rank b"

instance
proof
  have inj: "rank a = rank b \<Longrightarrow> a = b" for a b by (cases a; cases b) simp_all
  fix a b c :: confidence
  show "a < b \<longleftrightarrow> a \<le> b \<and> \<not> b \<le> a"
    by (auto simp: less_eq_confidence_def less_confidence_def)
  show "a \<le> a" by (simp add: less_eq_confidence_def)
  show "a \<le> b \<Longrightarrow> b \<le> c \<Longrightarrow> a \<le> c" by (simp add: less_eq_confidence_def)
  show "a \<le> b \<Longrightarrow> b \<le> a \<Longrightarrow> a = b" by (simp add: less_eq_confidence_def inj)
  show "a \<le> b \<or> b \<le> a" by (auto simp: less_eq_confidence_def)
qed

end

definition is_persistable :: "confidence \<Rightarrow> bool" where
  "is_persistable c \<longleftrightarrow> c \<noteq> Ephemeral"

lemma is_persistable_iff: "is_persistable c \<longleftrightarrow> Inferred \<le> c"
  by (cases c) (simp_all add: is_persistable_def less_eq_confidence_def)

record identity =
  id_ingress :: string
  id_route_key :: string
  id_confidence :: confidence
  id_route_hint :: string
  id_request_kind :: string
  id_thread :: "string option"
  id_parent_thread :: "string option"

definition make_identity :: "identity \<Rightarrow> py_exc + identity" where
  \<comment> \<open>the checks of \<open>__post_init__\<close>\<close>
  "make_identity i = (if id_ingress i = [] then Inl ValueError
     else if id_route_key i = [] then Inl ValueError else Inr i)"

definition route_payload :: "string \<Rightarrow> string option list \<Rightarrow> string" where
  "route_payload ingress parts =
     join_with [char_of (31::nat)] (ingress # map (\<lambda>p. case p of None \<Rightarrow> [] | Some s \<Rightarrow> s) parts)"

definition derive_route_key :: "(string \<Rightarrow> string) \<Rightarrow> string \<Rightarrow> string option list \<Rightarrow> py_exc + string" where
  "derive_route_key sha256 ingress parts =
     (if ingress = [] then Inl ValueError
      else if \<not> list_ex (\<lambda>p. p \<noteq> None \<and> p \<noteq> Some []) parts then Inl ValueError
      else Inr (sha256 (route_payload ingress parts)))"

section \<open>Policies and the router\<close>

record stats =
  st_quality :: rat
  st_cost :: rat
  st_latency :: rat
  st_quota :: rat

definition no_stats :: stats where
  "no_stats = \<lparr> st_quality = 0, st_cost = 0, st_latency = 0, st_quota = 0 \<rparr>"

record policy_spec =
  ps_id :: string
  ps_candidates :: "string list"
  ps_fallback :: "string list"
  ps_weights :: "string \<Rightarrow> rat option"
  ps_efforts :: "string \<Rightarrow> string option"

record router =
  rt_policies :: "string \<Rightarrow> policy_spec option"
  rt_routes :: "string \<Rightarrow> string option"
  rt_capabilities :: "string \<Rightarrow> capabilities option"
  rt_stats :: "string \<Rightarrow> stats option"
  rt_health :: "string \<Rightarrow> string"
  rt_default_policy :: string

record decision =
  dc_provider :: string
  dc_model :: string
  dc_policy :: string
  dc_reason :: "string list"
  dc_effort :: string
  dc_sticky :: bool

datatype route_error = NoRoute string rejections | BadCandidate string

definition weighted :: "stats \<Rightarrow> (string \<Rightarrow> rat option) \<Rightarrow> rat" where
  "weighted s w =
     st_quality s * or_default (w ''quality'') 0 + st_cost s * or_default (w ''cost'') 0 +
     st_latency s * or_default (w ''latency'') 0 + st_quota s * or_default (w ''quota'') 0"

fun dedup :: "string list \<Rightarrow> string list \<Rightarrow> string list" where
  "dedup seen [] = []"
| "dedup seen (x # xs) = (if x \<in> set seen then dedup seen xs else x # dedup (x # seen) xs)"

definition ordered_candidates :: "policy_spec \<Rightarrow> string list" where
  "ordered_candidates p = dedup [] (ps_candidates p @ ps_fallback p)"

definition split_candidate :: "string \<Rightarrow> (string \<times> string) option" where
  "split_candidate c =
     (let provider = before_char CHR '':'' c; model = after_char CHR '':'' c in
      if CHR '':'' \<notin> set c \<or> provider = [] \<or> model = [] then None else Some (provider, model))"

definition candidate_id :: "string \<Rightarrow> string \<Rightarrow> string" where
  "candidate_id provider model = provider @ '':'' @ model"

definition policy_for :: "router \<Rightarrow> identity \<Rightarrow> route_error + policy_spec" where
  "policy_for rt i =
     (let policy_id = or_default
            (rt_routes rt (if id_request_kind i = ''compaction'' then ''compaction'' else id_route_hint i))
            (rt_default_policy rt) in
      case rt_policies rt policy_id of
        None \<Rightarrow> Inl (NoRoute policy_id []) | Some p \<Rightarrow> Inr p)"

definition sticky_rejection :: "router \<Rightarrow> string \<Rightarrow> requirements \<Rightarrow> reject list option" where
  "sticky_rejection rt candidate req =
     (case rt_capabilities rt candidate of
        None \<Rightarrow> Some [UnknownCandidate]
      | Some caps \<Rightarrow>
          (let reasons = unmet_by req caps in
           if reasons \<noteq> [] then Some reasons
           else if rt_health rt candidate \<noteq> [] then Some [Verdict (rt_health rt candidate)]
           else None))"

definition position :: "string list \<Rightarrow> string \<Rightarrow> nat" where
  "position ordered name = length (takeWhile (\<lambda>x. x \<noteq> name) ordered)"

text \<open>\<open>max(healthy, key=(score, -position))\<close>: the first maximum.\<close>

definition beats :: "router \<Rightarrow> (string \<Rightarrow> rat option) \<Rightarrow> string list \<Rightarrow> string \<Rightarrow> string \<Rightarrow> bool" where
  "beats rt w ordered a b \<longleftrightarrow>
     (let sa = weighted (or_default (rt_stats rt a) no_stats) w;
          sb = weighted (or_default (rt_stats rt b) no_stats) w in
      sb < sa \<or> (sb = sa \<and> position ordered a < position ordered b))"

fun best_of :: "(string \<Rightarrow> string \<Rightarrow> bool) \<Rightarrow> string \<Rightarrow> string list \<Rightarrow> string" where
  "best_of better b [] = b"
| "best_of better b (x # xs) = best_of better (if better x b then x else b) xs"

definition displaced_by :: "string \<Rightarrow> string set \<Rightarrow> string list \<Rightarrow> string option \<Rightarrow> string list" where
  "displaced_by best retired ordered sticky_reject =
     (let displaced = Set.filter (\<lambda>name. name \<in> set ordered \<and>
            position ordered name < position ordered best \<and> name \<noteq> best) retired in
      sorted_list_of_set
        (case sticky_reject of
           None \<Rightarrow> displaced
         | Some s \<Rightarrow> (if s \<in> retired \<and> s \<noteq> best then insert s displaced else displaced)))"

fun health_split ::
  "(string \<Rightarrow> string) \<Rightarrow> string list \<Rightarrow> rejections \<Rightarrow> string list \<times> string set \<times> rejections" where
  "health_split verdict_of [] rejected = ([], {}, rejected)"
| "health_split verdict_of (name # names) rejected =
     (let verdict = verdict_of name in
      if verdict = [] then
        (case health_split verdict_of names rejected of (h, r, rej) \<Rightarrow> (name # h, r, rej))
      else
        (case health_split verdict_of names (AList.update name [Verdict verdict] rejected) of
           (h, r, rej) \<Rightarrow> (h, (if verdict = ''retired'' then insert name r else r), rej)))"

definition mark_all :: "reject \<Rightarrow> string list \<Rightarrow> rejections \<Rightarrow> rejections" where
  "mark_all why names rejected = fold (\<lambda>name. AList.update name [why]) names rejected"

definition live_sticky :: "string option \<Rightarrow> string option" where
  \<comment> \<open>the truth test of an optional string\<close>
  "live_sticky s = (if s = Some [] then None else s)"

definition score_reason ::
  "identity \<Rightarrow> requirements \<Rightarrow> policy_spec \<Rightarrow> string option \<Rightarrow> rejections \<Rightarrow> string set \<Rightarrow> string list \<Rightarrow> string list" where
  "score_reason i req policy sticky_reject rejected retired displaced =
     [''role='' @ id_route_hint i, ''kind='' @ id_request_kind i, ''policy='' @ ps_id policy] @
     (case live_sticky sticky_reject of None \<Rightarrow> [] | Some s \<Rightarrow> [''sticky-dropped='' @ s]) @
     map (\<lambda>n. ''requires='' @ n) (sorted_list_of_set (required req)) @
     map (\<lambda>n. ''filtered='' @ n) (filter (\<lambda>n. n \<notin> retired) (sorted_list_of_set (fst ` set rejected))) @
     map (\<lambda>n. ''retired='' @ n) (sorted_list_of_set retired) @
     map (\<lambda>n. ''fallback-for='' @ n) displaced @ [''health=ok'']"

definition untried :: "policy_spec \<Rightarrow> string list \<Rightarrow> string list" where
  "untried policy exclude = filter (\<lambda>name. name \<notin> set exclude) (ordered_candidates policy)"

definition score ::
  "router \<Rightarrow> identity \<Rightarrow> requirements \<Rightarrow> policy_spec \<Rightarrow> string option \<Rightarrow> reject list \<Rightarrow> string list
     \<Rightarrow> route_error + decision" where
  "score rt i req policy sticky_reject sticky_reject_reason exclude =
     (let ordered = untried policy exclude;
          known = List.map_filter (\<lambda>name. map_option (\<lambda>caps. (name, caps)) (rt_capabilities rt name)) ordered;
          (eligible, rej1) = filter_candidates known req [] [];
          rej2 = mark_all UnknownCandidate (filter (\<lambda>name. rt_capabilities rt name = None) ordered) rej1;
          rej3 = mark_all AlreadyTried exclude rej2;
          (healthy, retired0, rejected) = health_split (rt_health rt) eligible rej3;
          retired = (case live_sticky sticky_reject of
                       Some s \<Rightarrow> (if Verdict ''retired'' \<in> set sticky_reject_reason then insert s retired0 else retired0)
                     | None \<Rightarrow> retired0) in
      case healthy of
        [] \<Rightarrow> Inl (NoRoute (ps_id policy) rejected)
      | h # hs \<Rightarrow>
          (let best = best_of (beats rt (ps_weights policy) ordered) h hs in
           case split_candidate best of
             None \<Rightarrow> Inl (BadCandidate best)
           | Some (provider, model) \<Rightarrow>
               Inr \<lparr> dc_provider = provider, dc_model = model, dc_policy = ps_id policy,
                     dc_reason = score_reason i req policy sticky_reject rejected retired
                       (displaced_by best retired ordered sticky_reject),
                     dc_effort = or_default (ps_efforts policy best) [], dc_sticky = False \<rparr>))"

definition select ::
  "router \<Rightarrow> identity \<Rightarrow> requirements \<Rightarrow> string option \<Rightarrow> string list \<Rightarrow> route_error + decision" where
  "select rt i req sticky0 exclude =
     (case policy_for rt i of
        Inl e \<Rightarrow> Inl e
      | Inr policy \<Rightarrow>
          (let sticky = (case sticky0 of Some s \<Rightarrow> (if s \<in> set exclude then None else Some s) | None \<Rightarrow> None) in
           case live_sticky sticky of
             None \<Rightarrow> score rt i req policy sticky [] exclude
           | Some s \<Rightarrow>
               (case sticky_rejection rt s req of
                  None \<Rightarrow>
                    (case split_candidate s of
                       None \<Rightarrow> Inl (BadCandidate s)
                     | Some (provider, model) \<Rightarrow>
                         Inr \<lparr> dc_provider = provider, dc_model = model, dc_policy = ps_id policy,
                               dc_reason = [''sticky='' @ s, ''role='' @ id_route_hint i,
                                            ''kind='' @ id_request_kind i],
                               dc_effort = or_default (ps_efforts policy s) [], dc_sticky = True \<rparr>)
                | Some reasons \<Rightarrow> score rt i req policy sticky reasons exclude)))"

section \<open>Candidate ids\<close>

lemma split_candidate_id: "split_candidate c = Some (p, m) \<Longrightarrow> candidate_id p m = c"
proof -
  assume a: "split_candidate c = Some (p, m)"
  then have s: "CHR '':'' \<in> set c" "p = before_char CHR '':'' c" "m = after_char CHR '':'' c"
    by (simp_all add: split_candidate_def Let_def split: if_splits)
  from s(1) have ne: "dropWhile (\<lambda>x. x \<noteq> CHR '':'') c \<noteq> []" by (simp add: dropWhile_eq_Nil_conv)
  have "hd (dropWhile (\<lambda>x. x \<noteq> CHR '':'') c) = CHR '':''"
    using hd_dropWhile [OF ne] by simp
  with ne have "dropWhile (\<lambda>x. x \<noteq> CHR '':'') c = CHR '':'' # m"
    by (metis after_char_def list.collapse s(3))
  then show ?thesis
    using takeWhile_dropWhile_id [of "\<lambda>x. x \<noteq> CHR '':''" c]
    by (simp add: candidate_id_def s(2) before_char_def)
qed

lemma split_candidate_make:
  assumes "CHR '':'' \<notin> set p" and "p \<noteq> []" and "m \<noteq> []"
  shows "split_candidate (candidate_id p m) = Some (p, m)"
proof -
  have tw: "takeWhile (\<lambda>x. x \<noteq> CHR '':'') (p @ CHR '':'' # m) = p" for m
    using assms(1) by (induction p) auto
  have dw: "dropWhile (\<lambda>x. x \<noteq> CHR '':'') (p @ CHR '':'' # m) = CHR '':'' # m" for m
    using assms(1) by (induction p) auto
  show ?thesis
    using assms(2,3) by (simp add: split_candidate_def candidate_id_def before_char_def after_char_def tw dw)
qed

section \<open>Filtering\<close>

definition capable :: "router \<Rightarrow> requirements \<Rightarrow> string \<Rightarrow> bool" where
  "capable rt req c = (case rt_capabilities rt c of None \<Rightarrow> False | Some caps \<Rightarrow> unmet_by req caps = [])"

lemma unmet_by_Nil:
  "finite (required req) \<Longrightarrow> unmet_by req caps = [] \<longleftrightarrow> required req \<subseteq> cap_flags caps \<and>
     (case (min_context_tokens req, max_context_tokens caps) of (Some need, Some avail) \<Rightarrow> need \<le> avail | _ \<Rightarrow> True)"
  by (auto simp: unmet_by_def supports_def filter_empty_conv split: option.splits)

lemma filter_candidates_fst:
  "fst (filter_candidates xs req eligible rejected) =
     eligible @ map fst (filter (\<lambda>(n, caps). unmet_by req caps = []) xs)"
  by (induction xs req eligible rejected rule: filter_candidates.induct) (simp_all add: Let_def)

lemma known_eligible:
  "map fst (filter (\<lambda>(n, caps). unmet_by req caps = [])
      (List.map_filter (\<lambda>name. map_option (\<lambda>caps. (name, caps)) (rt_capabilities rt name)) ns)) =
   filter (capable rt req) ns"
  by (induction ns) (auto simp: capable_def split: option.splits)

lemma health_split_fst: "fst (health_split v names rej) = filter (\<lambda>n. v n = []) names"
  by (induction v names rej rule: health_split.induct) (simp_all add: Let_def case_prod_beta)

lemma health_split_retired: "fst (snd (health_split v names rej)) = {n \<in> set names. v n = ''retired''}"
  by (induction v names rej rule: health_split.induct) (auto simp: Let_def case_prod_beta)

definition usable :: "router \<Rightarrow> requirements \<Rightarrow> string \<Rightarrow> bool" where
  "usable rt req c \<longleftrightarrow> capable rt req c \<and> rt_health rt c = []"

definition pool :: "router \<Rightarrow> requirements \<Rightarrow> policy_spec \<Rightarrow> string list \<Rightarrow> string list" where
  "pool rt req policy exclude =
     filter (\<lambda>n. rt_health rt n = []) (filter (capable rt req) (untried policy exclude))"

lemma pool_usable: "pool rt req policy exclude = filter (usable rt req) (untried policy exclude)"
proof -
  have "usable rt req = (\<lambda>c. capable rt req c \<and> rt_health rt c = [])" by (rule ext) (simp add: usable_def)
  then show ?thesis by (simp add: pool_def)
qed

lemma in_pool: "c \<in> set (pool rt req policy exclude) \<longleftrightarrow>
    c \<in> set (ordered_candidates policy) \<and> c \<notin> set exclude \<and> usable rt req c"
  by (auto simp: pool_def usable_def untried_def)

lemma sticky_rejection_None: "sticky_rejection rt c req = None \<longleftrightarrow> usable rt req c"
  by (auto simp: sticky_rejection_def usable_def capable_def Let_def split: option.splits)

section \<open>The maximum\<close>

lemma not_beats_trans:
  "\<not> beats rt w o1 a b \<Longrightarrow> \<not> beats rt w o1 b c \<Longrightarrow> \<not> beats rt w o1 a c"
  by (auto simp: beats_def Let_def)

lemma beats_irrefl: "\<not> beats rt w o1 a a"
  by (simp add: beats_def Let_def)

lemma best_of_in: "best_of better b xs \<in> set (b # xs)"
  by (induction xs arbitrary: b) (auto split: if_splits)

lemma best_of_max:
  assumes "x \<in> set (b # xs)"
  shows "\<not> beats rt w o1 x (best_of (beats rt w o1) b xs)"
  using assms
proof (induction xs arbitrary: b x)
  case Nil
  then show ?case by (simp add: beats_irrefl)
next
  case (Cons y ys)
  let ?b' = "if beats rt w o1 y b then y else b"
  have asym: "beats rt w o1 p q \<Longrightarrow> \<not> beats rt w o1 q p" for p q by (auto simp: beats_def Let_def)
  have b': "\<not> beats rt w o1 ?b' (best_of (beats rt w o1) ?b' ys)" by (rule Cons.IH) simp
  have "\<not> beats rt w o1 y ?b'" "\<not> beats rt w o1 b ?b'" using asym beats_irrefl by auto
  then have "\<not> beats rt w o1 z (best_of (beats rt w o1) ?b' ys)" if "z = b \<or> z = y" for z
    using that b' not_beats_trans by metis
  moreover have "\<not> beats rt w o1 x (best_of (beats rt w o1) ?b' ys)" if "x \<in> set ys"
    by (rule Cons.IH) (simp add: that)
  moreover have "x = b \<or> x = y \<or> x \<in> set ys" using Cons.prems by auto
  ultimately show ?case unfolding best_of.simps by blast
qed

section \<open>What score returns\<close>

lemma score_empty:
  "pool rt req policy exclude = [] \<Longrightarrow>
    \<exists>rejected. score rt i req policy sr srr exclude = Inl (NoRoute (ps_id policy) rejected)"
  by (simp add: score_def Let_def case_prod_beta filter_candidates_fst known_eligible health_split_fst pool_def)

lemma score_some:
  assumes "pool rt req policy exclude = h # hs"
    and "best = best_of (beats rt (ps_weights policy) (untried policy exclude)) h hs"
    and "split_candidate best = Some (provider, model)"
  shows "\<exists>dc. score rt i req policy sr srr exclude = Inr dc \<and> dc_provider dc = provider \<and> dc_model dc = model \<and>
    dc_policy dc = ps_id policy \<and> \<not> dc_sticky dc \<and>
    (\<forall>n. n \<in> set (untried policy exclude) \<longrightarrow> capable rt req n \<longrightarrow> rt_health rt n = ''retired'' \<longrightarrow>
       position (untried policy exclude) n < position (untried policy exclude) best \<longrightarrow> n \<noteq> best \<longrightarrow>
       ''fallback-for='' @ n \<in> set (dc_reason dc))"
proof -
  let ?r0 = "{n \<in> set (filter (capable rt req) (untried policy exclude)). rt_health rt n = ''retired''}"
  define R where "R = (case live_sticky sr of
      Some s \<Rightarrow> (if Verdict ''retired'' \<in> set srr then insert s ?r0 else ?r0) | None \<Rightarrow> ?r0)"
  let ?disp = "displaced_by best R (untried policy exclude) sr"
  have sub: "?r0 \<subseteq> R" and fin: "finite R" by (auto simp: R_def split: option.splits)
  have hl: "filter (\<lambda>n. rt_health rt n = []) (filter (capable rt req) (untried policy exclude)) = h # hs"
    using assms(1) by (simp only: pool_def)
  have "\<exists>rejected. score rt i req policy sr srr exclude =
      Inr \<lparr> dc_provider = provider, dc_model = model, dc_policy = ps_id policy,
        dc_reason = score_reason i req policy sr rejected R ?disp,
        dc_effort = or_default (ps_efforts policy best) [], dc_sticky = False \<rparr>"
    unfolding score_def Let_def case_prod_beta filter_candidates_fst known_eligible health_split_fst
      health_split_retired append_Nil hl list.case assms(2) [symmetric] assms(3) option.case prod.case R_def
      fst_conv snd_conv
    by (rule exI) (rule refl)
  then obtain rejected where eq: "score rt i req policy sr srr exclude =
      Inr \<lparr> dc_provider = provider, dc_model = model, dc_policy = ps_id policy,
        dc_reason = score_reason i req policy sr rejected R ?disp,
        dc_effort = or_default (ps_efforts policy best) [], dc_sticky = False \<rparr>" by blast
  obtain dc where dc: "score rt i req policy sr srr exclude = Inr dc" "dc_provider dc = provider" "dc_model dc = model"
      "dc_policy dc = ps_id policy" "\<not> dc_sticky dc" "dc_reason dc = score_reason i req policy sr rejected R ?disp"
    using eq by simp
  have "''fallback-for='' @ n \<in> set (dc_reason dc)"
    if "n \<in> ?r0" "position (untried policy exclude) n < position (untried policy exclude) best" "n \<noteq> best" for n
  proof -
    have "n \<in> Set.filter (\<lambda>name. name \<in> set (untried policy exclude) \<and>
        position (untried policy exclude) name < position (untried policy exclude) best \<and> name \<noteq> best) R"
      using that sub by auto
    then have "n \<in> set ?disp" using fin by (auto simp: displaced_by_def Let_def split: option.splits)
    then show ?thesis using dc(6) by (auto simp: score_reason_def)
  qed
  then have "\<forall>n. n \<in> set (untried policy exclude) \<longrightarrow> capable rt req n \<longrightarrow> rt_health rt n = ''retired'' \<longrightarrow>
       position (untried policy exclude) n < position (untried policy exclude) best \<longrightarrow> n \<noteq> best \<longrightarrow>
       ''fallback-for='' @ n \<in> set (dc_reason dc)" by simp
  with dc(1-5) show ?thesis by blast
qed

lemma score_Inr:
  assumes "score rt i req policy sr srr exclude = Inr dc"
  obtains h hs where "pool rt req policy exclude = h # hs"
    and "candidate_id (dc_provider dc) (dc_model dc) =
       best_of (beats rt (ps_weights policy) (untried policy exclude)) h hs"
    and "\<not> dc_sticky dc" and "dc_policy dc = ps_id policy"
proof (cases "pool rt req policy exclude")
  case Nil
  with assms score_empty [OF Nil, of i sr srr] show ?thesis by auto
next
  case (Cons h hs)
  let ?best = "best_of (beats rt (ps_weights policy) (untried policy exclude)) h hs"
  show ?thesis
  proof (cases "split_candidate ?best")
    case None
    have hl: "filter (\<lambda>n. rt_health rt n = []) (filter (capable rt req) (untried policy exclude)) = h # hs"
      using Cons by (simp only: pool_def)
    have "score rt i req policy sr srr exclude = Inl (BadCandidate ?best)"
      unfolding score_def Let_def case_prod_beta filter_candidates_fst known_eligible health_split_fst
        health_split_retired append_Nil hl list.case None option.case fst_conv snd_conv by (rule refl)
    with assms show ?thesis by simp
  next
    case (Some pm)
    obtain p m where pm: "split_candidate ?best = Some (p, m)" using Some by (cases pm) simp
    obtain dc' where "score rt i req policy sr srr exclude = Inr dc'" "dc_provider dc' = p" "dc_model dc' = m"
        "dc_policy dc' = ps_id policy" "\<not> dc_sticky dc'"
      using score_some [OF Cons refl pm, where i = i and sr = sr and srr = srr] by blast
    with assms that [OF Cons] split_candidate_id [OF pm] show ?thesis by auto
  qed
qed

lemma select_chosen:
  assumes "select rt i req sticky exclude = Inr dc"
  shows "candidate_id (dc_provider dc) (dc_model dc) \<notin> set exclude \<and>
    (\<exists>caps. rt_capabilities rt (candidate_id (dc_provider dc) (dc_model dc)) = Some caps \<and> unmet_by req caps = []) \<and>
    rt_health rt (candidate_id (dc_provider dc) (dc_model dc)) = [] \<and>
    (\<exists>policy. policy_for rt i = Inr policy \<and> dc_policy dc = ps_id policy \<and>
      (if dc_sticky dc then sticky = Some (candidate_id (dc_provider dc) (dc_model dc))
       else candidate_id (dc_provider dc) (dc_model dc) \<in> set (ordered_candidates policy)))"
proof -
  let ?c = "candidate_id (dc_provider dc) (dc_model dc)"
  obtain policy where pol: "policy_for rt i = Inr policy"
    using assms by (auto simp: select_def split: sum.splits)
  have scored: "?thesis" if sc: "score rt i req policy sr srr exclude = Inr dc" for sr srr
  proof -
    obtain h hs where p: "pool rt req policy exclude = h # hs"
      and c: "?c = best_of (beats rt (ps_weights policy) (untried policy exclude)) h hs"
      and d: "\<not> dc_sticky dc" "dc_policy dc = ps_id policy" by (rule score_Inr [OF sc])
    have "?c \<in> set (pool rt req policy exclude)" unfolding p c by (rule best_of_in)
    then show ?thesis using pol d by (auto simp: in_pool usable_def capable_def split: option.splits)
  qed
  show ?thesis
  proof (cases "\<exists>s. sticky = Some s \<and> s \<notin> set exclude \<and> s \<noteq> [] \<and> sticky_rejection rt s req = None")
    case True
    then obtain s where s: "sticky = Some s" "s \<notin> set exclude" "s \<noteq> []" "usable rt req s"
      by (auto simp: sticky_rejection_None)
    then have "sticky_rejection rt s req = None" by (simp add: sticky_rejection_None)
    with s assms pol obtain p m where pm: "split_candidate s = Some (p, m)" and d: "dc_provider dc = p" "dc_model dc = m"
      "dc_policy dc = ps_id policy" "dc_sticky dc"
      by (auto simp: select_def live_sticky_def split: option.splits)
    have "?c = s" using split_candidate_id [OF pm] d by simp
    then show ?thesis using s pol d by (auto simp: usable_def capable_def split: option.splits)
  next
    case False
    then have "\<exists>sr srr. score rt i req policy sr srr exclude = Inr dc"
      using assms pol
      by (auto simp: select_def live_sticky_def Let_def split: option.splits if_splits)
    then show ?thesis using scored by blast
  qed
qed

lemma select_fails_when:
  assumes "policy_for rt i = Inr policy"
    and "\<forall>c\<in>set (ordered_candidates policy). split_candidate c \<noteq> None"
    and "\<forall>s. sticky = Some s \<longrightarrow> split_candidate s \<noteq> None"
  shows "(\<exists>e. select rt i req sticky exclude = Inl e) \<longleftrightarrow>
    (\<forall>c\<in>set (ordered_candidates policy). c \<in> set exclude \<or> \<not> usable rt req c) \<and>
    (\<forall>s. sticky = Some s \<longrightarrow> s \<in> set exclude \<or> \<not> usable rt req s)"
proof -
  have sc: "(\<exists>e. score rt i req policy sr srr exclude = Inl e) \<longleftrightarrow>
      (\<forall>c\<in>set (ordered_candidates policy). c \<in> set exclude \<or> \<not> usable rt req c)" for sr srr
  proof (cases "pool rt req policy exclude")
    case Nil
    then have "\<forall>c. c \<notin> set (pool rt req policy exclude)" by simp
    then show ?thesis using score_empty [OF Nil, of i sr srr] unfolding in_pool by blast
  next
    case (Cons h hs)
    let ?best = "best_of (beats rt (ps_weights policy) (untried policy exclude)) h hs"
    have b: "?best \<in> set (pool rt req policy exclude)" unfolding Cons by (rule best_of_in)
    then have "split_candidate ?best \<noteq> None" using assms(2) by (simp add: in_pool)
    then obtain p m where pm: "split_candidate ?best = Some (p, m)" by auto
    obtain dc where "score rt i req policy sr srr exclude = Inr dc"
      using score_some [OF Cons refl pm, where i = i and sr = sr and srr = srr] by blast
    then show ?thesis using b unfolding in_pool by auto
  qed
  show ?thesis
  proof (cases "\<exists>s. sticky = Some s \<and> s \<notin> set exclude \<and> usable rt req s")
    case True
    then obtain s where s: "sticky = Some s" "s \<notin> set exclude" "usable rt req s" by blast
    with assms(3) obtain p m where pm: "split_candidate s = Some (p, m)" by fastforce
    have "s \<noteq> []" using pm by (auto simp: split_candidate_def)
    moreover have "sticky_rejection rt s req = None" using s(3) by (simp add: sticky_rejection_None)
    ultimately show ?thesis using s pm assms(1) by (simp add: select_def live_sticky_def)
  next
    case False
    have "\<exists>sr srr. select rt i req sticky exclude = score rt i req policy sr srr exclude"
    proof (cases "\<exists>s. sticky = Some s \<and> s \<notin> set exclude \<and> s \<noteq> []")
      case True
      then obtain s where s: "sticky = Some s" "s \<notin> set exclude" "s \<noteq> []" by blast
      with False have "sticky_rejection rt s req \<noteq> None" by (auto simp: sticky_rejection_None)
      then obtain why where "sticky_rejection rt s req = Some why" by blast
      then show ?thesis using s assms(1) by (auto simp: select_def live_sticky_def)
    next
      case none: False
      then have "select rt i req sticky exclude = score rt i req policy
          (if sticky = Some [] \<and> [] \<notin> set exclude then Some [] else None) [] exclude"
        using assms(1) by (auto simp: select_def live_sticky_def split: option.splits)
      then show ?thesis by blast
    qed
    with sc False show ?thesis by (metis (no_types, lifting))
  qed
qed

section \<open>Properties\<close>

text \<open>C15: The chosen route can serve the request: whatever \<open>select\<close> returns, sticky or scored, is a
  configured candidate that was not excluded, has every capability and the context the request
  needs, and is healthy at that moment; a scored one is listed by the policy in force.\<close>

theorem select_sound:
  assumes "select rt i req sticky exclude = Inr dc"
  shows "candidate_id (dc_provider dc) (dc_model dc) \<notin> set exclude \<and>
    (\<exists>caps. rt_capabilities rt (candidate_id (dc_provider dc) (dc_model dc)) = Some caps \<and> unmet_by req caps = []) \<and>
    rt_health rt (candidate_id (dc_provider dc) (dc_model dc)) = [] \<and>
    (\<exists>policy. policy_for rt i = Inr policy \<and> dc_policy dc = ps_id policy \<and>
      (if dc_sticky dc then sticky = Some (candidate_id (dc_provider dc) (dc_model dc))
       else candidate_id (dc_provider dc) (dc_model dc) \<in> set (ordered_candidates policy)))"
  using assms by (rule select_chosen)

definition demo_caps :: capabilities where
  "demo_caps = \<lparr> cap_flags = {''streaming'', ''tool_calling''}, max_context_tokens = Some 200000, max_output_tokens = None \<rparr>"

definition demo_policy :: policy_spec where
  "demo_policy = \<lparr> ps_id = ''balanced'', ps_candidates = [''codex:big'', ''claude:opus'', ''claude:haiku''],
     ps_fallback = [''claude:opus'', ''agy:pro''], ps_weights = (\<lambda>n. if n = ''cost'' then Some 1 else None),
     ps_efforts = (\<lambda>_. None) \<rparr>"

definition demo_router :: router where
  "demo_router = \<lparr> rt_policies = (\<lambda>p. if p = ''balanced'' then Some demo_policy else None), rt_routes = (\<lambda>_. None),
     rt_capabilities = (\<lambda>c. if c = ''agy:pro'' then None else Some demo_caps),
     rt_stats = (\<lambda>c. if c = ''claude:haiku'' then Some (no_stats\<lparr>st_cost := 1 / 2\<rparr>) else None),
     rt_health = (\<lambda>c. if c = ''codex:big'' then ''retired'' else []), rt_default_policy = ''balanced'' \<rparr>"

definition demo_identity :: identity where
  "demo_identity = \<lparr> id_ingress = ''codex'', id_route_key = ''k'', id_confidence = Explicit, id_route_hint = ''auto'',
     id_request_kind = ''turn'', id_thread = Some ''t1'', id_parent_thread = None \<rparr>"

definition demo_req :: requirements where
  "demo_req = \<lparr> required = {''streaming''}, min_context_tokens = Some 1000 \<rparr>"

lemma demo_policy_for: "policy_for demo_router demo_identity = Inr demo_policy"
  by (simp add: policy_for_def demo_router_def or_default_def)

lemma demo_ordered: "ordered_candidates demo_policy = [''codex:big'', ''claude:opus'', ''claude:haiku'', ''agy:pro'']"
  by code_simp

lemma demo_usable: "usable demo_router demo_req c \<longleftrightarrow> c \<noteq> ''agy:pro'' \<and> c \<noteq> ''codex:big''"
  by (simp add: usable_def capable_def demo_router_def demo_req_def demo_caps_def unmet_by_Nil)

lemma demo_pool: "pool demo_router demo_req demo_policy [] = [''claude:opus'', ''claude:haiku'']"
  by (simp add: pool_usable untried_def demo_ordered demo_usable)

lemma demo_best:
  "best_of (beats demo_router (ps_weights demo_policy) (untried demo_policy [])) ''claude:opus'' [''claude:haiku''] = ''claude:haiku''"
  by code_simp

lemma demo_split: "split_candidate ''claude:haiku'' = Some (''claude'', ''haiku'')"
  by code_simp

lemma demo_select: "\<exists>dc. select demo_router demo_identity demo_req None [] = Inr dc \<and>
    candidate_id (dc_provider dc) (dc_model dc) = ''claude:haiku'' \<and> \<not> dc_sticky dc"
proof -
  obtain dc where "score demo_router demo_identity demo_req demo_policy None [] [] = Inr dc"
      "dc_provider dc = ''claude''" "dc_model dc = ''haiku''" "\<not> dc_sticky dc"
    using score_some [OF demo_pool demo_best [symmetric] demo_split, where i = demo_identity and sr = None and srr = "[]"]
    by blast
  then show ?thesis by (simp add: select_def demo_policy_for live_sticky_def candidate_id_def)
qed

theorem select_sound_witness:
  "\<exists>dc caps. select demo_router demo_identity demo_req None [] = Inr dc \<and>
     rt_capabilities demo_router (candidate_id (dc_provider dc) (dc_model dc)) = Some caps \<and> unmet_by demo_req caps = []"
proof -
  obtain dc where dc: "select demo_router demo_identity demo_req None [] = Inr dc" using demo_select by blast
  show ?thesis using select_sound [OF dc] dc by blast
qed

text \<open>C16: The scored choice is the best one and reproducible: no usable candidate of the policy has a
  higher weighted score than the one returned, and none with the same score is declared before
  it, so equal inputs always give the same model.\<close>

theorem select_best:
  assumes "select rt i req sticky exclude = Inr dc" and "\<not> dc_sticky dc" and "policy_for rt i = Inr policy"
    and "c \<in> set (ordered_candidates policy)" and "c \<notin> set exclude" and "usable rt req c"
  shows "\<not> beats rt (ps_weights policy) (untried policy exclude) c (candidate_id (dc_provider dc) (dc_model dc))"
proof -
  obtain sr srr where sc: "score rt i req policy sr srr exclude = Inr dc"
    using assms(1-3) by (auto simp: select_def live_sticky_def Let_def split: option.splits if_splits)
  obtain h hs where p: "pool rt req policy exclude = h # hs"
    and b: "candidate_id (dc_provider dc) (dc_model dc) =
      best_of (beats rt (ps_weights policy) (untried policy exclude)) h hs" by (rule score_Inr [OF sc])
  have "c \<in> set (h # hs)" using assms(4-6) by (simp add: p [symmetric] in_pool)
  then show ?thesis unfolding b by (rule best_of_max)
qed

theorem select_best_witness:
  "\<exists>dc. select demo_router demo_identity demo_req None [] = Inr dc \<and>
     \<not> beats demo_router (ps_weights demo_policy) (untried demo_policy []) ''claude:opus'' (candidate_id (dc_provider dc) (dc_model dc))"
proof -
  obtain dc where dc: "select demo_router demo_identity demo_req None [] = Inr dc" "\<not> dc_sticky dc" using demo_select by blast
  have "\<not> beats demo_router (ps_weights demo_policy) (untried demo_policy []) ''claude:opus'' (candidate_id (dc_provider dc) (dc_model dc))"
    by (rule select_best [OF dc demo_policy_for]) (simp_all add: demo_ordered demo_usable)
  with dc show ?thesis by blast
qed

text \<open>C17: Routing fails only when nothing can serve: with a configured policy whose candidates are well
  formed, \<open>select\<close> raises exactly when no candidate of the policy that is not excluded is usable and
  no usable sticky route was offered; a usable sticky route is always honoured.\<close>

theorem select_fails_iff:
  assumes "policy_for rt i = Inr policy"
    and "\<forall>c\<in>set (ordered_candidates policy). split_candidate c \<noteq> None"
    and "\<forall>s. sticky = Some s \<longrightarrow> split_candidate s \<noteq> None"
  shows "(\<exists>e. select rt i req sticky exclude = Inl e) \<longleftrightarrow>
    (\<forall>c\<in>set (ordered_candidates policy). c \<in> set exclude \<or> \<not> usable rt req c) \<and>
    (\<forall>s. sticky = Some s \<longrightarrow> s \<in> set exclude \<or> \<not> usable rt req s)"
  using assms by (rule select_fails_when)

theorem select_fails_iff_witness:
  "\<exists>e. select (demo_router\<lparr>rt_health := \<lambda>_. ''retired''\<rparr>) demo_identity demo_req (Some ''agy:pro'') [] = Inl e"
proof -
  let ?rt = "demo_router\<lparr>rt_health := \<lambda>_. ''retired''\<rparr>"
  have "policy_for ?rt demo_identity = Inr demo_policy"
    using demo_policy_for by (simp add: policy_for_def)
  moreover have "\<forall>c\<in>set (ordered_candidates demo_policy). split_candidate c \<noteq> None"
    unfolding demo_ordered by code_simp
  moreover have "\<forall>s. Some ''agy:pro'' = Some s \<longrightarrow> split_candidate s \<noteq> None"
    by (simp add: split_candidate_def before_char_def after_char_def)
  ultimately have "(\<exists>e. select ?rt demo_identity demo_req (Some ''agy:pro'') [] = Inl e) \<longleftrightarrow>
    (\<forall>c\<in>set (ordered_candidates demo_policy). c \<in> set [] \<or> \<not> usable ?rt demo_req c) \<and>
    (\<forall>s. Some ''agy:pro'' = Some s \<longrightarrow> s \<in> set [] \<or> \<not> usable ?rt demo_req s)"
    by (rule select_fails_iff)
  then show ?thesis by (simp add: usable_def)
qed

text \<open>No silent downgrade: when a scored route stands in for candidates its policy declares before it
  that could serve the request but are retired, the decision's reasons name every one of them.\<close>

lemma downgrade_is_named:
  assumes "select rt i req None exclude = Inr dc" and "policy_for rt i = Inr policy"
    and "n \<in> set (untried policy exclude)" and "capable rt req n" and "rt_health rt n = ''retired''"
    and "position (untried policy exclude) n <
       position (untried policy exclude) (candidate_id (dc_provider dc) (dc_model dc))"
  shows "''fallback-for='' @ n \<in> set (dc_reason dc)"
proof -
  have sc: "score rt i req policy None [] exclude = Inr dc"
    using assms(1,2) by (simp add: select_def live_sticky_def)
  obtain h hs where p: "pool rt req policy exclude = h # hs"
    and b: "candidate_id (dc_provider dc) (dc_model dc) =
      best_of (beats rt (ps_weights policy) (untried policy exclude)) h hs" by (rule score_Inr [OF sc])
  let ?best = "candidate_id (dc_provider dc) (dc_model dc)"
  obtain pm where pm: "split_candidate ?best = Some pm"
    using sc unfolding score_def Let_def case_prod_beta filter_candidates_fst known_eligible health_split_fst
      append_Nil p [unfolded pool_def] list.case b [symmetric] by (auto split: option.splits)
  have ne: "n \<noteq> ?best" using assms(6) by auto
  have "split_candidate ?best = Some (fst pm, snd pm)" using pm by simp
  from score_some [OF p b this, where i = i and sr = None and srr = "[]"] sc
  have "\<forall>n. n \<in> set (untried policy exclude) \<longrightarrow> capable rt req n \<longrightarrow> rt_health rt n = ''retired'' \<longrightarrow>
       position (untried policy exclude) n < position (untried policy exclude) ?best \<longrightarrow> n \<noteq> ?best \<longrightarrow>
       ''fallback-for='' @ n \<in> set (dc_reason dc)" by auto
  with assms(3-6) ne show ?thesis by blast
qed

end
