(* ===== verification/GwHealth.thy ===== *)
theory GwHealth
  imports GwRouting
begin

text \<open>
  Model health: the catalogs of \<open>provider_gateway/model_catalog.py\<close> and the background refresh of
  \<open>provider_gateway/model_health.py\<close>. Reading a catalog (a subprocess) is the parameter \<open>load\<close>. The
  messages and hooks of a refresh are events. The locale \<open>health_source\<close> is what the router asks of
  a health source; \<open>CatalogHealth\<close> interprets it.
\<close>

section \<open>Catalogs\<close>

record catalog =
  ct_ids :: "string list"
  ct_error :: string
  ct_supported :: bool

definition make_catalog :: "string list \<Rightarrow> string \<Rightarrow> bool \<Rightarrow> catalog" where
  \<comment> \<open>the folding of \<open>__post_init__\<close>\<close>
  "make_catalog ids err has_cmd =
     \<lparr> ct_ids = map (\<lambda>x. lower (strip x)) (filter (\<lambda>x. strip x \<noteq> []) ids), ct_error = err, ct_supported = has_cmd \<rparr>"

definition readable :: "catalog \<Rightarrow> bool" where
  "readable ct \<longleftrightarrow> ct_supported ct \<and> ct_error ct = [] \<and> ct_ids ct \<noteq> []"

definition lists_model :: "catalog \<Rightarrow> string \<Rightarrow> bool" where
  "lists_model ct model \<longleftrightarrow> lower (strip model) \<in> set (ct_ids ct)"

text \<open>\<open>load_catalog\<close>: \<open>loaders\<close> gives the loader of an executor, whose answer is the names and an
  error, or the text of an exception.\<close>

definition load_catalog :: "(string \<Rightarrow> (string + string list \<times> string) option) \<Rightarrow> string \<Rightarrow> catalog" where
  "load_catalog loaders executor =
     (let name = lower (strip executor) in
      if name = ''claude''
      then make_catalog [] ''Claude Code exposes no model catalog command; its aliases survive version bumps'' False
      else (case loaders name of
              None \<Rightarrow> make_catalog [] (''no model catalog is known for executor '' @ name) False
            | Some (Inl exc) \<Rightarrow> make_catalog [] exc True
            | Some (Inr (names, err)) \<Rightarrow> make_catalog names err True))"

section \<open>Refreshing\<close>

record snapshot =
  sn_ejected :: "string set"
  sn_unreadable :: "(string \<times> string) list"
  sn_checked_at :: rat

definition empty_snapshot :: snapshot where
  "empty_snapshot = \<lparr> sn_ejected = {}, sn_unreadable = [], sn_checked_at = 0 \<rparr>"

record catalog_health =
  ch_executors :: "(string \<times> string) list"  \<comment> \<open>candidate and its executor\<close>
  ch_snapshot :: snapshot

definition health_check :: "catalog_health \<Rightarrow> string \<Rightarrow> string" where
  "health_check ch candidate = (if candidate \<in> sn_ejected (ch_snapshot ch) then ''retired'' else [])"

fun refresh_loop ::
  "(string \<Rightarrow> catalog) \<Rightarrow> (string \<times> string) list \<Rightarrow> string set \<Rightarrow> (string \<times> string) list
     \<Rightarrow> (string set \<times> (string \<times> string) list) option" where
  "refresh_loop load [] ejected unreadable = Some (ejected, unreadable)"
| "refresh_loop load ((candidate, executor) # rest) ejected unreadable =
     (let ct = load executor in
      if \<not> readable ct then
        refresh_loop load rest ejected
          (if ct_supported ct \<and> executor \<notin> fst ` set unreadable then unreadable @ [(executor, ct_error ct)]
           else unreadable)
      else (case split_candidate candidate of
              None \<Rightarrow> None
            | Some (_, model) \<Rightarrow>
                refresh_loop load rest (if lists_model ct model then ejected else insert candidate ejected) unreadable))"

datatype health_event =
    Ejected string
  | CatalogUnreadable string
  | CatalogReadable string
  | BackUnread string
  | BackListed string

definition announce :: "(string \<times> string) list \<Rightarrow> snapshot \<Rightarrow> snapshot \<Rightarrow> health_event list" where
  "announce executors prev cur =
     map Ejected (sorted_list_of_set (sn_ejected cur - sn_ejected prev)) @
     map CatalogUnreadable (sorted_list_of_set (fst ` set (sn_unreadable cur) - fst ` set (sn_unreadable prev))) @
     map CatalogReadable (sorted_list_of_set (fst ` set (sn_unreadable prev) - fst ` set (sn_unreadable cur))) @
     map (\<lambda>c. if or_default (map_of executors c) [] \<in> fst ` set (sn_unreadable cur) then BackUnread c else BackListed c)
       (sorted_list_of_set (sn_ejected prev - sn_ejected cur))"

text \<open>\<open>refresh\<close>: a malformed candidate raises and leaves the previous snapshot.\<close>

definition refresh :: "(string \<Rightarrow> catalog) \<Rightarrow> rat \<Rightarrow> catalog_health \<Rightarrow> (catalog_health \<times> health_event list) option" where
  "refresh load now ch =
     (case refresh_loop load (ch_executors ch) {} [] of
        None \<Rightarrow> None
      | Some (ejected, unreadable) \<Rightarrow>
          (let cur = \<lparr> sn_ejected = ejected, sn_unreadable = unreadable, sn_checked_at = now \<rparr> in
           Some (ch\<lparr>ch_snapshot := cur\<rparr>, announce (ch_executors ch) (ch_snapshot ch) cur)))"

section \<open>The contract of a health source\<close>

locale health_source =
  fixes verdict :: "'h \<Rightarrow> string \<Rightarrow> string"
    and gone :: "'h \<Rightarrow> string \<Rightarrow> bool"
  assumes verdict_ok: "\<not> gone h c \<Longrightarrow> verdict h c = []"
    and verdict_gone: "gone h c \<Longrightarrow> verdict h c = ''retired''"
begin

lemma usable_with: "usable (rt\<lparr>rt_health := verdict h\<rparr>) req c \<longleftrightarrow> capable rt req c \<and> \<not> gone h c"
  using verdict_ok [of h c] verdict_gone [of h c] by (auto simp: usable_def capable_def)

lemma never_selects_gone:
  "select (rt\<lparr>rt_health := verdict h\<rparr>) i req sticky exclude = Inr dc \<Longrightarrow>
    \<not> gone h (candidate_id (dc_provider dc) (dc_model dc))"
  using select_chosen [of "rt\<lparr>rt_health := verdict h\<rparr>" i req sticky exclude dc] verdict_gone by fastforce

lemma all_present: "(\<And>c. \<not> gone h c) \<Longrightarrow> verdict h = (\<lambda>_. [])"
  by (rule ext) (simp add: verdict_ok)

lemma inert_when_nothing_gone:
  "(\<And>c. \<not> gone h c) \<Longrightarrow> rt_health rt = (\<lambda>_. []) \<Longrightarrow> select (rt\<lparr>rt_health := verdict h\<rparr>) = select rt"
  using all_present by (metis (full_types) router.surjective router.update_convs(5))

end

interpretation catalog: health_source health_check "\<lambda>ch c. c \<in> sn_ejected (ch_snapshot ch)"
  by unfold_locales (simp_all add: health_check_def)

section \<open>What a refresh concludes\<close>

definition catalog_denies :: "(string \<Rightarrow> catalog) \<Rightarrow> string \<times> string \<Rightarrow> bool" where
  "catalog_denies load ce \<longleftrightarrow> readable (load (snd ce)) \<and>
     (\<exists>p m. split_candidate (fst ce) = Some (p, m) \<and> \<not> lists_model (load (snd ce)) m)"

lemma refresh_loop_ejected:
  "refresh_loop load xs ej un = Some (ej', un') \<Longrightarrow> ej' = ej \<union> {c. \<exists>e. (c, e) \<in> set xs \<and> catalog_denies load (c, e)}"
proof (induction load xs ej un rule: refresh_loop.induct)
  case (2 load c e rest ej un)
  show ?case
  proof (cases "readable (load e)")
    case False
    with 2 show ?thesis by (auto simp: catalog_denies_def Let_def)
  next
    case True
    with "2.prems" obtain p m where pm: "split_candidate c = Some (p, m)"
      by (auto simp: Let_def split: option.splits)
    let ?ej = "if lists_model (load e) m then ej else insert c ej"
    have "ej' = ?ej \<union> {c. \<exists>e. (c, e) \<in> set rest \<and> catalog_denies load (c, e)}"
      using True pm "2.prems" "2.IH"(2) [OF refl _ pm refl] by (simp add: Let_def)
    moreover have "catalog_denies load (c, e) \<longleftrightarrow> \<not> lists_model (load e) m"
      using True pm by (simp add: catalog_denies_def)
    ultimately show ?thesis by auto
  qed
qed simp

lemma refresh_loop_total:
  "\<forall>(c, e)\<in>set xs. split_candidate c \<noteq> None \<Longrightarrow> refresh_loop load xs ej un \<noteq> None"
  by (induction load xs ej un rule: refresh_loop.induct) (auto simp: Let_def)

section \<open>Properties\<close>

text \<open>C19: An unknown never reads as dead: after a refresh the router's health check calls a candidate
  retired exactly when it is configured, the catalog of its executor could be read, and that
  catalog does not list its model; a CLI that is missing, failing or has no catalog retires nothing.\<close>

theorem ejected_iff_catalog_denies:
  assumes "refresh load now ch = Some (ch', events)"
  shows "health_check ch' c = ''retired'' \<longleftrightarrow>
    (\<exists>executor. (c, executor) \<in> set (ch_executors ch) \<and> ct_supported (load executor) \<and>
       ct_error (load executor) = [] \<and> ct_ids (load executor) \<noteq> [] \<and>
       (\<exists>p m. split_candidate c = Some (p, m) \<and> lower (strip m) \<notin> set (ct_ids (load executor))))"
proof -
  obtain ej un where loop: "refresh_loop load (ch_executors ch) {} [] = Some (ej, un)"
    and ch': "sn_ejected (ch_snapshot ch') = ej"
    using assms by (auto simp: refresh_def Let_def split: option.splits)
  show ?thesis
    using refresh_loop_ejected [OF loop] ch'
    by (auto simp: health_check_def catalog_denies_def readable_def lists_model_def)
qed

definition demo_load :: "string \<Rightarrow> catalog" where
  "demo_load = load_catalog (\<lambda>e. if e = ''codex'' then Some (Inr ([''GPT-5 '', ''o4''], []))
     else if e = ''antigravity'' then Some (Inr ([''pro''], ''timed out'')) else None)"

definition demo_health :: catalog_health where
  "demo_health = \<lparr> ch_executors = [(''cx:gpt-5'', ''codex''), (''cx:gpt-3'', ''codex''), (''agy:old'', ''antigravity''),
     (''cl:opus'', ''claude'')], ch_snapshot = empty_snapshot \<rparr>"

lemma demo_refresh: "\<exists>ch' evs. refresh demo_load 1 demo_health = Some (ch', evs)"
  using refresh_loop_total [of "ch_executors demo_health" demo_load "{}" "[]"]
  by (auto simp: refresh_def demo_health_def split_candidate_def before_char_def after_char_def Let_def)

theorem ejected_iff_catalog_denies_witness:
  "\<exists>ch' evs. refresh demo_load 1 demo_health = Some (ch', evs) \<and> health_check ch' ''agy:old'' = [] \<and>
     health_check ch' ''cx:gpt-3'' = ''retired''"
proof -
  obtain ch' evs where r: "refresh demo_load 1 demo_health = Some (ch', evs)" using demo_refresh by blast
  have "ct_error (demo_load ''antigravity'') \<noteq> []" by code_simp
  then have "health_check ch' ''agy:old'' \<noteq> ''retired''"
    unfolding ejected_iff_catalog_denies [OF r] by (auto simp: demo_health_def)
  moreover have "health_check ch' ''cx:gpt-3'' = ''retired''"
    unfolding ejected_iff_catalog_denies [OF r]
    by (intro exI [of _ "''codex''"] conjI exI [of _ "''cx''"] exI [of _ "''gpt-3''"]) code_simp+
  ultimately show ?thesis using r by (auto simp: health_check_def split: if_splits)
qed

end
