(* ===== verification/GwConfig.thy ===== *)
theory GwConfig
  imports GwHealth
begin

text \<open>
  The routing configuration of \<open>provider_gateway/config.py\<close>: reading providers, policies and routes
  from a JSON object with the checks that stop startup, the capabilities every local agent is
  granted, and the check of configured models against live catalogs. A configuration error is a
  constructor per message of the code. \<open>repr\<close> renders floats, lists and dicts for \<open>str()\<close>, and
  \<open>float_of\<close> is \<open>float()\<close> of a string.
\<close>

section \<open>Errors and data\<close>

datatype config_error =
    UnsupportedVersion
  | ProvidersNotList
  | ProviderNotObject nat
  | ProviderWithoutId nat
  | ReservedProvider string
  | DuplicateProvider string
  | UnknownProtocol string string
  | NoExecutor string
  | NoProviders
  | NoModels string
  | ModelNotObject string nat
  | ModelWithoutId string nat
  | DuplicateModel string string
  | NoPolicies
  | PolicyNotObject string
  | NotStringList string
  | NoCandidates string
  | WeightsNotObject string
  | UnknownWeights string
  | EffortsNotObject string
  | UnusedEfforts string
  | UnsupportedEffort string string
  | BadWeight py_exc
  | RoutesNotObject
  | UndefinedPolicy string string
  | MalformedCandidate string string
  | UnknownProvider string string
  | UndeclaredModel string string

record provider_spec =
  pv_id :: string
  pv_protocol :: string
  pv_enabled :: bool
  pv_models :: "(string \<times> capabilities) list"
  pv_executor :: string
  pv_workspace :: string

record policy_decl =
  pd_id :: string
  pd_candidates :: "string list"
  pd_fallback :: "string list"
  pd_weights :: "(string \<times> rat) list"
  pd_efforts :: "(string \<times> string) list"

record routing_config =
  rc_providers :: "provider_spec list"
  rc_policies :: "policy_decl list"
  rc_routes :: "(string \<times> string) list"

definition reserved_providers :: "string list" where
  "reserved_providers = [''openai'', ''ollama'', ''lmstudio'']"

definition supported_efforts :: "string list" where
  "supported_efforts = [''minimal'', ''low'', ''medium'', ''high'', ''xhigh'', ''max'', ''ultra'']"

definition dimensions :: "string list" where
  "dimensions = [''quality'', ''cost'', ''latency'', ''quota'']"

definition implied_capabilities :: dict where
  "implied_capabilities = map (\<lambda>k. (k, JBool True))
     [''streaming'', ''tool_calling'', ''parallel_tool_calling'', ''reasoning'', ''reasoning_summary'',
      ''image_input'', ''compact'']"

section \<open>Reading\<close>

definition is_dict :: "json \<Rightarrow> dict option" where
  "is_dict v = (case v of JDict d \<Rightarrow> Some d | _ \<Rightarrow> None)"

definition text_of :: "(json \<Rightarrow> string) \<Rightarrow> dict \<Rightarrow> string \<Rightarrow> string" where
  \<comment> \<open>\<open>str(entry.get(key, "")).strip()\<close>\<close>
  "text_of rp d k = strip (py_str rp (dget_or d k (JStr [])))"

fun parse_models_loop ::
  "(json \<Rightarrow> string) \<Rightarrow> string \<Rightarrow> nat \<Rightarrow> json list \<Rightarrow> (string \<times> capabilities) list
     \<Rightarrow> config_error + (string \<times> capabilities) list" where
  "parse_models_loop rp pid i [] acc = Inr acc"
| "parse_models_loop rp pid i (e # es) acc =
     (case is_dict e of
        None \<Rightarrow> Inl (ModelNotObject pid i)
      | Some d \<Rightarrow>
          (let mid = text_of rp d ''id'' in
           if mid = [] then Inl (ModelWithoutId pid i)
           else if mid \<in> fst ` set acc then Inl (DuplicateModel pid mid)
           else let own = (case is_dict (dget d ''capabilities'') of None \<Rightarrow> [] | Some c \<Rightarrow> c) in
             parse_models_loop rp pid (Suc i) es
               (acc @ [(mid, capabilities_from_config (own @ implied_capabilities))])))"

definition parse_models ::
  "(json \<Rightarrow> string) \<Rightarrow> string \<Rightarrow> json \<Rightarrow> config_error + (string \<times> capabilities) list" where
  "parse_models rp pid raw =
     (case raw of JList (e # es) \<Rightarrow> parse_models_loop rp pid 0 (e # es) [] | _ \<Rightarrow> Inl (NoModels pid))"

fun parse_providers_loop ::
  "(json \<Rightarrow> string) \<Rightarrow> nat \<Rightarrow> json list \<Rightarrow> provider_spec list \<Rightarrow> config_error + provider_spec list" where
  "parse_providers_loop rp i [] acc = Inr acc"
| "parse_providers_loop rp i (e # es) acc =
     (case is_dict e of
        None \<Rightarrow> Inl (ProviderNotObject i)
      | Some d \<Rightarrow>
          (let pid = text_of rp d ''id'';
               protocol = str_or (strip (py_str rp (dget_or d ''protocol'' (JStr ''local_agent'')))) ''local_agent'';
               executor = text_of rp d ''executor'' in
           if pid = [] then Inl (ProviderWithoutId i)
           else if pid \<in> set reserved_providers then Inl (ReservedProvider pid)
           else if pid \<in> pv_id ` set acc then Inl (DuplicateProvider pid)
           else if protocol \<noteq> ''local_agent'' then Inl (UnknownProtocol pid protocol)
           else if executor = [] then Inl (NoExecutor pid)
           else (case parse_models rp pid (dget d ''models'') of
                   Inl err \<Rightarrow> Inl err
                 | Inr models \<Rightarrow>
                     parse_providers_loop rp (Suc i) es (acc @
                       [\<lparr> pv_id = pid, pv_protocol = protocol,
                          pv_enabled = truthy (dget_or d ''enabled'' (JBool True)), pv_models = models,
                          pv_executor = executor, pv_workspace = text_of rp d ''default_workspace'' \<rparr>]))))"

definition parse_providers :: "(json \<Rightarrow> string) \<Rightarrow> json \<Rightarrow> config_error + provider_spec list" where
  "parse_providers rp raw =
     (case raw of
        JList es \<Rightarrow> (case parse_providers_loop rp 0 es [] of
                       Inl err \<Rightarrow> Inl err | Inr ps \<Rightarrow> (if ps = [] then Inl NoProviders else Inr ps))
      | _ \<Rightarrow> Inl ProvidersNotList)"

fun all_strings :: "json list \<Rightarrow> string list option" where
  "all_strings [] = Some []"
| "all_strings (JStr s # vs) = map_option (\<lambda>r. s # r) (all_strings vs)"
| "all_strings (_ # vs) = None"

definition string_list :: "string \<Rightarrow> json \<Rightarrow> config_error + string list" where
  "string_list label raw =
     (case raw of
        JNull \<Rightarrow> Inr []
      | JList vs \<Rightarrow> (case all_strings vs of
            None \<Rightarrow> Inl (NotStringList label)
          | Some ss \<Rightarrow> Inr (filter (\<lambda>s. s \<noteq> []) (map strip ss)))
      | _ \<Rightarrow> Inl (NotStringList label))"

definition py_float :: "(string \<Rightarrow> rat option) \<Rightarrow> json \<Rightarrow> py_exc + rat" where
  "py_float float_of v =
     (case v of
        JInt n \<Rightarrow> Inr (of_int n) | JFloat x \<Rightarrow> Inr x | JBool b \<Rightarrow> Inr (if b then 1 else 0)
      | JStr s \<Rightarrow> (case float_of s of None \<Rightarrow> Inl ValueError | Some x \<Rightarrow> Inr x)
      | _ \<Rightarrow> Inl TypeError)"

fun read_weights :: "(string \<Rightarrow> rat option) \<Rightarrow> dict \<Rightarrow> config_error + (string \<times> rat) list" where
  "read_weights float_of [] = Inr []"
| "read_weights float_of ((k, v) # kvs) =
     (case py_float float_of v of Inl e \<Rightarrow> Inl (BadWeight e)
      | Inr x \<Rightarrow> (case read_weights float_of kvs of Inl e \<Rightarrow> Inl e | Inr ws \<Rightarrow> Inr ((k, x) # ws)))"

fun read_efforts :: "(json \<Rightarrow> string) \<Rightarrow> string \<Rightarrow> dict \<Rightarrow> config_error + (string \<times> string) list" where
  "read_efforts rp pid [] = Inr []"
| "read_efforts rp pid ((k, v) # kvs) =
     (let effort = lower (strip (py_str rp v)) in
      if effort \<notin> set supported_efforts then Inl (UnsupportedEffort pid k)
      else (case read_efforts rp pid kvs of Inl e \<Rightarrow> Inl e | Inr es \<Rightarrow> Inr ((k, effort) # es)))"

definition parse_policy ::
  "(json \<Rightarrow> string) \<Rightarrow> (string \<Rightarrow> rat option) \<Rightarrow> string \<Rightarrow> json \<Rightarrow> config_error + policy_decl" where
  "parse_policy rp float_of pid entry =
     (case is_dict entry of None \<Rightarrow> Inl (PolicyNotObject pid) | Some d \<Rightarrow>
     (case string_list (pid @ ''.candidates'') (dget d ''candidates'') of Inl e \<Rightarrow> Inl e | Inr candidates \<Rightarrow>
      if candidates = [] then Inl (NoCandidates pid) else
     (case is_dict (dget_or d ''weights'' (JDict [])) of None \<Rightarrow> Inl (WeightsNotObject pid) | Some weights \<Rightarrow>
      if \<not> set (map fst weights) \<subseteq> set dimensions then Inl (UnknownWeights pid) else
     (case string_list (pid @ ''.fallback'') (dget d ''fallback'') of Inl e \<Rightarrow> Inl e | Inr fallback \<Rightarrow>
     (case is_dict (dget_or d ''efforts'' (JDict [])) of None \<Rightarrow> Inl (EffortsNotObject pid) | Some efforts \<Rightarrow>
      if \<not> set (map fst efforts) \<subseteq> set (candidates @ fallback) then Inl (UnusedEfforts pid) else
     (case read_efforts rp pid efforts of Inl e \<Rightarrow> Inl e | Inr es \<Rightarrow>
     (case read_weights float_of weights of Inl e \<Rightarrow> Inl e | Inr ws \<Rightarrow>
        Inr \<lparr> pd_id = pid, pd_candidates = candidates, pd_fallback = fallback, pd_weights = ws, pd_efforts = es \<rparr>)))))))"

fun parse_policies_loop ::
  "(json \<Rightarrow> string) \<Rightarrow> (string \<Rightarrow> rat option) \<Rightarrow> dict \<Rightarrow> config_error + policy_decl list" where
  "parse_policies_loop rp float_of [] = Inr []"
| "parse_policies_loop rp float_of ((pid, entry) # rest) =
     (case parse_policy rp float_of pid entry of Inl e \<Rightarrow> Inl e
      | Inr p \<Rightarrow> (case parse_policies_loop rp float_of rest of Inl e \<Rightarrow> Inl e | Inr ps \<Rightarrow> Inr (p # ps)))"

definition parse_policies ::
  "(json \<Rightarrow> string) \<Rightarrow> (string \<Rightarrow> rat option) \<Rightarrow> json \<Rightarrow> config_error + policy_decl list" where
  "parse_policies rp float_of raw =
     (case raw of JDict (kv # kvs) \<Rightarrow> parse_policies_loop rp float_of (kv # kvs) | _ \<Rightarrow> Inl NoPolicies)"

fun parse_routes_loop ::
  "(json \<Rightarrow> string) \<Rightarrow> string list \<Rightarrow> dict \<Rightarrow> config_error + (string \<times> string) list" where
  "parse_routes_loop rp policies [] = Inr []"
| "parse_routes_loop rp policies ((role, v) # rest) =
     (let name = py_str rp v in
      if name \<notin> set policies then Inl (UndefinedPolicy role name)
      else (case parse_routes_loop rp policies rest of Inl e \<Rightarrow> Inl e | Inr rs \<Rightarrow> Inr ((role, name) # rs)))"

definition parse_routes ::
  "(json \<Rightarrow> string) \<Rightarrow> string list \<Rightarrow> json \<Rightarrow> config_error + (string \<times> string) list" where
  "parse_routes rp policies raw =
     (case raw of JNull \<Rightarrow> Inr [] | JDict d \<Rightarrow> parse_routes_loop rp policies d | _ \<Rightarrow> Inl RoutesNotObject)"

definition declared_candidates :: "policy_decl \<Rightarrow> string list" where
  "declared_candidates p = dedup [] (pd_candidates p @ pd_fallback p)"

fun find_provider :: "provider_spec list \<Rightarrow> string \<Rightarrow> provider_spec option" where
  "find_provider [] pid = None"
| "find_provider (p # ps) pid = (if pv_id p = pid then Some p else find_provider ps pid)"

definition check_candidate :: "provider_spec list \<Rightarrow> string \<Rightarrow> string \<Rightarrow> config_error option" where
  "check_candidate providers pid candidate =
     (case split_candidate candidate of
        None \<Rightarrow> Some (MalformedCandidate pid candidate)
      | Some (provider, model) \<Rightarrow>
          (case find_provider providers provider of
             None \<Rightarrow> Some (UnknownProvider pid candidate)
           | Some spec \<Rightarrow> (if model \<in> fst ` set (pv_models spec) then None
                           else Some (UndeclaredModel pid candidate))))"

fun first_error :: "('a \<Rightarrow> config_error option) \<Rightarrow> 'a list \<Rightarrow> config_error option" where
  "first_error check [] = None"
| "first_error check (x # xs) = (case check x of Some e \<Rightarrow> Some e | None \<Rightarrow> first_error check xs)"

definition validate_candidates :: "policy_decl list \<Rightarrow> provider_spec list \<Rightarrow> config_error option" where
  "validate_candidates policies providers =
     first_error (\<lambda>p. first_error (check_candidate providers (pd_id p)) (declared_candidates p)) policies"

definition supported_version :: "json \<Rightarrow> bool" where
  "supported_version v = (v = JInt 1 \<or> v = JBool True \<or> v = JFloat 1)"

definition parse_config ::
  "(json \<Rightarrow> string) \<Rightarrow> (string \<Rightarrow> rat option) \<Rightarrow> dict \<Rightarrow> config_error + routing_config" where
  "parse_config rp float_of raw =
     (if \<not> supported_version (dget_or raw ''version'' (JInt 1)) then Inl UnsupportedVersion else
     (case parse_providers rp (dget raw ''providers'') of Inl e \<Rightarrow> Inl e | Inr providers \<Rightarrow>
     (case parse_policies rp float_of (dget raw ''policies'') of Inl e \<Rightarrow> Inl e | Inr policies \<Rightarrow>
     (case parse_routes rp (map pd_id policies) (dget raw ''routes'') of Inl e \<Rightarrow> Inl e | Inr routes \<Rightarrow>
     (case validate_candidates policies providers of Some e \<Rightarrow> Inl e
      | None \<Rightarrow> Inr \<lparr> rc_providers = providers, rc_policies = policies, rc_routes = routes \<rparr>)))))"

section \<open>What the gateway builds from it\<close>

definition enabled_providers :: "routing_config \<Rightarrow> provider_spec list" where
  "enabled_providers rc = filter pv_enabled (rc_providers rc)"

text \<open>The capability index, in the order it is built: a later entry for a key replaces an earlier one.\<close>

definition capability_index :: "routing_config \<Rightarrow> (string \<times> capabilities) list" where
  "capability_index rc =
     concat (map (\<lambda>p. map (\<lambda>(m, caps). (candidate_id (pv_id p) m, caps)) (pv_models p)) (enabled_providers rc))"

definition executors_of :: "routing_config \<Rightarrow> (string \<times> string) list" where
  \<comment> \<open>\<open>CatalogHealth._executors\<close>\<close>
  "executors_of rc =
     concat (map (\<lambda>p. map (\<lambda>(m, caps). (candidate_id (pv_id p) m, lower (strip (pv_executor p)))) (pv_models p))
       (enabled_providers rc))"

definition policy_of_decl :: "policy_decl \<Rightarrow> policy_spec" where
  "policy_of_decl p = \<lparr> ps_id = pd_id p, ps_candidates = pd_candidates p, ps_fallback = pd_fallback p,
     ps_weights = map_of (pd_weights p), ps_efforts = map_of (pd_efforts p) \<rparr>"

fun find_policy :: "policy_decl list \<Rightarrow> string \<Rightarrow> policy_decl option" where
  "find_policy [] pid = None"
| "find_policy (p # ps) pid = (if pd_id p = pid then Some p else find_policy ps pid)"

definition build_router :: "routing_config \<Rightarrow> (string \<Rightarrow> string) \<Rightarrow> string \<Rightarrow> router" where
  "build_router rc health default_policy =
     \<lparr> rt_policies = (\<lambda>pid. map_option policy_of_decl (find_policy (rc_policies rc) pid)),
       rt_routes = map_of (rc_routes rc), rt_capabilities = map_of (rev (capability_index rc)),
       rt_stats = (\<lambda>_. None), rt_health = health, rt_default_policy = default_policy \<rparr>"

section \<open>Checking configured models\<close>

record verification =
  vf_missing :: "string list"
  vf_verified :: "string list"
  vf_unverified :: "(string \<times> string) list"

definition verify_provider :: "(string \<Rightarrow> catalog) \<Rightarrow> provider_spec \<Rightarrow> verification \<Rightarrow> verification" where
  "verify_provider load p acc =
     (let ct = load (lower (strip (pv_executor p))) in
      fold (\<lambda>m acc.
          let candidate = candidate_id (pv_id p) m in
          if \<not> readable ct then acc\<lparr>vf_unverified := vf_unverified acc @ [(candidate, ct_error ct)]\<rparr>
          else if lists_model ct m then acc\<lparr>vf_verified := vf_verified acc @ [candidate]\<rparr>
          else acc\<lparr>vf_missing := vf_missing acc @ [candidate]\<rparr>)
        (sort (map fst (pv_models p))) acc)"

definition verify_configured_models :: "(string \<Rightarrow> catalog) \<Rightarrow> routing_config \<Rightarrow> verification" where
  "verify_configured_models load rc =
     fold (verify_provider load) (sort_key pv_id (enabled_providers rc))
       \<lparr> vf_missing = [], vf_verified = [], vf_unverified = [] \<rparr>"

section \<open>What an accepted configuration guarantees\<close>

lemma parse_models_loop_wf:
  "parse_models_loop rp pid i es acc = Inr ms \<Longrightarrow> distinct (map fst acc) \<Longrightarrow> [] \<notin> fst ` set acc \<Longrightarrow>
    distinct (map fst ms) \<and> [] \<notin> fst ` set ms \<and> (length ms = length acc + length es)"
proof (induction rp pid i es acc rule: parse_models_loop.induct)
  case (2 rp pid i e es acc)
  then show ?case by (auto simp: Let_def split: option.splits if_splits)
qed simp

lemma parse_models_wf:
  "parse_models rp pid raw = Inr ms \<Longrightarrow> ms \<noteq> [] \<and> distinct (map fst ms) \<and> [] \<notin> fst ` set ms"
proof -
  assume "parse_models rp pid raw = Inr ms"
  then obtain e es where l: "parse_models_loop rp pid 0 (e # es) [] = Inr ms"
    by (auto simp: parse_models_def split: json.splits list.splits)
  from parse_models_loop_wf [OF l] show ?thesis by auto
qed

definition provider_wf :: "provider_spec \<Rightarrow> bool" where
  "provider_wf p \<longleftrightarrow> pv_id p \<noteq> [] \<and> pv_id p \<notin> set reserved_providers \<and> pv_executor p \<noteq> [] \<and>
     pv_models p \<noteq> [] \<and> distinct (map fst (pv_models p)) \<and> [] \<notin> fst ` set (pv_models p)"

lemma parse_providers_loop_wf:
  "parse_providers_loop rp i es acc = Inr ps \<Longrightarrow> distinct (map pv_id acc) \<Longrightarrow> \<forall>p\<in>set acc. provider_wf p \<Longrightarrow>
    distinct (map pv_id ps) \<and> (\<forall>p\<in>set ps. provider_wf p)"
proof (induction rp i es acc rule: parse_providers_loop.induct)
  case (2 rp i e es acc)
  from "2.prems"(1) obtain d ms where d: "is_dict e = Some d" and ms: "parse_models rp (text_of rp d ''id'') (dget d ''models'') = Inr ms"
    and ids: "text_of rp d ''id'' \<noteq> []" "text_of rp d ''id'' \<notin> set reserved_providers" "text_of rp d ''id'' \<notin> pv_id ` set acc"
      "text_of rp d ''executor'' \<noteq> []"
      "str_or (strip (py_str rp (dget_or d ''protocol'' (JStr ''local_agent'')))) ''local_agent'' = ''local_agent''"
    by (simp add: Let_def split: option.splits if_splits sum.splits)
  let ?p = "\<lparr> pv_id = text_of rp d ''id'', pv_protocol = ''local_agent'',
      pv_enabled = truthy (dget_or d ''enabled'' (JBool True)), pv_models = ms,
      pv_executor = text_of rp d ''executor'', pv_workspace = text_of rp d ''default_workspace'' \<rparr>"
  have "parse_providers_loop rp (Suc i) es (acc @ [?p]) = Inr ps"
    using "2.prems"(1) d ms ids by (simp add: Let_def)
  moreover have "provider_wf ?p" using ids parse_models_wf [OF ms] by (simp add: provider_wf_def)
  moreover have "distinct (map pv_id (acc @ [?p]))" using "2.prems"(2) ids by simp
  ultimately show ?case
    using "2.IH" [OF d refl refl refl ids(1-3)] ids(4,5) ms "2.prems"(3) by simp
qed simp

lemma parse_policy_wf:
  "parse_policy rp fo pid entry = Inr p \<Longrightarrow> pd_id p = pid \<and> pd_candidates p \<noteq> [] \<and>
    (\<forall>x\<in>set (pd_efforts p). fst x \<in> set (declared_candidates p) \<and> snd x \<in> set supported_efforts)"
proof -
  have eff: "read_efforts rp pid kvs = Inr es \<Longrightarrow>
      \<forall>x\<in>set es. fst x \<in> set (map fst kvs) \<and> snd x \<in> set supported_efforts" for kvs es
  proof (induction kvs arbitrary: es)
    case (Cons kv kvs)
    obtain k v where kv: "kv = (k, v)" by (cases kv)
    from Cons.prems obtain e qs where "read_efforts rp pid kvs = Inr qs" "es = (k, e) # qs" "e \<in> set supported_efforts"
      by (auto simp: kv Let_def split: if_splits sum.splits)
    with Cons.IH [of qs] show ?case by (auto simp: kv)
  qed simp
  have dd: "set (dedup seen xs) = set xs - set seen" for seen xs
    by (induction seen xs rule: dedup.induct) auto
  assume a: "parse_policy rp fo pid entry = Inr p"
  then obtain efforts where e: "read_efforts rp pid efforts = Inr (pd_efforts p)"
    "set (map fst efforts) \<subseteq> set (pd_candidates p @ pd_fallback p)" and p: "pd_id p = pid" "pd_candidates p \<noteq> []"
    by (auto simp: parse_policy_def split: option.splits sum.splits if_splits)
  have "\<forall>x\<in>set (pd_efforts p). fst x \<in> set (declared_candidates p) \<and> snd x \<in> set supported_efforts"
    using eff [OF e(1)] e(2) by (simp add: declared_candidates_def dd) blast
  with p show ?thesis by blast
qed

definition policy_wf_decl :: "policy_decl \<Rightarrow> bool" where
  "policy_wf_decl p \<longleftrightarrow> pd_candidates p \<noteq> [] \<and>
     (\<forall>x\<in>set (pd_efforts p). fst x \<in> set (declared_candidates p) \<and> snd x \<in> set supported_efforts)"

lemma parse_policies_loop_wf:
  "parse_policies_loop rp fo kvs = Inr ps \<Longrightarrow> \<forall>p\<in>set ps. policy_wf_decl p"
proof (induction kvs arbitrary: ps)
  case (Cons kv kvs)
  obtain k v where kv: "kv = (k, v)" by (cases kv)
  from Cons.prems obtain p qs where p: "parse_policy rp fo k v = Inr p"
    and qs: "parse_policies_loop rp fo kvs = Inr qs" "ps = p # qs"
    by (auto simp: kv split: sum.splits)
  from parse_policy_wf [OF p] Cons.IH [OF qs(1)] show ?case by (simp add: qs(2) policy_wf_decl_def)
qed simp

lemma parse_routes_loop_wf: "parse_routes_loop rp ps d = Inr rs \<Longrightarrow> \<forall>x\<in>set rs. snd x \<in> set ps"
  by (induction d arbitrary: rs) (fastforce simp: Let_def split: if_splits sum.splits)+

lemma first_error_None: "first_error check xs = None \<longleftrightarrow> (\<forall>x\<in>set xs. check x = None)"
  by (induction xs) (auto split: option.splits)

lemma find_provider_Some: "find_provider ps pid = Some p \<Longrightarrow> p \<in> set ps \<and> pv_id p = pid"
  by (induction ps) (auto split: if_splits)

lemma parse_config_parts:
  assumes "parse_config rp fo raw = Inr rc"
  shows "distinct (map pv_id (rc_providers rc))" and "\<forall>p\<in>set (rc_providers rc). provider_wf p"
    and "\<forall>p\<in>set (rc_policies rc). policy_wf_decl p"
    and "\<forall>x\<in>set (rc_routes rc). snd x \<in> pd_id ` set (rc_policies rc)"
    and "\<forall>p\<in>set (rc_policies rc). \<forall>c\<in>set (declared_candidates p). \<exists>spec m. spec \<in> set (rc_providers rc) \<and>
       m \<in> fst ` set (pv_models spec) \<and> split_candidate c = Some (pv_id spec, m)"
proof -
  from assms have ps: "parse_providers rp (dget raw ''providers'') = Inr (rc_providers rc)"
    and pol: "parse_policies rp fo (dget raw ''policies'') = Inr (rc_policies rc)"
    and rts: "parse_routes rp (map pd_id (rc_policies rc)) (dget raw ''routes'') = Inr (rc_routes rc)"
    and val: "validate_candidates (rc_policies rc) (rc_providers rc) = None"
    by (auto simp: parse_config_def split: if_splits sum.splits option.splits)
  obtain es where "parse_providers_loop rp 0 es [] = Inr (rc_providers rc)"
    using ps by (auto simp: parse_providers_def split: json.splits sum.splits if_splits)
  from parse_providers_loop_wf [OF this]
  show "distinct (map pv_id (rc_providers rc))" "\<forall>p\<in>set (rc_providers rc). provider_wf p" by simp_all
  show "\<forall>p\<in>set (rc_policies rc). policy_wf_decl p"
    using pol parse_policies_loop_wf by (auto simp: parse_policies_def split: json.splits list.splits)
  show "\<forall>x\<in>set (rc_routes rc). snd x \<in> pd_id ` set (rc_policies rc)"
  proof (cases "dget raw ''routes''")
    case JNull
    with rts show ?thesis by (simp add: parse_routes_def)
  next
    case (JDict d)
    with rts have "parse_routes_loop rp (map pd_id (rc_policies rc)) d = Inr (rc_routes rc)"
      by (simp add: parse_routes_def)
    from parse_routes_loop_wf [OF this] show ?thesis by simp
  qed (use rts in \<open>simp_all add: parse_routes_def\<close>)
  show "\<forall>p\<in>set (rc_policies rc). \<forall>c\<in>set (declared_candidates p). \<exists>spec m. spec \<in> set (rc_providers rc) \<and>
       m \<in> fst ` set (pv_models spec) \<and> split_candidate c = Some (pv_id spec, m)"
  proof (intro ballI)
    fix p c assume "p \<in> set (rc_policies rc)" "c \<in> set (declared_candidates p)"
    then have "check_candidate (rc_providers rc) (pd_id p) c = None"
      using val by (simp add: validate_candidates_def first_error_None)
    then obtain pv m spec where "split_candidate c = Some (pv, m)" "find_provider (rc_providers rc) pv = Some spec"
        "m \<in> fst ` set (pv_models spec)"
      by (auto simp: check_candidate_def split: option.splits if_splits)
    with find_provider_Some show "\<exists>spec m. spec \<in> set (rc_providers rc) \<and>
       m \<in> fst ` set (pv_models spec) \<and> split_candidate c = Some (pv_id spec, m)" by blast
  qed
qed

section \<open>Every request finds a model\<close>

definition keeps_implied :: "capabilities \<Rightarrow> bool" where
  "keeps_implied caps \<longleftrightarrow> fst ` set implied_capabilities \<subseteq> cap_flags caps"

lemma required_implied: "set (required_of body is_compaction) \<subseteq> fst ` set implied_capabilities"
  by (auto simp: required_of_def implied_capabilities_def split: json.splits list.splits if_splits)

lemma implied_serve: "keeps_implied caps \<Longrightarrow> unmet_by (derive_requirements body is_compaction None) caps = []"
  using required_implied [of body is_compaction]
  by (auto simp: unmet_by_Nil derive_requirements_def keeps_implied_def)

lemma find_policy_Some: "find_policy ps pid = Some p \<Longrightarrow> p \<in> set ps \<and> pd_id p = pid"
  by (induction ps) (auto split: if_splits)

lemma find_policy_None: "find_policy ps pid = None \<longleftrightarrow> pid \<notin> pd_id ` set ps"
  by (induction ps) auto

lemma declared_of: "ordered_candidates (policy_of_decl p) = declared_candidates p"
  by (simp add: ordered_candidates_def policy_of_decl_def declared_candidates_def)

lemma policy_in_force:
  assumes "parse_config rp fo raw = Inr rc" and "default_policy \<in> pd_id ` set (rc_policies rc)"
  shows "\<exists>p\<in>set (rc_policies rc). policy_for (build_router rc health default_policy) i = Inr (policy_of_decl p)"
proof -
  let ?key = "if id_request_kind i = ''compaction'' then ''compaction'' else id_route_hint i"
  let ?pid = "or_default (map_of (rc_routes rc) ?key) default_policy"
  have "?pid \<in> pd_id ` set (rc_policies rc)"
  proof (cases "map_of (rc_routes rc) ?key")
    case None
    then show ?thesis using assms(2) by (simp add: or_default_def)
  next
    case (Some pid)
    then have "(?key, pid) \<in> set (rc_routes rc)" by (rule map_of_SomeD)
    with parse_config_parts(4) [OF assms(1)] Some show ?thesis by (fastforce simp: or_default_def)
  qed
  then obtain p where "find_policy (rc_policies rc) ?pid = Some p"
    using find_policy_None [of "rc_policies rc" ?pid] by auto
  then show ?thesis
    using find_policy_Some by (fastforce simp: policy_for_def build_router_def Let_def)
qed

section \<open>The offline check and the runtime check\<close>

definition missing_models :: "(string \<Rightarrow> catalog) \<Rightarrow> provider_spec \<Rightarrow> string set" where
  "missing_models load p =
     {candidate_id (pv_id p) m | m. m \<in> fst ` set (pv_models p) \<and> readable (load (lower (strip (pv_executor p)))) \<and>
        \<not> lists_model (load (lower (strip (pv_executor p)))) m}"

lemma verify_provider_missing:
  "set (vf_missing (verify_provider load p acc)) = set (vf_missing acc) \<union> missing_models load p"
proof -
  let ?ct = "load (lower (strip (pv_executor p)))"
  have "set (vf_missing (fold (\<lambda>m acc.
          let candidate = candidate_id (pv_id p) m in
          if \<not> readable ?ct then acc\<lparr>vf_unverified := vf_unverified acc @ [(candidate, ct_error ?ct)]\<rparr>
          else if lists_model ?ct m then acc\<lparr>vf_verified := vf_verified acc @ [candidate]\<rparr>
          else acc\<lparr>vf_missing := vf_missing acc @ [candidate]\<rparr>) ms acc)) = set (vf_missing acc) \<union>
      {candidate_id (pv_id p) m | m. m \<in> set ms \<and> readable ?ct \<and> \<not> lists_model ?ct m}" for ms
    by (induction ms arbitrary: acc) (auto simp: Let_def)
  then show ?thesis by (simp add: verify_provider_def missing_models_def Let_def)
qed

lemma verify_missing:
  "set (vf_missing (verify_configured_models load rc)) = (\<Union>p\<in>set (enabled_providers rc). missing_models load p)"
proof -
  have "set (vf_missing (fold (verify_provider load) ps acc)) = set (vf_missing acc) \<union> (\<Union>p\<in>set ps. missing_models load p)"
    for ps acc by (induction ps arbitrary: acc) (simp_all add: verify_provider_missing Un_assoc)
  then show ?thesis by (simp add: verify_configured_models_def)
qed

lemma set_executors:
  "set (executors_of rc) =
     {(candidate_id (pv_id p) m, lower (strip (pv_executor p))) | p m. p \<in> set (enabled_providers rc) \<and> m \<in> fst ` set (pv_models p)}"
  by (force simp: executors_of_def)

section \<open>Properties\<close>

text \<open>C20: An accepted configuration is closed: provider ids are distinct and none is reserved, every
  provider names an executor and declares distinct models, every policy has candidates, every
  candidate names a declared model of a declared provider, every effort is a supported one for a
  candidate of its policy, and every route points at a declared policy.\<close>

theorem accepted_config_closed:
  assumes "parse_config rp fo raw = Inr rc"
  shows "distinct (map pv_id (rc_providers rc)) \<and> (\<forall>p\<in>set (rc_providers rc). provider_wf p) \<and>
    (\<forall>p\<in>set (rc_policies rc). pd_candidates p \<noteq> [] \<and>
       (\<forall>x\<in>set (pd_efforts p). fst x \<in> set (declared_candidates p) \<and> snd x \<in> set supported_efforts) \<and>
       (\<forall>c\<in>set (declared_candidates p). \<exists>spec m. spec \<in> set (rc_providers rc) \<and>
          m \<in> fst ` set (pv_models spec) \<and> split_candidate c = Some (pv_id spec, m))) \<and>
    (\<forall>x\<in>set (rc_routes rc). snd x \<in> pd_id ` set (rc_policies rc))"
  using parse_config_parts [OF assms] by (simp add: policy_wf_decl_def)

definition demo_config :: dict where
  "demo_config =
     [(''providers'', JList [JDict [(''id'', JStr ''cx''), (''executor'', JStr ''codex''),
         (''models'', JList [JDict [(''id'', JStr ''gpt-5'')]])]]),
      (''policies'', JDict [(''balanced'', JDict [(''candidates'', JList [JStr ''cx:gpt-5'']),
         (''efforts'', JDict [(''cx:gpt-5'', JStr ''High'')])])]),
      (''routes'', JDict [(''reviewer'', JStr ''balanced'')])]"

definition demo_rc :: routing_config where
  "demo_rc = \<lparr> rc_providers = [\<lparr> pv_id = ''cx'', pv_protocol = ''local_agent'', pv_enabled = True,
       pv_models = [(''gpt-5'', \<lparr> cap_flags = fst ` set implied_capabilities, max_context_tokens = None, max_output_tokens = None \<rparr>)],
       pv_executor = ''codex'', pv_workspace = [] \<rparr>],
     rc_policies = [\<lparr> pd_id = ''balanced'', pd_candidates = [''cx:gpt-5''], pd_fallback = [], pd_weights = [],
       pd_efforts = [(''cx:gpt-5'', ''high'')] \<rparr>],
     rc_routes = [(''reviewer'', ''balanced'')] \<rparr>"

lemma demo_parses: "parse_config (\<lambda>_. []) (\<lambda>_. None) demo_config = Inr demo_rc"
  by code_simp

theorem accepted_config_closed_witness: "distinct (map pv_id (rc_providers demo_rc))"
  using accepted_config_closed [OF demo_parses] by (rule conjunct1)

text \<open>A local agent absorbs whatever a request can ask: under an accepted configuration with the
  default policy declared, a request whose policy lists one enabled model that keeps the
  capabilities granted to local agents is always routed when that model is healthy, whatever its
  body needs and whatever sticky route it has.\<close>

lemma accepted_config_routes:
  assumes "parse_config rp fo raw = Inr rc" and "default_policy \<in> pd_id ` set (rc_policies rc)"
    and "policy_for (build_router rc health default_policy) i = Inr policy"
    and "c \<in> set (ordered_candidates policy)" and "rt_capabilities (build_router rc health default_policy) c = Some caps"
    and "keeps_implied caps" and "health c = []" and "\<forall>s. sticky = Some s \<longrightarrow> split_candidate s \<noteq> None"
  shows "\<exists>dc. select (build_router rc health default_policy) i (derive_requirements body is_compaction None) sticky [] = Inr dc"
proof -
  let ?rt = "build_router rc health default_policy"
  obtain p where p: "p \<in> set (rc_policies rc)" "policy = policy_of_decl p"
    using policy_in_force [OF assms(1,2), of health i] assms(3) by auto
  have wf: "\<forall>c\<in>set (ordered_candidates policy). split_candidate c \<noteq> None"
    using parse_config_parts(5) [OF assms(1)] p by (fastforce simp: declared_of)
  have "usable ?rt (derive_requirements body is_compaction None) c"
    using assms(5-7) implied_serve by (auto simp: usable_def capable_def build_router_def)
  then have "\<nexists>e. select ?rt i (derive_requirements body is_compaction None) sticky [] = Inl e"
    using select_fails_when [OF assms(3) wf assms(8)] assms(4) by auto
  then show ?thesis
    by (cases "select ?rt i (derive_requirements body is_compaction None) sticky []") auto
qed

text \<open>The offline check and the runtime check agree: when no provider id contains a colon, the
  models that \<open>verify_configured_models\<close> reports missing are exactly those that a health refresh
  over the same catalogs retires.\<close>

lemma offline_check_agrees:
  assumes "\<forall>p\<in>set (enabled_providers rc). CHR '':'' \<notin> set (pv_id p) \<and> pv_id p \<noteq> [] \<and> [] \<notin> fst ` set (pv_models p)"
    and "ch_executors ch = executors_of rc" and "refresh load now ch = Some (ch', events)"
  shows "set (vf_missing (verify_configured_models load rc)) = sn_ejected (ch_snapshot ch')"
proof -
  obtain ej un where loop: "refresh_loop load (ch_executors ch) {} [] = Some (ej, un)"
    and ch': "sn_ejected (ch_snapshot ch') = ej"
    using assms(3) by (auto simp: refresh_def Let_def split: option.splits)
  have split: "split_candidate (candidate_id (pv_id p) m) = Some (pv_id p, m)"
    if "p \<in> set (enabled_providers rc)" "m \<in> fst ` set (pv_models p)" for p m
    using that assms(1) by (metis split_candidate_make)
  have "ej = {c. \<exists>e. (c, e) \<in> set (executors_of rc) \<and> catalog_denies load (c, e)}"
    using refresh_loop_ejected [OF loop] assms(2) by simp
  also have "\<dots> = (\<Union>p\<in>set (enabled_providers rc). missing_models load p)"
  proof (rule set_eqI)
    fix c
    have "(\<exists>e. (c, e) \<in> set (executors_of rc) \<and> catalog_denies load (c, e)) \<longleftrightarrow>
        (\<exists>p m. p \<in> set (enabled_providers rc) \<and> m \<in> fst ` set (pv_models p) \<and> c = candidate_id (pv_id p) m \<and>
           catalog_denies load (candidate_id (pv_id p) m, lower (strip (pv_executor p))))"
      unfolding set_executors by blast
    also have "\<dots> \<longleftrightarrow> (\<exists>p m. p \<in> set (enabled_providers rc) \<and> m \<in> fst ` set (pv_models p) \<and> c = candidate_id (pv_id p) m \<and>
        readable (load (lower (strip (pv_executor p)))) \<and> \<not> lists_model (load (lower (strip (pv_executor p)))) m)"
      using split by (intro iff_exI conj_cong refl) (simp add: catalog_denies_def)
    finally show "c \<in> {c. \<exists>e. (c, e) \<in> set (executors_of rc) \<and> catalog_denies load (c, e)} \<longleftrightarrow>
        c \<in> (\<Union>p\<in>set (enabled_providers rc). missing_models load p)"
      by (simp add: missing_models_def) blast
  qed
  finally show ?thesis using verify_missing ch' by simp
qed

end
