(* ===== verification/GwSticky.thy ===== *)
theory GwSticky
  imports GwRouting KeyedStore
begin

text \<open>
  The durable sticky routes of \<open>provider_gateway/sticky.py\<close>. The SQLite table is its list of rows,
  one per route key; a statement is the function on rows it denotes, and \<open>ttl\<close> is the store's
  lifetime in seconds (\<open>None\<close>: no expiry). Opening, migrating and quarantining the file are not
  modelled. Times are rationals.
\<close>

record sticky_route =
  sk_key :: string
  sk_ingress :: string
  sk_provider :: string
  sk_model :: string
  sk_policy :: string
  sk_hint :: string
  sk_confidence :: confidence
  sk_created_at :: rat
  sk_last_used_at :: rat
  sk_expires_at :: "rat option"
  sk_pinned :: bool
  sk_session :: string
  sk_workspace :: string
  sk_confirmed :: bool
  sk_thread :: "string option"
  sk_parent :: "string option"
  sk_reason :: "string list"

type_synonym routes = "sticky_route list"

definition route_candidate :: "sticky_route \<Rightarrow> string" where
  "route_candidate r = candidate_id (sk_provider r) (sk_model r)"

definition is_expired :: "sticky_route \<Rightarrow> rat \<Rightarrow> bool" where
  "is_expired r now =
     (if sk_pinned r then False
      else (case sk_expires_at r of None \<Rightarrow> False | Some e \<Rightarrow> e \<le> now))"

definition find_route :: "routes \<Rightarrow> string \<Rightarrow> sticky_route option" where
  "find_route rows k = row_find sk_key rows k"

definition write_route :: "string \<Rightarrow> sticky_route \<Rightarrow> routes \<Rightarrow> routes" where
  "write_route k r rows = row_put sk_key r rows"

definition delete_route :: "string \<Rightarrow> routes \<Rightarrow> routes" where
  "delete_route k rows = row_drop sk_key k rows"

definition lookup_route :: "rat \<Rightarrow> string \<Rightarrow> routes \<Rightarrow> sticky_route option \<times> routes" where
  "lookup_route now k rows =
     (case find_route rows k of
        None \<Rightarrow> (None, rows)
      | Some r \<Rightarrow> (if is_expired r now then (None, delete_route k rows) else (Some r, rows)))"

definition expiry :: "rat option \<Rightarrow> rat \<Rightarrow> rat option" where
  "expiry ttl now = (case ttl of None \<Rightarrow> None | Some t \<Rightarrow> Some (now + t))"

definition insert_row ::
  "identity \<Rightarrow> string \<Rightarrow> string \<Rightarrow> string \<Rightarrow> string list \<Rightarrow> string \<Rightarrow> string \<Rightarrow> bool \<Rightarrow> rat \<Rightarrow> rat option \<Rightarrow> sticky_route" where
  \<comment> \<open>the VALUES of both INSERT statements\<close>
  "insert_row i provider model policy reason session ws confirmed now expires =
     \<lparr> sk_key = id_route_key i, sk_ingress = id_ingress i, sk_provider = provider, sk_model = model,
       sk_policy = policy, sk_hint = id_route_hint i, sk_confidence = id_confidence i,
       sk_created_at = now, sk_last_used_at = now, sk_expires_at = expires, sk_pinned = False,
       sk_session = session, sk_workspace = ws, sk_confirmed = confirmed, sk_thread = id_thread i,
       sk_parent = id_parent_thread i, sk_reason = reason \<rparr>"

definition remember ::
  "rat option \<Rightarrow> rat \<Rightarrow> identity \<Rightarrow> string \<Rightarrow> string \<Rightarrow> string \<Rightarrow> string list \<Rightarrow> string \<Rightarrow> string \<Rightarrow> routes
     \<Rightarrow> sticky_route option \<times> routes" where
  "remember ttl now i provider model policy reason session ws rows =
     (if \<not> is_persistable (id_confidence i) then (None, rows)
      else let new = insert_row i provider model policy reason session ws True now (expiry ttl now);
               row = (case find_route rows (id_route_key i) of
                        None \<Rightarrow> new
                      | Some old \<Rightarrow> old\<lparr> sk_provider := provider, sk_model := model, sk_policy := policy,
                          sk_hint := id_route_hint i, sk_confidence := id_confidence i, sk_reason := reason,
                          sk_last_used_at := now, sk_expires_at := expiry ttl now,
                          sk_session := (if session \<noteq> [] then session else sk_session old),
                          sk_workspace := (if ws \<noteq> [] then ws else sk_workspace old),
                          sk_confirmed := True \<rparr>);
               rows' = write_route (id_route_key i) row rows
           in (find_route rows' (id_route_key i), rows'))"

definition remember_workspace ::
  "rat option \<Rightarrow> rat \<Rightarrow> identity \<Rightarrow> string \<Rightarrow> string \<Rightarrow> string \<Rightarrow> string \<Rightarrow> routes \<Rightarrow> routes" where
  "remember_workspace ttl now i ws provider model policy rows =
     (if \<not> is_persistable (id_confidence i) \<or> ws = [] then rows
      else write_route (id_route_key i)
        (case find_route rows (id_route_key i) of
           None \<Rightarrow> insert_row i provider model policy [] [] ws False now (expiry ttl now)
         | Some old \<Rightarrow> old\<lparr> sk_workspace := ws, sk_last_used_at := now, sk_expires_at := expiry ttl now \<rparr>)
        rows)"

definition touch :: "rat option \<Rightarrow> rat \<Rightarrow> string \<Rightarrow> routes \<Rightarrow> routes" where
  "touch ttl now k rows =
     map (\<lambda>r. if sk_key r = k then r\<lparr>sk_last_used_at := now, sk_expires_at := expiry ttl now\<rparr> else r) rows"

definition forget :: "string \<Rightarrow> routes \<Rightarrow> bool \<times> routes" where
  "forget k rows = (find_route rows k \<noteq> None, delete_route k rows)"

definition set_pinned :: "string \<Rightarrow> bool \<Rightarrow> routes \<Rightarrow> bool \<times> routes" where
  "set_pinned k pinned rows =
     (find_route rows k \<noteq> None, map (\<lambda>r. if sk_key r = k then r\<lparr>sk_pinned := pinned\<rparr> else r) rows)"

definition drop_where :: "(sticky_route \<Rightarrow> bool) \<Rightarrow> routes \<Rightarrow> nat \<times> routes" where
  \<comment> \<open>DELETE ... WHERE, with its row count\<close>
  "drop_where P rows = (length (filter P rows), filter (\<lambda>r. \<not> P r) rows)"

definition drain_provider :: "string \<Rightarrow> routes \<Rightarrow> nat \<times> routes" where
  "drain_provider provider rows = drop_where (\<lambda>r. sk_provider r = provider \<and> \<not> sk_pinned r) rows"

definition drain_model :: "string \<Rightarrow> string \<Rightarrow> routes \<Rightarrow> nat \<times> routes" where
  "drain_model provider model rows =
     drop_where (\<lambda>r. sk_provider r = provider \<and> sk_model r = model \<and> \<not> sk_pinned r) rows"

definition purge_expired :: "rat \<Rightarrow> routes \<Rightarrow> nat \<times> routes" where
  "purge_expired now rows =
     drop_where (\<lambda>r. \<not> sk_pinned r \<and> (case sk_expires_at r of None \<Rightarrow> False | Some e \<Rightarrow> e \<le> now)) rows"

definition list_routes :: "string \<Rightarrow> routes \<Rightarrow> sticky_route list" where
  "list_routes ingress rows =
     sort_key (\<lambda>r. - sk_last_used_at r) (filter (\<lambda>r. ingress = [] \<or> sk_ingress r = ingress) rows)"

text \<open>\<open>_sticky_candidate\<close> of the app: a route counts only once a turn has completed on it.\<close>

definition sticky_candidate :: "sticky_route option \<Rightarrow> string option" where
  "sticky_candidate sr =
     (case sr of None \<Rightarrow> None | Some r \<Rightarrow> (if sk_confirmed r then Some (route_candidate r) else None))"

section \<open>The table as a keyed store\<close>

interpretation sticky: keyed_store find_route write_route delete_route "\<lambda>k r. sk_key r = k"
  by unfold_locales (simp_all add: find_route_def write_route_def delete_route_def)

lemma find_route_key: "find_route rows k = Some r \<Longrightarrow> sk_key r = k"
  unfolding find_route_def by (drule row_find_key) simp

text \<open>The primary key: no two rows share a route key. Every statement keeps that.\<close>

definition keys_unique :: "routes \<Rightarrow> bool" where
  "keys_unique rows \<longleftrightarrow> distinct (map sk_key rows)"

lemma keys_unique_write: "keys_unique rows \<Longrightarrow> keys_unique (write_route k r rows)"
  by (simp add: keys_unique_def write_route_def distinct_row_put)

lemma keys_unique_map: "(\<And>r. sk_key (f r) = sk_key r) \<Longrightarrow> keys_unique (map f rows) = keys_unique rows"
proof -
  assume "\<And>r. sk_key (f r) = sk_key r"
  then have "map sk_key (map f rows) = map sk_key rows" by simp
  then show ?thesis by (simp only: keys_unique_def)
qed

lemma keys_unique_filter: "keys_unique rows \<Longrightarrow> keys_unique (filter P rows)"
  by (simp add: keys_unique_def distinct_map_filter)

lemma keys_unique_ops:
  assumes "keys_unique rows"
  shows "keys_unique (snd (lookup_route now k rows))"
    and "keys_unique (snd (remember ttl now i p m pol reason s ws rows))"
    and "keys_unique (remember_workspace ttl now i ws p m pol rows)"
    and "keys_unique (touch ttl now k rows)" and "keys_unique (snd (forget k rows))"
    and "keys_unique (snd (set_pinned k b rows))" and "keys_unique (snd (drain_provider p rows))"
    and "keys_unique (snd (drain_model p m rows))" and "keys_unique (snd (purge_expired now rows))"
proof -
  have d: "keys_unique (delete_route k rows)"
    using assms by (simp add: keys_unique_def delete_route_def distinct_row_drop)
  then show "keys_unique (snd (lookup_route now k rows))" "keys_unique (snd (forget k rows))"
    using assms by (simp_all add: lookup_route_def forget_def split: option.splits)
  show "keys_unique (snd (remember ttl now i p m pol reason s ws rows))"
    "keys_unique (remember_workspace ttl now i ws p m pol rows)"
    using assms by (simp_all add: remember_def remember_workspace_def Let_def keys_unique_write)
  show "keys_unique (touch ttl now k rows)" "keys_unique (snd (set_pinned k b rows))"
    using assms by (simp_all add: touch_def set_pinned_def keys_unique_map)
  show "keys_unique (snd (drain_provider p rows))" "keys_unique (snd (drain_model p m rows))"
    "keys_unique (snd (purge_expired now rows))"
    using assms by (simp_all add: drain_provider_def drain_model_def purge_expired_def drop_where_def keys_unique_filter)
qed

lemma find_route_map:
  "(\<And>r. sk_key (f r) = sk_key r) \<Longrightarrow> find_route (map f rows) k = map_option f (find_route rows k)"
  by (simp add: find_route_def row_find_map)

lemma find_route_drop:
  "keys_unique rows \<Longrightarrow> find_route (snd (drop_where P rows)) k =
     (case find_route rows k of Some r \<Rightarrow> (if P r then None else Some r) | None \<Rightarrow> None)"
  by (simp add: drop_where_def keys_unique_def find_route_def row_find_filter split: option.splits)

section \<open>Properties\<close>

text \<open>A remembered route is found again: after a completed turn the conversation's lookup returns,
  until the lifetime is over, the provider, model and policy of that turn, confirmed; a route that
  was already known keeps its creation time, its pin, and its session and workspace when the turn
  reports none, and every other conversation reads as before.\<close>

lemma remembered_route_found:
  assumes "is_persistable (id_confidence i)" and "\<forall>life. ttl = Some life \<longrightarrow> later < now + life"
  shows "\<exists>r. fst (lookup_route later (id_route_key i) (snd (remember ttl now i p m pol reason s ws rows))) = Some r \<and>
      sk_provider r = p \<and> sk_model r = m \<and> sk_policy r = pol \<and> sk_confirmed r \<and>
      (case find_route rows (id_route_key i) of
         None \<Rightarrow> sk_created_at r = now \<and> \<not> sk_pinned r \<and> sk_session r = s \<and> sk_workspace r = ws
       | Some old \<Rightarrow> sk_created_at r = sk_created_at old \<and> sk_pinned r = sk_pinned old \<and>
           sk_session r = (if s = [] then sk_session old else s) \<and>
           sk_workspace r = (if ws = [] then sk_workspace old else ws)) \<and>
    (\<forall>k. k \<noteq> id_route_key i \<longrightarrow>
      find_route (snd (remember ttl now i p m pol reason s ws rows)) k = find_route rows k)"
proof -
  let ?k = "id_route_key i"
  define row where "row = (case find_route rows ?k of
      None \<Rightarrow> insert_row i p m pol reason s ws True now (expiry ttl now)
    | Some old \<Rightarrow> old\<lparr> sk_provider := p, sk_model := m, sk_policy := pol,
        sk_hint := id_route_hint i, sk_confidence := id_confidence i, sk_reason := reason,
        sk_last_used_at := now, sk_expires_at := expiry ttl now,
        sk_session := (if s \<noteq> [] then s else sk_session old),
        sk_workspace := (if ws \<noteq> [] then ws else sk_workspace old), sk_confirmed := True \<rparr>)"
  have rows': "snd (remember ttl now i p m pol reason s ws rows) = write_route ?k row rows"
    using assms(1) by (simp add: remember_def Let_def row_def)
  have key: "sk_key row = ?k"
    by (auto simp: row_def insert_row_def find_route_key split: option.splits)
  have exp: "sk_expires_at row = expiry ttl now"
    by (simp add: row_def insert_row_def split: option.splits)
  have live: "\<not> is_expired row later"
    using assms(2) by (auto simp: is_expired_def exp expiry_def split: option.splits)
  have look: "fst (lookup_route later ?k (write_route ?k row rows)) = Some row"
    using live by (simp add: lookup_route_def sticky.lookup_store [OF key])
  have others: "find_route (write_route ?k row rows) k = find_route rows k" if "k \<noteq> ?k" for k
    using that by (simp add: sticky.lookup_store [OF key])
  have fields: "sk_provider row = p \<and> sk_model row = m \<and> sk_policy row = pol \<and> sk_confirmed row"
    by (simp add: row_def insert_row_def split: option.splits)
  have kept: "case find_route rows ?k of
         None \<Rightarrow> sk_created_at row = now \<and> \<not> sk_pinned row \<and> sk_session row = s \<and> sk_workspace row = ws
       | Some old \<Rightarrow> sk_created_at row = sk_created_at old \<and> sk_pinned row = sk_pinned old \<and>
           sk_session row = (if s = [] then sk_session old else s) \<and>
           sk_workspace row = (if ws = [] then sk_workspace old else ws)"
    by (simp add: row_def insert_row_def split: option.splits)
  show ?thesis unfolding rows' using look fields kept others by blast
qed

text \<open>An attempt is never reused as a choice: recording where a conversation works before its turn
  ran leaves provider, model and confirmation of a known route as they were, and a route it
  creates offers no sticky candidate; a guessed identity leaves no trace at all.\<close>

lemma attempt_is_not_sticky:
  "sticky_candidate (find_route (remember_workspace ttl now i ws p m pol rows) k) =
      sticky_candidate (find_route rows k) \<and>
    (id_confidence i = Ephemeral \<longrightarrow> remember_workspace ttl now i ws p m pol rows = rows \<and>
       remember ttl now i p m pol reason s ws rows = (None, rows))"
proof
  let ?k = "id_route_key i"
  show "sticky_candidate (find_route (remember_workspace ttl now i ws p m pol rows) k) =
      sticky_candidate (find_route rows k)"
  proof (cases "find_route rows ?k")
    case None
    have "sk_key (insert_row i p m pol [] [] ws False now (expiry ttl now)) = ?k" by (simp add: insert_row_def)
    with None show ?thesis
      by (auto simp: remember_workspace_def sticky.lookup_store sticky_candidate_def insert_row_def)
  next
    case (Some old)
    then have "sk_key old = ?k" by (rule find_route_key)
    with Some show ?thesis
      by (auto simp: remember_workspace_def sticky.lookup_store sticky_candidate_def route_candidate_def)
  qed
  show "id_confidence i = Ephemeral \<longrightarrow> remember_workspace ttl now i ws p m pol rows = rows \<and>
       remember ttl now i p m pol reason s ws rows = (None, rows)"
    by (simp add: remember_workspace_def remember_def is_persistable_def)
qed

text \<open>A pin outlasts every automatic process: a pinned route is still there, unchanged, after its
  lifetime has passed, after a purge, and after draining its provider or its model.\<close>

lemma pinned_route_survives:
  assumes "keys_unique rows" and "find_route rows k = Some r" and "sk_pinned r"
  shows "fst (lookup_route now k rows) = Some r \<and>
    find_route (snd (purge_expired now rows)) k = Some r \<and>
    find_route (snd (drain_provider p rows)) k = Some r \<and>
    find_route (snd (drain_model p m rows)) k = Some r"
  using assms
  by (simp add: lookup_route_def is_expired_def purge_expired_def drain_provider_def drain_model_def find_route_drop)

definition pinned_row :: sticky_route where
  "pinned_row = (insert_row demo_identity ''claude'' ''haiku'' ''balanced'' [] [] [] True 0 (Some 1))\<lparr>sk_pinned := True\<rparr>"

text \<open>Purging cannot be observed: whatever a lookup at the same or a later time returns, it returns
  the same after expired routes were purged.\<close>

lemma purge_unobservable:
  assumes "keys_unique rows" and "now \<le> later"
  shows "fst (lookup_route later k (snd (purge_expired now rows))) = fst (lookup_route later k rows)"
  using assms
  by (auto simp: lookup_route_def purge_expired_def find_route_drop is_expired_def split: option.splits)

end
