(* ===== verification/GwTurn.thy ===== *)
theory GwTurn
  imports GwSticky GwHealth
begin

text \<open>
  One turn through the gateway (\<open>provider_gateway/app.py\<close>): sticky lookup, route selection, the
  workspace, the early record of the workspace and the session to resume; after the turn, the
  record of the route it proved. Running the agent is the outside world: \<open>completed\<close> tells
  whether its terminal event was a completion. The eject hook joins model health to the store.
\<close>

record turn =
  tn_decision :: decision
  tn_workspace :: string
  tn_session :: string

datatype turn_error = Routing route_error | NoWorkspace string

definition workspace_for ::
  "(string \<Rightarrow> bool) \<Rightarrow> (string \<Rightarrow> string option) \<Rightarrow> decision \<Rightarrow> string list \<Rightarrow> sticky_route option \<Rightarrow> string option" where
  "workspace_for is_dir configured dc reported sr =
     (case find is_dir reported of
        Some w \<Rightarrow> Some w
      | None \<Rightarrow>
          (case sr of
             Some r \<Rightarrow> (if sk_workspace r \<noteq> [] \<and> is_dir (sk_workspace r) then Some (sk_workspace r)
                       else configured (dc_provider dc))
           | None \<Rightarrow> configured (dc_provider dc)))"

definition begin_turn ::
  "rat option \<Rightarrow> rat \<Rightarrow> (string \<Rightarrow> bool) \<Rightarrow> (string \<Rightarrow> string option) \<Rightarrow> router \<Rightarrow> identity \<Rightarrow> requirements
     \<Rightarrow> string list \<Rightarrow> routes \<Rightarrow> (turn_error + turn) \<times> routes" where
  "begin_turn ttl now is_dir configured rt i req reported rows =
     (case lookup_route now (id_route_key i) rows of (sr, rows1) \<Rightarrow>
        (case select rt i req (sticky_candidate sr) [] of
           Inl e \<Rightarrow> (Inl (Routing e), rows1)
         | Inr dc \<Rightarrow>
             (case workspace_for is_dir configured dc reported sr of
                None \<Rightarrow> (Inl (NoWorkspace (dc_provider dc)), rows1)
              | Some ws \<Rightarrow>
                  (Inr \<lparr> tn_decision = dc, tn_workspace = ws,
                         tn_session = (case sr of None \<Rightarrow> [] | Some r \<Rightarrow> sk_session r) \<rparr>,
                   remember_workspace ttl now i ws (dc_provider dc) (dc_model dc) (dc_policy dc) rows1))))"

definition finish_turn ::
  "rat option \<Rightarrow> rat \<Rightarrow> identity \<Rightarrow> turn \<Rightarrow> bool \<Rightarrow> string \<Rightarrow> routes \<Rightarrow> routes" where
  "finish_turn ttl now i t completed session rows =
     (if \<not> completed then rows
      else snd (remember ttl now i (dc_provider (tn_decision t)) (dc_model (tn_decision t)) (dc_policy (tn_decision t))
                  (dc_reason (tn_decision t)) session (tn_workspace t) rows))"

definition drop_sticky_routes :: "string \<Rightarrow> routes \<Rightarrow> routes" where
  "drop_sticky_routes candidate rows =
     (case split_candidate candidate of None \<Rightarrow> rows | Some (p, m) \<Rightarrow> snd (drain_model p m rows))"

definition run_hooks :: "health_event list \<Rightarrow> routes \<Rightarrow> routes" where
  "run_hooks events rows =
     fold (\<lambda>e rows. case e of Ejected c \<Rightarrow> drop_sticky_routes c rows | _ \<Rightarrow> rows) events rows"

section \<open>Lemmas\<close>

lemma remember_result:
  assumes "is_persistable (id_confidence i)"
  shows "\<exists>r. find_route (snd (remember ttl now i p m pol reason s ws rows)) (id_route_key i) = Some r \<and>
    sk_provider r = p \<and> sk_model r = m \<and> sk_confirmed r \<and> sk_expires_at r = expiry ttl now \<and>
    (s \<noteq> [] \<longrightarrow> sk_session r = s) \<and> (ws \<noteq> [] \<longrightarrow> sk_workspace r = ws)"
proof (cases "find_route rows (id_route_key i)")
  case None
  have "sk_key (insert_row i p m pol reason s ws True now (expiry ttl now)) = id_route_key i" by (simp add: insert_row_def)
  with None assms show ?thesis
    by (simp add: remember_def Let_def sticky.lookup_store) (simp add: insert_row_def)
next
  case (Some old)
  then have "sk_key old = id_route_key i" by (rule find_route_key)
  with Some assms show ?thesis by (simp add: remember_def Let_def sticky.lookup_store)
qed

lemma lookup_live:
  "find_route rows k = Some r \<Longrightarrow> sk_expires_at r = expiry ttl now \<Longrightarrow> \<forall>life. ttl = Some life \<longrightarrow> later < now + life \<Longrightarrow>
    lookup_route later k rows = (Some r, rows)"
  by (auto simp: lookup_route_def is_expired_def expiry_def split: option.splits)

lemma run_hooks_rows:
  "set (run_hooks events rows) =
    {r \<in> set rows. sk_pinned r \<or> (\<forall>c. Ejected c \<in> set events \<longrightarrow> split_candidate c \<noteq> Some (sk_provider r, sk_model r))}"
proof (induction events arbitrary: rows)
  case Nil
  show ?case by (simp add: run_hooks_def)
next
  case (Cons e events)
  have "run_hooks (e # events) rows = run_hooks events (case e of Ejected c \<Rightarrow> drop_sticky_routes c rows | _ \<Rightarrow> rows)"
    by (simp add: run_hooks_def)
  moreover have "set (drop_sticky_routes c rows) =
      {r \<in> set rows. sk_pinned r \<or> split_candidate c \<noteq> Some (sk_provider r, sk_model r)}" for c
    by (auto simp: drop_sticky_routes_def drain_model_def drop_where_def split: option.splits)
  ultimately show ?case by (cases e) (auto simp: Cons.IH)
qed

lemma announced_ejections:
  assumes "finite (sn_ejected cur)"
  shows "Ejected c \<in> set (announce executors prev cur) \<longleftrightarrow> c \<in> sn_ejected cur \<and> c \<notin> sn_ejected prev"
  using assms by (auto simp: announce_def)

section \<open>Properties\<close>

text \<open>C18: A conversation stays on its model while it can: after a turn of a persistable conversation
  completed and its agent reported a session, a next turn that comes inside the route's lifetime
  and reports no workspace of its own gets the same provider and model, the same workspace and that
  session, provided that the candidate is still usable for the request (configured, capable, not
  ejected) and the directory still exists. After the lifetime, an ejection or a lost directory
  nothing is promised.\<close>

theorem conversation_stays:
  assumes "is_persistable (id_confidence i)" and "\<forall>life. ttl = Some life \<longrightarrow> later < now + life"
    and "policy_for rt i = Inr policy" and "sc = candidate_id (dc_provider (tn_decision t)) (dc_model (tn_decision t))"
    and "split_candidate sc = Some (dc_provider (tn_decision t), dc_model (tn_decision t))"
    and "usable rt req sc" and "tn_workspace t \<noteq> []" and "is_dir (tn_workspace t)" and "session \<noteq> []"
  shows "\<exists>t'. fst (begin_turn ttl later is_dir configured rt i req [] (finish_turn ttl now i t True session rows)) = Inr t' \<and>
    dc_provider (tn_decision t') = dc_provider (tn_decision t) \<and> dc_model (tn_decision t') = dc_model (tn_decision t) \<and>
    dc_sticky (tn_decision t') \<and> tn_workspace t' = tn_workspace t \<and> tn_session t' = session"
proof -
  let ?rows = "finish_turn ttl now i t True session rows"
  obtain r where r: "find_route ?rows (id_route_key i) = Some r"
    and f: "sk_provider r = dc_provider (tn_decision t)" "sk_model r = dc_model (tn_decision t)" "sk_confirmed r"
      "sk_expires_at r = expiry ttl now" "sk_session r = session" "sk_workspace r = tn_workspace t"
    using remember_result [OF assms(1), of ttl now "dc_provider (tn_decision t)" "dc_model (tn_decision t)"
        "dc_policy (tn_decision t)" "dc_reason (tn_decision t)" session "tn_workspace t" rows] assms(7,9)
    by (auto simp: finish_turn_def)
  have look: "lookup_route later (id_route_key i) ?rows = (Some r, ?rows)"
    by (rule lookup_live [OF r f(4) assms(2)])
  have cand: "sticky_candidate (Some r) = Some sc"
    by (simp add: sticky_candidate_def route_candidate_def f assms(4))
  have ne: "sc \<noteq> []" using assms(4) by (simp add: candidate_id_def)
  have "sticky_rejection rt sc req = None" using assms(6) by (simp add: sticky_rejection_None)
  then obtain dc where dc: "select rt i req (Some sc) [] = Inr dc" "dc_provider dc = dc_provider (tn_decision t)"
      "dc_model dc = dc_model (tn_decision t)" "dc_sticky dc"
    using assms(3,5) ne by (simp add: select_def live_sticky_def)
  have "workspace_for is_dir configured dc [] (Some r) = Some (tn_workspace t)"
    by (simp add: workspace_for_def f assms(7,8))
  then show ?thesis
    using dc f(5) by (simp add: begin_turn_def look cand)
qed

definition haiku_turn :: turn where
  "haiku_turn = \<lparr> tn_decision = \<lparr> dc_provider = ''claude'', dc_model = ''haiku'', dc_policy = ''balanced'', dc_reason = [],
       dc_effort = [], dc_sticky = False \<rparr>, tn_workspace = ''/w'', tn_session = [] \<rparr>"

theorem conversation_stays_witness:
  "\<exists>t'. fst (begin_turn (Some 100) 50 (\<lambda>_. True) (\<lambda>_. None) demo_router demo_identity demo_req []
      (finish_turn (Some 100) 0 demo_identity haiku_turn True ''s1'' [])) = Inr t' \<and> dc_model (tn_decision t') = ''haiku''"
proof -
  have "\<exists>t'. fst (begin_turn (Some 100) 50 (\<lambda>_. True) (\<lambda>_. None) demo_router demo_identity demo_req []
      (finish_turn (Some 100) 0 demo_identity haiku_turn True ''s1'' [])) = Inr t' \<and>
    dc_provider (tn_decision t') = dc_provider (tn_decision haiku_turn) \<and> dc_model (tn_decision t') = dc_model (tn_decision haiku_turn) \<and>
    dc_sticky (tn_decision t') \<and> tn_workspace t' = tn_workspace haiku_turn \<and> tn_session t' = ''s1''"
    by (rule conversation_stays [OF _ _ demo_policy_for refl])
      (simp_all add: demo_usable haiku_turn_def is_persistable_def demo_identity_def candidate_id_def
        demo_split [unfolded candidate_id_def])
  then show ?thesis by (auto simp: haiku_turn_def)
qed

text \<open>Ejecting a model frees its conversations: after a refresh and its eject hooks, every route
  still stored on a newly retired candidate is pinned, and every route on another candidate is
  untouched.\<close>

lemma ejection_drains_routes:
  assumes "refresh load now ch = Some (ch', events)"
  shows "set (run_hooks events rows) = {r \<in> set rows. sk_pinned r \<or>
    (\<forall>c. c \<in> sn_ejected (ch_snapshot ch') \<and> c \<notin> sn_ejected (ch_snapshot ch) \<longrightarrow>
       split_candidate c \<noteq> Some (sk_provider r, sk_model r))}"
proof -
  obtain ej un where loop: "refresh_loop load (ch_executors ch) {} [] = Some (ej, un)"
    and ev: "events = announce (ch_executors ch) (ch_snapshot ch) (ch_snapshot ch')"
    and sn: "sn_ejected (ch_snapshot ch') = ej"
    using assms by (auto simp: refresh_def Let_def split: option.splits)
  have "ej \<subseteq> fst ` set (ch_executors ch)" using refresh_loop_ejected [OF loop] by force
  then have "finite (sn_ejected (ch_snapshot ch'))" using sn finite_subset by auto
  then show ?thesis unfolding run_hooks_rows ev by (simp add: announced_ejections)
qed

text \<open>A session can reach a foreign agent: when the route a conversation remembers is no longer
  usable and another provider is chosen, the turn still resumes the session recorded for the old
  provider, and if it completes without naming a session the new route keeps the old one's.\<close>

lemma foreign_session_resumed:
  assumes "find_route rows (id_route_key i) = Some r" and "\<not> is_expired r now"
    and "fst (begin_turn ttl now is_dir configured rt i req reported rows) = Inr t"
    and "is_persistable (id_confidence i)"
  shows "tn_session t = sk_session r \<and>
    (\<exists>r'. find_route (finish_turn ttl later i t True []
         (snd (begin_turn ttl now is_dir configured rt i req reported rows))) (id_route_key i) = Some r' \<and>
       sk_provider r' = dc_provider (tn_decision t) \<and> sk_session r' = sk_session r)"
proof -
  let ?k = "id_route_key i"
  have look: "lookup_route now ?k rows = (Some r, rows)" using assms(1,2) by (simp add: lookup_route_def)
  from assms(3) obtain dc ws where sel: "select rt i req (sticky_candidate (Some r)) [] = Inr dc"
    and w: "workspace_for is_dir configured dc reported (Some r) = Some ws"
    and t: "t = \<lparr> tn_decision = dc, tn_workspace = ws, tn_session = sk_session r \<rparr>"
    by (auto simp: begin_turn_def look split: sum.splits option.splits)
  have key: "sk_key r = ?k" by (rule find_route_key [OF assms(1)])
  let ?rows1 = "snd (begin_turn ttl now is_dir configured rt i req reported rows)"
  have rows1: "?rows1 = remember_workspace ttl now i ws (dc_provider dc) (dc_model dc) (dc_policy dc) rows"
    by (simp add: begin_turn_def look sel w)
  obtain old where old: "find_route ?rows1 ?k = Some old" "sk_session old = sk_session r"
    using assms(1,4) key unfolding rows1
    by (cases "ws = []") (auto simp: remember_workspace_def sticky.lookup_store)
  have "sk_key old = ?k" by (rule find_route_key [OF old(1)])
  then show ?thesis
    using old assms(4) by (simp add: t finish_turn_def remember_def Let_def sticky.lookup_store)
qed

definition retired_row :: sticky_route where
  "retired_row = insert_row demo_identity ''codex'' ''big'' ''balanced'' [] ''codex-session'' ''/w'' True 0 None"

lemma retired_turn:
  "\<exists>t. fst (begin_turn None 1 (\<lambda>_. True) (\<lambda>_. None) demo_router demo_identity demo_req [] [retired_row]) = Inr t \<and>
     dc_provider (tn_decision t) = ''claude''"
proof -
  have look: "lookup_route 1 (id_route_key demo_identity) [retired_row] = (Some retired_row, [retired_row])"
    by (simp add: lookup_route_def find_route_def retired_row_def insert_row_def is_expired_def)
  have cand: "sticky_candidate (Some retired_row) = Some ''codex:big''"
    by (simp add: sticky_candidate_def route_candidate_def candidate_id_def retired_row_def insert_row_def)
  have "\<not> usable demo_router demo_req ''codex:big''" by (simp add: demo_usable)
  then obtain why where why: "sticky_rejection demo_router ''codex:big'' demo_req = Some why"
    using sticky_rejection_None by blast
  obtain dc where dc: "score demo_router demo_identity demo_req demo_policy (Some ''codex:big'') why [] = Inr dc"
      "dc_provider dc = ''claude''"
    using score_some [OF demo_pool demo_best [symmetric] demo_split, where i = demo_identity and sr = "Some ''codex:big''" and srr = why]
    by blast
  have "select demo_router demo_identity demo_req (Some ''codex:big'') [] = Inr dc"
    using dc why by (simp add: select_def demo_policy_for live_sticky_def)
  moreover have "workspace_for (\<lambda>_. True) (\<lambda>_. None) dc [] (Some retired_row) = Some ''/w''"
    by (simp add: workspace_for_def retired_row_def insert_row_def)
  ultimately show ?thesis using dc(2) by (simp add: begin_turn_def look cand)
qed

end
