(* ===== verification/GwStream.thy ===== *)
theory GwStream
  imports JsonLines
begin

text \<open>
  The server-sent-event codec of \<open>provider_gateway/stream.py\<close>: the incremental decoder on text
  chunks and the encoder. \<open>loads\<close> is \<open>json.loads\<close>; \<open>rp\<close> renders floats. A decoded event is its
  data object and its raw text.
\<close>


section \<open>Encoding\<close>

definition esc_ascii :: "char \<Rightarrow> string" where
  \<comment> \<open>the escapes of \<open>ensure_ascii=True\<close>: everything outside space .. tilde\<close>
  "esc_ascii c = (if code c < 32 \<or> code c = 34 \<or> code c = 92 then esc_char c
     else if code c < 127 then [c]
     else char_of (92::nat) # ''u00'' @ [hex_digit (code c div 16), hex_digit (code c mod 16)])"

definition ascii_str :: "string \<Rightarrow> string" where
  "ascii_str s = char_of (34::nat) # concat (map esc_ascii s) @ [char_of (34::nat)]"

fun dumps_compact :: "(rat \<Rightarrow> string) \<Rightarrow> json \<Rightarrow> string" where
  "dumps_compact rp JNull = ''null''"
| "dumps_compact rp (JBool b) = (if b then ''true'' else ''false'')"
| "dumps_compact rp (JInt n) = show_int n"
| "dumps_compact rp (JFloat x) = rp x"
| "dumps_compact rp (JStr s) = ascii_str s"
| "dumps_compact rp (JList xs) = CHR ''['' # join_with '','' (map (dumps_compact rp) xs) @ '']''"
| "dumps_compact rp (JDict d) =
     CHR ''{'' # join_with '','' (map (\<lambda>kv. ascii_str (fst kv) @ '':'' @ dumps_compact rp (snd kv)) d) @ ''}''"

definition encode_sse :: "(rat \<Rightarrow> string) \<Rightarrow> dict \<Rightarrow> string" where
  "encode_sse rp payload = ''data: '' @ dumps_compact rp (JDict payload) @ [LF, LF]"

section \<open>Decoding\<close>

fun cut_block :: "string \<Rightarrow> (string \<times> string) option" where
  \<comment> \<open>\<open>partition("\n\n")\<close>, \<open>None\<close> when there is no blank line\<close>
  "cut_block [] = None"
| "cut_block [c] = None"
| "cut_block (c # d # cs) =
     (if c = LF \<and> d = LF then Some ([], cs)
      else map_option (\<lambda>(b, r). (c # b, r)) (cut_block (d # cs)))"

lemma cut_block_shorter: "cut_block s = Some (b, r) \<Longrightarrow> length r < length s"
  by (induction s arbitrary: b rule: cut_block.induct) (auto split: if_splits)

function drain_blocks :: "string \<Rightarrow> string list \<times> string" where
  "drain_blocks buf =
     (case cut_block buf of
        None \<Rightarrow> ([], buf)
      | Some (b, r) \<Rightarrow> (case drain_blocks r of (bs, rest) \<Rightarrow> (b # bs, rest)))"
  by pat_completeness auto
termination
proof (relation "measure length")
  fix buf x b r assume "cut_block buf = Some x" "(b, r) = x"
  then show "(r, buf) \<in> measure length" using cut_block_shorter [of buf b r] by simp
qed simp

declare drain_blocks.simps [simp del]

type_synonym sse_event = "dict \<times> string"

definition data_line :: "string \<Rightarrow> string option" where
  "data_line line =
     (if line = [] \<or> prefix '':'' line then None
      else if before_char CHR '':'' line \<noteq> ''data'' then None
      else let value = after_char CHR '':'' line in Some (if prefix '' '' value then tl value else value))"

definition decode_block :: "(string \<Rightarrow> json option) \<Rightarrow> string \<Rightarrow> sse_event option" where
  "decode_block loads block =
     (let data_lines = List.map_filter data_line (split_on LF block); raw = join_with [LF] data_lines in
      if data_lines = [] then None
      else if strip raw = ''[DONE]'' then None
      else (case loads raw of Some (JDict d) \<Rightarrow> Some (d, raw) | _ \<Rightarrow> None))"

definition feed :: "(string \<Rightarrow> json option) \<Rightarrow> string \<Rightarrow> string \<Rightarrow> string \<times> sse_event list" where
  "feed loads buf chunk =
     (case drain_blocks (normalize_newlines (buf @ chunk)) of
        (blocks, rest) \<Rightarrow> (rest, List.map_filter (decode_block loads) blocks))"

definition flush :: "(string \<Rightarrow> json option) \<Rightarrow> string \<Rightarrow> string \<times> sse_event list" where
  "flush loads buf =
     (let remaining = strip buf in
      if remaining = [] then ([], [])
      else (case decode_block loads remaining of None \<Rightarrow> ([], []) | Some e \<Rightarrow> ([], [e])))"

text \<open>A decoder over a sequence of chunks.\<close>

fun feed_all :: "(string \<Rightarrow> json option) \<Rightarrow> string \<Rightarrow> string list \<Rightarrow> string \<times> sse_event list" where
  "feed_all loads buf [] = (buf, [])"
| "feed_all loads buf (c # cs) =
     (case feed loads buf c of (buf', evs) \<Rightarrow>
        (case feed_all loads buf' cs of (rest, evs') \<Rightarrow> (rest, evs @ evs')))"

section \<open>Chunks do not matter\<close>

lemma cut_block_append: "cut_block s = Some (b, r) \<Longrightarrow> cut_block (s @ t) = Some (b, r @ t)"
  by (induction s arbitrary: b rule: cut_block.induct) (auto split: if_splits)

lemma cut_block_set: "cut_block s = Some (b, r) \<Longrightarrow> set b \<subseteq> set s \<and> set r \<subseteq> set s"
  by (induction s arbitrary: b rule: cut_block.induct) (fastforce split: if_splits)+

lemma drain_rest: "drain_blocks s = (bs, r) \<Longrightarrow> set r \<subseteq> set s \<and> cut_block r = None"
proof (induction s arbitrary: bs r rule: drain_blocks.induct)
  case (1 buf)
  show ?case
  proof (cases "cut_block buf")
    case None
    with "1.prems" show ?thesis by (simp add: drain_blocks.simps [of buf])
  next
    case (Some br)
    obtain b r' where br: "br = (b, r')" by (cases br)
    obtain bs' rest where d: "drain_blocks r' = (bs', rest)" by (cases "drain_blocks r'")
    with "1.prems" Some br have "r = rest" by (simp add: drain_blocks.simps [of buf])
    with "1.IH" [OF Some br [symmetric] d] cut_block_set Some br show ?thesis by blast
  qed
qed

lemma drain_append:
  "drain_blocks s = (bs, r) \<Longrightarrow> drain_blocks (s @ t) = (bs @ fst (drain_blocks (r @ t)), snd (drain_blocks (r @ t)))"
proof (induction s arbitrary: bs r rule: drain_blocks.induct)
  case (1 buf)
  show ?case
  proof (cases "cut_block buf")
    case None
    with "1.prems" show ?thesis by (simp add: drain_blocks.simps [of buf])
  next
    case (Some br)
    obtain b r' where br: "br = (b, r')" by (cases br)
    obtain bs' rest where d: "drain_blocks r' = (bs', rest)" by (cases "drain_blocks r'")
    with "1.prems" Some br have r: "r = rest" "bs = b # bs'" by (simp_all add: drain_blocks.simps [of buf])
    have "cut_block (buf @ t) = Some (b, r' @ t)" using Some br by (simp add: cut_block_append)
    with "1.IH" [OF Some br [symmetric] d] r show ?thesis
      by (simp add: drain_blocks.simps [of "buf @ t"] case_prod_beta)
  qed
qed

lemma feed_plain:
  "CR \<notin> set (buf @ chunk) \<Longrightarrow> feed loads buf chunk =
    (snd (drain_blocks (buf @ chunk)), List.map_filter (decode_block loads) (fst (drain_blocks (buf @ chunk))))"
  by (simp add: feed_def normalize_id case_prod_beta)

lemma feed_all_drain:
  assumes "CR \<notin> set (buf @ concat chunks)" and "cut_block buf = None"
  shows "feed_all loads buf chunks = (snd (drain_blocks (buf @ concat chunks)),
    List.map_filter (decode_block loads) (fst (drain_blocks (buf @ concat chunks))))"
  using assms
proof (induction chunks arbitrary: buf)
  case Nil
  then show ?case by (simp add: drain_blocks.simps [of buf])
next
  case (Cons c cs)
  obtain bs r where d: "drain_blocks (buf @ c) = (bs, r)" by (cases "drain_blocks (buf @ c)")
  note dr = drain_rest [OF d]
  have "feed_all loads r cs = (snd (drain_blocks (r @ concat cs)),
      List.map_filter (decode_block loads) (fst (drain_blocks (r @ concat cs))))"
    by (rule Cons.IH) (use Cons.prems dr in auto)
  moreover have "CR \<notin> set (buf @ c)" using Cons.prems by simp
  ultimately show ?case
    using drain_append [OF d, of "concat cs"] d
    by (simp add: feed_plain List.map_filter_def)
qed

section \<open>Encoded events\<close>

lemma code_hex: "n < 16 \<Longrightarrow> code (hex_digit n) < 127 \<and> 48 \<le> code (hex_digit n)"
  by (simp add: hex_digit_def)

definition plain :: "string \<Rightarrow> bool" where
  \<comment> \<open>printable ASCII only\<close>
  "plain s \<longleftrightarrow> (\<forall>c\<in>set s. 32 \<le> code c \<and> code c < 127)"

lemma plain_simps [simp]: "plain []" "plain (c # s) \<longleftrightarrow> 32 \<le> code c \<and> code c < 127 \<and> plain s"
  "plain (s @ t) \<longleftrightarrow> plain s \<and> plain t"
  by (auto simp: plain_def)

lemma plain_concat: "plain (concat xs) \<longleftrightarrow> (\<forall>x\<in>set xs. plain x)"
  by (induction xs) simp_all

lemma plain_join: "plain sep \<Longrightarrow> \<forall>x\<in>set xs. plain x \<Longrightarrow> plain (join_with sep xs)"
  by (induction sep xs rule: join_with.induct) simp_all

lemma plain_esc: "plain (esc_ascii c)"
proof -
  have h: "code (hex_digit (code c div 16)) < 127 \<and> 48 \<le> code (hex_digit (code c div 16))"
    "code (hex_digit (code c mod 16)) < 127 \<and> 48 \<le> code (hex_digit (code c mod 16))"
    using code_hex [of "code c div 16"] code_hex [of "code c mod 16"] code_less [of c] by simp_all
  consider "code c < 32" | "32 \<le> code c" "code c < 127" | "127 \<le> code c" by linarith
  then show ?thesis
  proof cases
    case 1
    with h show ?thesis by (simp add: esc_ascii_def esc_char_def Let_def code_def)
  next
    case 2
    then show ?thesis by (simp add: esc_ascii_def esc_char_def Let_def code_def)
  next
    case 3
    with h show ?thesis by (simp add: esc_ascii_def code_def)
  qed
qed

lemma plain_show_nat: "plain (show_nat n)"
proof (induction n rule: show_nat.induct)
  case (1 n)
  have a: "32 \<le> code (char_of (48 + m)) \<and> code (char_of (48 + m)) < 127" if "m < 10" for m :: nat
    using that by simp
  show ?case
  proof (cases "n < 10")
    case True
    with a [of n] show ?thesis by (simp add: show_nat.simps [of n])
  next
    case False
    with 1 a [of "n mod 10"] show ?thesis by (simp add: show_nat.simps [of n])
  qed
qed

lemma plain_ascii_str: "plain (ascii_str s)"
  by (simp add: ascii_str_def plain_concat plain_esc)

lemma plain_dumps: "\<forall>x. plain (rp x) \<Longrightarrow> plain (dumps_compact rp v)"
proof (induction rp v rule: dumps_compact.induct)
  case (3 rp n)
  show ?case by (simp add: show_int_def plain_show_nat code_def)
next
  case (6 rp xs)
  then have "plain (join_with '','' (map (dumps_compact rp) xs))"
    by (intro plain_join) (simp_all add: code_def)
  then show ?case by (simp add: code_def)
next
  case (7 rp d)
  then have "plain (join_with '','' (map (\<lambda>kv. ascii_str (fst kv) @ '':'' @ dumps_compact rp (snd kv)) d))"
    by (intro plain_join) (auto simp: code_def plain_ascii_str)
  then show ?case by (simp add: code_def)
qed (simp_all add: plain_ascii_str code_def)

lemma plain_no_break: "plain s \<Longrightarrow> LF \<notin> set s \<and> CR \<notin> set s"
proof -
  assume "plain s"
  then have "32 \<le> code c" if "c \<in> set s" for c using that by (simp add: plain_def)
  moreover have "code LF = 10" "code CR = 13" by simp_all
  ultimately show ?thesis by fastforce
qed

lemma plain_data: "plain (''data: '' @ b) \<longleftrightarrow> plain b"
  by (simp add: code_def)

lemma cut_line: "LF \<notin> set l \<Longrightarrow> cut_block (l @ LF # LF # rest) = Some (l, rest)"
proof (induction l)
  case Nil
  show ?case by (cases rest) simp_all
next
  case (Cons c l)
  then show ?case by (cases l) auto
qed

lemma decode_data_line:
  assumes "plain (dumps_compact rp (JDict p))" and "loads (dumps_compact rp (JDict p)) = Some (JDict p)"
  shows "decode_block loads (''data: '' @ dumps_compact rp (JDict p)) = Some (p, dumps_compact rp (JDict p))"
proof -
  let ?b = "dumps_compact rp (JDict p)"
  have "LF \<notin> set (''data: '' @ ?b)" using plain_no_break plain_data assms(1) by blast
  then have "split_on LF (''data: '' @ ?b) = [''data: '' @ ?b]" by (rule split_on_absent)
  moreover have "data_line (''data: '' @ ?b) = Some ?b"
    by (simp add: data_line_def before_char_def after_char_def)
  moreover have "strip ?b \<noteq> ''[DONE]''"
  proof -
    have "strip ?b = ?b" by (simp add: strip_def lstrip_def is_space_def code_def)
    then show ?thesis by simp
  qed
  ultimately show ?thesis using assms(2) by (simp add: decode_block_def List.map_filter_def Let_def del: dumps_compact.simps)
qed

lemma drain_encoded:
  assumes "\<forall>x. plain (rp x)"
  shows "drain_blocks (concat (map (encode_sse rp) ps)) = (map (\<lambda>p. ''data: '' @ dumps_compact rp (JDict p)) ps, [])"
proof (induction ps)
  case Nil
  show ?case by (simp add: drain_blocks.simps [of "[]"])
next
  case (Cons p ps)
  let ?l = "''data: '' @ dumps_compact rp (JDict p)"
  have "LF \<notin> set ?l" using plain_no_break plain_data plain_dumps [OF assms] by blast
  then have "cut_block (?l @ LF # LF # concat (map (encode_sse rp) ps)) = Some (?l, concat (map (encode_sse rp) ps))"
    by (rule cut_line)
  moreover have "concat (map (encode_sse rp) (p # ps)) = ?l @ LF # LF # concat (map (encode_sse rp) ps)"
    by (simp add: encode_sse_def del: dumps_compact.simps)
  ultimately show ?case
    using Cons drain_blocks.simps [of "?l @ LF # LF # concat (map (encode_sse rp) ps)"]
    by (simp only: option.case prod.case list.map)
qed

section \<open>Properties\<close>

text \<open>C21: Events survive any chunking: however the bytes of a sequence of encoded events are cut into
  chunks, feeding the chunks to the decoder yields exactly those events, in order and each once,
  and leaves nothing in its buffer.\<close>

theorem events_survive_chunking:
  assumes "concat chunks = concat (map (encode_sse rp) ps)" and "\<forall>x. plain (rp x)"
    and "\<forall>p\<in>set ps. loads (dumps_compact rp (JDict p)) = Some (JDict p)"
  shows "feed_all loads [] chunks = ([], map (\<lambda>p. (p, dumps_compact rp (JDict p))) ps)"
proof -
  have "CR \<notin> set (encode_sse rp p)" for p
  proof -
    have "CR \<notin> set (''data: '' @ dumps_compact rp (JDict p))"
      using plain_no_break plain_data plain_dumps [OF assms(2)] by blast
    then show ?thesis by (simp add: encode_sse_def del: dumps_compact.simps)
  qed
  then have cr: "CR \<notin> set ([] @ concat chunks)" by (auto simp: assms(1))
  have dec: "List.map_filter (decode_block loads) (map (\<lambda>p. ''data: '' @ dumps_compact rp (JDict p)) qs) =
      map (\<lambda>p. (p, dumps_compact rp (JDict p))) qs" if "set qs \<subseteq> set ps" for qs
    using that
  proof (induction qs)
    case (Cons q qs)
    have "decode_block loads (''data: '' @ dumps_compact rp (JDict q)) = Some (q, dumps_compact rp (JDict q))"
      by (rule decode_data_line [OF plain_dumps [OF assms(2)]]) (use Cons.prems assms(3) in auto)
    with Cons show ?case by (simp add: List.map_filter_def del: dumps_compact.simps)
  qed (simp add: List.map_filter_def)
  show ?thesis
    using feed_all_drain [OF cr, of loads] drain_encoded [OF assms(2), of ps] dec [OF subset_refl]
    by (simp add: assms(1) del: dumps_compact.simps)
qed

theorem events_survive_chunking_witness:
  "feed_all (\<lambda>s. if s = ''{}'' then Some (JDict []) else None) [] [''da'', ''ta: {}'' @ [LF], [LF], ''data: {'', ''}'' @ [LF, LF]] =
     ([], map (\<lambda>p. (p, dumps_compact (\<lambda>_. []) (JDict p))) [[], []])"
  by (rule events_survive_chunking) (simp_all add: encode_sse_def)

text \<open>A carriage return at the end of a chunk makes a false event boundary: an event of two data
  lines ended by CRLF is one event when it arrives whole, and two fragments when the chunk ends
  between the CR and the LF, because the CR alone is already turned into a line end.\<close>

lemma split_crlf_cuts_event:
  "feed_all loads [] [''data: {'' @ [CR, LF] @ ''data: }'' @ [CR, LF, CR, LF]] =
     ([], List.map_filter (decode_block loads) [''data: {'' @ [LF] @ ''data: }'']) \<and>
   feed_all loads [] [''data: {'' @ [CR], LF # ''data: }'' @ [CR, LF, CR, LF]] =
     ([], List.map_filter (decode_block loads) [''data: {'', ''data: }''])"
proof -
  have a: "drain_blocks (normalize_newlines (''data: {'' @ [CR, LF] @ ''data: }'' @ [CR, LF, CR, LF])) =
      ([''data: {'' @ [LF] @ ''data: }''], [])" by code_simp
  have b: "drain_blocks (normalize_newlines (''data: {'' @ [CR])) = ([], ''data: {'' @ [LF])" by code_simp
  have c: "drain_blocks (normalize_newlines ((''data: {'' @ [LF]) @ LF # ''data: }'' @ [CR, LF, CR, LF])) =
      ([''data: {'', ''data: }''], [])" by code_simp
  have nil: "List.map_filter (decode_block loads) [] = []" by (simp add: List.map_filter_def)
  show ?thesis
    by (simp only: feed_all.simps feed_def append_Nil a b c nil prod.case append_Nil2)
qed

end
