(* ===== verification/AccessPaths.thy ===== *)
theory AccessPaths
  imports FluxionBase IsoTime "HOL-Library.Monad_Syntax"
begin

text \<open>
  The file system as workspace authorization sees it (\<open>workspace/access.py\<close>): canonical paths as
  lists of components, containment, the text fields of stored rows, timestamps and identifiers.
  The disk is a parameter: expanding \<open>~\<close>, resolving symbolic links, and which paths are
  directories or Git repositories.
\<close>

type_synonym path = "string list"

record fs =
  fs_expanduser :: "string \<Rightarrow> string option"
  fs_resolve :: "string \<Rightarrow> path option"
  fs_cwd :: path
  fs_is_dir :: "path \<Rightarrow> bool"
  fs_is_git :: "path \<Rightarrow> bool"
  fs_repr :: "json \<Rightarrow> string"
  fs_sha256 :: "string \<Rightarrow> string"

section \<open>Paths\<close>

definition str_path :: "path \<Rightarrow> string" where
  \<comment> \<open>\<open>str(path)\<close> of an absolute path\<close>
  "str_path p = (if p = [] then ''/'' else concat (map (\<lambda>c. CHR ''/'' # c) p))"

definition canonicalize_workspace :: "fs \<Rightarrow> path \<Rightarrow> string \<Rightarrow> path option" where
  \<comment> \<open>\<open>None\<close> is an \<open>OSError\<close>, \<open>RuntimeError\<close> or \<open>ValueError\<close>\<close>
  "canonicalize_workspace fs base raw = do {
     v \<leftarrow> fs_expanduser fs raw;
     fs_resolve fs (if prefix ''/'' v then v else str_path base @ ''/'' @ v)
   }"

definition canon :: "fs \<Rightarrow> string \<Rightarrow> path option" where
  \<comment> \<open>with no base: the working directory\<close>
  "canon fs raw = canonicalize_workspace fs (fs_cwd fs) raw"

definition is_within :: "path \<Rightarrow> path \<Rightarrow> bool" where
  "is_within p dir \<longleftrightarrow> prefix dir p"

text \<open>\<open>max(matches, key=len(parts))\<close>: the first longest element.\<close>

fun longest_by :: "('a \<Rightarrow> path) \<Rightarrow> 'a \<Rightarrow> 'a list \<Rightarrow> 'a" where
  "longest_by f b [] = b"
| "longest_by f b (x # xs) = longest_by f (if length (f b) < length (f x) then x else b) xs"

definition first_containing_root :: "path \<Rightarrow> path list \<Rightarrow> path option" where
  "first_containing_root p roots =
     (case filter (is_within p) roots of [] \<Rightarrow> None | m # ms \<Rightarrow> Some (longest_by (\<lambda>x. x) m ms))"

definition missing :: "fs \<Rightarrow> path \<Rightarrow> bool" where
  \<comment> \<open>\<open>not path.exists() or not path.is_dir()\<close>\<close>
  "missing fs p \<longleftrightarrow> \<not> fs_is_dir fs p"

datatype path_setting = PathText string | PathList "string option list" | NotIterable

fun setting_texts :: "path_setting \<Rightarrow> string option list" where
  "setting_texts (PathText s) = map Some (split_on CHR '','' s)"
| "setting_texts (PathList xs) = xs"
| "setting_texts NotIterable = []"

definition path_values :: "fs \<Rightarrow> path_setting \<Rightarrow> path list" where
  "path_values fs raw =
     List.map_filter (\<lambda>v. case v of None \<Rightarrow> None | Some s \<Rightarrow> (if strip s = [] then None else canon fs s))
       (setting_texts raw)"

definition env_path_values :: "fs \<Rightarrow> string \<Rightarrow> path list" where
  "env_path_values fs raw =
     (if strip raw = [] then []
      else List.map_filter (\<lambda>v. if strip v = [] then None else canon fs (strip v)) (split_on CHR '','' raw))"

fun dedupe_loop :: "fs \<Rightarrow> path set \<Rightarrow> path list \<Rightarrow> path list option" where
  "dedupe_loop fs seen [] = Some []"
| "dedupe_loop fs seen (p # ps) =
     (case canon fs (str_path p) of
        None \<Rightarrow> None
      | Some r \<Rightarrow> (if r \<in> seen then dedupe_loop fs seen ps
                   else map_option (\<lambda>rest. r # rest) (dedupe_loop fs (insert r seen) ps)))"

definition dedupe_paths :: "fs \<Rightarrow> path list \<Rightarrow> path list option" where
  "dedupe_paths fs ps = dedupe_loop fs {} ps"

section \<open>Text fields, times and identifiers\<close>

definition safe_text :: "fs \<Rightarrow> json \<Rightarrow> nat \<Rightarrow> string" where
  "safe_text fs v n = take n (strip (py_str (fs_repr fs) (py_or v (JStr []))))"

definition parse_time :: "json \<Rightarrow> int option" where
  "parse_time v = (case v of
       JStr s \<Rightarrow> (if strip s = [] then None else map_option to_utc (fromisoformat s))
     | _ \<Rightarrow> None)"

definition is_id_alnum :: "char \<Rightarrow> bool" where
  "is_id_alnum c = (let n = code c in (48 \<le> n \<and> n \<le> 57) \<or> (65 \<le> n \<and> n \<le> 90) \<or> (97 \<le> n \<and> n \<le> 122))"

definition id_pattern :: "string \<Rightarrow> string \<Rightarrow> bool" where
  \<comment> \<open>one alphanumeric character, then at most 127 more or of the extra ones\<close>
  "id_pattern extra s = (case s of [] \<Rightarrow> False
     | c # cs \<Rightarrow> is_id_alnum c \<and> length cs \<le> 127 \<and> list_all (\<lambda>x. is_id_alnum x \<or> x \<in> set extra) cs)"

definition request_id_ok :: "string \<Rightarrow> bool" where
  "request_id_ok s = id_pattern ''_.:-'' s"

definition key_ok :: "string \<Rightarrow> bool" where
  "key_ok s = id_pattern ''_.-'' s"

datatype access_error =
    BadMode string
  | BadValue string
  | BadAccess
  | BadExecutor string
  | BadKey
  | KeyExists string
  | LegacyKeyExists string
  | UnknownProject string
  | NoDirectory path
  | NoEntry string
  | MissingPath
  | PathError

definition validate_request_value :: "fs \<Rightarrow> json \<Rightarrow> access_error + string" where
  "validate_request_value fs v =
     (let normalized = safe_text fs v 128 in
      if normalized = [] \<or> \<not> request_id_ok normalized then Inl (BadValue normalized) else Inr normalized)"

definition validate_optional_request_id :: "fs \<Rightarrow> json \<Rightarrow> access_error + string" where
  "validate_optional_request_id fs v =
     (let normalized = safe_text fs v 128 in
      if normalized = [] then Inr [] else validate_request_value fs (JStr normalized))"

section \<open>Lemmas\<close>

lemma longest_by_in: "longest_by f b xs \<in> insert b (set xs)"
  by (induction f b xs rule: longest_by.induct) auto

lemma first_containing_root_None:
  "first_containing_root p roots = None \<longleftrightarrow> (\<forall>r\<in>set roots. \<not> is_within p r)"
proof (cases "filter (is_within p) roots")
  case Nil
  then show ?thesis by (simp add: first_containing_root_def filter_empty_conv)
next
  case (Cons m ms)
  then have "m \<in> set (filter (is_within p) roots)" by simp
  then have "m \<in> set roots" "is_within p m" by (simp_all only: set_filter mem_Collect_eq)
  with Cons show ?thesis by (auto simp: first_containing_root_def)
qed

lemma first_containing_root_Some:
  assumes "first_containing_root p roots = Some r"
  shows "r \<in> set roots \<and> is_within p r"
proof -
  obtain m ms where f: "filter (is_within p) roots = m # ms" and r: "r = longest_by (\<lambda>x. x) m ms"
    using assms by (auto simp: first_containing_root_def split: list.splits)
  have "r \<in> set (filter (is_within p) roots)" using longest_by_in [of "\<lambda>x. x" m ms] by (simp add: f r)
  then show ?thesis by simp
qed

lemma is_within_trans: "is_within p q \<Longrightarrow> is_within q r \<Longrightarrow> is_within p r"
  unfolding is_within_def by (rule prefix_order.trans)

lemma is_within_refl [simp]: "is_within p p"
  by (simp add: is_within_def)

lemma safe_text_str: "safe_text fs (JStr s) n = take n (strip s)"
  by (cases "s = []") (simp_all add: safe_text_def py_or_def)

lemma safe_text_null [simp]: "safe_text fs JNull n = []"
  by (simp add: safe_text_def py_or_def)

lemma dropWhile_id: "\<forall>c\<in>set s. \<not> P c \<Longrightarrow> dropWhile P s = s"
  by (cases s) simp_all

text \<open>A text field reads back as it was written when it is short and has no outer white space.\<close>

definition tidy :: "nat \<Rightarrow> string \<Rightarrow> bool" where
  "tidy n s \<longleftrightarrow> strip s = s \<and> length s \<le> n"

lemma safe_text_tidy [simp]: "tidy n s \<Longrightarrow> safe_text fs (JStr s) n = s"
  by (simp add: safe_text_str tidy_def)

lemma safe_text_Nil [simp]: "safe_text fs (JStr []) n = []"
  by (simp add: safe_text_str)

lemma id_alnum_no_space: "is_id_alnum c \<Longrightarrow> \<not> is_space c"
  by (auto simp: is_id_alnum_def is_space_def Let_def)

lemma id_pattern_no_space:
  assumes "id_pattern extra s" and "\<forall>c\<in>set extra. \<not> is_space c"
  shows "\<forall>c\<in>set s. \<not> is_space c"
  using assms by (auto simp: id_pattern_def list_all_iff id_alnum_no_space split: list.splits)

lemma request_id_tidy: "request_id_ok s \<Longrightarrow> tidy 128 s"
proof -
  assume a: "request_id_ok s"
  then have "\<forall>c\<in>set s. \<not> is_space c"
    unfolding request_id_ok_def by (rule id_pattern_no_space) (simp add: is_space_def code_def)
  then have "strip s = s" using strip_no_space by blast
  moreover have "length s \<le> 128" using a by (auto simp: request_id_ok_def id_pattern_def split: list.splits)
  ultimately show ?thesis by (simp add: tidy_def)
qed

lemma validate_request_value_ok:
  "validate_request_value fs v = Inr s \<Longrightarrow> s \<noteq> [] \<and> request_id_ok s \<and> tidy 128 s"
  by (auto simp: validate_request_value_def Let_def request_id_tidy split: if_splits)

lemma validate_optional_ok:
  "validate_optional_request_id fs v = Inr s \<Longrightarrow> s = [] \<or> (s \<noteq> [] \<and> request_id_ok s \<and> tidy 128 s)"
  by (auto simp: validate_optional_request_id_def Let_def dest: validate_request_value_ok split: if_splits)

lemma parse_time_isoformat: "valid_instant t \<Longrightarrow> parse_time (JStr (isoformat t)) = Some t"
  by (simp add: parse_time_def fromisoformat_isoformat to_utc_def)

lemma isoformat_tidy: "tidy 500 (isoformat t)"
  using length_isoformat [of t] by (simp add: tidy_def)

end
