(* ===== verification/AccessStore.thy ===== *)
theory AccessStore
  imports AccessPaths
begin

text \<open>
  The two JSON files of workspace authorization and the records read from them
  (\<open>WorkspaceAccessStore\<close>, \<open>WorkspaceAccessEntry\<close>, \<open>WorkspaceAccessRequest\<close>). A file is its decoded
  payload; a file that is missing or unreadable decodes to the empty payload. Atomic replacement
  and locking are the operating system's: an operation under the store lock is one step.
\<close>

section \<open>Files\<close>

record access_files =
  af_config :: json
  af_requests :: json

definition version_ok :: "dict \<Rightarrow> bool" where
  "version_ok payload =
     (let v = dget_or payload ''version'' (JInt 1) in v = JInt 1 \<or> v = JBool True \<or> v = JFloat 1)"

definition load_rows :: "string \<Rightarrow> json \<Rightarrow> dict list" where
  "load_rows field file =
     (let payload = (case file of JDict d \<Rightarrow> d | _ \<Rightarrow> []) in
      if \<not> version_ok payload then []
      else (case dget payload field of JList xs \<Rightarrow> dicts_of xs | _ \<Rightarrow> []))"

definition save_rows :: "string \<Rightarrow> dict list \<Rightarrow> json" where
  "save_rows field rows = JDict [(''version'', JInt 1), (field, JList (map JDict rows))]"

definition load_entries :: "access_files \<Rightarrow> dict list" where
  "load_entries s = load_rows ''entries'' (af_config s)"

definition save_entries :: "dict list \<Rightarrow> access_files \<Rightarrow> access_files" where
  "save_entries rows s = s\<lparr>af_config := save_rows ''entries'' rows\<rparr>"

definition load_requests :: "access_files \<Rightarrow> dict list" where
  "load_requests s = load_rows ''requests'' (af_requests s)"

definition save_requests :: "dict list \<Rightarrow> access_files \<Rightarrow> access_files" where
  "save_requests rows s = s\<lparr>af_requests := save_rows ''requests'' rows\<rparr>"

text \<open>A file that is rewritten as a whole: what is read is what was last saved.\<close>

locale whole_file =
  fixes load :: "'f \<Rightarrow> 'r list" and save :: "'r list \<Rightarrow> 'f \<Rightarrow> 'f"
  assumes load_save: "load (save rs f) = rs"
begin

lemma resave: "load (save rs (save qs f)) = rs"
  by (simp add: load_save)

lemma edit: "load (save (g (load f)) f) = g (load f)"
  by (simp add: load_save)

lemma edit_edit: "load (save (h (load (save (g (load f)) f))) (save (g (load f)) f)) = h (g (load f))"
  by (simp add: load_save)

end

lemma load_save_rows [simp]: "field \<noteq> ''version'' \<Longrightarrow> load_rows field (save_rows field rows) = rows"
  by (simp add: load_rows_def save_rows_def version_ok_def Let_def)

interpretation entry_file: whole_file load_entries save_entries
  by unfold_locales (simp add: load_entries_def save_entries_def)

interpretation request_file: whole_file load_requests save_requests
  by unfold_locales (simp add: load_requests_def save_requests_def)

lemma files_apart [simp]:
  "load_entries (save_requests rows s) = load_entries s"
  "load_requests (save_entries rows s) = load_requests s"
  by (simp_all add: load_entries_def save_requests_def load_requests_def save_entries_def)

declare entry_file.load_save [simp] request_file.load_save [simp]

section \<open>Entries\<close>

record entry =
  we_id :: string
  we_key :: string
  we_path :: path
  we_access :: string
  we_source :: string
  we_status :: string
  we_executor :: string
  we_description :: string
  we_sources :: "string list"
  we_app_id :: string

definition project_executors :: "string list" where
  "project_executors = [''codex'', ''claude'', ''antigravity'']"

definition valid_access_modes :: "string list" where
  "valid_access_modes = [''read-only'', ''read-write'']"

definition to_config_dict :: "entry \<Rightarrow> dict" where
  "to_config_dict e =
     [(''id'', JStr (we_id e)), (''key'', JStr (we_key e)), (''path'', JStr (str_path (we_path e))),
      (''access'', JStr (we_access e)), (''default_executor'', JStr (we_executor e)),
      (''description'', JStr (we_description e))]"

definition entry_status :: "fs \<Rightarrow> path \<Rightarrow> path list \<Rightarrow> string \<Rightarrow> string" where
  "entry_status fs p denied access =
     (if first_containing_root p denied \<noteq> None then ''denied''
      else if missing fs p then ''missing''
      else if access = ''read-only'' then ''read-only''
      else ''active'')"

definition load_app_entry :: "fs \<Rightarrow> dict \<Rightarrow> entry option" where
  "load_app_entry fs raw =
     (let entry_id = safe_text fs (dget raw ''id'') 128;
          key = safe_text fs (dget raw ''key'') 128;
          raw_path = safe_text fs (py_or (dget raw ''path'') (dget raw ''workspace'')) 500 in
      if raw_path = [] then None
      else (case canon fs raw_path of
              None \<Rightarrow> None
            | Some p \<Rightarrow>
                (let access = safe_text fs (dget raw ''access'') 32 in
                 if entry_id = [] \<or> \<not> request_id_ok entry_id then None
                 else if key = [] \<or> \<not> key_ok key \<or> access \<notin> set valid_access_modes then None
                 else
                   (let ex0 = lower (safe_text fs (dget raw ''default_executor'') 32);
                        ex = (if ex0 \<noteq> [] \<and> ex0 \<notin> set project_executors then [] else ex0) in
                    Some \<lparr> we_id = entry_id, we_key = key, we_path = p, we_access = access,
                           we_source = ''app'', we_status = entry_status fs p [] access,
                           we_executor = ex, we_description = safe_text fs (dget raw ''description'') 500,
                           we_sources = [''app''], we_app_id = entry_id \<rparr>))))"

definition load_app_entries :: "fs \<Rightarrow> access_files \<Rightarrow> entry list" where
  "load_app_entries fs s = List.map_filter (load_app_entry fs) (load_entries s)"

section \<open>Requests\<close>

record request =
  rq_id :: string
  rq_client :: string
  rq_path :: path
  rq_mode :: string
  rq_status :: string
  rq_created_at :: string
  rq_expires_at :: string
  rq_approved_at :: string
  rq_consumed_at :: string
  rq_last_notified_at :: string
  rq_grant :: string
  rq_scope :: string
  rq_task :: string
  rq_activated_at :: string
  rq_released_at :: string
  rq_project_entry :: string
  rq_project_allowed_at :: string

definition row_text :: "fs \<Rightarrow> dict \<Rightarrow> string \<Rightarrow> nat \<Rightarrow> string" where
  "row_text fs row field n = safe_text fs (dget row field) n"

abbreviation row_id :: "fs \<Rightarrow> dict \<Rightarrow> string" where
  "row_id fs row \<equiv> row_text fs row ''request_id'' 128"

abbreviation row_status :: "fs \<Rightarrow> dict \<Rightarrow> string" where
  "row_status fs row \<equiv> row_text fs row ''status'' 32"

definition request_from_row :: "fs \<Rightarrow> dict \<Rightarrow> access_error + request" where
  "request_from_row fs row =
     (let raw_path = row_text fs row ''path'' 500 in
      if raw_path = [] then Inl MissingPath
      else (case canon fs raw_path of
              None \<Rightarrow> Inl PathError
            | Some p \<Rightarrow> Inr \<lparr>
                rq_id = row_id fs row, rq_client = row_text fs row ''client_id'' 128, rq_path = p,
                rq_mode = row_text fs row ''mode'' 32, rq_status = row_status fs row,
                rq_created_at = row_text fs row ''created_at'' 500,
                rq_expires_at = row_text fs row ''expires_at'' 500,
                rq_approved_at = row_text fs row ''approved_at'' 500,
                rq_consumed_at = row_text fs row ''consumed_at'' 500,
                rq_last_notified_at = row_text fs row ''last_notified_at'' 500,
                rq_grant = row_text fs row ''authorization_grant_id'' 128,
                rq_scope = row_text fs row ''task_scope_id'' 128, rq_task = row_text fs row ''task_id'' 128,
                rq_activated_at = row_text fs row ''activated_at'' 500,
                rq_released_at = row_text fs row ''released_at'' 500,
                rq_project_entry = row_text fs row ''project_entry_id'' 128,
                rq_project_allowed_at = row_text fs row ''project_allowed_at'' 500 \<rparr>))"

section \<open>Lemmas\<close>

lemma row_text_dset [simp]:
  "row_text fs (dset k v row) field n = (if field = k then safe_text fs v n else row_text fs row field n)"
  by (simp add: row_text_def)

lemma request_from_row_fields:
  assumes "request_from_row fs row = Inr r"
  shows "rq_id r = row_id fs row" and "rq_status r = row_status fs row"
    and "rq_client r = row_text fs row ''client_id'' 128" and "rq_mode r = row_text fs row ''mode'' 32"
    and "rq_expires_at r = row_text fs row ''expires_at'' 500"
    and "rq_grant r = row_text fs row ''authorization_grant_id'' 128"
    and "rq_task r = row_text fs row ''task_id'' 128"
    and "canon fs (row_text fs row ''path'' 500) = Some (rq_path r)"
  using assms by (auto simp: request_from_row_def Let_def split: if_splits option.splits)

lemma request_from_row_total:
  "row_text fs row ''path'' 500 \<noteq> [] \<Longrightarrow> canon fs (row_text fs row ''path'' 500) = Some p \<Longrightarrow>
    \<exists>r. request_from_row fs row = Inr r"
  by (simp add: request_from_row_def Let_def)

lemma load_app_entry_fields:
  assumes "load_app_entry fs raw = Some e"
  shows "request_id_ok (we_id e)" and "key_ok (we_key e)" and "we_access e \<in> set valid_access_modes"
    and "we_executor e = [] \<or> we_executor e \<in> set project_executors"
  using assms by (auto simp: load_app_entry_def Let_def split: if_splits option.splits)

text \<open>An entry whose texts are short and without outer white space reads back as it was saved.\<close>

definition entry_saved :: "fs \<Rightarrow> entry \<Rightarrow> bool" where
  "entry_saved fs e \<longleftrightarrow> request_id_ok (we_id e) \<and> key_ok (we_key e) \<and> we_access e \<in> set valid_access_modes \<and>
     (we_executor e = [] \<or> we_executor e \<in> set project_executors) \<and> tidy 500 (str_path (we_path e)) \<and>
     canon fs (str_path (we_path e)) = Some (we_path e) \<and> tidy 500 (we_description e)"

lemma key_ok_tidy: "key_ok s \<Longrightarrow> tidy 128 s"
proof -
  assume a: "key_ok s"
  then have "\<forall>c\<in>set s. \<not> is_space c"
    unfolding key_ok_def by (rule id_pattern_no_space) (simp add: is_space_def code_def)
  then have "strip s = s" using strip_no_space by blast
  moreover have "length s \<le> 128" using a by (auto simp: key_ok_def id_pattern_def split: list.splits)
  ultimately show ?thesis by (simp add: tidy_def)
qed

lemma ids_nonempty: "request_id_ok s \<Longrightarrow> s \<noteq> []" "key_ok s \<Longrightarrow> s \<noteq> []"
  by (auto simp: request_id_ok_def key_ok_def id_pattern_def)

lemma str_path_nonempty [simp]: "str_path p \<noteq> []"
  by (cases p) (simp_all add: str_path_def)

lemma literals_tidy [simp]:
  "tidy 32 ''read-only''" "tidy 32 ''read-write''" "tidy 32 ''workspace-write''" "tidy 32 ''codex''"
  "tidy 32 ''claude''" "tidy 32 ''antigravity''" "tidy 32 ''pending''" "tidy 32 ''approved''"
  "tidy 32 ''active''" "tidy 32 ''consumed''" "tidy 32 ''expired''" "tidy 32 ''denied''"
  "tidy 32 ''project-allowed''"
  by (simp_all add: tidy_def, code_simp+)

lemma lower_executors [simp]:
  "lower ''codex'' = ''codex''" "lower ''claude'' = ''claude''" "lower ''antigravity'' = ''antigravity''"
  by code_simp+

lemma py_or_str: "s \<noteq> [] \<Longrightarrow> py_or (JStr s) v = JStr s"
  by (simp add: py_or_def)

lemma load_saved_entry:
  assumes "entry_saved fs e"
  shows "load_app_entry fs (to_config_dict e) =
    Some (e\<lparr>we_source := ''app'', we_status := entry_status fs (we_path e) [] (we_access e),
            we_sources := [''app''], we_app_id := we_id e\<rparr>)"
proof -
  from assms have i: "request_id_ok (we_id e)" and k: "key_ok (we_key e)"
    and a: "we_access e = ''read-only'' \<or> we_access e = ''read-write''"
    and x: "we_executor e \<in> {[], ''codex'', ''claude'', ''antigravity''}"
    and p: "tidy 500 (str_path (we_path e))" "canon fs (str_path (we_path e)) = Some (we_path e)"
    and d: "tidy 500 (we_description e)"
    by (auto simp: entry_saved_def valid_access_modes_def project_executors_def)
  have xs: "lower (safe_text fs (JStr (we_executor e)) 32) = we_executor e" using x by auto
  have as: "safe_text fs (JStr (we_access e)) 32 = we_access e" using a by auto
  show ?thesis
    using i k a x
    by (simp add: load_app_entry_def to_config_dict_def Let_def request_id_tidy key_ok_tidy ids_nonempty
        py_or_str p d xs as valid_access_modes_def project_executors_def)
      auto
qed

end
