(* ===== verification/AccessGrants.thy ===== *)
theory AccessGrants
  imports AccessStore
begin

text \<open>
  Standing permissions (\<open>WorkspaceAccessService\<close>): the settings and the environment variables, the
  grants they and the app entries give, the snapshot one authorization decides from, and the
  decision for one path. The English reason of an authorization is left out.
\<close>

section \<open>Settings\<close>

record project =
  pj_key :: string
  pj_workspace :: path
  pj_executor :: string
  pj_description :: string

record access_settings =
  as_workspace_root :: string
  as_data_dir :: string
  as_projects :: "(string \<times> project) list"
  as_allowed :: path_setting
  as_write_allowed :: path_setting
  as_trusted :: path_setting
  as_denied :: path_setting
  as_discovery :: bool

record env_vars =
  ev_allowed :: string
  ev_write_allowed :: string
  ev_trusted :: string
  ev_denied :: string

text \<open>What the service reads besides its two files. A loader that raises keeps the settings it had.\<close>

record access_env =
  ae_fs :: fs
  ae_settings :: access_settings
  ae_reloaded :: "access_settings option"
  ae_vars :: env_vars

definition current_settings :: "access_env \<Rightarrow> access_settings" where
  "current_settings env = (case ae_reloaded env of Some s \<Rightarrow> s | None \<Rightarrow> ae_settings env)"

section \<open>Grants\<close>

record grant =
  gr_path :: path
  gr_modes :: "string list"
  gr_source :: string
  gr_policy :: string
  gr_key :: string
  gr_executor :: string
  gr_app_entry :: string

definition read_write_modes :: "string list" where
  "read_write_modes = [''read-only'', ''workspace-write'']"

definition app_grant :: "entry \<Rightarrow> grant" where
  "app_grant e =
     \<lparr> gr_path = we_path e,
       gr_modes = (if we_access e = ''read-write'' then read_write_modes else [''read-only'']),
       gr_source = ''app'', gr_policy = ''app'', gr_key = we_key e, gr_executor = we_executor e,
       gr_app_entry = we_id e \<rparr>"

record legacy =
  lg_seen :: "(string \<times> string) set"
  lg_entries :: "entry list"
  lg_grants :: "grant list"

text \<open>The arguments of one call of the local \<open>add\<close>.\<close>

record legacy_add =
  la_path :: path
  la_source :: string
  la_policy :: string
  la_access :: string
  la_modes :: "string list"
  la_key :: string
  la_executor :: string
  la_status :: string

definition legacy_entry :: "fs \<Rightarrow> path \<Rightarrow> legacy_add \<Rightarrow> entry" where
  "legacy_entry fs p a =
     \<lparr> we_id = ''legacy-'' @ take 16 (fs_sha256 fs (la_source a @ str_path p)),
       we_key = str_or (la_key a) (''legacy-'' @ take 12 (fs_sha256 fs (str_path p))),
       we_path = p, we_access = la_access a, we_source = la_source a, we_status = la_status a,
       we_executor = la_executor a, we_description = [], we_sources = [la_source a], we_app_id = [] \<rparr>"

definition legacy_grant :: "path \<Rightarrow> legacy_add \<Rightarrow> grant" where
  "legacy_grant p a =
     \<lparr> gr_path = p, gr_modes = la_modes a, gr_source = la_source a, gr_policy = la_policy a,
       gr_key = la_key a, gr_executor = la_executor a, gr_app_entry = [] \<rparr>"

definition add_legacy :: "fs \<Rightarrow> legacy_add \<Rightarrow> legacy \<Rightarrow> legacy option" where
  "add_legacy fs a l = do {
     p \<leftarrow> canon fs (str_path (la_path a));
     let marker = (str_path p, la_source a) in
     if marker \<in> lg_seen l then Some l
     else Some \<lparr> lg_seen = insert marker (lg_seen l), lg_entries = lg_entries l @ [legacy_entry fs p a],
                 lg_grants = lg_grants l @ [legacy_grant p a] \<rparr>
   }"

fun add_all :: "fs \<Rightarrow> legacy_add list \<Rightarrow> legacy \<Rightarrow> legacy option" where
  "add_all fs [] l = Some l"
| "add_all fs (a # as) l = (case add_legacy fs a l of None \<Rightarrow> None | Some l' \<Rightarrow> add_all fs as l')"

definition project_adds :: "access_settings \<Rightarrow> legacy_add list" where
  "project_adds st = map (\<lambda>(key, pj).
     \<lparr> la_path = pj_workspace pj, la_source = ''legacy:FLUXION_PROJECTS:'' @ str_or (pj_key pj) key,
       la_policy = ''project'', la_access = ''read-write'', la_modes = read_write_modes,
       la_key = str_or (pj_key pj) key, la_executor = pj_executor pj, la_status = ''active'' \<rparr>) (as_projects st)"

definition allowed_values :: "access_env \<Rightarrow> access_settings \<Rightarrow> path \<Rightarrow> (path \<times> string) list" where
  "allowed_values env st workspace_root =
     (let raw = env_path_values (ae_fs env) (ev_allowed (ae_vars env));
          configured = path_values (ae_fs env) (as_allowed st);
          source = (if raw \<noteq> [] \<or> (\<exists>p\<in>set configured. p \<noteq> workspace_root)
                    then ''legacy:FLUXION_ALLOWED_WORKSPACES'' else ''legacy:FLUXION_WORKSPACE_ROOT'');
          vals = map (\<lambda>p. (p, ''legacy:FLUXION_ALLOWED_WORKSPACES'')) raw @ map (\<lambda>p. (p, source)) configured
      in if vals = [] then [(workspace_root, ''legacy:FLUXION_WORKSPACE_ROOT'')] else vals)"

definition plain_add :: "string \<Rightarrow> string \<Rightarrow> string list \<Rightarrow> string \<Rightarrow> path \<times> string \<Rightarrow> legacy_add" where
  "plain_add policy access modes status ps =
     \<lparr> la_path = fst ps, la_source = snd ps, la_policy = policy, la_access = access, la_modes = modes,
       la_key = [], la_executor = [], la_status = status \<rparr>"

definition both_values :: "access_env \<Rightarrow> string \<Rightarrow> string \<Rightarrow> path_setting \<Rightarrow> (path \<times> string) list" where
  \<comment> \<open>the values of an environment variable, then those of the settings, under one source\<close>
  "both_values env source raw st =
     map (\<lambda>p. (p, source)) (env_path_values (ae_fs env) raw @ path_values (ae_fs env) st)"

definition legacy_adds :: "access_env \<Rightarrow> access_settings \<Rightarrow> path \<Rightarrow> legacy_add list" where
  "legacy_adds env st workspace_root =
     project_adds st @
     map (plain_add ''allowed-workspace'' ''read-write'' read_write_modes ''active'')
       (allowed_values env st workspace_root) @
     map (plain_add ''write-allowed-workspace'' ''read-write'' [''workspace-write''] ''active'')
       (both_values env ''legacy:FLUXION_WRITE_ALLOWED_WORKSPACES'' (ev_write_allowed (ae_vars env)) (as_write_allowed st)) @
     map (plain_add ''trusted-git-read'' ''read-only'' [] (if as_discovery st then ''discovery'' else ''trusted''))
       (both_values env ''legacy:FLUXION_TRUSTED_WORKSPACE_ROOTS'' (ev_trusted (ae_vars env)) (as_trusted st)) @
     map (plain_add ''denied'' ''read-only'' [] ''denied'')
       (both_values env ''legacy:FLUXION_DENIED_WORKSPACES'' (ev_denied (ae_vars env)) (as_denied st))"

definition legacy_of :: "access_env \<Rightarrow> access_settings \<Rightarrow> path \<Rightarrow> legacy option" where
  "legacy_of env st workspace_root =
     add_all (ae_fs env) (legacy_adds env st workspace_root) \<lparr> lg_seen = {}, lg_entries = [], lg_grants = [] \<rparr>"

section \<open>The snapshot\<close>

record access_snapshot =
  ss_settings :: access_settings
  ss_entries :: "entry list"
  ss_grants :: "grant list"
  ss_legacy :: "entry list"
  ss_denied :: "path list"
  ss_workspace_root :: path
  ss_data_dir :: path
  ss_trusted :: "path list"
  ss_discovery :: bool

definition take_snapshot :: "access_env \<Rightarrow> access_files \<Rightarrow> access_snapshot option" where
  "take_snapshot env s =
     (let fs = ae_fs env; st = current_settings env in do {
        workspace_root \<leftarrow> canon fs (as_workspace_root st);
        data_dir \<leftarrow> canon fs (as_data_dir st);
        denied \<leftarrow> dedupe_paths fs (path_values fs (as_denied st));
        l \<leftarrow> legacy_of env st workspace_root;
        trusted \<leftarrow> dedupe_paths fs (path_values fs (as_trusted st));
        Some \<lparr> ss_settings = st, ss_entries = load_app_entries fs s,
               ss_grants = map app_grant (load_app_entries fs s) @ lg_grants l, ss_legacy = lg_entries l,
               ss_denied = denied, ss_workspace_root = workspace_root, ss_data_dir = data_dir,
               ss_trusted = trusted, ss_discovery = as_discovery st \<rparr>
      })"

section \<open>Authorizing a path\<close>

record auth =
  au_allowed :: bool
  au_policy :: string
  au_workspace :: path
  au_access :: string
  au_source :: string
  au_request_id :: string
  au_pending :: bool
  au_pending_status :: string
  au_client :: string
  au_executor :: string
  au_grant_id :: string
  au_scope :: string
  au_expires_at :: string

definition access_of_mode :: "string \<Rightarrow> string" where
  "access_of_mode mode = (if mode = ''workspace-write'' then ''read-write'' else ''read-only'')"

definition allow :: "path \<Rightarrow> string \<Rightarrow> string \<Rightarrow> string \<Rightarrow> string \<Rightarrow> string \<Rightarrow> auth" where
  "allow p policy access source client executor =
     \<lparr> au_allowed = True, au_policy = policy, au_workspace = p, au_access = access, au_source = source,
       au_request_id = [], au_pending = False, au_pending_status = [], au_client = client,
       au_executor = executor, au_grant_id = [], au_scope = [], au_expires_at = [] \<rparr>"

definition denied :: "path \<Rightarrow> string \<Rightarrow> string \<Rightarrow> string \<Rightarrow> request option \<Rightarrow> auth" where
  "denied p mode policy client req =
     \<lparr> au_allowed = False, au_policy = policy, au_workspace = p, au_access = access_of_mode mode,
       au_source = [], au_request_id = (case req of None \<Rightarrow> [] | Some r \<Rightarrow> rq_id r),
       au_pending = (case req of None \<Rightarrow> False | Some r \<Rightarrow> rq_status r = ''pending''),
       au_pending_status = (case req of None \<Rightarrow> [] | Some r \<Rightarrow> rq_status r), au_client = client,
       au_executor = [], au_grant_id = (case req of None \<Rightarrow> [] | Some r \<Rightarrow> rq_grant r),
       au_scope = (case req of None \<Rightarrow> [] | Some r \<Rightarrow> ''task''),
       au_expires_at = (case req of None \<Rightarrow> [] | Some r \<Rightarrow> rq_expires_at r) \<rparr>"

definition best_grant :: "access_snapshot \<Rightarrow> path \<Rightarrow> string \<Rightarrow> grant option" where
  "best_grant ss p mode =
     (case filter (\<lambda>g. mode \<in> set (gr_modes g) \<and> is_within p (gr_path g)) (ss_grants ss) of
        [] \<Rightarrow> None | g # gs \<Rightarrow> Some (longest_by gr_path g gs))"

definition autoping_dir :: "fs \<Rightarrow> access_snapshot \<Rightarrow> path option" where
  "autoping_dir fs ss = canon fs (str_path (ss_data_dir ss @ [''autoping_workspace'']))"

definition decide_path ::
  "fs \<Rightarrow> access_snapshot \<Rightarrow> path \<Rightarrow> path \<Rightarrow> string \<Rightarrow> project option \<Rightarrow> string \<Rightarrow> auth" where
  \<comment> \<open>\<open>_authorize_path\<close> after the managed directory is resolved\<close>
  "decide_path fs ss autoping p mode proj client =
     (if is_within p autoping then allow p ''autoping'' (access_of_mode mode) ''autoping'' client []
      else case proj of
        Some pj \<Rightarrow> allow p ''project'' (access_of_mode mode) (''legacy:project:'' @ pj_key pj) client []
      | None \<Rightarrow>
          (case best_grant ss p mode of
             Some g \<Rightarrow> allow p (gr_policy g)
               (if ''workspace-write'' \<in> set (gr_modes g) then ''read-write'' else ''read-only'')
               (gr_source g) client (gr_executor g)
           | None \<Rightarrow>
               if mode = ''workspace-write'' then denied p mode ''write-not-authorized'' client None
               else case first_containing_root p (ss_trusted ss) of
                 Some _ \<Rightarrow>
                   (if ss_discovery ss \<and> fs_is_git fs p
                    then allow p ''trusted-git-read'' ''read-only'' ''legacy:trusted_workspace_roots'' client []
                    else denied p mode ''trusted-root-not-discovered'' client None)
               | None \<Rightarrow> denied p mode ''not-authorized'' client None))"

definition authorize_path ::
  "fs \<Rightarrow> access_snapshot \<Rightarrow> path \<Rightarrow> string \<Rightarrow> project option \<Rightarrow> string \<Rightarrow> auth option" where
  "authorize_path fs ss p mode proj client =
     (if first_containing_root p (ss_denied ss) \<noteq> None then Some (denied p mode ''denied'' client None)
      else if missing fs p then Some (denied p mode ''missing'' client None)
      else map_option (\<lambda>dir. decide_path fs ss dir p mode proj client) (autoping_dir fs ss))"

section \<open>Projects\<close>

definition find_legacy_project :: "access_settings \<Rightarrow> string \<Rightarrow> project option" where
  "find_legacy_project st key = (if key = [] then None else map_of (as_projects st) key)"

definition app_project :: "access_snapshot \<Rightarrow> string \<Rightarrow> entry option" where
  "app_project ss key = find (\<lambda>e. we_key e = key) (ss_entries ss)"

definition project_of_entry :: "entry \<Rightarrow> project" where
  "project_of_entry e = \<lparr> pj_key = we_key e, pj_workspace = we_path e, pj_executor = we_executor e,
     pj_description = we_description e \<rparr>"

definition resolve_project :: "access_env \<Rightarrow> access_files \<Rightarrow> string \<Rightarrow> access_error + project option" where
  "resolve_project env s project_key =
     (let key = strip project_key in
      if key = [] then Inr None
      else (case take_snapshot env s of
              None \<Rightarrow> Inl PathError
            | Some ss \<Rightarrow>
                (case find_legacy_project (ss_settings ss) key of
                   Some pj \<Rightarrow> Inr (Some pj)
                 | None \<Rightarrow>
                     (case app_project ss key of
                        Some e \<Rightarrow> Inr (Some (project_of_entry e))
                      | None \<Rightarrow> Inl (UnknownProject key)))))"

section \<open>Lemmas\<close>

lemma allow_fields [simp]:
  "au_allowed (allow p pol acc src cl ex)" "au_policy (allow p pol acc src cl ex) = pol"
  "au_workspace (allow p pol acc src cl ex) = p" "au_access (allow p pol acc src cl ex) = acc"
  by (simp_all add: allow_def)

lemma denied_fields [simp]:
  "\<not> au_allowed (denied p mode pol cl r)" "au_policy (denied p mode pol cl r) = pol"
  by (simp_all add: denied_def)

lemma best_grant_Some:
  assumes "best_grant ss p mode = Some g"
  shows "g \<in> set (ss_grants ss) \<and> mode \<in> set (gr_modes g) \<and> is_within p (gr_path g)"
proof -
  obtain h hs where f: "filter (\<lambda>g. mode \<in> set (gr_modes g) \<and> is_within p (gr_path g)) (ss_grants ss) = h # hs"
    and g: "g = longest_by gr_path h hs"
    using assms by (auto simp: best_grant_def split: list.splits)
  have "g \<in> set (h # hs)" using longest_by_in [of gr_path h hs] by (simp add: g)
  then have "g \<in> set (filter (\<lambda>g. mode \<in> set (gr_modes g) \<and> is_within p (gr_path g)) (ss_grants ss))"
    by (simp only: f)
  then show ?thesis by (simp only: set_filter mem_Collect_eq)
qed

lemma best_grant_exists:
  assumes "g \<in> set (ss_grants ss)" and "mode \<in> set (gr_modes g)" and "is_within p (gr_path g)"
  shows "\<exists>h. best_grant ss p mode = Some h"
proof (cases "filter (\<lambda>g. mode \<in> set (gr_modes g) \<and> is_within p (gr_path g)) (ss_grants ss)")
  case Nil
  with assms show ?thesis by (auto simp: filter_empty_conv)
next
  case (Cons h hs)
  then show ?thesis by (simp add: best_grant_def)
qed

lemma authorize_path_denied_root:
  "r \<in> set (ss_denied ss) \<Longrightarrow> is_within p r \<Longrightarrow> authorize_path fs ss p mode proj client = Some a \<Longrightarrow>
    \<not> au_allowed a \<and> au_policy a = ''denied''"
  using first_containing_root_None [of p "ss_denied ss"] by (auto simp: authorize_path_def split: if_splits)

text \<open>The grants that reach a snapshot: an entry of the app file, or one of the legacy sources.\<close>

lemma add_legacy_grants:
  "add_legacy fs a l = Some l' \<Longrightarrow> g \<in> set (lg_grants l') \<Longrightarrow>
    g \<in> set (lg_grants l) \<or> (\<exists>p. canon fs (str_path (la_path a)) = Some p \<and> g = legacy_grant p a)"
  by (auto simp: add_legacy_def Let_def split: bind_splits if_splits)

lemma add_all_grants:
  "add_all fs as l = Some l' \<Longrightarrow> g \<in> set (lg_grants l') \<Longrightarrow>
    g \<in> set (lg_grants l) \<or> (\<exists>a\<in>set as. \<exists>p. canon fs (str_path (la_path a)) = Some p \<and> g = legacy_grant p a)"
proof (induction as arbitrary: l)
  case (Cons a as)
  then obtain l1 where l1: "add_legacy fs a l = Some l1" "add_all fs as l1 = Some l'"
    by (auto split: option.splits)
  show ?case using Cons.IH [OF l1(2) Cons.prems(2)] add_legacy_grants [OF l1(1), of g] by auto
qed simp

lemma legacy_of_grants:
  "legacy_of env st ws = Some l \<Longrightarrow> g \<in> set (lg_grants l) \<Longrightarrow>
    \<exists>a\<in>set (legacy_adds env st ws). \<exists>p. canon (ae_fs env) (str_path (la_path a)) = Some p \<and> g = legacy_grant p a"
  using add_all_grants [of "ae_fs env" "legacy_adds env st ws" _ l g] by (fastforce simp: legacy_of_def)

lemma snapshot_parts:
  assumes "take_snapshot env s = Some ss"
  shows "ss_entries ss = load_app_entries (ae_fs env) s" and "ss_settings ss = current_settings env"
    and "\<exists>l. legacy_of env (current_settings env) (ss_workspace_root ss) = Some l \<and>
        ss_grants ss = map app_grant (load_app_entries (ae_fs env) s) @ lg_grants l \<and> ss_legacy ss = lg_entries l"
    and "dedupe_paths (ae_fs env) (path_values (ae_fs env) (as_denied (current_settings env))) = Some (ss_denied ss)"
  using assms by (auto simp: take_snapshot_def Let_def split: bind_splits)

end
