(* ===== verification/AccessEntries.thy ===== *)
theory AccessEntries
  imports AccessGrants
begin

text \<open>
  The app-managed entries (\<open>create_entry\<close>, \<open>update_entry\<close>, \<open>delete_entry\<close>): a stored directory with a
  key and an access mode. Every operation works on the entries as they are loaded, and an error
  leaves the file as it was.
\<close>

type_synonym 'r op_result = "(access_error + 'r) \<times> access_files"

definition validate_entry :: "fs \<Rightarrow> string \<Rightarrow> string \<Rightarrow> string \<Rightarrow> access_error + path" where
  "validate_entry fs raw access executor =
     (case canon fs raw of
        None \<Rightarrow> Inl PathError
      | Some p \<Rightarrow>
          (if missing fs p then Inl (NoDirectory p)
           else if access \<notin> set valid_access_modes then Inl BadAccess
           else if executor \<noteq> [] \<and> executor \<notin> set project_executors then Inl (BadExecutor executor)
           else Inr p))"

definition entry_key :: "fs \<Rightarrow> string \<Rightarrow> path \<Rightarrow> access_error + string" where
  "entry_key fs key p =
     (let normalized = str_or (safe_text fs (JStr key) 128) (''workspace-'' @ take 12 (fs_sha256 fs (str_path p))) in
      if key_ok normalized then Inr normalized else Inl BadKey)"

definition path_name :: "path \<Rightarrow> string" where
  "path_name p = (if p = [] then [] else last p)"

definition key_taken :: "access_env \<Rightarrow> entry list \<Rightarrow> string \<Rightarrow> bool" where
  "key_taken env entries key \<longleftrightarrow>
     (\<exists>e\<in>set entries. we_key e = key) \<or> find_legacy_project (current_settings env) key \<noteq> None"

definition project_entry_key :: "access_env \<Rightarrow> string \<Rightarrow> path \<Rightarrow> entry list \<Rightarrow> access_error + string" where
  "project_entry_key env key p entries =
     (let candidate = str_or (safe_text (ae_fs env) (JStr key) 128) (path_name p);
          readable = candidate \<noteq> [] \<and> key_ok candidate in
      if readable \<and> \<not> key_taken env entries candidate then Inr candidate
      else if readable \<and> key \<noteq> [] then Inl (KeyExists candidate)
      else (case entry_key (ae_fs env) [] p of
              Inl e \<Rightarrow> Inl e
            | Inr generated \<Rightarrow>
                (if key_taken env entries generated then Inl (KeyExists generated) else Inr generated)))"

definition app_entry :: "string \<Rightarrow> string \<Rightarrow> path \<Rightarrow> string \<Rightarrow> string \<Rightarrow> string \<Rightarrow> entry" where
  "app_entry eid key p access executor description =
     \<lparr> we_id = eid, we_key = key, we_path = p, we_access = access, we_source = ''app'',
       we_status = ''active'', we_executor = executor, we_description = description,
       we_sources = [''app''], we_app_id = eid \<rparr>"

definition store_entries :: "entry list \<Rightarrow> access_files \<Rightarrow> access_files" where
  "store_entries es s = save_entries (map to_config_dict es) s"

definition create_entry ::
  "access_env \<Rightarrow> string \<Rightarrow> string \<Rightarrow> string \<Rightarrow> string \<Rightarrow> string \<Rightarrow> string \<Rightarrow> access_files \<Rightarrow> entry op_result" where
  "create_entry env uuid raw key access executor description s =
     (let fs = ae_fs env in
      case validate_entry fs raw access executor of
        Inl e \<Rightarrow> (Inl e, s)
      | Inr p \<Rightarrow>
          (case entry_key fs key p of
             Inl e \<Rightarrow> (Inl e, s)
           | Inr k \<Rightarrow>
               (let entries = load_app_entries fs s in
                if \<exists>e\<in>set entries. we_key e = k then (Inl (KeyExists k), s)
                else if find_legacy_project (current_settings env) k \<noteq> None then (Inl (LegacyKeyExists k), s)
                else (let entry = app_entry (''app-'' @ uuid) k p access executor
                            (safe_text fs (JStr description) 500) in
                      (Inr entry, store_entries (entries @ [entry]) s)))))"

definition update_entry ::
  "access_env \<Rightarrow> string \<Rightarrow> string option \<Rightarrow> string option \<Rightarrow> string option \<Rightarrow> string option \<Rightarrow> string option
     \<Rightarrow> access_files \<Rightarrow> entry op_result" where
  "update_entry env raw_id raw key access executor description s =
     (let fs = ae_fs env in
      case validate_request_value fs (JStr raw_id) of
        Inl e \<Rightarrow> (Inl e, s)
      | Inr eid \<Rightarrow>
          (let entries = load_app_entries fs s in
           case find (\<lambda>e. we_id e = eid) entries of
             None \<Rightarrow> (Inl (NoEntry eid), s)
           | Some cur \<Rightarrow>
               (case (case raw of None \<Rightarrow> Some (we_path cur) | Some r \<Rightarrow> canon fs r) of
                  None \<Rightarrow> (Inl PathError, s)
                | Some next_path \<Rightarrow>
                    (let next_access = str_or (or_default access []) (we_access cur);
                         next_executor = or_default executor (we_executor cur) in
                     case validate_entry fs (str_path next_path) next_access next_executor of
                       Inl e \<Rightarrow> (Inl e, s)
                     | Inr _ \<Rightarrow>
                         (case entry_key fs (or_default key (we_key cur)) next_path of
                            Inl e \<Rightarrow> (Inl e, s)
                          | Inr k \<Rightarrow>
                              (if \<exists>e\<in>set entries. we_id e \<noteq> eid \<and> we_key e = k then (Inl (KeyExists k), s)
                               else if find_legacy_project (current_settings env) k \<noteq> None then (Inl (LegacyKeyExists k), s)
                               else (let new = app_entry (we_id cur) k next_path next_access next_executor
                                           (safe_text fs (JStr (or_default description (we_description cur))) 500) in
                                     (Inr new, store_entries (map (\<lambda>e. if we_id e \<noteq> eid then e else new) entries) s))))))))"

section \<open>Removing an entry\<close>

fun remaining_loop :: "fs \<Rightarrow> access_snapshot \<Rightarrow> path \<Rightarrow> string list \<Rightarrow> auth option option" where
  \<comment> \<open>the outer \<open>None\<close> is an error of the file system\<close>
  "remaining_loop fs ss p [] = Some None"
| "remaining_loop fs ss p (mode # modes) =
     (case authorize_path fs ss p mode None ''settings'' of
        None \<Rightarrow> None
      | Some a \<Rightarrow> (if au_allowed a then Some (Some a) else remaining_loop fs ss p modes))"

definition remaining_authorization :: "fs \<Rightarrow> access_snapshot \<Rightarrow> path \<Rightarrow> auth option option" where
  "remaining_authorization fs ss p = remaining_loop fs ss p [''workspace-write'', ''read-only'']"

definition remaining_root :: "access_snapshot \<Rightarrow> path \<Rightarrow> auth option \<Rightarrow> string" where
  "remaining_root ss p a =
     (case a of
        None \<Rightarrow> []
      | Some au \<Rightarrow>
          (if au_policy au = ''trusted-git-read''
           then (case first_containing_root p (ss_trusted ss) of None \<Rightarrow> [] | Some r \<Rightarrow> str_path r)
           else (case filter (\<lambda>g. gr_source g = au_source au \<and> is_within p (gr_path g) \<and>
                     (''read-only'' \<in> set (gr_modes g) \<or> ''workspace-write'' \<in> set (gr_modes g))) (ss_grants ss) of
                   [] \<Rightarrow> []
                 | g # gs \<Rightarrow> str_path (gr_path (longest_by gr_path g gs)))))"

record deletion =
  dl_id :: string
  dl_path :: path
  dl_removed_access :: string
  dl_remaining :: "auth option"
  dl_root :: string

definition delete_entry :: "access_env \<Rightarrow> string \<Rightarrow> access_files \<Rightarrow> deletion op_result" where
  "delete_entry env raw_id s =
     (let fs = ae_fs env in
      case validate_request_value fs (JStr raw_id) of
        Inl e \<Rightarrow> (Inl e, s)
      | Inr eid \<Rightarrow>
          (let entries = load_app_entries fs s in
           case find (\<lambda>e. we_id e = eid) entries of
             None \<Rightarrow> (Inl (NoEntry eid), s)
           | Some cur \<Rightarrow>
               (let s' = store_entries (filter (\<lambda>e. we_id e \<noteq> eid) entries) s in
                case take_snapshot env s' of
                  None \<Rightarrow> (Inl PathError, s')
                | Some ss \<Rightarrow>
                    (case remaining_authorization fs ss (we_path cur) of
                       None \<Rightarrow> (Inl PathError, s')
                     | Some a \<Rightarrow>
                         (Inr \<lparr> dl_id = eid, dl_path = we_path cur, dl_removed_access = we_access cur,
                                dl_remaining = a, dl_root = remaining_root ss (we_path cur) a \<rparr>, s')))))"

section \<open>Lemmas\<close>

lemma validate_entry_ok:
  "validate_entry fs raw access ex = Inr p \<Longrightarrow>
    canon fs raw = Some p \<and> fs_is_dir fs p \<and> access \<in> set valid_access_modes \<and>
    (ex = [] \<or> ex \<in> set project_executors)"
  by (auto simp: validate_entry_def missing_def split: option.splits if_splits)

lemma entry_key_ok: "entry_key fs key p = Inr k \<Longrightarrow> key_ok k"
  by (auto simp: entry_key_def Let_def split: if_splits)

lemma safe_text_twice: "safe_text fs (JStr s) n = t \<Longrightarrow> length t \<le> n"
  by (auto simp: safe_text_str)

lemma load_entry_key:
  "load_app_entry fs (to_config_dict e) = Some e' \<Longrightarrow> key_ok (we_key e) \<Longrightarrow> we_key e' = we_key e"
  by (auto simp: load_app_entry_def to_config_dict_def Let_def key_ok_tidy split: if_splits option.splits)

lemma load_entry_id:
  "load_app_entry fs (to_config_dict e) = Some e' \<Longrightarrow> request_id_ok (we_id e) \<Longrightarrow> we_id e' = we_id e"
  by (auto simp: load_app_entry_def to_config_dict_def Let_def request_id_tidy split: if_splits option.splits)

lemma load_stored: "load_app_entries fs (store_entries es s) = List.map_filter (\<lambda>e. load_app_entry fs (to_config_dict e)) es"
  by (induction es) (simp_all add: load_app_entries_def store_entries_def List.map_filter_def)

lemma map_filter_keys:
  "\<forall>e\<in>set es. \<forall>e'. f e = Some e' \<longrightarrow> key e' = key e \<Longrightarrow> distinct (map key es) \<Longrightarrow>
    distinct (map key (List.map_filter f es)) \<and> set (map key (List.map_filter f es)) \<subseteq> set (map key es)"
  by (induction es) (auto simp: List.map_filter_def split: option.splits)

end
