(* ===== verification/AccessRequests.thy ===== *)
theory AccessRequests
  imports AccessEntries
begin

text \<open>
  The approval requests of workspace authorization and every operation on them. Rows stay the JSON
  objects of the file: an operation finds the first row with an id, reads it as a request, and
  either leaves the file alone or writes it back with that one row changed. A timestamp is in
  microseconds; \<open>uuid\<close> arguments are the digits of \<open>uuid4().hex\<close>.
\<close>

section \<open>Editing one row\<close>

fun replace_first :: "('a \<Rightarrow> bool) \<Rightarrow> 'a \<Rightarrow> 'a list \<Rightarrow> 'a list" where
  "replace_first P y [] = []"
| "replace_first P y (x # xs) = (if P x then y # xs else x # replace_first P y xs)"

type_synonym 'x row_act = "dict \<Rightarrow> request \<Rightarrow> access_error + ('x \<times> dict option)"

definition plan_row ::
  "fs \<Rightarrow> (dict \<Rightarrow> bool) \<Rightarrow> 'x row_act \<Rightarrow> dict list \<Rightarrow> access_error + ('x \<times> dict \<times> dict list option) option" where
  \<comment> \<open>the result, the row as it ends up, and the rows to save\<close>
  "plan_row fs P act rows =
     (case find P rows of
        None \<Rightarrow> Inr None
      | Some row \<Rightarrow>
          (case request_from_row fs row of
             Inl e \<Rightarrow> Inl e
           | Inr r \<Rightarrow>
               (case act row r of
                  Inl e \<Rightarrow> Inl e
                | Inr (x, None) \<Rightarrow> Inr (Some (x, row, None))
                | Inr (x, Some row') \<Rightarrow> Inr (Some (x, row', Some (replace_first P row' rows))))))"

definition edit_row ::
  "fs \<Rightarrow> (dict \<Rightarrow> bool) \<Rightarrow> 'x row_act \<Rightarrow> access_files \<Rightarrow> ('x \<times> dict) option op_result" where
  "edit_row fs P act s =
     (case plan_row fs P act (load_requests s) of
        Inl e \<Rightarrow> (Inl e, s)
      | Inr None \<Rightarrow> (Inr None, s)
      | Inr (Some (x, row, None)) \<Rightarrow> (Inr (Some (x, row)), s)
      | Inr (Some (x, row, Some rows)) \<Rightarrow> (Inr (Some (x, row)), save_requests rows s))"

definition has_id :: "fs \<Rightarrow> string \<Rightarrow> dict \<Rightarrow> bool" where
  "has_id fs rid row \<longleftrightarrow> row_id fs row = rid"

definition has_grant :: "fs \<Rightarrow> string \<Rightarrow> dict \<Rightarrow> bool" where
  "has_grant fs gid row \<longleftrightarrow> row_text fs row ''authorization_grant_id'' 128 = gid"

definition set_text :: "string \<Rightarrow> string \<Rightarrow> dict \<Rightarrow> dict" where
  "set_text field v row = dset field (JStr v) row"

definition expired_at :: "string \<Rightarrow> int \<Rightarrow> bool" where
  "expired_at text now \<longleftrightarrow> (case parse_time (JStr text) of None \<Rightarrow> False | Some e \<Rightarrow> e \<le> now)"

definition same_request :: "path \<Rightarrow> string \<Rightarrow> string \<Rightarrow> request \<Rightarrow> bool" where
  "same_request p mode client r \<longleftrightarrow> rq_client r = client \<and> rq_path r = p \<and> rq_mode r = mode"

definition path_denied :: "access_env \<Rightarrow> access_files \<Rightarrow> path \<Rightarrow> access_error + bool" where
  \<comment> \<open>the deny roots of a fresh snapshot\<close>
  "path_denied env s p =
     (case take_snapshot env s of None \<Rightarrow> Inl PathError
      | Some ss \<Rightarrow> Inr (first_containing_root p (ss_denied ss) \<noteq> None))"

section \<open>Expiry\<close>

definition live_statuses :: "string list" where
  "live_statuses = [''pending'', ''approved'', ''active'']"

definition row_expired :: "fs \<Rightarrow> int \<Rightarrow> dict \<Rightarrow> bool" where
  "row_expired fs now row \<longleftrightarrow> row_status fs row \<in> set live_statuses \<and>
     (case parse_time (dget row ''expires_at'') of None \<Rightarrow> False | Some e \<Rightarrow> e \<le> now)"

definition expire_rows :: "fs \<Rightarrow> int \<Rightarrow> dict list \<Rightarrow> bool \<times> dict list" where
  "expire_rows fs now rows =
     (list_ex (row_expired fs now) rows,
      map (\<lambda>row. if row_expired fs now row then set_text ''status'' ''expired'' row else row) rows)"

section \<open>The request of a refused run\<close>

datatype request_state = Pending | Approved | Active | Consumed | Refused | Expired | Mismatch

definition readable_row :: "fs \<Rightarrow> dict \<Rightarrow> bool" where
  "readable_row fs row \<longleftrightarrow> row_id fs row \<noteq> [] \<and> row_text fs row ''path'' 500 \<noteq> [] \<and>
     canon fs (row_text fs row ''path'' 500) \<noteq> None"

definition row_matches :: "fs \<Rightarrow> path \<Rightarrow> string \<Rightarrow> string \<Rightarrow> dict \<Rightarrow> bool" where
  "row_matches fs p mode client row \<longleftrightarrow> row_text fs row ''client_id'' 128 = client \<and>
     canon fs (row_text fs row ''path'' 500) = Some p \<and> row_text fs row ''mode'' 32 = mode"

definition cooldown_over :: "string \<Rightarrow> int \<Rightarrow> bool" where
  "cooldown_over notified now \<longleftrightarrow>
     (case parse_time (JStr notified) of None \<Rightarrow> True | Some t \<Rightarrow> now - t \<ge> 60 * usec_per_sec)"

definition new_request :: "string \<Rightarrow> path \<Rightarrow> string \<Rightarrow> string \<Rightarrow> string \<Rightarrow> int \<Rightarrow> int \<Rightarrow> dict" where
  "new_request rid p mode client scope now ttl =
     [(''request_id'', JStr rid), (''client_id'', JStr client), (''path'', JStr (str_path p)),
      (''mode'', JStr mode), (''status'', JStr ''pending''), (''created_at'', JStr (isoformat now)),
      (''expires_at'', JStr (isoformat (now + ttl * usec_per_sec))), (''approved_at'', JStr []),
      (''consumed_at'', JStr []), (''last_notified_at'', JStr (isoformat now)),
      (''authorization_grant_id'', JStr []), (''task_scope_id'', JStr scope), (''task_id'', JStr []),
      (''activated_at'', JStr []), (''released_at'', JStr []), (''project_entry_id'', JStr []),
      (''project_allowed_at'', JStr [])]"

definition unknown_request :: "string \<Rightarrow> path \<Rightarrow> string \<Rightarrow> string \<Rightarrow> request" where
  "unknown_request rid p mode client =
     \<lparr> rq_id = rid, rq_client = client, rq_path = p, rq_mode = mode, rq_status = ''not-found'',
       rq_created_at = [], rq_expires_at = [], rq_approved_at = [], rq_consumed_at = [],
       rq_last_notified_at = [], rq_grant = [], rq_scope = [], rq_task = [], rq_activated_at = [],
       rq_released_at = [], rq_project_entry = [], rq_project_allowed_at = [] \<rparr>"

definition settled_state :: "request \<Rightarrow> int \<Rightarrow> request_state option" where
  \<comment> \<open>the early returns for a matching row; \<open>None\<close> is a request that still waits for an answer\<close>
  "settled_state r now =
     (if rq_status r \<in> {''consumed'', ''project-allowed''} then Some Consumed
      else if rq_status r = ''active'' then Some Active
      else if rq_status r = ''denied'' then Some Refused
      else if expired_at (rq_expires_at r) now then Some Expired
      else if rq_status r = ''approved'' then Some Approved
      else None)"

text \<open>The result carries whether the user is notified.\<close>

type_synonym denial = "request \<times> request_state \<times> bool"

definition save_if :: "bool \<Rightarrow> dict list \<Rightarrow> access_files \<Rightarrow> access_files" where
  "save_if changed rows s = (if changed then save_requests rows s else s)"

definition answer_row ::
  "fs \<Rightarrow> int \<Rightarrow> (dict \<Rightarrow> bool) \<Rightarrow> bool \<Rightarrow> dict \<Rightarrow> dict list \<Rightarrow> access_files \<Rightarrow> denial op_result" where
  "answer_row fs now P changed row rows s =
     (case request_from_row fs row of
        Inl e \<Rightarrow> (Inl e, s)
      | Inr r \<Rightarrow>
          (case settled_state r now of
             Some st \<Rightarrow> (Inr (r, st, False), save_if changed rows s)
           | None \<Rightarrow>
               (if cooldown_over (rq_last_notified_at r) now
                then (let row' = set_text ''last_notified_at'' (isoformat now) row;
                          s' = save_requests (replace_first P row' rows) s in
                      (case request_from_row fs row' of Inl e \<Rightarrow> (Inl e, s') | Inr r' \<Rightarrow> (Inr (r', Pending, True), s')))
                else (Inr (r, Pending, False), save_if changed rows s))))"

definition request_for_denial ::
  "access_env \<Rightarrow> string \<Rightarrow> int \<Rightarrow> int \<Rightarrow> path \<Rightarrow> string \<Rightarrow> string \<Rightarrow> string \<Rightarrow> string \<Rightarrow> access_files
     \<Rightarrow> denial op_result" where
  "request_for_denial env uuid ttl now p mode client supplied scope s =
     (let fs = ae_fs env in
      case expire_rows fs now (load_requests s) of
        (changed, rows) \<Rightarrow>
          if supplied \<noteq> [] then
            (let P = (\<lambda>row. readable_row fs row \<and> row_id fs row = supplied) in
             case find P rows of
               None \<Rightarrow> (Inr (unknown_request supplied p mode client, Mismatch, False), save_if changed rows s)
             | Some row \<Rightarrow>
                 (if row_matches fs p mode client row then answer_row fs now P changed row rows s
                  else (case request_from_row fs row of
                          Inl e \<Rightarrow> (Inl e, s)
                        | Inr r \<Rightarrow> (Inr (r, Mismatch, False), save_if changed rows s))))
          else
            (let P = (\<lambda>row. readable_row fs row \<and> row_matches fs p mode client row \<and>
                            row_status fs row \<in> set live_statuses) in
             case find P rows of
               Some row \<Rightarrow> answer_row fs now P changed row rows s
             | None \<Rightarrow>
                 (let row = new_request (''war-'' @ uuid) p mode client scope now ttl;
                      s' = save_requests (rows @ [row]) s in
                  (case request_from_row fs row of Inl e \<Rightarrow> (Inl e, s') | Inr r \<Rightarrow> (Inr (r, Pending, True), s')))))"

section \<open>Using an approval\<close>

definition consume_act :: "int \<Rightarrow> path \<Rightarrow> string \<Rightarrow> string \<Rightarrow> bool row_act" where
  "consume_act now p mode client row r = Inr
     (if rq_status r \<noteq> ''approved'' \<or> \<not> same_request p mode client r \<or> expired_at (rq_expires_at r) now
      then (False, None)
      else (True, Some (set_text ''consumed_at'' (isoformat now) (set_text ''status'' ''consumed'' row))))"

definition consume_request ::
  "access_env \<Rightarrow> int \<Rightarrow> string \<Rightarrow> path \<Rightarrow> string \<Rightarrow> string \<Rightarrow> access_files \<Rightarrow> bool op_result" where
  "consume_request env now rid p mode client s =
     (case path_denied env s p of
        Inl e \<Rightarrow> (Inl e, s)
      | Inr True \<Rightarrow> (Inr False, s)
      | Inr False \<Rightarrow>
          (case edit_row (ae_fs env) (has_id (ae_fs env) rid) (consume_act now p mode client) s of
             (Inl e, s') \<Rightarrow> (Inl e, s')
           | (Inr None, s') \<Rightarrow> (Inr False, s')
           | (Inr (Some (ok, _)), s') \<Rightarrow> (Inr ok, s')))"

definition claim_row :: "string \<Rightarrow> string \<Rightarrow> int \<Rightarrow> dict \<Rightarrow> dict" where
  "claim_row gid scope now row =
     set_text ''released_at'' [] (set_text ''activated_at'' (isoformat now) (set_text ''task_id'' []
       (set_text ''task_scope_id'' scope (set_text ''authorization_grant_id'' gid (set_text ''status'' ''active'' row)))))"

definition activate_act :: "string \<Rightarrow> int \<Rightarrow> path \<Rightarrow> string \<Rightarrow> string \<Rightarrow> string \<Rightarrow> bool row_act" where
  "activate_act gid now p mode client scope row r = Inr
     (if rq_status r \<noteq> ''approved'' \<or> \<not> same_request p mode client r then (False, None)
      else if expired_at (rq_expires_at r) now then (False, Some (set_text ''status'' ''expired'' row))
      else (True, Some (claim_row gid scope now row)))"

definition activate_request ::
  "access_env \<Rightarrow> string \<Rightarrow> int \<Rightarrow> string \<Rightarrow> path \<Rightarrow> string \<Rightarrow> string \<Rightarrow> string \<Rightarrow> access_files
     \<Rightarrow> request option op_result" where
  "activate_request env uuid now rid p mode client scope s =
     (case path_denied env s p of
        Inl e \<Rightarrow> (Inl e, s)
      | Inr True \<Rightarrow> (Inr None, s)
      | Inr False \<Rightarrow>
          (case edit_row (ae_fs env) (has_id (ae_fs env) rid) (activate_act (''wag-'' @ uuid) now p mode client scope) s of
             (Inl e, s') \<Rightarrow> (Inl e, s')
           | (Inr None, s') \<Rightarrow> (Inr None, s')
           | (Inr (Some (ok, row)), s') \<Rightarrow>
               (if ok then (case request_from_row (ae_fs env) row of Inl e \<Rightarrow> (Inl e, s') | Inr r \<Rightarrow> (Inr (Some r), s'))
                else (Inr None, s'))))"

section \<open>Task grants\<close>

definition bool_edit :: "fs \<Rightarrow> (dict \<Rightarrow> bool) \<Rightarrow> bool row_act \<Rightarrow> access_files \<Rightarrow> bool op_result" where
  "bool_edit fs P act s =
     (case edit_row fs P act s of
        (Inl e, s') \<Rightarrow> (Inl e, s') | (Inr None, s') \<Rightarrow> (Inr False, s') | (Inr (Some (ok, _)), s') \<Rightarrow> (Inr ok, s'))"

definition bind_act :: "string \<Rightarrow> bool row_act" where
  "bind_act task row r = Inr
     (if rq_status r \<noteq> ''active'' \<or> (rq_task r \<noteq> [] \<and> rq_task r \<noteq> task) then (False, None)
      else (True, Some (set_text ''task_id'' task row)))"

definition bind_task_authorization :: "fs \<Rightarrow> string \<Rightarrow> string \<Rightarrow> access_files \<Rightarrow> bool op_result" where
  "bind_task_authorization fs raw_grant raw_task s =
     (case validate_request_value fs (JStr raw_grant) of
        Inl e \<Rightarrow> (Inl e, s)
      | Inr gid \<Rightarrow>
          (case validate_request_value fs (JStr raw_task) of
             Inl e \<Rightarrow> (Inl e, s)
           | Inr task \<Rightarrow> bool_edit fs (has_grant fs gid) (bind_act task) s))"

definition other_task :: "string \<Rightarrow> request \<Rightarrow> bool" where
  "other_task task r \<longleftrightarrow> task \<noteq> [] \<and> rq_task r \<noteq> [] \<and> rq_task r \<noteq> task"

definition abort_act :: "int \<Rightarrow> string \<Rightarrow> bool row_act" where
  "abort_act now task row r = Inr
     (if rq_status r \<noteq> ''active'' \<or> other_task task r then (False, None)
      else (True, Some (set_text ''released_at'' (isoformat now) (set_text ''activated_at'' [] (set_text ''task_id'' []
             (set_text ''task_scope_id'' [] (set_text ''authorization_grant_id'' [] (set_text ''status'' ''approved'' row))))))))"

definition complete_act :: "int \<Rightarrow> string \<Rightarrow> bool row_act" where
  "complete_act now task row r = Inr
     (if rq_status r \<noteq> ''active'' \<or> other_task task r then (False, None)
      else (True, Some (set_text ''released_at'' (isoformat now) (set_text ''consumed_at'' (isoformat now)
             (set_text ''status'' ''consumed'' row)))))"

definition release_grant ::
  "fs \<Rightarrow> (string \<Rightarrow> bool row_act) \<Rightarrow> string \<Rightarrow> string \<Rightarrow> access_files \<Rightarrow> bool op_result" where
  "release_grant fs act raw_grant raw_task s =
     (case validate_request_value fs (JStr raw_grant) of
        Inl e \<Rightarrow> (Inl e, s)
      | Inr gid \<Rightarrow>
          (case (if raw_task = [] then Inr [] else validate_request_value fs (JStr raw_task)) of
             Inl e \<Rightarrow> (Inl e, s)
           | Inr task \<Rightarrow> bool_edit fs (has_grant fs gid) (act task) s))"

definition abort_task_authorization :: "fs \<Rightarrow> int \<Rightarrow> string \<Rightarrow> string \<Rightarrow> access_files \<Rightarrow> bool op_result" where
  "abort_task_authorization fs now raw_grant raw_task s = release_grant fs (abort_act now) raw_grant raw_task s"

definition complete_task_authorization :: "fs \<Rightarrow> int \<Rightarrow> string \<Rightarrow> string \<Rightarrow> access_files \<Rightarrow> bool op_result" where
  "complete_task_authorization fs now raw_grant raw_task s = release_grant fs (complete_act now) raw_grant raw_task s"

section \<open>Decisions of the user\<close>

text \<open>What a decision returns: whether it was carried out, the status it reports and the request.\<close>

record request_view =
  rv_ok :: bool
  rv_status :: string
  rv_request :: "request option"
  rv_entry :: "entry option"

definition no_request :: request_view where
  "no_request = \<lparr> rv_ok = False, rv_status = ''not-found'', rv_request = None, rv_entry = None \<rparr>"

type_synonym verdict = "bool \<times> string option"

definition view_edit :: "fs \<Rightarrow> (dict \<Rightarrow> bool) \<Rightarrow> verdict row_act \<Rightarrow> access_files \<Rightarrow> request_view op_result" where
  \<comment> \<open>the reported status is the row's unless the verdict names another\<close>
  "view_edit fs P act s =
     (case edit_row fs P act s of
        (Inl e, s') \<Rightarrow> (Inl e, s')
      | (Inr None, s') \<Rightarrow> (Inr no_request, s')
      | (Inr (Some ((ok, st), row)), s') \<Rightarrow>
          (case request_from_row fs row of
             Inl e \<Rightarrow> (Inl e, s')
           | Inr r \<Rightarrow> (Inr \<lparr> rv_ok = ok, rv_status = or_default st (rq_status r), rv_request = Some r, rv_entry = None \<rparr>, s')))"

definition correlates :: "fs \<Rightarrow> string option \<Rightarrow> string option \<Rightarrow> string option \<Rightarrow> request \<Rightarrow> access_error + bool" where
  \<comment> \<open>the optional path, mode and client of a decision, compared with the request\<close>
  "correlates fs raw mode client r =
     (case (case raw of None \<Rightarrow> Some (rq_path r) | Some p \<Rightarrow> canon fs p) of
        None \<Rightarrow> Inl PathError
      | Some p \<Rightarrow> Inr (p = rq_path r \<and> or_default mode (rq_mode r) = rq_mode r \<and> or_default client (rq_client r) = rq_client r))"

definition approve_act ::
  "access_env \<Rightarrow> access_files \<Rightarrow> int \<Rightarrow> string option \<Rightarrow> string option \<Rightarrow> string option \<Rightarrow> verdict row_act" where
  "approve_act env s now raw mode client row r =
     (case correlates (ae_fs env) raw mode client r of
        Inl e \<Rightarrow> Inl e
      | Inr False \<Rightarrow> Inr ((False, Some ''mismatch''), None)
      | Inr True \<Rightarrow>
          (if expired_at (rq_expires_at r) now then Inr ((False, None), Some (set_text ''status'' ''expired'' row))
           else (case path_denied env s (rq_path r) of
                   Inl e \<Rightarrow> Inl e
                 | Inr True \<Rightarrow> Inr ((False, None), Some (set_text ''status'' ''denied'' row))
                 | Inr False \<Rightarrow>
                     (if rq_status r \<in> {''active'', ''project-allowed'', ''consumed'', ''denied'', ''expired''}
                      then Inr ((False, None), None)
                      else Inr ((True, None),
                        Some (set_text ''approved_at'' (isoformat now) (set_text ''status'' ''approved'' row)))))))"

definition approve_request ::
  "access_env \<Rightarrow> int \<Rightarrow> string \<Rightarrow> string option \<Rightarrow> string option \<Rightarrow> string option \<Rightarrow> access_files
     \<Rightarrow> request_view op_result" where
  "approve_request env now raw_id raw mode client s =
     (case validate_request_value (ae_fs env) (JStr raw_id) of
        Inl e \<Rightarrow> (Inl e, s)
      | Inr rid \<Rightarrow> view_edit (ae_fs env) (has_id (ae_fs env) rid) (approve_act env s now raw mode client) s)"

definition deny_act :: "verdict row_act" where
  "deny_act row r = Inr
     (if rq_status r \<in> {''active'', ''project-allowed'', ''consumed'', ''expired''} then ((False, None), None)
      else ((True, None), Some (set_text ''status'' ''denied'' row)))"

definition deny_request :: "fs \<Rightarrow> string \<Rightarrow> access_files \<Rightarrow> request_view op_result" where
  "deny_request fs raw_id s =
     (case validate_request_value fs (JStr raw_id) of
        Inl e \<Rightarrow> (Inl e, s) | Inr rid \<Rightarrow> view_edit fs (has_id fs rid) deny_act s)"

section \<open>Allowing a project\<close>

record project_choice =
  pc_path :: "string option"
  pc_mode :: "string option"
  pc_client :: "string option"
  pc_access :: "string option"
  pc_key :: string
  pc_executor :: string
  pc_description :: string

definition project_entry ::
  "access_env \<Rightarrow> string \<Rightarrow> project_choice \<Rightarrow> string \<Rightarrow> path \<Rightarrow> entry list \<Rightarrow> access_error + (entry \<times> entry list)" where
  \<comment> \<open>the entry the request becomes, and all entries to save\<close>
  "project_entry env uuid ch access p entries =
     (let fs = ae_fs env; description = safe_text fs (JStr (pc_description ch)) 500 in
      case find (\<lambda>e. we_path e = p) entries of
        None \<Rightarrow>
          (case project_entry_key env (pc_key ch) p entries of
             Inl e \<Rightarrow> Inl e
           | Inr k \<Rightarrow> (let new = app_entry (''app-'' @ uuid) k p access (pc_executor ch) description in
                        Inr (new, entries @ [new])))
      | Some cur \<Rightarrow>
          (let new = app_entry (we_id cur) (we_key cur) (we_path cur)
                 (if we_access cur = ''read-write'' \<or> access = ''read-write'' then ''read-write'' else ''read-only'')
                 (str_or (pc_executor ch) (we_executor cur)) (str_or description (we_description cur)) in
           Inr (new, map (\<lambda>e. if we_id e = we_id cur then new else e) entries)))"

definition allowed_row :: "int \<Rightarrow> string \<Rightarrow> dict \<Rightarrow> dict" where
  "allowed_row now eid row =
     (let iso = isoformat now; row1 = set_text ''status'' ''project-allowed'' row in
      set_text ''released_at'' iso (set_text ''project_allowed_at'' iso (set_text ''project_entry_id'' eid
        (dset ''approved_at'' (py_or (dget row1 ''approved_at'') (JStr iso)) row1))))"

type_synonym project_verdict = "verdict \<times> entry option \<times> entry list option"

definition project_act :: "access_env \<Rightarrow> access_files \<Rightarrow> string \<Rightarrow> int \<Rightarrow> project_choice \<Rightarrow> project_verdict row_act" where
  "project_act env s uuid now ch row r =
     (let fs = ae_fs env; entries = load_app_entries fs s;
          mode = (case pc_mode ch of None \<Rightarrow> rq_mode r | Some m \<Rightarrow> str_or m (rq_mode r)) in
      case correlates fs (pc_path ch) (Some mode) (pc_client ch) r of
        Inl e \<Rightarrow> Inl e
      | Inr False \<Rightarrow> Inr (((False, Some ''mismatch''), None, None), None)
      | Inr True \<Rightarrow>
          (case (if rq_status r = ''project-allowed''
                 then find (\<lambda>e. we_id e = rq_project_entry r \<or> we_path e = rq_path r) entries else None) of
             Some e \<Rightarrow> Inr (((True, None), Some e, None), None)
           | None \<Rightarrow>
               (if rq_status r = ''active'' then Inr (((False, None), None, None), None)
                else if expired_at (rq_expires_at r) now
                then Inr (((False, None), None, None), Some (set_text ''status'' ''expired'' row))
                else (case path_denied env s (rq_path r) of
                        Inl e \<Rightarrow> Inl e
                      | Inr True \<Rightarrow> Inr (((False, None), None, None), Some (set_text ''status'' ''denied'' row))
                      | Inr False \<Rightarrow>
                          (if rq_status r \<in> {''denied'', ''expired'', ''consumed''} then Inr (((False, None), None, None), None)
                           else (let access = str_or (or_default (pc_access ch) []) (access_of_mode mode) in
                             case validate_entry fs (str_path (rq_path r)) access (pc_executor ch) of
                               Inl e \<Rightarrow> Inl e
                             | Inr p \<Rightarrow>
                                 (case project_entry env uuid ch access p entries of
                                    Inl e \<Rightarrow> Inl e
                                  | Inr (new, es) \<Rightarrow>
                                      Inr (((True, None), Some new, Some es), Some (allowed_row now (we_id new) row)))))))))"

definition checked_choice :: "fs \<Rightarrow> project_choice \<Rightarrow> access_error + project_choice" where
  \<comment> \<open>the client id normalised, the mode and access in their ranges\<close>
  "checked_choice fs ch =
     (case (case pc_client ch of None \<Rightarrow> Inr None | Some c \<Rightarrow> map_sum id Some (validate_request_value fs (JStr c))) of
        Inl e \<Rightarrow> Inl e
      | Inr client \<Rightarrow>
          (if pc_mode ch \<notin> {None, Some ''read-only'', Some ''workspace-write''} then Inl (BadMode (or_default (pc_mode ch) []))
           else if \<not> list_all (\<lambda>a. a \<in> set valid_access_modes) (case pc_access ch of None \<Rightarrow> [] | Some a \<Rightarrow> [a]) then Inl BadAccess
           else Inr (ch\<lparr>pc_client := client\<rparr>)))"

definition allow_request_as_project ::
  "access_env \<Rightarrow> string \<Rightarrow> int \<Rightarrow> string \<Rightarrow> project_choice \<Rightarrow> access_files \<Rightarrow> request_view op_result" where
  "allow_request_as_project env uuid now raw_id ch0 s =
     (let fs = ae_fs env in
      case validate_request_value fs (JStr raw_id) of
        Inl e \<Rightarrow> (Inl e, s)
      | Inr rid \<Rightarrow>
          (case checked_choice fs ch0 of
             Inl e \<Rightarrow> (Inl e, s)
           | Inr ch \<Rightarrow>
               (case plan_row fs (has_id fs rid) (project_act env s uuid now ch) (load_requests s) of
                  Inl e \<Rightarrow> (Inl e, s)
                | Inr None \<Rightarrow> (Inr no_request, s)
                | Inr (Some (((ok, st), entry, es), row, rows)) \<Rightarrow>
                    (let s1 = (case es of None \<Rightarrow> s | Some es \<Rightarrow> store_entries es s);
                         s2 = (case rows of None \<Rightarrow> s1 | Some rows \<Rightarrow> save_requests rows s1) in
                     (case request_from_row fs row of
                        Inl e \<Rightarrow> (Inl e, s2)
                      | Inr r \<Rightarrow> (Inr \<lparr> rv_ok = ok, rv_status = or_default st (rq_status r),
                                       rv_request = Some r, rv_entry = entry \<rparr>, s2))))))"

section \<open>Reading requests\<close>

definition expired_files :: "fs \<Rightarrow> int \<Rightarrow> access_files \<Rightarrow> access_files" where
  "expired_files fs now s = (case expire_rows fs now (load_requests s) of (changed, rows) \<Rightarrow> save_if changed rows s)"

definition get_request :: "fs \<Rightarrow> int \<Rightarrow> string \<Rightarrow> access_files \<Rightarrow> request_view op_result" where
  "get_request fs now raw_id s =
     (case validate_request_value fs (JStr raw_id) of
        Inl e \<Rightarrow> (Inl e, s)
      | Inr rid \<Rightarrow>
          (let s' = expired_files fs now s in
           (Inr (case find (has_id fs rid) (snd (expire_rows fs now (load_requests s))) of
                   None \<Rightarrow> no_request
                 | Some row \<Rightarrow>
                     (case request_from_row fs row of
                        Inl _ \<Rightarrow> no_request
                      | Inr r \<Rightarrow> \<lparr> rv_ok = True, rv_status = rq_status r, rv_request = Some r, rv_entry = None \<rparr>)), s')))"

definition list_requests :: "fs \<Rightarrow> int \<Rightarrow> access_files \<Rightarrow> request list \<times> access_files" where
  "list_requests fs now s =
     (List.map_filter (\<lambda>row. case request_from_row fs row of Inl _ \<Rightarrow> None | Inr r \<Rightarrow> Some r)
        (snd (expire_rows fs now (load_requests s))), expired_files fs now s)"

end
