(* ===== verification/AccessRun.thy ===== *)
theory AccessRun
  imports AccessRequests JsonLines "HOL-Library.Product_Lexorder"
begin

text \<open>
  The authorization of a run (\<open>authorize_run_workspace\<close>): resolve the path, decide it from the
  standing permissions, and otherwise fall back to the request of the same client, path and mode.
  The service's clock is read twice, when the request is looked up and when its approval is used.
\<close>

record run_query =
  rn_workspace :: string
  rn_project :: string
  rn_mode :: string
  rn_client :: string
  rn_request_id :: string
  rn_scope :: string
  rn_ask :: bool

text \<open>What one call draws from outside: both clock readings, the lifetime of a request, fresh ids.\<close>

record draw =
  dr_now :: int
  dr_later :: int
  dr_ttl :: int
  dr_uuid :: string
  dr_grant_uuid :: string

definition resolve_path :: "fs \<Rightarrow> string \<Rightarrow> path \<Rightarrow> path option" where
  "resolve_path fs raw base = canonicalize_workspace fs base (str_or raw (str_path base))"

definition run_project :: "access_snapshot \<Rightarrow> string \<Rightarrow> access_error + project option" where
  "run_project ss key =
     (if key = [] then Inr None
      else (case find_legacy_project (ss_settings ss) key of
              Some pj \<Rightarrow> Inr (Some pj)
            | None \<Rightarrow> (case app_project ss key of Some e \<Rightarrow> Inr (Some (project_of_entry e)) | None \<Rightarrow> Inl (UnknownProject key))))"

definition run_path :: "fs \<Rightarrow> access_snapshot \<Rightarrow> project option \<Rightarrow> string \<Rightarrow> access_error + (path \<times> bool)" where
  \<comment> \<open>the path, and whether it lies inside the project\<close>
  "run_path fs ss proj raw =
     (case proj of
        None \<Rightarrow> (case resolve_path fs raw (ss_workspace_root ss) of None \<Rightarrow> Inl PathError | Some p \<Rightarrow> Inr (p, True))
      | Some pj \<Rightarrow>
          (case canon fs (str_path (pj_workspace pj)) of
             None \<Rightarrow> Inl PathError
           | Some home \<Rightarrow>
               (let value = strip raw in
                case (if value = [] \<or> value = ''.'' then Some home else resolve_path fs value home) of
                  None \<Rightarrow> Inl PathError
                | Some p \<Rightarrow> Inr (p, is_within p home))))"

definition one_time :: "path \<Rightarrow> string \<Rightarrow> string \<Rightarrow> request \<Rightarrow> auth" where
  "one_time p mode client r =
     (allow p ''one-time'' (access_of_mode mode) ''one-time'' client [])\<lparr>au_request_id := rq_id r\<rparr>"

definition one_time_task :: "path \<Rightarrow> string \<Rightarrow> string \<Rightarrow> request \<Rightarrow> auth" where
  "one_time_task p mode client r =
     (one_time p mode client r)\<lparr>au_grant_id := rq_grant r, au_scope := ''task'', au_expires_at := rq_expires_at r\<rparr>"

definition use_approval ::
  "access_env \<Rightarrow> draw \<Rightarrow> path \<Rightarrow> string \<Rightarrow> string \<Rightarrow> string \<Rightarrow> request \<Rightarrow> access_files \<Rightarrow> auth op_result" where
  "use_approval env d p mode client scope r s =
     (if scope \<noteq> [] then
        (case activate_request env (dr_grant_uuid d) (dr_later d) (rq_id r) p mode client scope s of
           (Inl e, s') \<Rightarrow> (Inl e, s')
         | (Inr (Some ar), s') \<Rightarrow> (Inr (one_time_task p mode client ar), s')
         | (Inr None, s') \<Rightarrow> (Inr (denied p mode ''one-time-in-use'' client (Some r)), s'))
      else
        (case consume_request env (dr_later d) (rq_id r) p mode client s of
           (Inl e, s') \<Rightarrow> (Inl e, s')
         | (Inr True, s') \<Rightarrow> (Inr (one_time p mode client r), s')
         | (Inr False, s') \<Rightarrow> (Inr (denied p mode ''one-time-consumed'' client (Some r)), s')))"

definition refusal_policy :: "request_state \<Rightarrow> string option" where
  "refusal_policy st = (case st of
       Consumed \<Rightarrow> Some ''one-time-consumed'' | Active \<Rightarrow> Some ''one-time-in-use''
     | Refused \<Rightarrow> Some ''one-time-denied'' | Expired \<Rightarrow> Some ''one-time-expired''
     | Mismatch \<Rightarrow> Some ''one-time-mismatch'' | _ \<Rightarrow> None)"

definition ask_user ::
  "access_env \<Rightarrow> draw \<Rightarrow> path \<Rightarrow> string \<Rightarrow> string \<Rightarrow> string \<Rightarrow> string \<Rightarrow> string \<Rightarrow> access_files
     \<Rightarrow> auth op_result" where
  \<comment> \<open>everything after a standing refusal that may be overruled by an approval\<close>
  "ask_user env d p mode client supplied scope policy s =
     (case request_for_denial env (dr_uuid d) (dr_ttl d) (dr_now d) p mode client supplied scope s of
        (Inl e, s1) \<Rightarrow> (Inl e, s1)
      | (Inr (r, st, _), s1) \<Rightarrow>
          (case refusal_policy st of
             Some pol \<Rightarrow> (Inr (denied p mode pol client (Some r)), s1)
           | None \<Rightarrow>
               (if rq_status r = ''approved'' \<and> (supplied = [] \<or> supplied = rq_id r)
                then use_approval env d p mode client scope r s1
                else (Inr (denied p mode policy client (Some r)), s1))))"

definition authorize_run_workspace :: "access_env \<Rightarrow> draw \<Rightarrow> run_query \<Rightarrow> access_files \<Rightarrow> auth op_result" where
  "authorize_run_workspace env d q s =
     (let fs = ae_fs env; mode = rn_mode q in
      if mode \<notin> set read_write_modes then (Inl (BadMode mode), s)
      else (case validate_request_value fs (JStr (rn_client q)) of
        Inl e \<Rightarrow> (Inl e, s)
      | Inr client \<Rightarrow>
      (case validate_optional_request_id fs (JStr (rn_request_id q)) of
        Inl e \<Rightarrow> (Inl e, s)
      | Inr supplied \<Rightarrow>
      (case validate_optional_request_id fs (JStr (rn_scope q)) of
        Inl e \<Rightarrow> (Inl e, s)
      | Inr scope \<Rightarrow>
      (case take_snapshot env s of
        None \<Rightarrow> (Inl PathError, s)
      | Some ss \<Rightarrow>
          (let key = strip (rn_project q) in
           case run_project ss key of
             Inl e \<Rightarrow> (Inl e, s)
           | Inr proj \<Rightarrow>
               (case run_path fs ss proj (rn_workspace q) of
                  Inl e \<Rightarrow> (Inl e, s)
                | Inr (p, False) \<Rightarrow> (Inr (denied p mode ''project-boundary'' client None), s)
                | Inr (p, True) \<Rightarrow>
                    (case authorize_path fs ss p mode (find_legacy_project (ss_settings ss) key) client of
                       None \<Rightarrow> (Inl PathError, s)
                     | Some a \<Rightarrow>
                         (if au_allowed a then (Inr a, s)
                          else if \<not> rn_ask q \<or> au_policy a \<in> {''missing'', ''denied'', ''project-boundary''} then (Inr a, s)
                          else ask_user env d p mode client supplied scope (au_policy a) s)))))))))"

section \<open>Waiting for an answer\<close>

text \<open>
  \<open>wait_for_request\<close> polls: \<open>world t\<close> is the state of the files at time \<open>t\<close>, as other processes have
  left it, and \<open>clock t\<close> the wall clock. A sleep lasts the time it is given.
\<close>

function wait_loop :: "(rat \<Rightarrow> 'v) \<Rightarrow> ('v \<Rightarrow> bool) \<Rightarrow> rat \<Rightarrow> rat \<Rightarrow> rat \<Rightarrow> 'v \<Rightarrow> 'v" where
  "wait_loop get pending interval deadline t view =
     (if \<not> pending view \<or> deadline - t \<le> 0 \<or> interval < 1 / 100 then view
      else (let t' = t + min interval (deadline - t) in wait_loop get pending interval deadline t' (get t')))"
  by pat_completeness auto
termination
proof (relation "measure (\<lambda>(get, pending, interval, deadline, t, view).
    nat \<lceil>(deadline - t) * 100\<rceil>)")
  fix get :: "rat \<Rightarrow> 'v" and pending :: "'v \<Rightarrow> bool" and interval deadline t x :: rat and view :: 'v
  assume go: "\<not> (\<not> pending view \<or> deadline - t \<le> 0 \<or> interval < 1 / 100)"
    and x: "x = t + min interval (deadline - t)"
  have pos: "0 < \<lceil>(deadline - t) * 100\<rceil>" using go by simp
  have "\<lceil>(deadline - x) * 100\<rceil> < \<lceil>(deadline - t) * 100\<rceil>"
  proof (cases "interval \<le> deadline - t")
    case True
    then have "(deadline - x) * 100 \<le> (deadline - t) * 100 - 1" using go x by (simp add: algebra_simps)
    then have "\<lceil>(deadline - x) * 100\<rceil> \<le> \<lceil>(deadline - t) * 100\<rceil> - 1" by (metis ceiling_diff_one ceiling_mono)
    then show ?thesis by simp
  next
    case False
    then have "(deadline - x) * 100 = 0" using x by simp
    with pos show ?thesis by simp
  qed
  with pos show "((get, pending, interval, deadline, x, get x), get, pending, interval, deadline, t, view)
      \<in> measure (\<lambda>(get, pending, interval, deadline, t, view). nat \<lceil>(deadline - t) * 100\<rceil>)"
    by simp
qed simp

declare wait_loop.simps [simp del]

definition wait_for_request ::
  "fs \<Rightarrow> (rat \<Rightarrow> int) \<Rightarrow> (rat \<Rightarrow> access_files) \<Rightarrow> string \<Rightarrow> rat \<Rightarrow> rat \<Rightarrow> rat \<Rightarrow> access_error + request_view" where
  "wait_for_request fs clock world rid timeout poll_interval t =
     (let get = (\<lambda>t. fst (get_request fs (clock t) rid (world t)));
          pending = (\<lambda>v. case v of Inl _ \<Rightarrow> False | Inr w \<Rightarrow> rv_status w = ''pending'');
          view = get t in
      if timeout \<le> 0 then view
      else wait_loop get pending (max (1 / 100) poll_interval) (t + timeout) t view)"

section \<open>The management view\<close>

definition row_of_path :: "fs \<Rightarrow> access_snapshot \<Rightarrow> entry list \<Rightarrow> path \<Rightarrow> entry" where
  "row_of_path fs ss all p =
     (let entries = filter (\<lambda>e. we_path e = p) all;
          app = find (\<lambda>e. we_app_id e \<noteq> []) entries;
          sources = rev (remdups (rev (concat (map (\<lambda>e. if we_sources e = [] then [we_source e] else we_sources e) entries))));
          legacy_id = ''legacy-'' @ take 16 (fs_sha256 fs (str_path p)) in
      \<lparr> we_id = (case app of Some a \<Rightarrow> we_id a | None \<Rightarrow> legacy_id),
        we_key = (case app of Some a \<Rightarrow> we_key a
                  | None \<Rightarrow> (case find (\<lambda>e. we_key e \<noteq> []) entries of Some e \<Rightarrow> we_key e | None \<Rightarrow> path_name p)),
        we_path = p,
        we_access = (if \<exists>e\<in>set entries. we_access e = ''read-write'' then ''read-write'' else ''read-only''),
        we_source = join_with '', '' sources,
        we_status = (if app = None \<and> (\<exists>e\<in>set entries. we_status e = ''discovery'') then ''discovery''
                     else if first_containing_root p (ss_denied ss) \<noteq> None then ''denied''
                     else if missing fs p then ''missing'' else ''active''),
        we_executor = (case app of Some a \<Rightarrow> we_executor a
                       | None \<Rightarrow> (case find (\<lambda>e. we_executor e \<noteq> []) entries of Some e \<Rightarrow> we_executor e | None \<Rightarrow> [])),
        we_description = (case app of Some a \<Rightarrow> we_description a | None \<Rightarrow> []),
        we_sources = sources, we_app_id = (case app of Some a \<Rightarrow> we_id a | None \<Rightarrow> []) \<rparr>)"

definition autoping_row :: "fs \<Rightarrow> path \<Rightarrow> entry" where
  "autoping_row fs p =
     \<lparr> we_id = ''legacy-'' @ take 16 (fs_sha256 fs (str_path p)), we_key = ''autoping'', we_path = p,
       we_access = ''read-write'', we_source = ''autoping'', we_status = ''active'', we_executor = [],
       we_description = [], we_sources = [''autoping''], we_app_id = [] \<rparr>"

definition list_workspaces :: "access_env \<Rightarrow> int \<Rightarrow> (path \<Rightarrow> bool) \<Rightarrow> access_files \<Rightarrow> (entry list \<times> request list) op_result" where
  \<comment> \<open>\<open>exists\<close> is \<open>path.exists()\<close>\<close>
  "list_workspaces env now exists s =
     (let fs = ae_fs env in
      case take_snapshot env s of
        None \<Rightarrow> (Inl PathError, s)
      | Some ss \<Rightarrow>
          (case autoping_dir fs ss of
             None \<Rightarrow> (Inl PathError, s)
           | Some ap \<Rightarrow>
               (let all = ss_legacy ss @ ss_entries ss;
                    paths = rev (remdups (rev (map we_path all)));
                    rows = map (row_of_path fs ss all) paths @
                      (if exists ap \<and> ap \<notin> set paths then [autoping_row fs ap] else []);
                    sorted = sort_key (\<lambda>e. (lower (str_path (we_path e)), lower (we_key e))) rows in
                (case list_requests fs now s of (reqs, s') \<Rightarrow> (Inr (sorted, reqs), s')))))"

end
