(* ===== verification/AccessLifecycle.thy ===== *)
theory AccessLifecycle
  imports AccessRun
begin

text \<open>
  The abstract life of a request: a status per request id and, for every operation of the service,
  the status changes it may make. Every operation on the files refines it, and what holds of runs
  of the abstract machine holds of the stored requests.
\<close>

section \<open>How rows evolve\<close>

type_synonym edges = "string \<Rightarrow> string \<Rightarrow> string \<Rightarrow> bool"

definition same_identity :: "fs \<Rightarrow> dict \<Rightarrow> dict \<Rightarrow> bool" where
  "same_identity fs row row' \<longleftrightarrow> row_id fs row' = row_id fs row \<and>
     row_text fs row' ''client_id'' 128 = row_text fs row ''client_id'' 128 \<and>
     row_text fs row' ''path'' 500 = row_text fs row ''path'' 500 \<and>
     row_text fs row' ''mode'' 32 = row_text fs row ''mode'' 32"

definition row_moves :: "fs \<Rightarrow> edges \<Rightarrow> dict \<Rightarrow> dict \<Rightarrow> bool" where
  "row_moves fs E row row' \<longleftrightarrow> same_identity fs row row' \<and>
     (row_status fs row' = row_status fs row \<or> E (row_id fs row) (row_status fs row) (row_status fs row'))"

definition evolves :: "fs \<Rightarrow> edges \<Rightarrow> dict list \<Rightarrow> dict list \<Rightarrow> bool" where
  "evolves fs E rows rows' \<longleftrightarrow> (\<exists>old new. rows' = old @ new \<and> list_all2 (row_moves fs E) rows old \<and>
     (\<forall>row\<in>set new. row_status fs row = ''pending''))"

lemma row_moves_refl [simp]: "row_moves fs E row row"
  by (simp add: row_moves_def same_identity_def)

lemma evolves_refl [simp]: "evolves fs E rows rows"
  unfolding evolves_def by (rule exI [of _ rows], rule exI [of _ "[]"]) (simp add: list_all2_refl)

lemma list_all2_replace:
  "find P rows = Some row \<Longrightarrow> R row row' \<Longrightarrow> (\<And>x. R x x) \<Longrightarrow> list_all2 R rows (replace_first P row' rows)"
proof (induction rows)
  case (Cons x rows)
  show ?case
  proof (cases "P x")
    case True
    with Cons.prems show ?thesis by (simp add: list_all2_refl)
  next
    case False
    with Cons show ?thesis by simp
  qed
qed simp

lemma evolves_moves: "list_all2 (row_moves fs E) rows rows' \<Longrightarrow> evolves fs E rows rows'"
  unfolding evolves_def by (rule exI [of _ rows'], rule exI [of _ "[]"]) simp

lemma evolves_replace:
  "find P rows = Some row \<Longrightarrow> row_moves fs E row row' \<Longrightarrow> evolves fs E rows (replace_first P row' rows)"
  by (rule evolves_moves, rule list_all2_replace) simp_all

lemma evolves_append:
  "evolves fs E rows rows' \<Longrightarrow> row_status fs row = ''pending'' \<Longrightarrow> evolves fs E rows (rows' @ [row])"
  by (fastforce simp: evolves_def)

lemma evolves_mono:
  assumes "evolves fs E rows rows'" and "\<And>rid st st'. E rid st st' \<Longrightarrow> F rid st st'"
  shows "evolves fs F rows rows'"
proof -
  obtain old new where r: "rows' = old @ new" "list_all2 (row_moves fs E) rows old"
    "\<forall>row\<in>set new. row_status fs row = ''pending''" using assms(1) by (auto simp: evolves_def)
  have "list_all2 (row_moves fs F) rows old"
    by (rule list_all2_mono [OF r(2)]) (use assms(2) in \<open>auto simp: row_moves_def\<close>)
  with r show ?thesis by (auto simp: evolves_def)
qed

section \<open>The abstraction\<close>

definition status_of :: "fs \<Rightarrow> access_files \<Rightarrow> string \<Rightarrow> string option" where
  "status_of fs s rid = map_option (\<lambda>row. row_status fs row) (find (has_id fs rid) (load_requests s))"

definition lifecycle :: "edges \<Rightarrow> (string \<Rightarrow> string option) \<Rightarrow> (string \<Rightarrow> string option) \<Rightarrow> bool" where
  "lifecycle E m m' \<longleftrightarrow> (\<forall>rid. case m rid of
       None \<Rightarrow> m' rid = None \<or> m' rid = Some ''pending''
     | Some st \<Rightarrow> (\<exists>st'. m' rid = Some st' \<and> (st' = st \<or> E rid st st')))"

lemma find_append: "find P (xs @ ys) = (case find P xs of None \<Rightarrow> find P ys | Some x \<Rightarrow> Some x)"
  by (induction xs) auto

lemma find_moves:
  "list_all2 (row_moves fs E) rows old \<Longrightarrow>
    (case find (has_id fs rid) rows of
       None \<Rightarrow> find (has_id fs rid) old = None
     | Some row \<Rightarrow> (\<exists>row'. find (has_id fs rid) old = Some row' \<and> row_moves fs E row row'))"
  by (induction rule: list_all2_induct) (auto simp: has_id_def row_moves_def same_identity_def split: option.splits)

lemma evolves_lifecycle:
  assumes "evolves fs E (load_requests s) (load_requests s')"
  shows "lifecycle E (status_of fs s) (status_of fs s')"
proof -
  obtain old new where r: "load_requests s' = old @ new" "list_all2 (row_moves fs E) (load_requests s) old"
    "\<forall>row\<in>set new. row_status fs row = ''pending''" using assms by (auto simp: evolves_def)
  have new: "find P new = None \<or> (\<exists>row. find P new = Some row \<and> row_status fs row = ''pending'')" for P
    using r(3) by (cases "find P new") (auto simp: find_Some_iff)
  show ?thesis
    unfolding lifecycle_def
  proof
    fix rid
    show "case status_of fs s rid of None \<Rightarrow> status_of fs s' rid = None \<or> status_of fs s' rid = Some ''pending''
        | Some st \<Rightarrow> \<exists>st'. status_of fs s' rid = Some st' \<and> (st' = st \<or> E rid st st')"
    proof (cases "find (has_id fs rid) (load_requests s)")
      case None
      then have "find (has_id fs rid) old = None" using find_moves [OF r(2), of rid] by simp
      with None new [of "has_id fs rid"] show ?thesis by (auto simp: status_of_def r(1) find_append)
    next
      case (Some row)
      then obtain row' where f: "find (has_id fs rid) old = Some row'" "row_moves fs E row row'"
        using find_moves [OF r(2), of rid] by auto
      have "row_id fs row = rid" using Some by (auto simp: find_Some_iff has_id_def)
      with Some f show ?thesis by (auto simp: status_of_def r(1) find_append row_moves_def)
    qed
  qed
qed

lemma lifecycle_None: "lifecycle E m m' \<Longrightarrow> m rid = None \<Longrightarrow> m' rid = None \<or> m' rid = Some ''pending''"
  by (auto simp: lifecycle_def dest!: spec [of _ rid])

lemma lifecycle_Some: "lifecycle E m m' \<Longrightarrow> m rid = Some st \<Longrightarrow> \<exists>st'. m' rid = Some st' \<and> (st' = st \<or> E rid st st')"
  by (auto simp: lifecycle_def dest!: spec [of _ rid])

lemma lifecycleI:
  "(\<And>rid. m rid = None \<Longrightarrow> m' rid = None \<or> m' rid = Some ''pending'') \<Longrightarrow>
   (\<And>rid st. m rid = Some st \<Longrightarrow> \<exists>st'. m' rid = Some st' \<and> (st' = st \<or> E rid st st')) \<Longrightarrow> lifecycle E m m'"
  by (simp add: lifecycle_def split: option.splits)

lemma lifecycle_mono:
  assumes "lifecycle E m m'" and "\<And>rid st st'. E rid st st' \<Longrightarrow> F rid st st'"
  shows "lifecycle F m m'"
  using lifecycle_None [OF assms(1)] lifecycle_Some [OF assms(1)] assms(2) by (intro lifecycleI) blast+

lemma lifecycle_refl [simp]: "lifecycle E m m"
  by (rule lifecycleI) simp_all

text \<open>Two phases of one operation: the second starts where the first cannot have led.\<close>

lemma lifecycle_compose:
  assumes 1: "lifecycle E m m1" and 2: "lifecycle F m1 m2"
    and "\<And>rid st st'. E rid st st' \<Longrightarrow> G rid st st'" and "\<And>rid st st'. F rid st st' \<Longrightarrow> G rid st st'"
    and "\<And>rid st st' st''. E rid st st' \<Longrightarrow> \<not> F rid st' st''" and pending: "\<And>rid st'. \<not> F rid ''pending'' st'"
  shows "lifecycle G m m2"
proof (rule lifecycleI)
  fix rid assume "m rid = None"
  with 1 have "m1 rid = None \<or> m1 rid = Some ''pending''" by (rule lifecycle_None)
  then show "m2 rid = None \<or> m2 rid = Some ''pending''"
  proof
    assume "m1 rid = None"
    with 2 show ?thesis by (rule lifecycle_None)
  next
    assume "m1 rid = Some ''pending''"
    from lifecycle_Some [OF 2 this] pending show ?thesis by auto
  qed
next
  fix rid st assume "m rid = Some st"
  then obtain st1 where "m1 rid = Some st1" "st1 = st \<or> E rid st st1"
    using lifecycle_Some [OF 1, of rid st] by auto
  moreover from this(1) obtain st2 where "m2 rid = Some st2" "st2 = st1 \<or> F rid st1 st2"
    using lifecycle_Some [OF 2, of rid st1] by auto
  ultimately show "\<exists>st'. m2 rid = Some st' \<and> (st' = st \<or> G rid st st')" using assms(3-5) by auto
qed

section \<open>The contract of an edit\<close>

locale row_edit =
  fixes fs :: fs and P :: "dict \<Rightarrow> bool" and act :: "'x row_act" and E :: edges
  assumes act_moves: "P row \<Longrightarrow> request_from_row fs row = Inr r \<Longrightarrow> act row r = Inr (x, Some row') \<Longrightarrow> row_moves fs E row row'"
begin

lemma plan_evolves:
  assumes "plan_row fs P act rows = Inr (Some (x, row, Some rows'))"
  shows "evolves fs E rows rows'"
proof -
  from assms obtain row0 r row' where f: "find P rows = Some row0" "request_from_row fs row0 = Inr r"
    "act row0 r = Inr (x, Some row')" "rows' = replace_first P row' rows"
    by (auto simp: plan_row_def split: option.splits sum.splits)
  have "P row0" using f(1) by (auto simp: find_Some_iff)
  with f show ?thesis using act_moves evolves_replace by metis
qed

lemma edit_evolves:
  assumes "edit_row fs P act s = (res, s')"
  shows "evolves fs E (load_requests s) (load_requests s')"
  using assms plan_evolves by (fastforce simp: edit_row_def split: sum.splits option.splits)

lemma edit_refines: "edit_row fs P act s = (res, s') \<Longrightarrow> lifecycle E (status_of fs s) (status_of fs s')"
  by (rule evolves_lifecycle) (rule edit_evolves)

end

section \<open>The edits of the service\<close>

definition expire_edges :: edges where
  "expire_edges rid st st' \<longleftrightarrow> st \<in> set live_statuses \<and> st' = ''expired''"

definition use_edges :: edges where
  "use_edges rid st st' \<longleftrightarrow> st = ''approved'' \<and> st' \<in> {''active'', ''consumed'', ''expired''}"

definition no_edges :: edges where
  "no_edges rid st st' \<longleftrightarrow> False"

definition abort_edges :: edges where
  "abort_edges rid st st' \<longleftrightarrow> st = ''active'' \<and> st' = ''approved''"

definition complete_edges :: edges where
  "complete_edges rid st st' \<longleftrightarrow> st = ''active'' \<and> st' = ''consumed''"

definition approve_edges :: "string \<Rightarrow> edges" where
  "approve_edges target rid st st' \<longleftrightarrow> rid = target \<and> (st' \<in> {''expired'', ''denied''} \<or>
     (st' = ''approved'' \<and> st \<notin> {''active'', ''project-allowed'', ''consumed'', ''denied'', ''expired''}))"

definition deny_edges :: "string \<Rightarrow> edges" where
  "deny_edges target rid st st' \<longleftrightarrow> rid = target \<and> st' = ''denied'' \<and>
     st \<notin> {''active'', ''project-allowed'', ''consumed'', ''expired''}"

definition project_edges :: "string \<Rightarrow> edges" where
  "project_edges target rid st st' \<longleftrightarrow> rid = target \<and> st \<noteq> ''active'' \<and> (st' \<in> {''expired'', ''denied''} \<or>
     (st' = ''project-allowed'' \<and> st \<notin> {''denied'', ''expired'', ''consumed''}))"

lemmas edge_defs = expire_edges_def use_edges_def no_edges_def abort_edges_def complete_edges_def
  approve_edges_def deny_edges_def project_edges_def

lemmas act_defs = set_text_def row_moves_def same_identity_def

interpretation consume: row_edit fs P "consume_act now p mode client" use_edges for fs P now p mode client
  by unfold_locales
    (auto simp: consume_act_def use_edges_def act_defs request_from_row_fields(2) split: if_splits)

interpretation activate: row_edit fs P "activate_act gid now p mode client scope" use_edges for fs P gid now p mode client scope
  by unfold_locales
    (auto simp: activate_act_def claim_row_def use_edges_def act_defs request_from_row_fields(2) split: if_splits)

interpretation bind: row_edit fs P "bind_act task" no_edges for fs P task
  by unfold_locales (auto simp: bind_act_def act_defs split: if_splits)

interpretation abort: row_edit fs P "abort_act now task" abort_edges for fs P now task
  by unfold_locales
    (auto simp: abort_act_def abort_edges_def act_defs request_from_row_fields(2) split: if_splits)

interpretation complete: row_edit fs P "complete_act now task" complete_edges for fs P now task
  by unfold_locales
    (auto simp: complete_act_def complete_edges_def act_defs request_from_row_fields(2) split: if_splits)

interpretation approve: row_edit fs "has_id fs rid" "approve_act env s now raw mode client" "approve_edges rid"
  for fs rid env s now raw mode client
  by unfold_locales
    (auto simp: approve_act_def approve_edges_def has_id_def act_defs request_from_row_fields(2)
      split: if_splits sum.splits bool.splits)

interpretation deny: row_edit fs "has_id fs rid" deny_act "deny_edges rid" for fs rid
  by unfold_locales
    (auto simp: deny_act_def deny_edges_def has_id_def act_defs request_from_row_fields(2) split: if_splits)

lemma project_act_moves:
  assumes "has_id fs rid row" and "request_from_row fs row = Inr r"
    and "project_act env s uuid now ch row r = Inr (x, Some row')"
  shows "row_moves fs (project_edges rid) row row'"
proof -
  have st: "rq_status r = row_status fs row" by (rule request_from_row_fields(2) [OF assms(2)])
  from assms(3) have "row' = set_text ''status'' ''expired'' row \<and> rq_status r \<noteq> ''active'' \<or>
      row' = set_text ''status'' ''denied'' row \<and> rq_status r \<noteq> ''active'' \<or>
      (\<exists>eid. row' = allowed_row now eid row \<and> rq_status r \<notin> {''active'', ''denied'', ''expired'', ''consumed''})"
    unfolding project_act_def Let_def
    by (auto split: if_splits sum.splits bool.splits option.splits)
  then show ?thesis
    using assms(1) by (auto simp: st project_edges_def has_id_def act_defs allowed_row_def Let_def)
qed

interpretation allow_project: row_edit fs "has_id fs rid" "project_act env s uuid now ch" "project_edges rid"
  for fs rid env s uuid now ch
  by unfold_locales (rule project_act_moves)

section \<open>Every operation refines the lifecycle\<close>

lemma status_of_entries [simp]: "status_of fs (store_entries es s) = status_of fs s"
  by (rule ext) (simp add: status_of_def store_entries_def)

lemma expire_evolves: "evolves fs expire_edges rows (snd (expire_rows fs now rows))"
proof (rule evolves_moves)
  have "row_moves fs expire_edges row (if row_expired fs now row then set_text ''status'' ''expired'' row else row)" for row
    by (auto simp: row_expired_def expire_edges_def act_defs)
  then show "list_all2 (row_moves fs expire_edges) rows (snd (expire_rows fs now rows))"
    by (simp add: expire_rows_def list_all2_map2 list_all2_refl)
qed

lemma expire_unchanged: "expire_rows fs now rows = (False, rows') \<Longrightarrow> rows' = rows"
  by (auto simp: expire_rows_def list_ex_iff intro!: map_idI)

lemma status_of_save_if:
  "expire_rows fs now (load_requests s) = (changed, rows) \<Longrightarrow>
    status_of fs (save_if changed rows s) = status_of fs (save_requests rows s)"
proof (cases changed)
  case False
  assume "expire_rows fs now (load_requests s) = (changed, rows)"
  with False have "rows = load_requests s" using expire_unchanged by metis
  with False show ?thesis by (simp add: save_if_def status_of_def [abs_def])
qed (simp add: save_if_def)

lemma expire_refines:
  assumes "expire_rows fs now (load_requests s) = (changed, rows)"
  shows "lifecycle expire_edges (status_of fs s) (status_of fs (save_requests rows s))"
  by (rule evolves_lifecycle) (use expire_evolves [of fs "load_requests s" now] assms in simp)

lemma expired_files_refines: "lifecycle expire_edges (status_of fs s) (status_of fs (expired_files fs now s))"
  using expire_refines [of fs now s] status_of_save_if [of fs now s]
  by (simp add: expired_files_def split: prod.splits)

lemma quiet_after:
  "lifecycle E m m1 \<Longrightarrow> lifecycle no_edges m1 m2 \<Longrightarrow> lifecycle E m m2"
  by (rule lifecycle_compose [where E = E and F = no_edges]) (simp_all add: no_edges_def)

lemma replace_refines:
  assumes "find P rows = Some row" and "row_moves fs no_edges row row'"
  shows "lifecycle no_edges (status_of fs (save_requests rows s)) (status_of fs (save_requests (replace_first P row' rows) s))"
  by (rule evolves_lifecycle) (use evolves_replace [OF assms] in simp)

lemma answer_refines:
  assumes e: "expire_rows fs now (load_requests s) = (changed, rows)" and f: "find P rows = Some row"
    and "answer_row fs now P changed row rows s = (res, s')"
  shows "lifecycle expire_edges (status_of fs s) (status_of fs s')"
proof -
  let ?row = "set_text ''last_notified_at'' (isoformat now) row"
  have "row_moves fs no_edges row ?row" by (simp add: act_defs)
  from expire_refines [OF e] replace_refines [OF f this]
  have r: "lifecycle expire_edges (status_of fs s) (status_of fs (save_requests (replace_first P ?row rows) s))"
    by (rule quiet_after)
  consider "s' = s" | "s' = save_if changed rows s" | "s' = save_requests (replace_first P ?row rows) s"
    using assms(3) by (auto simp: answer_row_def Let_def split: sum.splits option.splits if_splits)
  then show ?thesis by cases (simp_all add: status_of_save_if [OF e] expire_refines [OF e] r)
qed

lemma new_request_status [simp]:
  "row_status fs (new_request rid p mode client scope now ttl) = ''pending''"
  by (simp add: new_request_def row_text_def)

lemma ask_refines:
  assumes "request_for_denial env uuid ttl now p mode client supplied scope s = (res, s')"
  shows "lifecycle expire_edges (status_of (ae_fs env) s) (status_of (ae_fs env) s')"
proof -
  let ?fs = "ae_fs env"
  obtain changed rows where e: "expire_rows ?fs now (load_requests s) = (changed, rows)" by fastforce
  let ?new = "new_request (''war-'' @ uuid) p mode client scope now ttl"
  have "evolves ?fs no_edges rows (rows @ [?new])" by (rule evolves_append) simp_all
  then have "lifecycle no_edges (status_of ?fs (save_requests rows s)) (status_of ?fs (save_requests (rows @ [?new]) s))"
    by (intro evolves_lifecycle) simp
  with expire_refines [OF e] have n: "lifecycle expire_edges (status_of ?fs s) (status_of ?fs (save_requests (rows @ [?new]) s))"
    by (rule quiet_after)
  have a: "lifecycle expire_edges (status_of ?fs s) (status_of ?fs s')"
    if "find P rows = Some row" "answer_row ?fs now P changed row rows s = (res, s')" for P row
    by (rule answer_refines [OF e that])
  show ?thesis
  proof (cases "supplied = []")
    case True
    let ?P = "\<lambda>row. readable_row ?fs row \<and> row_matches ?fs p mode client row \<and> row_status ?fs row \<in> set live_statuses"
    show ?thesis
    proof (cases "find ?P rows")
      case None
      with True e assms have "s' = save_requests (rows @ [?new]) s"
        by (auto simp: request_for_denial_def Let_def split: sum.splits)
      with n show ?thesis by simp
    next
      case (Some row)
      with True e assms have "answer_row ?fs now ?P changed row rows s = (res, s')"
        by (simp add: request_for_denial_def Let_def)
      with Some show ?thesis by (rule a)
    qed
  next
    case False
    let ?P = "\<lambda>row. readable_row ?fs row \<and> row_id ?fs row = supplied"
    have s: "s' = s \<or> s' = save_if changed rows s \<Longrightarrow> ?thesis"
      by (auto simp: status_of_save_if [OF e] expire_refines [OF e])
    show ?thesis
    proof (cases "find ?P rows")
      case None
      with False e assms show ?thesis by (intro s) (simp add: request_for_denial_def Let_def)
    next
      case (Some row)
      show ?thesis
      proof (cases "row_matches ?fs p mode client row")
        case True
        with Some False e assms have "answer_row ?fs now ?P changed row rows s = (res, s')"
          by (simp add: request_for_denial_def Let_def)
        with Some show ?thesis by (rule a)
      next
        case False
        with Some \<open>supplied \<noteq> []\<close> e assms show ?thesis
          by (intro s) (auto simp: request_for_denial_def Let_def split: sum.splits)
      qed
    qed
  qed
qed

lemma consume_refines:
  "consume_request env now rid p mode client s = (res, s') \<Longrightarrow>
    lifecycle use_edges (status_of (ae_fs env) s) (status_of (ae_fs env) s')"
  by (auto simp: consume_request_def split: sum.splits bool.splits prod.splits option.splits dest: consume.edit_refines)

lemma activate_refines:
  "activate_request env uuid now rid p mode client scope s = (res, s') \<Longrightarrow>
    lifecycle use_edges (status_of (ae_fs env) s) (status_of (ae_fs env) s')"
  by (auto simp: activate_request_def split: sum.splits bool.splits prod.splits option.splits if_splits dest: activate.edit_refines)

definition run_edges :: edges where
  "run_edges rid st st' \<longleftrightarrow> expire_edges rid st st' \<or> use_edges rid st st'"

lemma use_approval_refines:
  "use_approval env d p mode client scope r s = (res, s') \<Longrightarrow>
    lifecycle use_edges (status_of (ae_fs env) s) (status_of (ae_fs env) s')"
  by (auto simp: use_approval_def split: sum.splits bool.splits prod.splits option.splits if_splits
      dest: consume_refines activate_refines)

lemma ask_user_refines:
  assumes "ask_user env d p mode client supplied scope policy s = (res, s')"
  shows "lifecycle run_edges (status_of (ae_fs env) s) (status_of (ae_fs env) s')"
proof -
  obtain res1 s1 where 1: "request_for_denial env (dr_uuid d) (dr_ttl d) (dr_now d) p mode client supplied scope s = (res1, s1)"
    by fastforce
  have "s' = s1 \<or> (\<exists>r. use_approval env d p mode client scope r s1 = (res, s'))"
    using assms by (auto simp: ask_user_def 1 split: sum.splits prod.splits option.splits if_splits)
  then have 2: "lifecycle use_edges (status_of (ae_fs env) s1) (status_of (ae_fs env) s')"
    using use_approval_refines by fastforce
  show ?thesis
    by (rule lifecycle_compose [OF ask_refines [OF 1] 2]) (auto simp: run_edges_def edge_defs)
qed

lemma authorize_cases:
  assumes "authorize_run_workspace env d q s = (res, s')"
  shows "s' = s \<or> (\<exists>p client supplied scope policy.
    ask_user env d p (rn_mode q) client supplied scope policy s = (res, s'))"
  using assms unfolding authorize_run_workspace_def Let_def
  by (auto split: sum.splits option.splits prod.splits bool.splits if_splits)

lemma authorize_refines:
  assumes "authorize_run_workspace env d q s = (res, s')"
  shows "lifecycle run_edges (status_of (ae_fs env) s) (status_of (ae_fs env) s')"
  using authorize_cases [OF assms] ask_user_refines by auto

lemma bool_edit_refines:
  assumes "\<And>res s'. edit_row fs P act s = (res, s') \<Longrightarrow> lifecycle E (status_of fs s) (status_of fs s')"
    and "bool_edit fs P act s = (res, s')"
  shows "lifecycle E (status_of fs s) (status_of fs s')"
  using assms by (auto simp: bool_edit_def split: sum.splits prod.splits option.splits)

lemma view_edit_refines:
  assumes "\<And>res s'. edit_row fs P act s = (res, s') \<Longrightarrow> lifecycle E (status_of fs s) (status_of fs s')"
    and "view_edit fs P act s = (res, s')"
  shows "lifecycle E (status_of fs s) (status_of fs s')"
  using assms by (auto simp: view_edit_def split: sum.splits prod.splits option.splits)

end
