(* ===== verification/AccessSafety.thy ===== *)
theory AccessSafety
  imports AccessLifecycle
begin

text \<open>
  Runs of the service and what holds of them: any sequence of operations, each under the settings
  and the file system of its moment, as long as \<open>str()\<close> of a value does not change.
\<close>

section \<open>Operations and runs\<close>

datatype access_op =
    Authorize draw run_query
  | Bind string string
  | Abort int string string
  | Complete int string string
  | Approve int string "string option" "string option" "string option"
  | Deny string
  | AllowProject string int string project_choice
  | GetRequest int string
  | ListRequests int
  | CreateEntry string string string string string string
  | UpdateEntry string "string option" "string option" "string option" "string option" "string option"
  | DeleteEntry string

fun apply_op :: "access_env \<Rightarrow> access_op \<Rightarrow> access_files \<Rightarrow> access_files" where
  "apply_op env (Authorize d q) s = snd (authorize_run_workspace env d q s)"
| "apply_op env (Bind g t) s = snd (bind_task_authorization (ae_fs env) g t s)"
| "apply_op env (Abort now g t) s = snd (abort_task_authorization (ae_fs env) now g t s)"
| "apply_op env (Complete now g t) s = snd (complete_task_authorization (ae_fs env) now g t s)"
| "apply_op env (Approve now i p m c) s = snd (approve_request env now i p m c s)"
| "apply_op env (Deny i) s = snd (deny_request (ae_fs env) i s)"
| "apply_op env (AllowProject u now i ch) s = snd (allow_request_as_project env u now i ch s)"
| "apply_op env (GetRequest now i) s = snd (get_request (ae_fs env) now i s)"
| "apply_op env (ListRequests now) s = snd (list_requests (ae_fs env) now s)"
| "apply_op env (CreateEntry u p k a x d) s = snd (create_entry env u p k a x d s)"
| "apply_op env (UpdateEntry i p k a x d) s = snd (update_entry env i p k a x d s)"
| "apply_op env (DeleteEntry i) s = snd (delete_entry env i s)"

definition request_key :: "string \<Rightarrow> string" where
  \<comment> \<open>the id an operation looks for, as \<open>_validate_request_value\<close> normalises it\<close>
  "request_key raw = take 128 (strip raw)"

fun may_become :: "access_op \<Rightarrow> edges" where
  "may_become (Authorize d q) = run_edges"
| "may_become (Abort now g t) = abort_edges"
| "may_become (Complete now g t) = complete_edges"
| "may_become (Approve now i p m c) = approve_edges (request_key i)"
| "may_become (Deny i) = deny_edges (request_key i)"
| "may_become (AllowProject u now i ch) = project_edges (request_key i)"
| "may_become (GetRequest now i) = expire_edges"
| "may_become (ListRequests now) = expire_edges"
| "may_become _ = no_edges"

lemma validate_key: "validate_request_value fs (JStr raw) = Inr rid \<Longrightarrow> rid = request_key raw"
  by (auto simp: validate_request_value_def safe_text_str request_key_def Let_def split: if_splits)

lemma release_refines:
  assumes "\<And>gid task res s'. edit_row fs (has_grant fs gid) (act task) s = (res, s') \<Longrightarrow> lifecycle E (status_of fs s) (status_of fs s')"
  shows "lifecycle E (status_of fs s) (status_of fs (snd (release_grant fs act g t s)))"
proof -
  have "lifecycle E (status_of fs s) (status_of fs (snd (bool_edit fs (has_grant fs gid) (act task) s)))" for gid task
    by (rule bool_edit_refines [OF assms prod.collapse [symmetric]])
  then show ?thesis by (auto simp: release_grant_def split: sum.splits)
qed

lemma project_refines:
  "lifecycle (project_edges (request_key raw)) (status_of (ae_fs env) s)
    (status_of (ae_fs env) (snd (allow_request_as_project env uuid now raw ch s)))"
proof -
  have moved: "lifecycle (project_edges (request_key raw)) (status_of (ae_fs env) s)
      (status_of (ae_fs env) (save_requests rows s'))"
    if "validate_request_value (ae_fs env) (JStr raw) = Inr rid"
      "plan_row (ae_fs env) (has_id (ae_fs env) rid) (project_act env s uuid now ch') (load_requests s) = Inr (Some (x, row, Some rows))"
    for rid ch' x row rows s'
    using allow_project.plan_evolves [OF that(2)] validate_key [OF that(1)]
    by (intro evolves_lifecycle) simp
  show ?thesis
    by (auto simp: allow_request_as_project_def Let_def moved split: sum.splits option.splits prod.splits)
qed

lemma view_refines:
  assumes "\<And>rid res s'. edit_row fs (has_id fs rid) act s = (res, s') \<Longrightarrow> lifecycle (E rid) (status_of fs s) (status_of fs s')"
  shows "lifecycle (E rid) (status_of fs s) (status_of fs (snd (view_edit fs (has_id fs rid) act s)))"
  by (rule view_edit_refines [OF assms prod.collapse [symmetric]])

lemma apply_op_refines:
  "lifecycle (may_become op) (status_of (ae_fs env) s) (status_of (ae_fs env) (apply_op env op s))"
proof (cases op)
  case (Authorize d q)
  then show ?thesis by (simp add: authorize_refines [OF prod.collapse [symmetric]])
next
  case (Bind g t)
  have "lifecycle no_edges (status_of (ae_fs env) s) (status_of (ae_fs env) (snd (bool_edit (ae_fs env) (has_grant (ae_fs env) gid) (bind_act task) s)))"
    for gid task by (rule bool_edit_refines [OF bind.edit_refines prod.collapse [symmetric]])
  then show ?thesis by (auto simp: Bind bind_task_authorization_def split: sum.splits)
next
  case (Abort now g t)
  then show ?thesis using release_refines [OF abort.edit_refines] by (simp add: abort_task_authorization_def)
next
  case (Complete now g t)
  then show ?thesis using release_refines [OF complete.edit_refines] by (simp add: complete_task_authorization_def)
next
  case (Approve now i p m c)
  then show ?thesis
    using view_refines [OF approve.edit_refines] validate_key [of "ae_fs env" i]
    by (auto simp: approve_request_def split: sum.splits)
next
  case (Deny i)
  then show ?thesis
    using view_refines [OF deny.edit_refines] validate_key [of "ae_fs env" i]
    by (auto simp: deny_request_def split: sum.splits)
next
  case (AllowProject u now i ch)
  then show ?thesis by (simp add: project_refines)
next
  case (GetRequest now i)
  then show ?thesis by (auto simp: get_request_def Let_def expired_files_refines split: sum.splits)
next
  case (ListRequests now)
  then show ?thesis by (simp add: list_requests_def expired_files_refines)
next
  case (CreateEntry u p k a x d)
  then show ?thesis by (auto simp: create_entry_def Let_def split: sum.splits)
next
  case (UpdateEntry i p k a x d)
  then show ?thesis by (auto simp: update_entry_def Let_def split: sum.splits option.splits)
next
  case (DeleteEntry i)
  then show ?thesis by (auto simp: delete_entry_def Let_def split: sum.splits option.splits)
qed

section \<open>Runs\<close>

inductive access_run :: "fs \<Rightarrow> access_files \<Rightarrow> (access_env \<times> access_op) list \<Rightarrow> access_files \<Rightarrow> bool" for fs where
  run_nil: "access_run fs s [] s"
| run_step: "access_run fs s ((env, op) # steps) s'"
    if "fs_repr (ae_fs env) = fs_repr fs" and "access_run fs (apply_op env op s) steps s'"

inductive_cases run_ConsE: "access_run fs s (x # steps) s'"
inductive_simps run_Nil_iff [simp]: "access_run fs s [] s'"

lemma status_of_repr:
  assumes "fs_repr f = fs_repr g"
  shows "status_of f = status_of g"
proof -
  have "row_text f = row_text g" by (intro ext) (simp add: row_text_def safe_text_def assms)
  then show ?thesis by (intro ext) (simp add: status_of_def has_id_def [abs_def])
qed

lemma run_lifecycle_step:
  "fs_repr (ae_fs env) = fs_repr fs \<Longrightarrow> lifecycle (may_become op) (status_of fs s) (status_of fs (apply_op env op s))"
  using apply_op_refines [of op env s] status_of_repr [of "ae_fs env" fs] by simp

text \<open>What the operations of a run keep of a status, the run keeps.\<close>

lemma run_invariant:
  assumes "access_run fs s steps s'" and "status_of fs s rid = Some st" and "I st"
    and "\<And>env op a b. (env, op) \<in> set steps \<Longrightarrow> may_become op rid a b \<Longrightarrow> I a \<Longrightarrow> I b"
  shows "\<exists>st'. status_of fs s' rid = Some st' \<and> I st'"
  using assms
proof (induction arbitrary: st rule: access_run.induct)
  case (run_step env op s steps s')
  obtain st1 where 1: "status_of fs (apply_op env op s) rid = Some st1" "st1 = st \<or> may_become op rid st st1"
    using lifecycle_Some [OF run_lifecycle_step [OF run_step.hyps(1)] run_step.prems(1)] by auto
  with run_step.prems(2,3) have "I st1" by auto
  show ?case
  proof (rule run_step.IH [OF 1(1) \<open>I st1\<close>])
    fix env' op' a b assume "(env', op') \<in> set steps" and m: "may_become op' rid a b" "I a"
    then have "(env', op') \<in> set ((env, op) # steps)" by simp
    from run_step.prems(3) [OF this m] show "I b" .
  qed
qed auto

definition retired :: "string \<Rightarrow> bool" where
  "retired st \<longleftrightarrow> st \<in> {''consumed'', ''denied'', ''expired'', ''project-allowed''}"

lemmas all_edges = edge_defs run_edges_def live_statuses_def

lemma retired_closed: "may_become op rid a b \<Longrightarrow> retired a \<Longrightarrow> retired b"
  by (cases op) (auto simp: all_edges retired_def)

fun is_abort :: "access_op \<Rightarrow> bool" where
  "is_abort (Abort now g t) = True"
| "is_abort _ = False"

lemma spent_closed: "may_become op rid a b \<Longrightarrow> \<not> is_abort op \<Longrightarrow> a = ''active'' \<or> retired a \<Longrightarrow> b = ''active'' \<or> retired b"
  by (cases op) (auto simp: all_edges retired_def)

text \<open>A status that is past pending goes back to a decision of the user on that request.\<close>

fun approves :: "string \<Rightarrow> access_op \<Rightarrow> bool" where
  "approves rid (Approve now i p m c) = (request_key i = rid)"
| "approves rid _ = False"

definition granted :: "string \<Rightarrow> bool" where
  "granted st \<longleftrightarrow> st \<in> {''approved'', ''active'', ''consumed''}"

lemma granted_needs_approval: "may_become op rid a b \<Longrightarrow> \<not> approves rid op \<Longrightarrow> \<not> granted a \<Longrightarrow> \<not> granted b"
  by (cases op) (auto simp: all_edges granted_def)

lemma run_grants_approved:
  assumes "access_run fs s steps s'" and "case status_of fs s rid of None \<Rightarrow> True | Some st \<Rightarrow> \<not> granted st"
    and "\<And>env op. (env, op) \<in> set steps \<Longrightarrow> \<not> approves rid op"
  shows "case status_of fs s' rid of None \<Rightarrow> True | Some st \<Rightarrow> \<not> granted st"
  using assms
proof (induction rule: access_run.induct)
  case (run_step env op s steps s')
  note step = run_lifecycle_step [OF run_step.hyps(1), of op s]
  have "case status_of fs (apply_op env op s) rid of None \<Rightarrow> True | Some st \<Rightarrow> \<not> granted st"
  proof (cases "status_of fs s rid")
    case None
    then show ?thesis using lifecycle_None [OF step None] by (auto simp: granted_def)
  next
    case (Some st)
    obtain st1 where "status_of fs (apply_op env op s) rid = Some st1" "st1 = st \<or> may_become op rid st st1"
      using lifecycle_Some [OF step Some] by auto
    moreover have "\<not> granted st" "\<not> approves rid op" using run_step.prems Some by auto
    ultimately show ?thesis using granted_needs_approval by auto
  qed
  then show ?case using run_step.IH run_step.prems(2) by auto
qed

section \<open>What a granted approval says\<close>

lemma find_replace: "find P rows = Some row \<Longrightarrow> P row' \<Longrightarrow> find P (replace_first P row' rows) = Some row'"
  by (induction rows) (auto split: if_splits)

lemma edit_row_changed:
  assumes "edit_row fs P act s = (Inr (Some (x, row')), s')"
  shows "\<exists>row r. find P (load_requests s) = Some row \<and> request_from_row fs row = Inr r \<and>
    (act row r = Inr (x, None) \<and> s' = s \<and> row' = row \<or>
     act row r = Inr (x, Some row') \<and> s' = save_requests (replace_first P row' (load_requests s)) s)"
  using assms by (auto simp: edit_row_def plan_row_def split: option.splits sum.splits)

text \<open>A stored approval that covers a run: the first row with the id is approved, for exactly this
  client, path and mode, and not past its expiry.\<close>

definition covers :: "fs \<Rightarrow> access_files \<Rightarrow> int \<Rightarrow> string \<Rightarrow> path \<Rightarrow> string \<Rightarrow> string \<Rightarrow> bool" where
  "covers fs s now rid p mode client \<longleftrightarrow> (\<exists>row r. find (has_id fs rid) (load_requests s) = Some row \<and>
     request_from_row fs row = Inr r \<and> rq_status r = ''approved'' \<and> same_request p mode client r \<and>
     \<not> expired_at (rq_expires_at r) now)"

lemma covers_status: "covers fs s now rid p mode client \<Longrightarrow> status_of fs s rid = Some ''approved''"
  by (auto simp: covers_def status_of_def dest: request_from_row_fields(2))

lemma consume_granted:
  assumes "consume_request env now rid p mode client s = (Inr True, s')"
  shows "covers (ae_fs env) s now rid p mode client \<and> status_of (ae_fs env) s' rid = Some ''consumed'' \<and>
    path_denied env s p = Inr False"
proof -
  let ?fs = "ae_fs env"
  obtain row' where e: "edit_row ?fs (has_id ?fs rid) (consume_act now p mode client) s = (Inr (Some (True, row')), s')"
    and d: "path_denied env s p = Inr False"
    using assms by (auto simp: consume_request_def split: sum.splits bool.splits prod.splits option.splits)
  obtain row r where f: "find (has_id ?fs rid) (load_requests s) = Some row" "request_from_row ?fs row = Inr r"
      "consume_act now p mode client row r = Inr (True, Some row')"
      "s' = save_requests (replace_first (has_id ?fs rid) row' (load_requests s)) s"
    using edit_row_changed [OF e] by (auto simp: consume_act_def split: if_splits)
  have "row_id ?fs row = rid" using f(1) by (auto simp: find_Some_iff has_id_def)
  with f have "has_id ?fs rid row'" "row_status ?fs row' = ''consumed''"
    by (auto simp: consume_act_def has_id_def set_text_def split: if_splits)
  with f d find_replace [OF f(1)] show ?thesis
    by (auto simp: covers_def consume_act_def status_of_def split: if_splits)
qed

lemma activate_granted:
  assumes "activate_request env uuid now rid p mode client scope s = (Inr (Some ar), s')"
  shows "covers (ae_fs env) s now rid p mode client \<and> status_of (ae_fs env) s' rid = Some ''active'' \<and>
    rq_id ar = rid \<and> path_denied env s p = Inr False"
proof -
  let ?fs = "ae_fs env"
  let ?act = "activate_act (''wag-'' @ uuid) now p mode client scope"
  obtain row' where e: "edit_row ?fs (has_id ?fs rid) ?act s = (Inr (Some (True, row')), s')"
    and d: "path_denied env s p = Inr False" and ar: "request_from_row ?fs row' = Inr ar"
    using assms by (auto simp: activate_request_def split: sum.splits bool.splits prod.splits option.splits if_splits)
  obtain row r where f: "find (has_id ?fs rid) (load_requests s) = Some row" "request_from_row ?fs row = Inr r"
      "?act row r = Inr (True, Some row')"
      "s' = save_requests (replace_first (has_id ?fs rid) row' (load_requests s)) s"
    using edit_row_changed [OF e] by (auto simp: activate_act_def split: if_splits)
  have "row_id ?fs row = rid" using f(1) by (auto simp: find_Some_iff has_id_def)
  with f have "has_id ?fs rid row'" "row_status ?fs row' = ''active''"
    by (auto simp: activate_act_def claim_row_def has_id_def set_text_def split: if_splits)
  with f d ar find_replace [OF f(1)] show ?thesis
    by (auto simp: covers_def activate_act_def status_of_def has_id_def request_from_row_fields(1) split: if_splits)
qed

lemma use_approval_granted:
  assumes "use_approval env d p mode client scope r s = (Inr a, s')" and "au_allowed a"
  shows "covers (ae_fs env) s (dr_later d) (rq_id r) p mode client \<and> au_request_id a = rq_id r \<and> au_workspace a = p \<and>
    au_access a = access_of_mode mode \<and> (au_scope a = [] \<longleftrightarrow> scope = []) \<and> path_denied env s p = Inr False \<and>
    status_of (ae_fs env) s' (rq_id r) = Some (if scope = [] then ''consumed'' else ''active'')"
proof (cases "scope = []")
  case True
  with assms have "consume_request env (dr_later d) (rq_id r) p mode client s = (Inr True, s')" "a = one_time p mode client r"
    by (auto simp: use_approval_def split: sum.splits bool.splits prod.splits)
  with True consume_granted show ?thesis by (fastforce simp: one_time_def allow_def)
next
  case False
  with assms obtain ar where "activate_request env (dr_grant_uuid d) (dr_later d) (rq_id r) p mode client scope s = (Inr (Some ar), s')"
      "a = one_time_task p mode client ar"
    by (auto simp: use_approval_def split: sum.splits option.splits prod.splits)
  with False activate_granted show ?thesis by (fastforce simp: one_time_task_def one_time_def allow_def)
qed

lemma ask_user_granted:
  assumes "ask_user env d p mode client supplied scope policy s = (Inr a, s')" and "au_allowed a"
  shows "\<exists>s1. lifecycle expire_edges (status_of (ae_fs env) s) (status_of (ae_fs env) s1) \<and>
    covers (ae_fs env) s1 (dr_later d) (au_request_id a) p mode client \<and> au_workspace a = p \<and>
    au_access a = access_of_mode mode \<and> path_denied env s1 p = Inr False \<and>
    status_of (ae_fs env) s' (au_request_id a) = Some (if au_scope a = [] then ''consumed'' else ''active'')"
proof -
  obtain res1 s1 where 1: "request_for_denial env (dr_uuid d) (dr_ttl d) (dr_now d) p mode client supplied scope s = (res1, s1)"
    by fastforce
  obtain r where "use_approval env d p mode client scope r s1 = (Inr a, s')"
    using assms by (auto simp: ask_user_def 1 split: sum.splits prod.splits option.splits if_splits)
  from use_approval_granted [OF this assms(2)] ask_refines [OF 1] show ?thesis by auto
qed

end
