(* ===== verification/AccessProps.thy ===== *)
theory AccessProps
  imports AccessSafety
begin

text \<open>
  What workspace authorization guarantees: deny roots win, a permission comes from a source that
  gives it, an approval covers exactly its request and is used once, nothing is granted that the
  user did not approve, and an entry grants what it was created for.
\<close>

section \<open>Where a permission comes from\<close>

lemma dedupe_loop_mem:
  "dedupe_loop fs seen ps = Some qs \<Longrightarrow> p \<in> set ps \<Longrightarrow> canon fs (str_path p) = Some p \<Longrightarrow> p \<in> seen \<or> p \<in> set qs"
proof (induction ps arbitrary: seen qs)
  case (Cons x ps)
  obtain r where r: "canon fs (str_path x) = Some r" using Cons.prems(1) by (auto split: option.splits)
  show ?case
  proof (cases "r \<in> seen")
    case True
    with Cons.prems(1) r have "dedupe_loop fs seen ps = Some qs" by simp
    with Cons.IH Cons.prems(2,3) r True show ?thesis by auto
  next
    case False
    with Cons.prems(1) r obtain rest where rest: "dedupe_loop fs (insert r seen) ps = Some rest" "qs = r # rest" by auto
    with Cons.IH [OF rest(1)] Cons.prems(2,3) r show ?thesis by auto
  qed
qed simp

lemma denied_root_in_snapshot:
  assumes "take_snapshot env s = Some ss" and "r \<in> set (path_values (ae_fs env) (as_denied (current_settings env)))"
    and "canon (ae_fs env) (str_path r) = Some r"
  shows "r \<in> set (ss_denied ss)"
  using dedupe_loop_mem [of "ae_fs env" "{}" _ _ r] snapshot_parts(4) [OF assms(1)] assms(2,3)
  by (simp add: dedupe_paths_def)

lemma decide_path_workspace [simp]: "au_workspace (decide_path fs ss dir p mode proj client) = p"
  by (simp add: decide_path_def denied_def split: option.splits)

lemma authorize_path_workspace: "authorize_path fs ss p mode proj client = Some a \<Longrightarrow> au_workspace a = p"
  by (auto simp: authorize_path_def denied_def split: if_splits)

lemma authorize_path_not_denied:
  "authorize_path fs ss p mode proj client = Some a \<Longrightarrow> au_policy a \<noteq> ''denied'' \<Longrightarrow>
    first_containing_root p (ss_denied ss) = None"
  by (auto simp: authorize_path_def split: if_splits)

lemma authorize_path_allowed:
  assumes "authorize_path fs ss p mode proj client = Some a" and "au_allowed a"
  shows "first_containing_root p (ss_denied ss) = None \<and> fs_is_dir fs p \<and>
    (\<exists>dir. autoping_dir fs ss = Some dir \<and> a = decide_path fs ss dir p mode proj client)"
  using assms by (auto simp: authorize_path_def missing_def split: if_splits)

text \<open>A granted run either stands on the snapshot or on an approval; its path is outside every deny root.\<close>

lemma authorize_split:
  assumes "authorize_run_workspace env d q s = (Inr a, s')" and "au_allowed a"
  shows "\<exists>ss client proj. take_snapshot env s = Some ss \<and>
    run_project ss (strip (rn_project q)) = Inr proj \<and>
    run_path (ae_fs env) ss proj (rn_workspace q) = Inr (au_workspace a, True) \<and>
    validate_request_value (ae_fs env) (JStr (rn_client q)) = Inr client \<and>
    first_containing_root (au_workspace a) (ss_denied ss) = None \<and>
    (authorize_path (ae_fs env) ss (au_workspace a) (rn_mode q)
        (find_legacy_project (ss_settings ss) (strip (rn_project q))) client = Some a \<and> s' = s \<or>
     (\<exists>supplied scope policy. ask_user env d (au_workspace a) (rn_mode q) client supplied scope policy s = (Inr a, s')))"
proof -
  have "\<exists>ss client supplied scope p a0 proj. take_snapshot env s = Some ss \<and>
      run_project ss (strip (rn_project q)) = Inr proj \<and> run_path (ae_fs env) ss proj (rn_workspace q) = Inr (p, True) \<and>
      validate_request_value (ae_fs env) (JStr (rn_client q)) = Inr client \<and>
      authorize_path (ae_fs env) ss p (rn_mode q) (find_legacy_project (ss_settings ss) (strip (rn_project q))) client = Some a0 \<and>
      (a = a0 \<and> s' = s \<or>
       au_policy a0 \<noteq> ''denied'' \<and> ask_user env d p (rn_mode q) client supplied scope (au_policy a0) s = (Inr a, s'))"
    using assms(1) unfolding authorize_run_workspace_def Let_def
    by (simp split: sum.splits option.splits prod.splits bool.splits if_splits) (use assms(2) in auto)
  then obtain ss client supplied scope p a0 proj where
    ss: "take_snapshot env s = Some ss" "run_project ss (strip (rn_project q)) = Inr proj"
      "run_path (ae_fs env) ss proj (rn_workspace q) = Inr (p, True)" and c: "validate_request_value (ae_fs env) (JStr (rn_client q)) = Inr client"
    and ap: "authorize_path (ae_fs env) ss p (rn_mode q) (find_legacy_project (ss_settings ss) (strip (rn_project q))) client = Some a0"
    and alt: "a = a0 \<and> s' = s \<or>
      au_policy a0 \<noteq> ''denied'' \<and> ask_user env d p (rn_mode q) client supplied scope (au_policy a0) s = (Inr a, s')"
    by blast
  from alt show ?thesis
  proof
    assume "a = a0 \<and> s' = s"
    with ss c ap assms(2) authorize_path_workspace [OF ap] authorize_path_allowed [OF ap] show ?thesis by auto
  next
    assume ask: "au_policy a0 \<noteq> ''denied'' \<and> ask_user env d p (rn_mode q) client supplied scope (au_policy a0) s = (Inr a, s')"
    then have "au_workspace a = p" using ask_user_granted assms(2) by blast
    with ask ss c authorize_path_not_denied [OF ap] show ?thesis by auto
  qed
qed

lemma legacy_sources:
  "a \<in> set (legacy_adds env st ws) \<Longrightarrow> take 7 (la_source a) = ''legacy:''"
  by (auto simp: legacy_adds_def project_adds_def plain_add_def allowed_values_def both_values_def Let_def split: if_splits)

lemma standing_source:
  assumes "take_snapshot env s = Some ss" and "authorize_path (ae_fs env) ss p mode proj client = Some a" and "au_allowed a"
  shows "au_source a \<noteq> ''one-time''"
proof -
  have g: "gr_source g \<noteq> ''one-time''" if "g \<in> set (ss_grants ss)" for g
  proof -
    obtain l where l: "legacy_of env (current_settings env) (ss_workspace_root ss) = Some l"
      "ss_grants ss = map app_grant (load_app_entries (ae_fs env) s) @ lg_grants l"
      using snapshot_parts(3) [OF assms(1)] by auto
    show ?thesis
    proof (cases "g \<in> set (lg_grants l)")
      case True
      then obtain b p' where "b \<in> set (legacy_adds env (current_settings env) (ss_workspace_root ss))" "g = legacy_grant p' b"
        using legacy_of_grants [OF l(1) True] by blast
      then have "take 7 (gr_source g) = ''legacy:''" using legacy_sources by (auto simp: legacy_grant_def)
      then show ?thesis by auto
    next
      case False
      with that l(2) show ?thesis by (auto simp: app_grant_def)
    qed
  qed
  obtain dir where "a = decide_path (ae_fs env) ss dir p mode proj client"
    using authorize_path_allowed [OF assms(2,3)] by auto
  then show ?thesis
    using assms(3) g [OF conjunct1 [OF best_grant_Some]]
    by (auto simp: decide_path_def allow_def split: if_splits option.splits)
qed

section \<open>Approvals reach back to the stored file\<close>

lemma find_map_key: "(\<And>x. P (f x) = P x) \<Longrightarrow> find P (map f xs) = map_option f (find P xs)"
  by (induction xs) auto

lemma expired_covers:
  assumes "covers fs (save_requests (snd (expire_rows fs now rows)) s) later rid p mode client" and "load_requests s = rows"
  shows "covers fs s later rid p mode client"
proof -
  let ?f = "\<lambda>row. if row_expired fs now row then set_text ''status'' ''expired'' row else row"
  have "has_id fs rid (?f row) = has_id fs rid row" for row by (simp add: has_id_def set_text_def)
  then have f: "find (has_id fs rid) (snd (expire_rows fs now rows)) = map_option ?f (find (has_id fs rid) rows)"
    by (simp add: expire_rows_def find_map_key)
  obtain row r where row: "find (has_id fs rid) (snd (expire_rows fs now rows)) = Some row" "request_from_row fs row = Inr r"
    "rq_status r = ''approved''" "same_request p mode client r" "\<not> expired_at (rq_expires_at r) later"
    using assms(1) by (auto simp: covers_def)
  obtain row0 where row0: "find (has_id fs rid) rows = Some row0" "row = ?f row0" using row(1) f by auto
  have "row_status fs row = ''approved''" using request_from_row_fields(2) [OF row(2)] row(3) by simp
  then have "row = row0" using row0(2) by (auto simp: set_text_def split: if_splits)
  with row row0 assms(2) show ?thesis by (auto simp: covers_def)
qed

lemma save_if_covers:
  assumes e: "expire_rows fs now (load_requests s) = (changed, rows)"
    and "covers fs (save_if changed rows s) later rid p mode client"
  shows "covers fs s later rid p mode client"
proof (cases changed)
  case True
  with assms show ?thesis using expired_covers [of fs now "load_requests s" s] by (simp add: save_if_def)
qed (use assms(2) in \<open>simp add: save_if_def\<close>)

lemma settled_approved: "settled_state r now = None \<Longrightarrow> rq_status r \<noteq> ''approved''"
  "settled_state r now = Some st \<Longrightarrow> refusal_policy st = None \<Longrightarrow> st = Approved"
  by (auto simp: settled_state_def refusal_policy_def split: if_splits)

lemma renotified_status:
  "request_from_row fs row = Inr r \<Longrightarrow> request_from_row fs (set_text ''last_notified_at'' t row) = Inr r' \<Longrightarrow>
    rq_status r' = rq_status r"
  using request_from_row_fields(2) by (simp add: set_text_def)

lemma answer_approved:
  assumes "answer_row fs now P changed row rows s = (Inr (r, st, n), s1)" and "rq_status r = ''approved''"
    and "refusal_policy st = None"
  shows "s1 = save_if changed rows s"
proof -
  obtain r0 where r0: "request_from_row fs row = Inr r0"
    using assms(1) by (auto simp: answer_row_def split: sum.splits)
  show ?thesis
  proof (cases "settled_state r0 now")
    case (Some st')
    with assms(1) r0 show ?thesis by (simp add: answer_row_def)
  next
    case None
    let ?row = "set_text ''last_notified_at'' (isoformat now) row"
    have "r = r0 \<or> request_from_row fs ?row = Inr r"
      using assms(1) r0 None by (auto simp: answer_row_def Let_def split: if_splits sum.splits)
    then have "rq_status r = rq_status r0" using renotified_status [OF r0] by auto
    with settled_approved(1) [OF None] assms(2) show ?thesis by simp
  qed
qed

lemma denial_approved:
  assumes "request_for_denial env uuid ttl now p mode client supplied scope s = (Inr (r, st, n), s1)"
    and "rq_status r = ''approved''" and "refusal_policy st = None"
  shows "\<exists>changed rows. expire_rows (ae_fs env) now (load_requests s) = (changed, rows) \<and> s1 = save_if changed rows s"
proof -
  obtain changed rows where e: "expire_rows (ae_fs env) now (load_requests s) = (changed, rows)" by fastforce
  have new: "rq_status r' = ''pending''"
    if "request_from_row (ae_fs env) (new_request rid p mode client scope now ttl) = Inr r'" for r' rid
    using request_from_row_fields(2) [OF that] by simp
  have "s1 = save_if changed rows s"
    using assms answer_approved [OF _ assms(2,3)] new unfolding request_for_denial_def Let_def e
    by (fastforce simp: refusal_policy_def split: sum.splits option.splits if_splits)
  with e show ?thesis by blast
qed

lemma ask_user_covers:
  assumes "ask_user env d p mode client supplied scope policy s = (Inr a, s')" and "au_allowed a"
  shows "covers (ae_fs env) s (dr_later d) (au_request_id a) p mode client"
proof -
  have "\<exists>r st n s1. request_for_denial env (dr_uuid d) (dr_ttl d) (dr_now d) p mode client supplied scope s = (Inr (r, st, n), s1) \<and>
      refusal_policy st = None \<and> rq_status r = ''approved'' \<and> use_approval env d p mode client scope r s1 = (Inr a, s')"
    using assms unfolding ask_user_def by (auto split: sum.splits prod.splits option.splits if_splits)
  then obtain r st n s1 where r: "request_for_denial env (dr_uuid d) (dr_ttl d) (dr_now d) p mode client supplied scope s = (Inr (r, st, n), s1)"
      "refusal_policy st = None" "rq_status r = ''approved''" and u: "use_approval env d p mode client scope r s1 = (Inr a, s')"
    by blast
  obtain changed rows where e: "expire_rows (ae_fs env) (dr_now d) (load_requests s) = (changed, rows)" "s1 = save_if changed rows s"
    using denial_approved [OF r(1,3,2)] by blast
  from use_approval_granted [OF u assms(2)] show ?thesis
    using save_if_covers [OF e(1)] e(2) by auto
qed

lemma one_time_granted:
  assumes "authorize_run_workspace env d q s = (Inr a, s')" and "au_allowed a" and "au_source a = ''one-time''"
  shows "\<exists>client. validate_request_value (ae_fs env) (JStr (rn_client q)) = Inr client \<and>
    covers (ae_fs env) s (dr_later d) (au_request_id a) (au_workspace a) (rn_mode q) client \<and>
    au_access a = access_of_mode (rn_mode q) \<and>
    status_of (ae_fs env) s' (au_request_id a) = Some (if au_scope a = [] then ''consumed'' else ''active'')"
proof -
  obtain ss client where ss: "take_snapshot env s = Some ss"
    and c: "validate_request_value (ae_fs env) (JStr (rn_client q)) = Inr client"
    and alt: "authorize_path (ae_fs env) ss (au_workspace a) (rn_mode q)
        (find_legacy_project (ss_settings ss) (strip (rn_project q))) client = Some a \<and> s' = s \<or>
      (\<exists>supplied scope policy. ask_user env d (au_workspace a) (rn_mode q) client supplied scope policy s = (Inr a, s'))"
    using authorize_split [OF assms(1,2)] by blast
  have "\<not> (authorize_path (ae_fs env) ss (au_workspace a) (rn_mode q)
      (find_legacy_project (ss_settings ss) (strip (rn_project q))) client = Some a)"
    using standing_source [OF ss _ assms(2)] assms(3) by blast
  with alt obtain supplied scope policy where
    "ask_user env d (au_workspace a) (rn_mode q) client supplied scope policy s = (Inr a, s')" by blast
  with c ask_user_granted [OF this assms(2)] ask_user_covers [OF this assms(2)] show ?thesis by blast
qed

lemma writing_path_cases:
  assumes "authorize_path fs ss p ''workspace-write'' proj client = Some a" and "au_allowed a"
  shows "(\<exists>dir. autoping_dir fs ss = Some dir \<and> is_within p dir) \<or> (\<exists>pj. proj = Some pj) \<or>
    (\<exists>g. best_grant ss p ''workspace-write'' = Some g)"
proof -
  obtain dir where dir: "autoping_dir fs ss = Some dir" "a = decide_path fs ss dir p ''workspace-write'' proj client"
    using authorize_path_allowed [OF assms] by blast
  then have "au_allowed (decide_path fs ss dir p ''workspace-write'' proj client)" using assms(2) by metis
  with dir(1) show ?thesis unfolding decide_path_def by (auto split: if_splits option.splits)
qed

text \<open>The directories that the settings and the environment let runs write to: the projects, the allowed
  workspaces (the workspace root when none are configured) and the write-allowed ones.\<close>

definition allowed_roots :: "access_env \<Rightarrow> path list" where
  "allowed_roots env = env_path_values (ae_fs env) (ev_allowed (ae_vars env)) @
     path_values (ae_fs env) (as_allowed (current_settings env))"

definition writable_roots :: "access_env \<Rightarrow> path list" where
  "writable_roots env =
     map (\<lambda>(key, pj). pj_workspace pj) (as_projects (current_settings env)) @
     (if allowed_roots env \<noteq> [] then allowed_roots env
      else (case canon (ae_fs env) (as_workspace_root (current_settings env)) of None \<Rightarrow> [] | Some w \<Rightarrow> [w])) @
     env_path_values (ae_fs env) (ev_write_allowed (ae_vars env)) @
     path_values (ae_fs env) (as_write_allowed (current_settings env))"

definition writing_configured :: "access_env \<Rightarrow> path \<Rightarrow> bool" where
  "writing_configured env p \<longleftrightarrow>
     list_ex (\<lambda>r. case canon (ae_fs env) (str_path r) of None \<Rightarrow> False | Some w \<Rightarrow> is_within p w) (writable_roots env)"

definition in_ping_workspace :: "access_env \<Rightarrow> path \<Rightarrow> bool" where
  \<comment> \<open>the managed directory of the quota pings\<close>
  "in_ping_workspace env p \<longleftrightarrow> (case canon (ae_fs env) (as_data_dir (current_settings env)) of None \<Rightarrow> False
     | Some data \<Rightarrow> (case canon (ae_fs env) (str_path (data @ [''autoping_workspace''])) of None \<Rightarrow> False
        | Some dir \<Rightarrow> is_within p dir))"

lemma snapshot_root:
  assumes "take_snapshot env s = Some ss"
  shows "canon (ae_fs env) (as_workspace_root (current_settings env)) = Some (ss_workspace_root ss)"
    and "canon (ae_fs env) (as_data_dir (current_settings env)) = Some (ss_data_dir ss)"
  using assms by (auto simp: take_snapshot_def Let_def split: bind_splits)

lemma writing_add:
  assumes "b \<in> set (legacy_adds env (current_settings env) w)" and "''workspace-write'' \<in> set (la_modes b)"
    and "canon (ae_fs env) (as_workspace_root (current_settings env)) = Some w"
  shows "la_path b \<in> set (writable_roots env)"
  using assms
  by (auto simp: legacy_adds_def project_adds_def plain_add_def allowed_values_def both_values_def
      writable_roots_def allowed_roots_def read_write_modes_def Let_def split: if_splits)

lemma writing_grant_source:
  assumes ss: "take_snapshot env s = Some ss" and best: "best_grant ss p ''workspace-write'' = Some g"
  shows "writing_configured env p \<or>
    (\<exists>e\<in>set (load_app_entries (ae_fs env) s). we_access e = ''read-write'' \<and> is_within p (we_path e))"
proof -
  from best_grant_Some [OF best] have g: "g \<in> set (ss_grants ss)" "''workspace-write'' \<in> set (gr_modes g)"
    "is_within p (gr_path g)" by auto
  obtain l where l: "legacy_of env (current_settings env) (ss_workspace_root ss) = Some l"
      "ss_grants ss = map app_grant (load_app_entries (ae_fs env) s) @ lg_grants l"
    using snapshot_parts(3) [OF ss] by blast
  show ?thesis
  proof (cases "g \<in> set (lg_grants l)")
    case True
    obtain b q where b: "b \<in> set (legacy_adds env (current_settings env) (ss_workspace_root ss))"
        "canon (ae_fs env) (str_path (la_path b)) = Some q" "g = legacy_grant q b"
      using legacy_of_grants [OF l(1) True] by blast
    with g(2) have "la_path b \<in> set (writable_roots env)"
      by (intro writing_add [OF b(1) _ snapshot_root(1) [OF ss]]) (simp add: legacy_grant_def)
    with b(2,3) g(3) show ?thesis unfolding writing_configured_def list_ex_iff legacy_grant_def by force
  next
    case False
    with g l(2) show ?thesis by (auto simp: app_grant_def split: if_splits)
  qed
qed

lemma project_place:
  assumes "find_legacy_project (current_settings env) key = Some pj"
    and "canon (ae_fs env) (str_path (pj_workspace pj)) = Some home" and "is_within p home"
  shows "writing_configured env p"
proof -
  have "(key, pj) \<in> set (as_projects (current_settings env))"
    using assms(1) by (auto simp: find_legacy_project_def split: if_splits dest: map_of_SomeD)
  then have "pj_workspace pj \<in> set (writable_roots env)" unfolding writable_roots_def by force
  with assms(2,3) show ?thesis unfolding writing_configured_def list_ex_iff by force
qed

section \<open>A concrete service\<close>

definition svc_fs :: fs where
  "svc_fs = \<lparr> fs_expanduser = Some, fs_resolve = (\<lambda>s. Some (tl (split_on CHR ''/'' s))), fs_cwd = [''w''],
     fs_is_dir = (\<lambda>_. True), fs_is_git = (\<lambda>_. False), fs_repr = (\<lambda>_. []), fs_sha256 = (\<lambda>_. ''0123456789abcdef'') \<rparr>"

definition svc_env :: access_env where
  "svc_env = \<lparr> ae_fs = svc_fs,
     ae_settings = \<lparr> as_workspace_root = ''/w'', as_data_dir = ''/d'', as_projects = [], as_allowed = NotIterable,
       as_write_allowed = NotIterable, as_trusted = NotIterable, as_denied = PathList [Some ''/x/secret''],
       as_discovery = False \<rparr>,
     ae_reloaded = None, ae_vars = \<lparr> ev_allowed = [], ev_write_allowed = [], ev_trusted = [], ev_denied = [] \<rparr> \<rparr>"

definition svc_query :: "string \<Rightarrow> run_query" where
  "svc_query p = \<lparr> rn_workspace = p, rn_project = [], rn_mode = ''workspace-write'', rn_client = ''local'',
     rn_request_id = [], rn_scope = [], rn_ask = True \<rparr>"

definition svc_draw :: "string \<Rightarrow> draw" where
  "svc_draw u = \<lparr> dr_now = 0, dr_later = 1, dr_ttl = 60, dr_uuid = u, dr_grant_uuid = u \<rparr>"

definition no_files :: access_files where
  "no_files = \<lparr> af_config = JNull, af_requests = JNull \<rparr>"

definition asked_files :: access_files where
  "asked_files = snd (authorize_run_workspace svc_env (svc_draw ''1'') (svc_query ''/x/p'') no_files)"

definition approved_files :: access_files where
  "approved_files = snd (approve_request svc_env 0 ''war-1'' None None None asked_files)"

lemma svc_write: "au_allowed (projr (fst (authorize_run_workspace svc_env (svc_draw ''1'') (svc_query ''/w/p'') no_files)))"
  by code_simp

lemma svc_approved:
  "fst (authorize_run_workspace svc_env (svc_draw ''2'') (svc_query ''/x/p'') approved_files) =
     Inr ((allow [''x'', ''p''] ''one-time'' ''read-write'' ''one-time'' ''local'' [])\<lparr>au_request_id := ''war-1''\<rparr>)"
  by code_simp

section \<open>Properties\<close>

text \<open>C1: Deny roots win: no run is authorized inside a directory the current settings deny, whatever
  projects, grants, app entries or approvals say.\<close>

theorem deny_roots_win:
  assumes "authorize_run_workspace env d q s = (Inr a, s')"
    and "r \<in> set (path_values (ae_fs env) (as_denied (current_settings env)))"
    and "canon (ae_fs env) (str_path r) = Some r" and "is_within (au_workspace a) r"
  shows "\<not> au_allowed a"
proof
  assume allowed: "au_allowed a"
  obtain ss where ss: "take_snapshot env s = Some ss" and none: "first_containing_root (au_workspace a) (ss_denied ss) = None"
    using authorize_split [OF assms(1) allowed] by blast
  have "r \<in> set (ss_denied ss)" by (rule denied_root_in_snapshot [OF ss assms(2,3)])
  with none assms(4) show False by (simp add: first_containing_root_None)
qed

theorem deny_roots_win_witness:
  "\<exists>a s'. authorize_run_workspace svc_env (svc_draw ''1'') (svc_query ''/x/secret/y'') no_files = (Inr a, s') \<and> \<not> au_allowed a"
proof -
  let ?a = "denied [''x'', ''secret'', ''y''] ''workspace-write'' ''denied'' ''local'' None"
  have run: "authorize_run_workspace svc_env (svc_draw ''1'') (svc_query ''/x/secret/y'') no_files = (Inr ?a, no_files)"
    by code_simp
  have "\<not> au_allowed ?a"
  proof (rule deny_roots_win [OF run])
    show "[''x'', ''secret''] \<in> set (path_values (ae_fs svc_env) (as_denied (current_settings svc_env)))" by code_simp
    show "canon (ae_fs svc_env) (str_path [''x'', ''secret'']) = Some [''x'', ''secret'']" by code_simp
    show "is_within (au_workspace ?a) [''x'', ''secret'']" by code_simp
  qed
  with run show ?thesis by blast
qed

text \<open>C2: No run writes without authority: an allowed \<open>workspace-write\<close> run is inside the managed ping
  directory of the configured data directory, or inside a directory that the current settings or the
  environment make writable (a project, an allowed or write-allowed workspace, or the workspace root
  when no allowed workspace is configured), or inside a stored app entry whose access is
  \<open>read-write\<close>, or it is covered by a stored approval for its own client, path and mode.\<close>

theorem write_needs_authority:
  assumes "authorize_run_workspace env d q s = (Inr a, s')" and "au_allowed a" and "rn_mode q = ''workspace-write''"
  shows "in_ping_workspace env (au_workspace a) \<or> writing_configured env (au_workspace a) \<or>
    (\<exists>e\<in>set (load_app_entries (ae_fs env) s). we_access e = ''read-write'' \<and> is_within (au_workspace a) (we_path e)) \<or>
    (\<exists>client. validate_request_value (ae_fs env) (JStr (rn_client q)) = Inr client \<and>
       covers (ae_fs env) s (dr_later d) (au_request_id a) (au_workspace a) ''workspace-write'' client)"
  (is "?ping \<or> ?configured \<or> ?entry \<or> ?approval")
proof -
  obtain ss client proj where ss: "take_snapshot env s = Some ss"
    and pr: "run_project ss (strip (rn_project q)) = Inr proj" "run_path (ae_fs env) ss proj (rn_workspace q) = Inr (au_workspace a, True)"
    and c: "validate_request_value (ae_fs env) (JStr (rn_client q)) = Inr client"
    and alt: "authorize_path (ae_fs env) ss (au_workspace a) (rn_mode q)
        (find_legacy_project (ss_settings ss) (strip (rn_project q))) client = Some a \<and> s' = s \<or>
      (\<exists>supplied scope policy. ask_user env d (au_workspace a) (rn_mode q) client supplied scope policy s = (Inr a, s'))"
    using authorize_split [OF assms(1,2)] by blast
  have st: "ss_settings ss = current_settings env" by (rule snapshot_parts(2) [OF ss])
  from alt show ?thesis
  proof
    assume "authorize_path (ae_fs env) ss (au_workspace a) (rn_mode q)
        (find_legacy_project (ss_settings ss) (strip (rn_project q))) client = Some a \<and> s' = s"
    then have "authorize_path (ae_fs env) ss (au_workspace a) ''workspace-write''
        (find_legacy_project (ss_settings ss) (strip (rn_project q))) client = Some a" using assms(3) by simp
    from writing_path_cases [OF this assms(2)] consider
        dir where "autoping_dir (ae_fs env) ss = Some dir" "is_within (au_workspace a) dir"
      | pj where "find_legacy_project (ss_settings ss) (strip (rn_project q)) = Some pj"
      | g where "best_grant ss (au_workspace a) ''workspace-write'' = Some g" by blast
    then show ?thesis
    proof cases
      case 1
      then have ?ping using snapshot_root(2) [OF ss] by (simp add: in_ping_workspace_def autoping_dir_def)
      then show ?thesis by blast
    next
      case (2 pj)
      then have "proj = Some pj" using pr(1) by (auto simp: run_project_def find_legacy_project_def split: if_splits)
      then have ?configured using pr(2) 2 [unfolded st] project_place
        by (auto simp: run_path_def Let_def split: option.splits if_splits)
      then show ?thesis by blast
    next
      case (3 g)
      then show ?thesis using writing_grant_source [OF ss] by blast
    qed
  next
    assume "\<exists>supplied scope policy. ask_user env d (au_workspace a) (rn_mode q) client supplied scope policy s = (Inr a, s')"
    with ask_user_covers [OF _ assms(2)] c assms(3) have ?approval by fastforce
    then show ?thesis by blast
  qed
qed

lemma svc_no_files:
  "load_app_entries svc_fs no_files = []" "\<not> covers svc_fs no_files now rid p mode client"
  "find_legacy_project (current_settings svc_env) key = None" "ae_fs svc_env = svc_fs"
  by (simp_all add: load_app_entries_def load_entries_def load_requests_def load_rows_def no_files_def covers_def
      find_legacy_project_def current_settings_def svc_env_def List.map_filter_def)

text \<open>At the concrete service only \<open>/w\<close> is writable, by the last rule of the allowed workspaces; \<open>/x\<close> is not.\<close>

lemma svc_writable:
  "\<not> in_ping_workspace svc_env [''w'', ''p'']" "\<not> writing_configured svc_env [''x'', ''p'']" "writable_roots svc_env = [[''w'']]"
  by code_simp+

theorem write_needs_authority_witness:
  "writing_configured svc_env [''w'', ''p''] \<and> \<not> writing_configured svc_env [''x'', ''p'']"
proof -
  let ?a = "allow [''w'', ''p''] ''allowed-workspace'' ''read-write'' ''legacy:FLUXION_WORKSPACE_ROOT'' ''local'' []"
  have run: "authorize_run_workspace svc_env (svc_draw ''1'') (svc_query ''/w/p'') no_files = (Inr ?a, no_files)"
    by code_simp
  have "au_allowed ?a" "rn_mode (svc_query ''/w/p'') = ''workspace-write''" by (simp_all add: svc_query_def)
  from write_needs_authority [OF run this] show ?thesis using svc_writable by (auto simp: svc_no_files)
qed

text \<open>C3: An approval covers exactly its request: a run authorized by the user's approval uses a stored
  request that is approved and unexpired, for the run's own client, canonical path and mode, and
  afterwards that request is consumed, or active when the run is a task.\<close>

theorem approval_is_exact:
  assumes "authorize_run_workspace env d q s = (Inr a, s')" and "au_allowed a" and "au_source a = ''one-time''"
  shows "\<exists>client. validate_request_value (ae_fs env) (JStr (rn_client q)) = Inr client \<and>
    covers (ae_fs env) s (dr_later d) (au_request_id a) (au_workspace a) (rn_mode q) client \<and>
    au_access a = access_of_mode (rn_mode q) \<and>
    status_of (ae_fs env) s' (au_request_id a) = Some (if au_scope a = [] then ''consumed'' else ''active'')"
  using assms by (rule one_time_granted)

definition svc_grant :: auth where
  "svc_grant = (allow [''x'', ''p''] ''one-time'' ''read-write'' ''one-time'' ''local'' [])\<lparr>au_request_id := ''war-1''\<rparr>"

definition used_files :: access_files where
  "used_files = snd (authorize_run_workspace svc_env (svc_draw ''2'') (svc_query ''/x/p'') approved_files)"

lemma svc_use: "authorize_run_workspace svc_env (svc_draw ''2'') (svc_query ''/x/p'') approved_files = (Inr svc_grant, used_files)"
  using svc_approved by (simp add: used_files_def svc_grant_def prod_eq_iff)

lemma svc_grant_fields [simp]:
  "au_allowed svc_grant" "au_source svc_grant = ''one-time''" "au_request_id svc_grant = ''war-1''" "au_scope svc_grant = []"
  by (simp_all add: svc_grant_def allow_def)

theorem approval_is_exact_witness: "status_of svc_fs used_files ''war-1'' = Some ''consumed''"
  using approval_is_exact [OF svc_use] by (auto simp: svc_env_def)

text \<open>C4: An approval is used once: after a run was authorized by an approval, no later run is
  authorized by the same request, whatever happens in between, unless the approval was claimed for
  a task and that claim was given back.\<close>

theorem approval_single_use:
  assumes "authorize_run_workspace env d q s = (Inr a, s1)" and "au_allowed a" and "au_source a = ''one-time''"
    and "access_run (ae_fs env) s1 steps s2" and "au_scope a = [] \<or> (\<forall>x\<in>set steps. \<not> is_abort (snd x))"
    and "authorize_run_workspace env' d' q' s2 = (Inr b, s3)" and "au_allowed b" and "au_source b = ''one-time''"
    and "fs_repr (ae_fs env') = fs_repr (ae_fs env)"
  shows "au_request_id b \<noteq> au_request_id a"
proof
  assume same: "au_request_id b = au_request_id a"
  let ?rid = "au_request_id a"
  have 1: "status_of (ae_fs env) s1 ?rid = Some (if au_scope a = [] then ''consumed'' else ''active'')"
    using one_time_granted [OF assms(1-3)] by blast
  have "status_of (ae_fs env) s2 ?rid = Some ''approved''"
    using one_time_granted [OF assms(6-8)] covers_status same status_of_repr [OF assms(9)] by metis
  moreover have "\<exists>st. status_of (ae_fs env) s2 ?rid = Some st \<and> (st = ''active'' \<or> retired st)"
  proof (cases "au_scope a = []")
    case True
    with 1 have "status_of (ae_fs env) s1 ?rid = Some ''consumed''" by simp
    from run_invariant [OF assms(4) this, of retired] show ?thesis
      using retired_closed by (auto simp: retired_def [of "''consumed''"])
  next
    case False
    with 1 have "status_of (ae_fs env) s1 ?rid = Some ''active''" by simp
    then show ?thesis
    proof (rule run_invariant [OF assms(4)])
      fix env op x y assume "(env, op) \<in> set steps" and m: "may_become op ?rid x y" "x = ''active'' \<or> retired x"
      with False assms(5) have "\<not> is_abort op" by fastforce
      with m show "y = ''active'' \<or> retired y" using spent_closed by blast
    qed simp
  qed
  ultimately show False by (auto simp: retired_def)
qed

definition again_files :: access_files where
  "again_files = apply_op svc_env (Approve 0 ''war-3'' None None None)
     (apply_op svc_env (Authorize (svc_draw ''3'') (svc_query ''/x/p'')) used_files)"

theorem approval_single_use_witness:
  "au_allowed (projr (fst (authorize_run_workspace svc_env (svc_draw ''4'') (svc_query ''/x/p'') again_files))) \<and>
    au_request_id (projr (fst (authorize_run_workspace svc_env (svc_draw ''4'') (svc_query ''/x/p'') again_files))) \<noteq> ''war-1''"
proof -
  let ?b = "(allow [''x'', ''p''] ''one-time'' ''read-write'' ''one-time'' ''local'' [])\<lparr>au_request_id := ''war-3''\<rparr>"
  obtain s3 where b: "authorize_run_workspace svc_env (svc_draw ''4'') (svc_query ''/x/p'') again_files = (Inr ?b, s3)"
  proof -
    have "fst (authorize_run_workspace svc_env (svc_draw ''4'') (svc_query ''/x/p'') again_files) = Inr ?b" by code_simp
    then show ?thesis using that by (metis prod.collapse)
  qed
  have run: "access_run (ae_fs svc_env) used_files
      [(svc_env, Authorize (svc_draw ''3'') (svc_query ''/x/p'')), (svc_env, Approve 0 ''war-3'' None None None)] again_files"
    unfolding again_files_def by (intro access_run.intros refl)
  have "au_request_id ?b \<noteq> au_request_id svc_grant"
    by (rule approval_single_use [OF svc_use _ _ run _ b]) (simp_all add: allow_def)
  with b show ?thesis by (simp add: allow_def)
qed

text \<open>C5: Nothing is granted without the user: a request that does not exist when a run of the service
  starts can authorize a run later only if the user's approval of that very request is among the
  operations in between.\<close>

theorem no_grant_without_approval:
  assumes "access_run fs s steps s'" and "status_of fs s (au_request_id a) = None"
    and "authorize_run_workspace env d q s' = (Inr a, s'')" and "au_allowed a" and "au_source a = ''one-time''"
    and "fs_repr (ae_fs env) = fs_repr fs"
  shows "\<exists>e now raw p m c. (e, Approve now raw p m c) \<in> set steps \<and> request_key raw = au_request_id a"
proof (rule ccontr)
  assume none: "\<not> ?thesis"
  let ?rid = "au_request_id a"
  have "\<not> approves ?rid op" if "(e, op) \<in> set steps" for e op
  proof
    assume "approves ?rid op"
    then obtain now raw p m c where "op = Approve now raw p m c" "request_key raw = ?rid" by (cases op) auto
    with none that show False by blast
  qed
  from run_grants_approved [OF assms(1) _ this] assms(2)
  have "case status_of fs s' ?rid of None \<Rightarrow> True | Some st \<Rightarrow> \<not> granted st" by simp
  moreover have "status_of fs s' ?rid = Some ''approved''"
    using one_time_granted [OF assms(3-5)] covers_status status_of_repr [OF assms(6)] by metis
  ultimately show False by (simp add: granted_def)
qed

theorem no_grant_without_approval_witness:
  "\<exists>e now raw p m c. (e, Approve now raw p m c) \<in>
      set [(svc_env, Authorize (svc_draw ''1'') (svc_query ''/x/p'')), (svc_env, Approve 0 ''war-1'' None None None)] \<and>
    request_key raw = ''war-1''"
proof -
  have run: "access_run svc_fs no_files
      [(svc_env, Authorize (svc_draw ''1'') (svc_query ''/x/p'')), (svc_env, Approve 0 ''war-1'' None None None)] approved_files"
  proof -
    have eq: "approved_files = apply_op svc_env (Approve 0 ''war-1'' None None None)
        (apply_op svc_env (Authorize (svc_draw ''1'') (svc_query ''/x/p'')) no_files)"
      by (simp add: approved_files_def asked_files_def)
    show ?thesis unfolding eq by (intro access_run.intros) (simp_all add: svc_env_def)
  qed
  have "\<exists>e now raw p m c. (e, Approve now raw p m c) \<in>
      set [(svc_env, Authorize (svc_draw ''1'') (svc_query ''/x/p'')), (svc_env, Approve 0 ''war-1'' None None None)] \<and>
      request_key raw = au_request_id svc_grant"
    by (rule no_grant_without_approval [OF run _ svc_use])
      (simp_all add: status_of_def load_requests_def load_rows_def no_files_def svc_env_def)
  then show ?thesis by simp
qed

text \<open>C6: Every operation of the service implements the abstract life of requests: seen through the
  status of each request id, an operation leaves it, moves it along one of the edges the operation
  has in the abstract machine, or adds a new pending request.\<close>

theorem operations_refine_lifecycle:
  "lifecycle (may_become op) (status_of (ae_fs env) s) (status_of (ae_fs env) (apply_op env op s))"
  by (rule apply_op_refines)

end
