(* ===== verification/AccessManage.thy ===== *)
theory AccessManage
  imports AccessProps
begin

text \<open>
  What the management side promises: a created entry grants its directory, keys stay unique, a
  caller that waits sees an answer that came in time. Two theorems record where the code falls
  short of what its texts say.
\<close>

section \<open>Entries read back\<close>

lemma in_dropWhile: "c \<in> set xs \<Longrightarrow> \<not> P c \<Longrightarrow> c \<in> set (dropWhile P xs)"
  by (induction xs) auto

lemma strip_nonempty: "c \<in> set s \<Longrightarrow> \<not> is_space c \<Longrightarrow> strip s \<noteq> []"
  using in_dropWhile [of c "rev (dropWhile is_space s)" is_space] in_dropWhile [of c s is_space]
  by (auto simp: strip_def lstrip_def)

lemma strip_str_path: "strip (str_path p) \<noteq> []"
proof (rule strip_nonempty)
  show "CHR ''/'' \<in> set (str_path p)" by (cases p) (simp_all add: str_path_def)
  show "\<not> is_space (CHR ''/'')" by code_simp
qed

text \<open>An entry the service built is read back with its id, key and access; its path is read through
  the text field.\<close>

lemma load_built_entry:
  assumes "request_id_ok (we_id e)" and "key_ok (we_key e)" and "we_access e \<in> set valid_access_modes"
    and "canon fs (take 500 (strip (str_path (we_path e)))) = Some q"
  shows "\<exists>e'. load_app_entry fs (to_config_dict e) = Some e' \<and> we_path e' = q \<and> we_id e' = we_id e \<and>
    we_key e' = we_key e \<and> we_access e' = we_access e"
proof -
  have "take 500 (strip (str_path (we_path e))) \<noteq> []" using strip_str_path by simp
  moreover have "safe_text fs (JStr (we_access e)) 32 = we_access e"
    using assms(3) by (auto simp: valid_access_modes_def)
  ultimately show ?thesis
    using assms by (simp add: load_app_entry_def to_config_dict_def Let_def request_id_tidy key_ok_tidy ids_nonempty
        py_or_str safe_text_str [of fs "str_path (we_path e)"])
qed

lemma create_entry_made:
  assumes "create_entry env uuid raw key access ex desc s = (Inr e, s')"
  shows "we_id e = ''app-'' @ uuid \<and> key_ok (we_key e) \<and> we_access e = access \<and> access \<in> set valid_access_modes \<and>
    s' = store_entries (load_app_entries (ae_fs env) s @ [e]) s \<and> canon (ae_fs env) raw = Some (we_path e) \<and>
    (\<forall>x\<in>set (load_app_entries (ae_fs env) s). we_key x \<noteq> we_key e)"
  using assms by (auto simp: create_entry_def Let_def app_entry_def dest!: validate_entry_ok entry_key_ok
      split: sum.splits if_splits)

lemma created_entry_loaded:
  assumes "create_entry env uuid raw key access ex desc s = (Inr e, s')" and "request_id_ok (''app-'' @ uuid)"
    and "canon (ae_fs env) (take 500 (strip (str_path (we_path e)))) = Some q"
  shows "\<exists>e'\<in>set (load_app_entries (ae_fs env) s'). we_path e' = q \<and> we_id e' = we_id e \<and> we_key e' = we_key e \<and>
    we_access e' = access"
proof -
  note m = create_entry_made [OF assms(1)]
  obtain e' where e': "load_app_entry (ae_fs env) (to_config_dict e) = Some e'" "we_path e' = q" "we_id e' = we_id e"
      "we_key e' = we_key e" "we_access e' = we_access e"
    using load_built_entry [of e "ae_fs env" q] m assms(2,3) by auto
  have "e' \<in> set (load_app_entries (ae_fs env) s')"
    using m e'(1) by (auto simp: load_stored List.map_filter_def image_iff)
  with e' m show ?thesis by auto
qed

lemma stored_keys_distinct:
  assumes "distinct (map we_key es)" and "\<forall>e\<in>set es. key_ok (we_key e)"
  shows "distinct (map we_key (load_app_entries fs (store_entries es s)))"
  using map_filter_keys [of es "\<lambda>e. load_app_entry fs (to_config_dict e)" we_key] assms load_entry_key
  by (fastforce simp: load_stored)

lemma loaded_keys_ok: "\<forall>e\<in>set (load_app_entries fs s). key_ok (we_key e)"
  by (auto simp: load_app_entries_def List.map_filter_def dest: load_app_entry_fields(2))

text \<open>Keys stay unique: creating an entry keeps the keys of the stored entries distinct.\<close>

lemma create_keeps_keys_unique:
  assumes "distinct (map we_key (load_app_entries (ae_fs env) s))"
    and "create_entry env uuid raw key access ex desc s = (res, s')"
  shows "distinct (map we_key (load_app_entries (ae_fs env) s'))"
proof (cases res)
  case (Inl err)
  with assms show ?thesis by (auto simp: create_entry_def Let_def split: sum.splits if_splits)
next
  case (Inr e)
  note m = create_entry_made [OF assms(2) [unfolded Inr]]
  have "distinct (map we_key (load_app_entries (ae_fs env) (store_entries (load_app_entries (ae_fs env) s @ [e]) s)))"
    by (rule stored_keys_distinct) (use assms(1) m loaded_keys_ok in \<open>auto simp: image_iff\<close>)
  with m show ?thesis by simp
qed

section \<open>Waiting\<close>

lemma wait_loop_pending:
  "pending (wait_loop get pending interval deadline t view) \<Longrightarrow> t < deadline \<Longrightarrow> 1 / 100 \<le> interval \<Longrightarrow> pending (get deadline)"
proof (induction get pending interval deadline t view rule: wait_loop.induct)
  case (1 get pending interval deadline t view)
  let ?t = "t + min interval (deadline - t)"
  show ?case
  proof (cases "pending view")
    case False
    with 1(2) show ?thesis by (simp add: wait_loop.simps [of get pending interval deadline t view])
  next
    case True
    with 1(2-4) have w: "pending (wait_loop get pending interval deadline ?t (get ?t))"
      by (simp add: wait_loop.simps [of get pending interval deadline t view] Let_def)
    show ?thesis
    proof (cases "?t < deadline")
      case True
      have "\<not> (\<not> pending view \<or> deadline - t \<le> 0 \<or> interval < 1 / 100)" using \<open>pending view\<close> 1(3,4) by simp
      from 1(1) [OF this refl w True 1(4)] show ?thesis .
    next
      case False
      then have "?t = deadline" by (simp add: min_def split: if_splits)
      with w show ?thesis by (simp add: wait_loop.simps [of get pending interval deadline deadline])
    qed
  qed
qed

lemma app_entry_fields [simp]:
  "we_id (app_entry i k p a x d) = i" "we_key (app_entry i k p a x d) = k" "we_path (app_entry i k p a x d) = p"
  "we_access (app_entry i k p a x d) = a"
  by (simp_all add: app_entry_def)

section \<open>Ids and keys stay unique\<close>

definition entries_unique :: "fs \<Rightarrow> access_files \<Rightarrow> bool" where
  "entries_unique fs s \<longleftrightarrow> distinct (map we_key (load_app_entries fs s)) \<and> distinct (map we_id (load_app_entries fs s))"

lemma loaded_ok: "e \<in> set (load_app_entries fs s) \<Longrightarrow> key_ok (we_key e) \<and> request_id_ok (we_id e)"
  by (auto simp: load_app_entries_def List.map_filter_def dest: load_app_entry_fields(1,2))

lemma stored_unique:
  assumes "distinct (map we_key es)" and "distinct (map we_id es)"
    and "\<forall>e\<in>set es. key_ok (we_key e) \<and> request_id_ok (we_id e)"
  shows "entries_unique fs (store_entries es s)"
  using map_filter_keys [of es "\<lambda>e. load_app_entry fs (to_config_dict e)" we_key]
    map_filter_keys [of es "\<lambda>e. load_app_entry fs (to_config_dict e)" we_id]
    assms load_entry_key load_entry_id
  by (fastforce simp: load_stored entries_unique_def)

lemma added_unique:
  assumes "entries_unique fs s" and "key_ok (we_key e)" and "request_id_ok (we_id e)"
    and "\<forall>x\<in>set (load_app_entries fs s). we_key x \<noteq> we_key e \<and> we_id x \<noteq> we_id e"
  shows "entries_unique fs (store_entries (load_app_entries fs s @ [e]) s')"
  by (rule stored_unique) (use assms loaded_ok in \<open>auto simp: entries_unique_def image_iff\<close>)

lemma replaced_unique:
  assumes "entries_unique fs s" and "key_ok (we_key new)" and "request_id_ok (we_id new)"
    and "\<forall>x\<in>set (load_app_entries fs s). we_id x \<noteq> we_id new \<longrightarrow> we_key x \<noteq> we_key new"
  shows "entries_unique fs (store_entries (map (\<lambda>e. if we_id e = we_id new then new else e) (load_app_entries fs s)) s')"
proof (rule stored_unique)
  let ?f = "\<lambda>e. if we_id e = we_id new then new else e"
  let ?es = "load_app_entries fs s"
  have d: "distinct (map we_key ?es)" "distinct (map we_id ?es)" using assms(1) by (simp_all add: entries_unique_def)
  have "we_id \<circ> ?f = we_id" by (rule ext) simp
  then have eq: "map we_id (map ?f ?es) = map we_id ?es" by (simp only: map_map)
  show "distinct (map we_id (map ?f ?es))" unfolding eq by (rule d(2))
  have "inj_on (we_key \<circ> ?f) (set ?es)"
  proof (rule inj_onI)
    fix x y assume xy: "x \<in> set ?es" "y \<in> set ?es" "(we_key \<circ> ?f) x = (we_key \<circ> ?f) y"
    have k: "inj_on we_key (set ?es)" "inj_on we_id (set ?es)" using d by (simp_all add: distinct_map)
    show "x = y"
      using xy assms(4) inj_onD [OF k(1), of x y] inj_onD [OF k(2), of x y] by (auto split: if_splits)
  qed
  with d show "distinct (map we_key (map ?f ?es))" by (simp add: distinct_map)
  show "\<forall>e\<in>set (map ?f ?es). key_ok (we_key e) \<and> request_id_ok (we_id e)" using assms(2,3) loaded_ok by auto
qed

lemma filtered_unique:
  assumes "entries_unique fs s"
  shows "entries_unique fs (store_entries (filter P (load_app_entries fs s)) s')"
  by (rule stored_unique) (use assms loaded_ok in \<open>auto simp: entries_unique_def distinct_map_filter\<close>)

fun fresh_id :: "fs \<Rightarrow> access_files \<Rightarrow> access_op \<Rightarrow> bool" where
  \<comment> \<open>the uuid an operation draws makes a valid id no entry has\<close>
  "fresh_id fs s (CreateEntry u p k a x d) =
     (request_id_ok (''app-'' @ u) \<and> ''app-'' @ u \<notin> we_id ` set (load_app_entries fs s))"
| "fresh_id fs s (AllowProject u now i ch) =
     (request_id_ok (''app-'' @ u) \<and> ''app-'' @ u \<notin> we_id ` set (load_app_entries fs s))"
| "fresh_id fs s _ = True"

lemma entries_unique_requests [simp]:
  "entries_unique fs (save_requests rows s) = entries_unique fs s"
  "entries_unique fs (save_if c rows s) = entries_unique fs s"
  by (simp_all add: entries_unique_def load_app_entries_def save_if_def)

lemma edit_row_entries: "edit_row fs P act s = (res, s') \<Longrightarrow> entries_unique g s' = entries_unique g s"
  by (auto simp: edit_row_def split: sum.splits option.splits)

lemma create_unique:
  assumes "create_entry env u p k a x d s = (res, s')" and "entries_unique (ae_fs env) s"
    and "request_id_ok (''app-'' @ u)" and "''app-'' @ u \<notin> we_id ` set (load_app_entries (ae_fs env) s)"
  shows "entries_unique (ae_fs env) s'"
proof (cases res)
  case (Inl err)
  with assms(1,2) show ?thesis by (auto simp: create_entry_def Let_def split: sum.splits if_splits)
next
  case (Inr e)
  note m = create_entry_made [OF assms(1) [unfolded Inr]]
  have "entries_unique (ae_fs env) (store_entries (load_app_entries (ae_fs env) s @ [e]) s)"
    by (rule added_unique [OF assms(2)]) (use m assms(3,4) in \<open>auto simp: image_iff\<close>)
  with m show ?thesis by simp
qed

lemma map_swap_if: "map (\<lambda>e. if we_id e \<noteq> eid then e else new) es = map (\<lambda>e. if we_id e = eid then new else e) es"
  by auto

lemma update_unique:
  assumes "update_entry env i p k a x d s = (res, s')" and "entries_unique (ae_fs env) s"
  shows "entries_unique (ae_fs env) s'"
proof (cases res)
  case (Inl err)
  with assms show ?thesis by (auto simp: update_entry_def Let_def split: sum.splits option.splits if_splits)
next
  case (Inr new)
  let ?es = "load_app_entries (ae_fs env) s"
  obtain eid where v: "validate_request_value (ae_fs env) (JStr i) = Inr eid"
    using assms(1) Inr by (cases "validate_request_value (ae_fs env) (JStr i)") (simp_all add: update_entry_def Let_def)
  obtain cur where f: "find (\<lambda>e. we_id e = eid) ?es = Some cur"
    using assms(1) Inr v by (cases "find (\<lambda>e. we_id e = eid) ?es") (simp_all add: update_entry_def Let_def)
  have c0: "we_id new = we_id cur \<and> key_ok (we_key new) \<and> \<not> (\<exists>e\<in>set ?es. we_id e \<noteq> eid \<and> we_key e = we_key new) \<and>
      s' = store_entries (map (\<lambda>e. if we_id e = eid then new else e) ?es) s"
    using assms(1) Inr unfolding update_entry_def Let_def map_swap_if
    by (simp add: v f split: sum.splits option.splits if_splits) (auto dest: entry_key_ok)
  have "we_id cur = eid" using f by (auto simp: find_Some_iff)
  with c0 have eid: "eid = we_id new" by simp
  have "cur \<in> set ?es" using f by (auto simp: find_Some_iff)
  then have "request_id_ok (we_id new)" using loaded_ok c0 by metis
  with replaced_unique [OF assms(2)] c0 [unfolded eid] show ?thesis by blast
qed

lemma delete_unique:
  "delete_entry env i s = (res, s') \<Longrightarrow> entries_unique (ae_fs env) s \<Longrightarrow> entries_unique (ae_fs env) s'"
  by (auto simp: delete_entry_def Let_def filtered_unique split: sum.splits option.splits)

lemma project_entry_key_ok:
  "project_entry_key env key p entries = Inr k \<Longrightarrow> key_ok k \<and> (\<forall>e\<in>set entries. we_key e \<noteq> k)"
  by (auto simp: project_entry_key_def Let_def key_taken_def dest: entry_key_ok split: if_splits sum.splits)

lemma project_entry_unique:
  assumes "project_entry env u ch access p (load_app_entries (ae_fs env) s) = Inr (new, es)"
    and "entries_unique (ae_fs env) s" and "request_id_ok (''app-'' @ u)"
    and "''app-'' @ u \<notin> we_id ` set (load_app_entries (ae_fs env) s)"
  shows "entries_unique (ae_fs env) (store_entries es s')"
proof (cases "find (\<lambda>e. we_path e = p) (load_app_entries (ae_fs env) s)")
  case None
  with assms(1) obtain k where k: "project_entry_key env (pc_key ch) p (load_app_entries (ae_fs env) s) = Inr k"
      "we_key new = k" "we_id new = ''app-'' @ u" "es = load_app_entries (ae_fs env) s @ [new]"
    by (auto simp: project_entry_def Let_def app_entry_def split: sum.splits)
  with project_entry_key_ok [OF k(1)] assms(2-4) show ?thesis by (auto simp: image_iff intro!: added_unique)
next
  case (Some cur)
  then have cur: "cur \<in> set (load_app_entries (ae_fs env) s)" by (auto simp: find_Some_iff)
  from Some assms(1) have new: "we_id new = we_id cur" "we_key new = we_key cur"
      "es = map (\<lambda>e. if we_id e = we_id new then new else e) (load_app_entries (ae_fs env) s)"
    by (auto simp: project_entry_def Let_def app_entry_def)
  have "inj_on we_key (set (load_app_entries (ae_fs env) s))" using assms(2) by (simp add: entries_unique_def distinct_map)
  then have "\<forall>x\<in>set (load_app_entries (ae_fs env) s). we_id x \<noteq> we_id new \<longrightarrow> we_key x \<noteq> we_key new"
    using cur new(1,2) by (metis inj_onD)
  with replaced_unique [OF assms(2), of new s'] loaded_ok [OF cur] new show ?thesis by simp
qed

lemma project_act_entries:
  "project_act env s u now ch row r = Inr ((v, entry, Some es), upd) \<Longrightarrow>
    \<exists>access p new. project_entry env u ch access p (load_app_entries (ae_fs env) s) = Inr (new, es)"
  unfolding project_act_def Let_def
  by (auto split: option.splits sum.splits bool.splits if_splits)

lemma plan_row_act:
  "plan_row fs P act rows = Inr (Some (x, row', upd)) \<Longrightarrow> \<exists>row r upd'. act row r = Inr (x, upd')"
  unfolding plan_row_def by (simp split: option.splits sum.splits prod.splits; blast)

lemma save_requests_entries: "entries_unique fs (save_requests rows s) = entries_unique fs s"
  by simp

lemma allow_project_unique:
  assumes "allow_request_as_project env u now i ch s = (res, s')" and "entries_unique (ae_fs env) s"
    and "request_id_ok (''app-'' @ u)" and "''app-'' @ u \<notin> we_id ` set (load_app_entries (ae_fs env) s)"
  shows "entries_unique (ae_fs env) s'"
proof -
  have es: "entries_unique (ae_fs env) (store_entries es s)"
    if plan: "plan_row (ae_fs env) P (project_act env s u now ch') rows = Inr (Some ((v, entry, Some es), row, upd))"
    for P ch' rows v entry es row upd
  proof -
    obtain access p new where "project_entry env u ch' access p (load_app_entries (ae_fs env) s) = Inr (new, es)"
      using plan_row_act [OF plan] project_act_entries by blast
    from project_entry_unique [OF this assms(2-4)] show ?thesis .
  qed
  have "s' = s \<or> (\<exists>P ch' rows v entry es row upd.
      plan_row (ae_fs env) P (project_act env s u now ch') rows = Inr (Some ((v, entry, es), row, upd)) \<and>
      (case es of None \<Rightarrow> entries_unique (ae_fs env) s' = entries_unique (ae_fs env) s
       | Some es \<Rightarrow> entries_unique (ae_fs env) s' = entries_unique (ae_fs env) (store_entries es s)))"
    using assms(1) unfolding allow_request_as_project_def Let_def
    by (auto simp: save_requests_entries split: sum.splits option.splits prod.splits if_splits) blast+
  then show ?thesis using assms(2) es by (auto split: option.splits)
qed

lemma view_edit_entries: "view_edit fs P act s = (res, s') \<Longrightarrow> entries_unique g s' = entries_unique g s"
  by (auto simp: view_edit_def edit_row_entries split: prod.splits sum.splits option.splits)

lemma bool_edit_entries: "bool_edit fs P act s = (res, s') \<Longrightarrow> entries_unique g s' = entries_unique g s"
  by (auto simp: bool_edit_def edit_row_entries split: prod.splits sum.splits option.splits)

lemma release_entries: "entries_unique g (snd (release_grant fs act i t s)) = entries_unique g s"
  using bool_edit_entries [OF prod.collapse [symmetric]] by (auto simp: release_grant_def split: sum.splits)

lemma consume_entries: "consume_request env now rid p mode client s = (res, s') \<Longrightarrow> entries_unique g s' = entries_unique g s"
  by (auto simp: consume_request_def edit_row_entries split: prod.splits sum.splits option.splits bool.splits)

lemma activate_entries: "activate_request env u now rid p mode client scope s = (res, s') \<Longrightarrow> entries_unique g s' = entries_unique g s"
  by (auto simp: activate_request_def edit_row_entries split: prod.splits sum.splits option.splits bool.splits if_splits)

lemma answer_entries: "answer_row fs now P c row rows s = (res, s') \<Longrightarrow> entries_unique g s' = entries_unique g s"
  by (auto simp: answer_row_def Let_def split: sum.splits option.splits if_splits)

lemma denial_entries:
  "request_for_denial env u ttl now p mode client supplied scope s = (res, s') \<Longrightarrow> entries_unique g s' = entries_unique g s"
  by (auto simp: request_for_denial_def Let_def dest: answer_entries split: prod.splits sum.splits option.splits if_splits)

lemma use_entries: "use_approval env d p mode client scope r s = (res, s') \<Longrightarrow> entries_unique g s' = entries_unique g s"
  by (auto simp: use_approval_def dest: consume_entries activate_entries
      split: prod.splits sum.splits option.splits bool.splits if_splits)

lemma ask_entries: "ask_user env d p mode client supplied scope pol s = (res, s') \<Longrightarrow> entries_unique g s' = entries_unique g s"
  by (auto simp: ask_user_def dest!: denial_entries use_entries
      split: prod.splits sum.splits option.splits if_splits)

lemma authorize_entries: "entries_unique g (snd (authorize_run_workspace env d q s)) = entries_unique g s"
  using authorize_cases [OF prod.collapse [symmetric], of env d q s] ask_entries by (metis prod.collapse)

lemma op_keeps_unique:
  assumes "entries_unique (ae_fs env) s" and "fresh_id (ae_fs env) s op"
  shows "entries_unique (ae_fs env) (apply_op env op s)"
proof (cases op)
  case (Authorize d q)
  with assms show ?thesis by (simp add: authorize_entries)
next
  case (Bind g t)
  then show ?thesis
    using assms bool_edit_entries [OF prod.collapse [symmetric]]
    by (auto simp: bind_task_authorization_def split: sum.splits)
next
  case (Abort now g t)
  with assms show ?thesis by (simp add: abort_task_authorization_def release_entries)
next
  case (Complete now g t)
  with assms show ?thesis by (simp add: complete_task_authorization_def release_entries)
next
  case (Approve now i p m c)
  with assms show ?thesis
    using view_edit_entries [OF prod.collapse [symmetric]] by (auto simp: approve_request_def split: sum.splits)
next
  case (Deny i)
  with assms show ?thesis
    using view_edit_entries [OF prod.collapse [symmetric]] by (auto simp: deny_request_def split: sum.splits)
next
  case (AllowProject u now i ch)
  with assms show ?thesis using allow_project_unique [OF prod.collapse [symmetric]] by simp
next
  case (GetRequest now i)
  with assms show ?thesis by (auto simp: get_request_def expired_files_def Let_def split: sum.splits prod.splits)
next
  case (ListRequests now)
  with assms show ?thesis by (auto simp: list_requests_def expired_files_def split: prod.splits)
next
  case (CreateEntry u p k a x d)
  with assms show ?thesis using create_unique [OF prod.collapse [symmetric]] by simp
next
  case (UpdateEntry i p k a x d)
  with assms show ?thesis using update_unique [OF prod.collapse [symmetric]] by simp
next
  case (DeleteEntry i)
  with assms show ?thesis using delete_unique [OF prod.collapse [symmetric]] by simp
qed

section \<open>Properties\<close>

text \<open>Ids and keys of the stored entries stay unique: no operation of the service, allowing a project
  from a request included, makes two entries with one key or one id, as long as the id it draws is
  new.\<close>

lemma entries_stay_unique:
  assumes "entries_unique (ae_fs env) s" and "fresh_id (ae_fs env) s op"
  shows "entries_unique (ae_fs env) (apply_op env op s)"
  using assms by (rule op_keeps_unique)

definition svc_create :: access_op where
  "svc_create = CreateEntry ''7'' ''/x/p'' ''px'' ''read-only'' ''codex'' ''notes''"

text \<open>A created entry grants its directory: as soon as an entry is created, a run inside its path is
  authorized for reading, and for writing too when the entry was created read-write, unless the
  path is denied or missing.\<close>

lemma created_entry_grants:
  assumes "create_entry env uuid raw key access ex desc s = (Inr e, s')" and "request_id_ok (''app-'' @ uuid)"
    and "tidy 500 (str_path (we_path e))" and "canon (ae_fs env) (str_path (we_path e)) = Some (we_path e)"
    and "take_snapshot env s' = Some ss" and "autoping_dir (ae_fs env) ss \<noteq> None"
    and "first_containing_root p (ss_denied ss) = None" and "fs_is_dir (ae_fs env) p" and "is_within p (we_path e)"
    and "mode = ''read-only'' \<or> mode = ''workspace-write'' \<and> access = ''read-write''"
  shows "\<exists>a. authorize_path (ae_fs env) ss p mode None client = Some a \<and> au_allowed a \<and> au_workspace a = p"
proof -
  have "canon (ae_fs env) (take 500 (strip (str_path (we_path e)))) = Some (we_path e)"
    using assms(3,4) by (simp add: tidy_def)
  then obtain e' where e': "e' \<in> set (load_app_entries (ae_fs env) s')" "we_path e' = we_path e" "we_access e' = access"
    using created_entry_loaded [OF assms(1,2)] by blast
  have "app_grant e' \<in> set (ss_grants ss)" using snapshot_parts(3) [OF assms(5)] e'(1) by auto
  moreover have "mode \<in> set (gr_modes (app_grant e'))" using assms(10) e'(3) by (auto simp: app_grant_def read_write_modes_def)
  ultimately obtain g where g: "best_grant ss p mode = Some g"
    using best_grant_exists assms(9) e'(2) by (metis app_grant_def grant.select_convs(1))
  obtain dir where "autoping_dir (ae_fs env) ss = Some dir" using assms(6) by auto
  then have "authorize_path (ae_fs env) ss p mode None client = Some (decide_path (ae_fs env) ss dir p mode None client)"
    using assms(7,8) by (simp add: authorize_path_def missing_def)
  moreover have "au_allowed (decide_path (ae_fs env) ss dir p mode None client)" by (simp add: decide_path_def g)
  ultimately show ?thesis by auto
qed

text \<open>A caller that waits sees the answer: when the wait for a request runs out and still reports it
  as pending, the request was pending when the time was up, whatever the polling interval.\<close>

lemma wait_sees_answer:
  assumes "0 < timeout" and "wait_for_request fs clock world rid timeout interval t = Inr v" and "rv_status v = ''pending''"
  shows "\<exists>w. fst (get_request fs (clock (t + timeout)) rid (world (t + timeout))) = Inr w \<and> rv_status w = ''pending''"
proof -
  let ?get = "\<lambda>t. fst (get_request fs (clock t) rid (world t))"
  let ?pending = "\<lambda>v. case v of Inl _ \<Rightarrow> False | Inr w \<Rightarrow> rv_status w = ''pending''"
  have "wait_loop ?get ?pending (max (1 / 100) interval) (t + timeout) t (?get t) = Inr v"
    using assms(1,2) by (simp add: wait_for_request_def Let_def)
  with assms(3) have "?pending (wait_loop ?get ?pending (max (1 / 100) interval) (t + timeout) t (?get t))" by simp
  from wait_loop_pending [where pending = ?pending and get = ?get, OF this] assms(1)
  show ?thesis by (auto split: sum.splits)
qed

text \<open>A stored entry can name another directory: an entry is written with the full path and read back
  through a text field that strips white space and keeps 500 characters, so the grant it gives is
  for whatever directory that shortened text resolves to.\<close>

lemma entry_path_shortened:
  assumes "create_entry env uuid raw key access ex desc s = (Inr e, s')" and "request_id_ok (''app-'' @ uuid)"
    and "canon (ae_fs env) (take 500 (strip (str_path (we_path e)))) = Some q"
  shows "\<exists>e'\<in>set (load_app_entries (ae_fs env) s'). we_id e' = we_id e \<and> we_path e' = q \<and> we_access e' = access"
  using created_entry_loaded [OF assms] by blast

lemma find_None_expired:
  assumes "\<forall>row\<in>set rows. row_matches fs p mode client row \<longrightarrow> row_status fs row \<notin> set live_statuses"
  shows "find (\<lambda>row. readable_row fs row \<and> row_matches fs p mode client row \<and> row_status fs row \<in> set live_statuses)
    (snd (expire_rows fs now rows)) = None"
proof -
  have same: "row_matches fs p mode client (set_text ''status'' st row) = row_matches fs p mode client row" for st row
    by (simp add: row_matches_def set_text_def)
  have dead: "row_status fs (set_text ''status'' ''expired'' row) \<notin> set live_statuses" for row
    by (simp add: set_text_def live_statuses_def)
  show ?thesis using assms by (auto simp: expire_rows_def find_None_iff same dead split: if_splits)
qed

text \<open>A refusal does not stop the asking: a run that is retried without its request id after the user
  declined it raises a new pending request and notifies the user again, because only requests that
  are pending, approved or active are matched.\<close>

lemma refusal_asked_again:
  assumes "\<forall>row\<in>set (load_requests s). row_matches (ae_fs env) p mode client row \<longrightarrow>
      row_status (ae_fs env) row \<notin> set live_statuses"
    and "canon (ae_fs env) (take 500 (strip (str_path p))) = Some p"
  shows "\<exists>r s'. request_for_denial env uuid ttl now p mode client [] scope s = (Inr (r, Pending, True), s') \<and>
    rq_status r = ''pending'' \<and> length (load_requests s') = Suc (length (load_requests s))"
proof -
  let ?fs = "ae_fs env"
  let ?row = "new_request (''war-'' @ uuid) p mode client scope now ttl"
  obtain changed rows where e: "expire_rows ?fs now (load_requests s) = (changed, rows)" by fastforce
  have none: "find (\<lambda>row. readable_row ?fs row \<and> row_matches ?fs p mode client row \<and> row_status ?fs row \<in> set live_statuses) rows = None"
    using find_None_expired [OF assms(1), of now] e by simp
  have path: "row_text ?fs ?row ''path'' 500 = take 500 (strip (str_path p))"
    by (simp add: row_text_def new_request_def safe_text_str)
  obtain r where r: "request_from_row ?fs ?row = Inr r"
    using request_from_row_total [of ?fs ?row p] path assms(2) strip_str_path by auto
  have "rq_status r = ''pending''" using request_from_row_fields(2) [OF r] by simp
  moreover have "length rows = length (load_requests s)" using e by (auto simp: expire_rows_def)
  ultimately show ?thesis using r by (simp add: request_for_denial_def Let_def e none)
qed

definition refused_files :: access_files where
  "refused_files = snd (deny_request svc_fs ''war-1'' asked_files)"

end
