(* ===== verification/WorkspaceDisk.thy ===== *)
theory WorkspaceDisk
  imports FluxionBase AccessPaths JsonLines
begin

text \<open>
  The disk below a workspace as \<open>workspace/snapshot.py\<close> and \<open>workspace/change_set.py\<close> use it: files
  with their bytes and time, files that cannot be opened, directories and symbolic links, and the
  calls of \<open>pathlib\<close> and \<open>os\<close> the two modules make. A path is a list of components; a file's
  bytes are a \<^typ>\<open>string\<close>. A text read from a file is kept as its UTF-8 bytes, so decoding is a
  check and encoding does nothing. A link's node holds the path it finally leads to; links among
  the parents of a path are the business of the parameter \<^const>\<open>fs_resolve\<close>.
\<close>

section \<open>Nodes\<close>

datatype node =
    File string int
  | Locked int int
  | Folder
  | Link path

type_synonym disk = "(path \<times> node) list"

definition node_at :: "disk \<Rightarrow> path \<Rightarrow> node option" where
  "node_at d p = (if p = [] then Some Folder else map_of d p)"

definition follow :: "disk \<Rightarrow> path \<Rightarrow> path" where
  "follow d p = (case node_at d p of Some (Link q) \<Rightarrow> q | _ \<Rightarrow> p)"

definition exists_at :: "disk \<Rightarrow> path \<Rightarrow> bool" where
  \<comment> \<open>\<open>path.exists()\<close>\<close>
  "exists_at d p \<longleftrightarrow> node_at d (follow d p) \<noteq> None"

definition stat_at :: "disk \<Rightarrow> path \<Rightarrow> (int \<times> int) option" where
  \<comment> \<open>size and modification time of a regular file, \<open>None\<close> for anything else\<close>
  "stat_at d p = (case node_at d (follow d p) of
       Some (File b t) \<Rightarrow> Some (int (length b), t)
     | Some (Locked n t) \<Rightarrow> Some (n, t)
     | _ \<Rightarrow> None)"

definition bytes_at :: "disk \<Rightarrow> path \<Rightarrow> string option" where
  \<comment> \<open>\<open>path.read_bytes()\<close>, \<open>None\<close> for an \<open>OSError\<close>\<close>
  "bytes_at d p = (case node_at d (follow d p) of Some (File b t) \<Rightarrow> Some b | _ \<Rightarrow> None)"

section \<open>UTF-8\<close>

definition cont_byte :: "char \<Rightarrow> bool" where
  "cont_byte c \<longleftrightarrow> 128 \<le> code c \<and> code c < 192"

fun utf8_ok :: "string \<Rightarrow> bool" where
  \<comment> \<open>whether \<open>bytes.decode("utf-8")\<close> succeeds: no overlong form, no surrogate, at most U+10FFFF\<close>
  "utf8_ok [] = True"
| "utf8_ok (a # s) =
     (if code a < 128 then utf8_ok s
      else if code a < 194 then False
      else if code a < 224 then (case s of b # r \<Rightarrow> cont_byte b \<and> utf8_ok r | _ \<Rightarrow> False)
      else if code a < 240 then
        (case s of b # c # r \<Rightarrow>
             cont_byte b \<and> cont_byte c \<and> (code a = 224 \<longrightarrow> 160 \<le> code b) \<and> (code a = 237 \<longrightarrow> code b < 160) \<and>
             utf8_ok r
         | _ \<Rightarrow> False)
      else if code a < 245 then
        (case s of b # c # e # r \<Rightarrow>
             cont_byte b \<and> cont_byte c \<and> cont_byte e \<and> (code a = 240 \<longrightarrow> 144 \<le> code b) \<and>
             (code a = 244 \<longrightarrow> code b < 144) \<and> utf8_ok r
         | _ \<Rightarrow> False)
      else False)"

section \<open>Reading and writing\<close>

definition read_text :: "disk \<Rightarrow> path \<Rightarrow> py_exc + string" where
  \<comment> \<open>text mode turns every line end into a line feed\<close>
  "read_text d p = (case bytes_at d p of
       None \<Rightarrow> Inl OSError
     | Some b \<Rightarrow> (if utf8_ok b then Inr (normalize_newlines b) else Inl ValueError))"

definition put_node :: "path \<Rightarrow> node \<Rightarrow> disk \<Rightarrow> disk" where
  "put_node p n d = AList.update p n d"

definition can_write :: "disk \<Rightarrow> path \<Rightarrow> bool" where
  "can_write d p \<longleftrightarrow> p \<noteq> [] \<and> node_at d (butlast p) = Some Folder \<and>
     (case node_at d p of None \<Rightarrow> True | Some (File b t) \<Rightarrow> True | _ \<Rightarrow> False)"

definition write_text :: "int \<Rightarrow> disk \<Rightarrow> path \<Rightarrow> string \<Rightarrow> py_exc + disk" where
  "write_text mt d p s = (if can_write d p then Inr (put_node p (File s mt) d) else Inl OSError)"

fun make_dirs :: "disk \<Rightarrow> path \<Rightarrow> path \<Rightarrow> py_exc + disk" where
  \<comment> \<open>\<open>path.mkdir(parents=True, exist_ok=True)\<close>, one component after the other\<close>
  "make_dirs d base [] = Inr d"
| "make_dirs d base (c # cs) =
     (let q = base @ [c] in
      case node_at d q of
        None \<Rightarrow> make_dirs (put_node q Folder d) q cs
      | Some Folder \<Rightarrow> make_dirs d q cs
      | Some _ \<Rightarrow> Inl OSError)"

definition unlink :: "disk \<Rightarrow> path \<Rightarrow> py_exc + disk" where
  "unlink d p = (case node_at d p of
       None \<Rightarrow> Inl OSError
     | Some Folder \<Rightarrow> Inl OSError
     | Some _ \<Rightarrow> Inr (AList.delete p d))"

section \<open>Walking\<close>

definition posix :: "path \<Rightarrow> string" where
  \<comment> \<open>\<open>rel.as_posix()\<close>\<close>
  "posix p = (if p = [] then ''.'' else join_with ''/'' p)"

definition below :: "path \<Rightarrow> path \<Rightarrow> path" where
  \<comment> \<open>\<open>path.relative_to(base)\<close>, for a path below \<open>base\<close>\<close>
  "below base p = drop (length base) p"

definition ignored_dirs :: "string list" where
  "ignored_dirs = [''.git'', ''.venv'', ''node_modules'', ''__pycache__'', ''.mypy_cache'', ''.pytest_cache'',
     ''.angular'', ''.cache'', ''dist'', ''build'', ''coverage'', ''tmp'', ''temp'', ''scratch'', ''data'', ''cache'',
     ''.fluxion_inbox'', ''.claude'', ''.gemini'', ''.fluxion'']"

definition visible :: "path \<Rightarrow> bool" where
  \<comment> \<open>no pruned directory on the way, and neither an ignored nor a \<open>.DS_Store\<close> file name\<close>
  "visible comps \<longleftrightarrow>
     comps \<noteq> [] \<and> (\<forall>c\<in>set comps. c \<notin> set ignored_dirs) \<and> \<not> prefix ''.DS_Store'' (last comps)"

definition walk :: "path \<Rightarrow> disk \<Rightarrow> path list" where
  \<comment> \<open>the file names \<open>os.walk\<close> yields below \<open>base\<close> that are regular files or links to one\<close>
  "walk base d =
     filter (\<lambda>p. is_within p base \<and> visible (below base p) \<and> stat_at d p \<noteq> None) (remdups (map fst d))"

section \<open>Fingerprints\<close>

text \<open>A snapshot is a dictionary from relative path to size and modification time.\<close>

type_synonym fingerprints = "(string \<times> int \<times> int) list"

definition fingerprint_of :: "path \<Rightarrow> disk \<Rightarrow> path \<Rightarrow> (string \<times> int \<times> int) option" where
  "fingerprint_of base d p = map_option (\<lambda>st. (posix (below base p), st)) (stat_at d p)"

definition take_fingerprints :: "path \<Rightarrow> disk \<Rightarrow> fingerprints" where
  "take_fingerprints base d =
     (if exists_at d base then List.map_filter (fingerprint_of base d) (walk base d) else [])"

record workspace_delta =
  wd_added :: "string list"
  wd_modified :: "string list"
  wd_deleted :: "string list"

definition delta_changed :: "workspace_delta \<Rightarrow> string list" where
  "delta_changed w = wd_added w @ wd_modified w"

definition sorted_keys :: "string list \<Rightarrow> string list" where
  \<comment> \<open>\<open>sorted\<close> of a set\<close>
  "sorted_keys xs = sort (remdups xs)"

definition diff_snapshot :: "fingerprints \<Rightarrow> fingerprints \<Rightarrow> workspace_delta" where
  "diff_snapshot before after = \<lparr>
     wd_added = sorted_keys (filter (\<lambda>k. k \<notin> fst ` set before) (map fst after)),
     wd_modified = sorted_keys (filter (\<lambda>k. k \<in> fst ` set before \<and> map_of before k \<noteq> map_of after k) (map fst after)),
     wd_deleted = sorted_keys (filter (\<lambda>k. k \<notin> fst ` set after) (map fst before)) \<rparr>"

section \<open>Facts about the disk\<close>

named_theorems disk_simps \<open>what reads see after writes\<close>

definition no_links :: "disk \<Rightarrow> bool" where
  "no_links d \<longleftrightarrow> (\<forall>n\<in>snd ` set d. \<forall>q. n \<noteq> Link q)"

lemma no_linksD: "no_links d \<Longrightarrow> node_at d p \<noteq> Some (Link q)"
  unfolding no_links_def node_at_def by (auto split: if_splits dest!: map_of_SomeD)

lemma follow_plain [disk_simps]: "no_links d \<Longrightarrow> follow d p = p"
  by (auto simp: follow_def dest: no_linksD split: option.splits node.splits)

lemma node_at_put [simp]:
  "p \<noteq> [] \<Longrightarrow> node_at (put_node p n d) q = (if q = p then Some n else node_at d q)"
  by (simp add: node_at_def put_node_def update_conv')

lemma node_at_delete [simp]: "p \<noteq> [] \<Longrightarrow> node_at (AList.delete p d) q = (if q = p then None else node_at d q)"
  by (simp add: node_at_def delete_conv')

lemma no_links_put: "no_links d \<Longrightarrow> (\<And>q. n \<noteq> Link q) \<Longrightarrow> no_links (put_node p n d)"
  unfolding no_links_def put_node_def by (induction d) (auto split: if_splits)

lemma no_links_delete: "no_links d \<Longrightarrow> no_links (AList.delete p d)"
  by (auto simp: no_links_def AList.delete_eq)

lemma bytes_plain [disk_simps]:
  "no_links d \<Longrightarrow> bytes_at d p = (case node_at d p of Some (File b t) \<Rightarrow> Some b | _ \<Rightarrow> None)"
  by (simp add: bytes_at_def follow_plain)

lemma exists_plain [disk_simps]: "no_links d \<Longrightarrow> exists_at d p = (node_at d p \<noteq> None)"
  by (simp add: exists_at_def follow_plain)

lemma can_write_ne: "can_write d p \<Longrightarrow> p \<noteq> []"
  by (simp add: can_write_def)

lemma unlink_ne: "unlink d p = Inr d' \<Longrightarrow> p \<noteq> []"
  by (auto simp: unlink_def node_at_def)

lemma write_text_bytes:
  assumes "write_text mt d p s = Inr d'" and "no_links d"
  shows "bytes_at d' q = (if q = p then Some s else bytes_at d q)" "no_links d'"
proof -
  have p: "p \<noteq> []" and d': "d' = put_node p (File s mt) d"
    using assms(1) by (auto simp: write_text_def can_write_ne split: if_splits)
  show "no_links d'" using assms(2) by (simp add: d' no_links_put)
  then show "bytes_at d' q = (if q = p then Some s else bytes_at d q)"
    using assms(2) p by (simp add: bytes_plain d')
qed

lemma unlink_bytes:
  assumes "unlink d p = Inr d'" and "no_links d"
  shows "bytes_at d' q = (if q = p then None else bytes_at d q)" "no_links d'"
proof -
  have p: "p \<noteq> []" and d': "d' = AList.delete p d"
    using assms(1) unlink_ne by (auto simp: unlink_def split: option.splits node.splits)
  show "no_links d'" using assms(2) by (simp add: d' no_links_delete)
  then show "bytes_at d' q = (if q = p then None else bytes_at d q)"
    using assms(2) p by (simp add: bytes_plain d')
qed

lemma make_dirs_keeps:
  assumes "make_dirs d base cs = Inr d'" and "no_links d"
  shows "no_links d' \<and> (\<forall>q. node_at d' q = node_at d q \<or> node_at d q = None \<and> node_at d' q = Some Folder)"
  using assms
proof (induction d base cs rule: make_dirs.induct)
  case (1 d base)
  then show ?case by simp
next
  case (2 d base c cs)
  let ?q = "base @ [c]"
  show ?case
  proof (cases "node_at d ?q")
    case None
    then have "make_dirs (put_node ?q Folder d) ?q cs = Inr d'" using "2.prems" by (simp add: Let_def)
    then have "no_links d' \<and> (\<forall>q. node_at d' q = node_at (put_node ?q Folder d) q \<or>
        node_at (put_node ?q Folder d) q = None \<and> node_at d' q = Some Folder)"
      using "2.IH"(1) [OF refl None] "2.prems"(2) by (simp add: no_links_put)
    then show ?thesis using None by (auto split: if_splits)
  next
    case (Some n)
    then have "n = Folder" "make_dirs d ?q cs = Inr d'" using "2.prems" by (auto simp: Let_def split: node.splits)
    then show ?thesis using "2.IH"(2) [OF refl Some] "2.prems"(2) by simp
  qed
qed

lemma make_dirs_bytes: "make_dirs d base cs = Inr d' \<Longrightarrow> no_links d \<Longrightarrow> bytes_at d' q = bytes_at d q"
proof -
  assume a: "make_dirs d base cs = Inr d'" "no_links d"
  then have n: "no_links d'"
    and "node_at d' q = node_at d q \<or> node_at d q = None \<and> node_at d' q = Some Folder"
    using make_dirs_keeps by blast+
  then show ?thesis using a(2) by (auto simp: bytes_plain)
qed

lemma make_dirs_ok:
  assumes "\<forall>k. node_at d (base @ take k cs) \<in> {None, Some Folder}"
  shows "\<exists>d'. make_dirs d base cs = Inr d' \<and> (node_at d base = Some Folder \<longrightarrow> node_at d' (base @ cs) = Some Folder)"
  using assms
proof (induction d base cs rule: make_dirs.induct)
  case (1 d base)
  then show ?case by simp
next
  case (2 d base c cs)
  let ?q = "base @ [c]"
  have k: "node_at d (?q @ take k cs) \<in> {None, Some Folder}" for k
    using "2.prems" [rule_format, of "Suc k"] by simp
  show ?case
  proof (cases "node_at d ?q")
    case None
    have "\<forall>k. node_at (put_node ?q Folder d) (?q @ take k cs) \<in> {None, Some Folder}"
      using k by (metis insertI1 insertI2 node_at_put snoc_eq_iff_butlast)
    then obtain d' where "make_dirs (put_node ?q Folder d) ?q cs = Inr d'"
        "node_at (put_node ?q Folder d) ?q = Some Folder \<longrightarrow> node_at d' (?q @ cs) = Some Folder"
      using "2.IH"(1) [OF refl None] by blast
    then show ?thesis using None by (simp add: Let_def)
  next
    case (Some n)
    then have n: "n = Folder" using k [of 0] by simp
    obtain d' where "make_dirs d ?q cs = Inr d'"
        "node_at d ?q = Some Folder \<longrightarrow> node_at d' (?q @ cs) = Some Folder"
      using "2.IH"(2) [OF refl Some n] k by blast
    then show ?thesis using Some n by (simp add: Let_def)
  qed
qed

text \<open>A fingerprint difference lists exactly the paths whose fingerprint differs.\<close>

lemma set_sorted_keys [simp]: "set (sorted_keys xs) = set xs"
  by (simp add: sorted_keys_def)

lemma distinct_sorted_keys [simp]: "distinct (sorted_keys xs)"
  by (simp add: sorted_keys_def)

lemma diff_complete:
  "map_of before k \<noteq> map_of after k \<longleftrightarrow>
     k \<in> set (delta_changed (diff_snapshot before after)) \<union> set (wd_deleted (diff_snapshot before after))"
proof -
  have "k \<in> fst ` set before \<longleftrightarrow> map_of before k \<noteq> None" "k \<in> fst ` set after \<longleftrightarrow> map_of after k \<noteq> None"
    by (simp_all add: map_of_eq_None_iff)
  then show ?thesis
    by (cases "map_of before k"; cases "map_of after k") (simp_all add: delta_changed_def diff_snapshot_def)
qed

end
