(* ===== verification/ChangeSets.thy ===== *)
theory ChangeSets
  imports WorkspaceDisk
begin

text \<open>
  Content snapshots and change sets (\<open>workspace/change_set.py\<close>): capturing the files of a workspace
  within the byte budgets, the changes between two snapshots, the changes an executor's stream
  reports, and the file a change set is kept in. The workspace root is the resolved path; \<open>now\<close>
  is the text of the current time.
\<close>

section \<open>Content snapshots\<close>

record content_entry =
  ce_path :: string
  ce_exists :: bool
  ce_size :: int
  ce_mtime :: int
  ce_sha :: string
  ce_text :: bool
  ce_content :: "string option"
  ce_skipped :: string

record content_snapshot =
  sn_workspace :: string
  sn_created :: string
  sn_files :: "(string \<times> content_entry) list"
  sn_captured :: int
  sn_truncated :: bool

text \<open>The loop's state: \<open>files\<close>, \<open>captured_bytes\<close> and \<open>truncated\<close>.\<close>

record capture =
  cap_files :: "(string \<times> content_entry) list"
  cap_bytes :: int
  cap_truncated :: bool

datatype capture_result = Captured | Skipped string | OverTotal string

definition classify :: "int \<Rightarrow> int \<Rightarrow> int \<Rightarrow> string \<Rightarrow> capture_result" where
  "classify max_file max_total captured raw =
     (let n = int (length raw) in
      if char_of (0::nat) \<in> set (take 4096 raw) then Skipped ''binary''
      else if n > max_file then Skipped (''larger than max_file_bytes='' @ show_int max_file)
      else if captured + n > max_total then OverTotal (''snapshot exceeds max_total_bytes='' @ show_int max_total)
      else if utf8_ok raw then Captured
      else Skipped ''non-utf8'')"

definition capture_file :: "fs \<Rightarrow> int \<Rightarrow> int \<Rightarrow> path \<Rightarrow> disk \<Rightarrow> path \<Rightarrow> capture \<Rightarrow> capture" where
  "capture_file fs max_file max_total base d p s =
     (case (stat_at d p, bytes_at d p) of
        (Some (n, mt), Some raw) \<Rightarrow>
          (let rel = posix (below base p);
               r = classify max_file max_total (cap_bytes s) raw;
               entry = \<lparr> ce_path = rel, ce_exists = True, ce_size = n, ce_mtime = mt,
                 ce_sha = fs_sha256 fs raw, ce_text = (r = Captured),
                 ce_content = (if r = Captured then Some raw else None),
                 ce_skipped = (case r of Captured \<Rightarrow> [] | Skipped w \<Rightarrow> w | OverTotal w \<Rightarrow> w) \<rparr> in
           \<lparr> cap_files = AList.update rel entry (cap_files s),
             cap_bytes = (if r = Captured then cap_bytes s + n else cap_bytes s),
             cap_truncated = (case r of OverTotal w \<Rightarrow> True | _ \<Rightarrow> cap_truncated s) \<rparr>)
      | _ \<Rightarrow> s)"

definition capture_all :: "fs \<Rightarrow> int \<Rightarrow> int \<Rightarrow> path \<Rightarrow> disk \<Rightarrow> path list \<Rightarrow> capture" where
  "capture_all fs max_file max_total base d ps =
     fold (capture_file fs max_file max_total base d) ps \<lparr> cap_files = [], cap_bytes = 0, cap_truncated = False \<rparr>"

definition take_content_snapshot ::
    "fs \<Rightarrow> string \<Rightarrow> int \<Rightarrow> int \<Rightarrow> path \<Rightarrow> disk \<Rightarrow> content_snapshot" where
  "take_content_snapshot fs now max_file max_total base d =
     (let s = (if exists_at d base then capture_all fs max_file max_total base d (sort (walk base d))
               else \<lparr> cap_files = [], cap_bytes = 0, cap_truncated = False \<rparr>) in
      \<lparr> sn_workspace = str_path base, sn_created = now, sn_files = cap_files s,
        sn_captured = cap_bytes s, sn_truncated = cap_truncated s \<rparr>)"

section \<open>Changes\<close>

text \<open>The contents are \<open>str | None\<close>, but a change read back from its file keeps any JSON value.\<close>

record file_change =
  fc_path :: string
  fc_type :: string
  fc_old_sha :: string
  fc_new_sha :: string
  fc_old_size :: int
  fc_new_size :: int
  fc_old_content :: json
  fc_new_content :: json
  fc_recoverable :: bool
  fc_skipped :: string
  fc_edits :: "dict list"

record change_set =
  ch_run :: string
  ch_workspace :: string
  ch_status :: string
  ch_created :: string
  ch_changed :: "string list"
  ch_recoverable :: "string list"
  ch_unrecoverable :: "string list"
  ch_files :: "file_change list"

definition file_change_defaults :: "string \<Rightarrow> string \<Rightarrow> file_change" where
  "file_change_defaults p ty = \<lparr> fc_path = p, fc_type = ty, fc_old_sha = [], fc_new_sha = [], fc_old_size = 0,
     fc_new_size = 0, fc_old_content = JNull, fc_new_content = JNull, fc_recoverable = True, fc_skipped = [],
     fc_edits = [] \<rparr>"

fun text_json :: "string option \<Rightarrow> json" where
  "text_json None = JNull"
| "text_json (Some s) = JStr s"

definition has_changes :: "change_set \<Rightarrow> bool" where
  "has_changes c \<longleftrightarrow> ch_files c \<noteq> []"

definition added_change :: "string \<Rightarrow> content_entry \<Rightarrow> file_change" where
  "added_change p new = (file_change_defaults p ''added'')
     \<lparr> fc_new_sha := ce_sha new, fc_new_size := ce_size new, fc_new_content := text_json (ce_content new),
       fc_recoverable := True, fc_skipped := ce_skipped new \<rparr>"

definition deleted_change :: "string \<Rightarrow> content_entry \<Rightarrow> file_change" where
  "deleted_change p old =
     (let recoverable = ce_content old \<noteq> None in
      (file_change_defaults p ''deleted'')
        \<lparr> fc_old_sha := ce_sha old, fc_old_size := ce_size old, fc_old_content := text_json (ce_content old),
          fc_recoverable := recoverable,
          fc_skipped := (if recoverable then [] else str_or (ce_skipped old) ''old content not captured'') \<rparr>)"

definition modified_change :: "string \<Rightarrow> content_entry \<Rightarrow> content_entry \<Rightarrow> file_change" where
  "modified_change p old new =
     (let recoverable = ce_content old \<noteq> None \<and> ce_content new \<noteq> None;
          reason = join_with ''; '' (filter (\<lambda>r. r \<noteq> []) [ce_skipped old, ce_skipped new]) in
      (file_change_defaults p ''modified'')
        \<lparr> fc_old_sha := ce_sha old, fc_new_sha := ce_sha new, fc_old_size := ce_size old,
          fc_new_size := ce_size new, fc_old_content := text_json (ce_content old),
          fc_new_content := text_json (ce_content new), fc_recoverable := recoverable,
          fc_skipped := (if recoverable then [] else str_or reason ''content not captured'') \<rparr>)"

fun change_of :: "string \<Rightarrow> content_entry option \<Rightarrow> content_entry option \<Rightarrow> file_change option" where
  "change_of p None (Some new) = Some (added_change p new)"
| "change_of p (Some old) None = Some (deleted_change p old)"
| "change_of p (Some old) (Some new) = Some (modified_change p old new)"
| "change_of p None None = None"

definition changed_paths :: "(string \<times> content_entry) list \<Rightarrow> (string \<times> content_entry) list \<Rightarrow> string list" where
  "changed_paths before after = sorted_keys
     (filter (\<lambda>k. k \<notin> fst ` set before) (map fst after) @
      filter (\<lambda>k. k \<notin> fst ` set after) (map fst before) @
      filter (\<lambda>k. k \<in> fst ` set after \<and> map_option ce_sha (map_of before k) \<noteq> map_option ce_sha (map_of after k))
        (map fst before))"

definition build_change_set ::
    "string \<Rightarrow> string \<Rightarrow> path \<Rightarrow> string \<Rightarrow> content_snapshot \<Rightarrow> content_snapshot \<Rightarrow> change_set" where
  "build_change_set now run_id base status before after =
     (let paths = changed_paths (sn_files before) (sn_files after);
          changes = List.map_filter (\<lambda>p. change_of p (map_of (sn_files before) p) (map_of (sn_files after) p)) paths in
      \<lparr> ch_run = run_id, ch_workspace = str_path base, ch_status = status, ch_created = now,
        ch_changed = paths,
        ch_recoverable = map fc_path (filter fc_recoverable changes),
        ch_unrecoverable = map fc_path (filter (\<lambda>c. \<not> fc_recoverable c) changes),
        ch_files = changes \<rparr>)"

section \<open>Changes an executor reports\<close>

record op_state =
  os_created :: bool
  os_overwritten :: bool
  os_deleted :: bool
  os_edits :: "dict list"

definition join_resolve :: "fs \<Rightarrow> disk \<Rightarrow> path \<Rightarrow> string \<Rightarrow> path option" where
  \<comment> \<open>\<open>(base / raw).resolve()\<close>; \<open>None\<close> is an \<open>OSError\<close> or \<open>ValueError\<close>\<close>
  "join_resolve fs d base raw =
     map_option (follow d) (fs_resolve fs (if prefix ''/'' raw then raw else str_path base @ ''/'' @ raw))"

definition normalize_change_path :: "fs \<Rightarrow> disk \<Rightarrow> path \<Rightarrow> json \<Rightarrow> py_exc + string" where
  \<comment> \<open>\<open>expanduser\<close> raises \<open>RuntimeError\<close>, which is not caught\<close>
  "normalize_change_path fs d base raw =
     (case raw of
        JStr s \<Rightarrow>
          (if strip s = [] then Inr []
           else (case fs_expanduser fs s of
               None \<Rightarrow> Inl RuntimeError
             | Some v \<Rightarrow>
                 (case join_resolve fs d base v of
                    None \<Rightarrow> Inr []
                  | Some p \<Rightarrow>
                      (let value = posix (below base p) in
                       if \<not> is_within p base \<or> value = [] \<or> value = ''.'' \<or> prefix ''../'' value then Inr []
                       else Inr value))))
      | _ \<Rightarrow> Inr [])"

definition is_str :: "json \<Rightarrow> bool" where
  "is_str v = (case v of JStr s \<Rightarrow> True | _ \<Rightarrow> False)"

definition is_valid_edit :: "dict \<Rightarrow> bool" where
  "is_valid_edit e \<longleftrightarrow> is_str (dget e ''old'') \<and> is_str (dget e ''new'')"

definition read_after :: "fs \<Rightarrow> disk \<Rightarrow> path \<Rightarrow> (string \<times> string option \<times> int) option" where
  "read_after fs d p = (case bytes_at d p of
       None \<Rightarrow> None
     | Some raw \<Rightarrow> Some (fs_sha256 fs raw, (if utf8_ok raw then Some raw else None), int (length raw)))"

definition full_capture_hint :: string where
  "full_capture_hint = ''prior content not captured; set FLUXION_REVERT_CAPTURE=full to enable revert''"

definition note_op :: "string \<Rightarrow> dict list \<Rightarrow> op_state \<Rightarrow> op_state" where
  "note_op kind edits e =
     (if kind = ''create'' \<or> kind = ''add'' then e\<lparr> os_created := True, os_deleted := False \<rparr>
      else if kind = ''overwrite'' \<or> kind = ''update'' then e\<lparr> os_overwritten := True \<rparr>
      else if kind = ''delete'' then e\<lparr> os_deleted := True \<rparr>
      else if kind = ''edit'' then e\<lparr> os_edits := os_edits e @ edits \<rparr>
      else e)"

definition op_edits :: "string \<Rightarrow> dict \<Rightarrow> py_exc + dict list" where
  \<comment> \<open>only an \<open>edit\<close> reads them\<close>
  "op_edits kind op =
     (if kind = ''edit''
      then (case iter_json (py_or (dget op ''edits'') (JList [])) of Inl e \<Rightarrow> Inl e | Inr xs \<Rightarrow> Inr (dicts_of xs))
      else Inr [])"

text \<open>The loop's state, \<open>order\<close> and \<open>state\<close>, is one list of pairs in order of first mention.\<close>

definition new_op :: op_state where
  "new_op = \<lparr> os_created = False, os_overwritten = False, os_deleted = False, os_edits = [] \<rparr>"

definition stream_op :: "fs \<Rightarrow> disk \<Rightarrow> path \<Rightarrow> json \<Rightarrow> (string \<times> op_state) list \<Rightarrow> py_exc + (string \<times> op_state) list" where
  "stream_op fs d base v st =
     (case v of
        JDict op \<Rightarrow>
          (let kind = lower (strip (py_str (fs_repr fs) (py_or (dget op ''op'') (JStr [])))) in
           case normalize_change_path fs d base (dget op ''path'') of
             Inl e \<Rightarrow> Inl e
           | Inr rel \<Rightarrow>
               (if rel = [] \<or> kind = [] then Inr st
                else (case op_edits kind op of
                    Inl e \<Rightarrow> Inl e
                  | Inr edits \<Rightarrow>
                      Inr (AList.update rel (note_op kind edits (or_default (map_of st rel) new_op)) st))))
      | _ \<Rightarrow> Inr st)"

fun stream_ops :: "fs \<Rightarrow> disk \<Rightarrow> path \<Rightarrow> json list \<Rightarrow> (string \<times> op_state) list \<Rightarrow> py_exc + (string \<times> op_state) list" where
  "stream_ops fs d base [] st = Inr st"
| "stream_ops fs d base (v # vs) st =
     (case stream_op fs d base v st of Inl e \<Rightarrow> Inl e | Inr st' \<Rightarrow> stream_ops fs d base vs st')"

definition created_change :: "string \<Rightarrow> (string \<times> string option \<times> int) option \<Rightarrow> file_change" where
  "created_change rel after = (case after of
       None \<Rightarrow> (file_change_defaults rel ''added'')\<lparr> fc_recoverable := False,
         fc_skipped := ''created file is no longer readable; cannot verify before revert'' \<rparr>
     | Some (sha, content, n) \<Rightarrow> (file_change_defaults rel ''added'')\<lparr> fc_new_sha := sha, fc_new_size := n,
         fc_new_content := text_json content, fc_recoverable := True \<rparr>)"

definition edited_change :: "string \<Rightarrow> dict list \<Rightarrow> (string \<times> string option \<times> int) option \<Rightarrow> file_change" where
  "edited_change rel edits after = (case after of
       None \<Rightarrow> (file_change_defaults rel ''edited'')\<lparr> fc_edits := edits, fc_recoverable := False,
         fc_skipped := ''edited file is no longer readable; cannot verify before revert'' \<rparr>
     | Some (sha, content, n) \<Rightarrow> (file_change_defaults rel ''edited'')\<lparr> fc_new_sha := sha, fc_new_size := n,
         fc_edits := edits, fc_recoverable := True \<rparr>)"

definition stream_file_change :: "fs \<Rightarrow> disk \<Rightarrow> path \<Rightarrow> string \<Rightarrow> op_state \<Rightarrow> file_change option" where
  "stream_file_change fs d base rel e =
     (let edits = filter is_valid_edit (os_edits e);
          after = (case join_resolve fs d base rel of
              None \<Rightarrow> None
            | Some p \<Rightarrow> (if is_within p base then read_after fs d p else None)) in
      if os_deleted e \<and> \<not> os_created e
      then Some ((file_change_defaults rel ''deleted'')\<lparr> fc_recoverable := False,
             fc_skipped := ''file deleted; '' @ full_capture_hint \<rparr>)
      else if os_deleted e \<and> os_created e then None
      else if os_created e then Some (created_change rel after)
      else if os_overwritten e
      then Some ((file_change_defaults rel ''modified'')\<lparr> fc_recoverable := False,
             fc_skipped := ''file overwritten; '' @ full_capture_hint \<rparr>)
      else if edits \<noteq> [] then Some (edited_change rel edits after)
      else None)"

definition build_stream_change_set ::
    "fs \<Rightarrow> disk \<Rightarrow> string \<Rightarrow> string \<Rightarrow> path \<Rightarrow> string \<Rightarrow> json list \<Rightarrow> py_exc + change_set" where
  "build_stream_change_set fs d now run_id base status operations =
     (case stream_ops fs d base operations [] of
        Inl e \<Rightarrow> Inl e
      | Inr st \<Rightarrow>
          (let changes = List.map_filter (\<lambda>(rel, e). stream_file_change fs d base rel e) st in
           Inr \<lparr> ch_run = run_id, ch_workspace = str_path base, ch_status = status, ch_created = now,
             ch_changed = map fc_path changes,
             ch_recoverable = map fc_path (filter fc_recoverable changes),
             ch_unrecoverable = map fc_path (filter (\<lambda>c. \<not> fc_recoverable c) changes),
             ch_files = changes \<rparr>))"

section \<open>The change set's file\<close>

definition change_to_dict :: "file_change \<Rightarrow> dict" where
  "change_to_dict c =
     [(''path'', JStr (fc_path c)), (''change_type'', JStr (fc_type c)), (''old_sha256'', JStr (fc_old_sha c)),
      (''new_sha256'', JStr (fc_new_sha c)), (''old_size'', JInt (fc_old_size c)), (''new_size'', JInt (fc_new_size c)),
      (''old_content'', fc_old_content c), (''new_content'', fc_new_content c),
      (''recoverable'', JBool (fc_recoverable c)), (''skipped_reason'', JStr (fc_skipped c)),
      (''edits'', JList (map JDict (fc_edits c)))]"

definition change_set_to_dict :: "change_set \<Rightarrow> dict" where
  "change_set_to_dict c =
     [(''run_id'', JStr (ch_run c)), (''workspace'', JStr (ch_workspace c)), (''status'', JStr (ch_status c)),
      (''created_at'', JStr (ch_created c)), (''changed_files'', JList (map JStr (ch_changed c))),
      (''recoverable_files'', JList (map JStr (ch_recoverable c))),
      (''unrecoverable_files'', JList (map JStr (ch_unrecoverable c))),
      (''files'', JList (map (JDict \<circ> change_to_dict) (ch_files c)))]"

definition opt_text :: "fs \<Rightarrow> dict \<Rightarrow> string \<Rightarrow> string" where
  \<comment> \<open>\<open>str(item.get(key, ""))\<close>\<close>
  "opt_text fs d k = py_str (fs_repr fs) (dget_or d k (JStr []))"

definition opt_size :: "dict \<Rightarrow> string \<Rightarrow> py_exc + int" where
  \<comment> \<open>\<open>int(item.get(key, 0) or 0)\<close>\<close>
  "opt_size d k = py_to_int (py_or (dget_or d k (JInt 0)) (JInt 0))"

definition change_from_dict :: "fs \<Rightarrow> dict \<Rightarrow> py_exc + file_change" where
  "change_from_dict fs d =
     (case opt_size d ''old_size'' of Inl e \<Rightarrow> Inl e | Inr old_size \<Rightarrow>
     (case opt_size d ''new_size'' of Inl e \<Rightarrow> Inl e | Inr new_size \<Rightarrow>
     (case iter_json (dget_or d ''edits'' (JList [])) of Inl e \<Rightarrow> Inl e | Inr edits \<Rightarrow>
        Inr \<lparr> fc_path = opt_text fs d ''path'', fc_type = opt_text fs d ''change_type'',
          fc_old_sha = opt_text fs d ''old_sha256'', fc_new_sha = opt_text fs d ''new_sha256'',
          fc_old_size = old_size, fc_new_size = new_size, fc_old_content = dget d ''old_content'',
          fc_new_content = dget d ''new_content'', fc_recoverable = truthy (dget_or d ''recoverable'' (JBool True)),
          fc_skipped = opt_text fs d ''skipped_reason'', fc_edits = dicts_of edits \<rparr>)))"

fun changes_from_dicts :: "fs \<Rightarrow> dict list \<Rightarrow> py_exc + file_change list" where
  "changes_from_dicts fs [] = Inr []"
| "changes_from_dicts fs (d # ds) =
     (case change_from_dict fs d of Inl e \<Rightarrow> Inl e | Inr c \<Rightarrow>
     (case changes_from_dicts fs ds of Inl e \<Rightarrow> Inl e | Inr cs \<Rightarrow> Inr (c # cs)))"

definition text_list :: "fs \<Rightarrow> dict \<Rightarrow> string \<Rightarrow> py_exc + string list" where
  "text_list fs d k =
     (case iter_json (dget_or d k (JList [])) of Inl e \<Rightarrow> Inl e | Inr xs \<Rightarrow> Inr (map (py_str (fs_repr fs)) xs))"

definition change_set_from_dict :: "fs \<Rightarrow> dict \<Rightarrow> py_exc + change_set" where
  "change_set_from_dict fs d =
     (case iter_json (dget_or d ''files'' (JList [])) of Inl e \<Rightarrow> Inl e | Inr items \<Rightarrow>
     (case changes_from_dicts fs (dicts_of items) of Inl e \<Rightarrow> Inl e | Inr files \<Rightarrow>
     (case text_list fs d ''changed_files'' of Inl e \<Rightarrow> Inl e | Inr changed \<Rightarrow>
     (case text_list fs d ''recoverable_files'' of Inl e \<Rightarrow> Inl e | Inr recoverable \<Rightarrow>
     (case text_list fs d ''unrecoverable_files'' of Inl e \<Rightarrow> Inl e | Inr unrecoverable \<Rightarrow>
        Inr \<lparr> ch_run = opt_text fs d ''run_id'', ch_workspace = opt_text fs d ''workspace'',
          ch_status = opt_text fs d ''status'', ch_created = opt_text fs d ''created_at'',
          ch_changed = changed, ch_recoverable = recoverable, ch_unrecoverable = unrecoverable,
          ch_files = files \<rparr>)))))"

text \<open>The directory of change sets, by run id; \<open>None\<close> stands for a file that is not JSON.\<close>

type_synonym change_store = "(string \<times> json option) list"

definition save_change_set :: "change_set \<Rightarrow> change_store \<Rightarrow> change_store" where
  "save_change_set c store = AList.update (ch_run c) (Some (JDict (change_set_to_dict c))) store"

definition load_change_set :: "fs \<Rightarrow> change_store \<Rightarrow> string \<Rightarrow> py_exc + change_set option" where
  "load_change_set fs store run_id =
     (case map_of store run_id of
        None \<Rightarrow> Inr None
      | Some None \<Rightarrow> Inl ValueError
      | Some (Some (JDict d)) \<Rightarrow>
          (case change_set_from_dict fs d of Inl e \<Rightarrow> Inl e | Inr c \<Rightarrow> Inr (Some c))
      | Some (Some _) \<Rightarrow> Inl AttributeError)"

end
