(* ===== verification/SnapshotFacts.thy ===== *)
theory SnapshotFacts
  imports ChangeSets
begin

text \<open>
  What a content snapshot holds: the budget, the entry of each file, and the change set two
  snapshots give. A change set reads back from its file as it was written.
\<close>

section \<open>Round trip\<close>

lemma opt_size_int [simp]: "map_of d k = Some (JInt n) \<Longrightarrow> opt_size d k = Inr n"
  by (simp add: opt_size_def dget_or_def py_or_def)

lemma opt_text_str [simp]: "map_of d k = Some (JStr s) \<Longrightarrow> opt_text fs d k = s"
  by (simp add: opt_text_def dget_or_def)

lemma text_list_strs [simp]: "map_of d k = Some (JList (map JStr xs)) \<Longrightarrow> text_list fs d k = Inr xs"
  by (simp add: text_list_def dget_or_def o_def)

lemma change_round_trip [simp]: "change_from_dict fs (change_to_dict c) = Inr c"
proof -
  let ?d = "change_to_dict c"
  have "dget_or ?d ''edits'' (JList []) = JList (map JDict (fc_edits c))"
    "dget_or ?d ''recoverable'' (JBool True) = JBool (fc_recoverable c)"
    "dget ?d ''old_content'' = fc_old_content c" "dget ?d ''new_content'' = fc_new_content c"
    by (simp_all add: change_to_dict_def)
  moreover have "opt_size ?d ''old_size'' = Inr (fc_old_size c)" "opt_size ?d ''new_size'' = Inr (fc_new_size c)"
    by (simp_all add: change_to_dict_def)
  moreover have "opt_text fs ?d ''path'' = fc_path c" "opt_text fs ?d ''change_type'' = fc_type c"
    "opt_text fs ?d ''old_sha256'' = fc_old_sha c" "opt_text fs ?d ''new_sha256'' = fc_new_sha c"
    "opt_text fs ?d ''skipped_reason'' = fc_skipped c"
    by (simp_all add: change_to_dict_def)
  ultimately show ?thesis by (simp add: change_from_dict_def)
qed

lemma changes_round_trip [simp]: "changes_from_dicts fs (map change_to_dict cs) = Inr cs"
  by (induction cs) simp_all

lemma dicts_of_comp [simp]: "dicts_of (map (JDict \<circ> f) xs) = map f xs"
  by (induction xs) simp_all

lemma change_set_round_trip [simp]: "change_set_from_dict fs (change_set_to_dict c) = Inr c"
proof -
  let ?d = "change_set_to_dict c"
  have "dget_or ?d ''files'' (JList []) = JList (map JDict (map change_to_dict (ch_files c)))"
    by (simp add: change_set_to_dict_def o_def)
  moreover have "text_list fs ?d ''changed_files'' = Inr (ch_changed c)"
    "text_list fs ?d ''recoverable_files'' = Inr (ch_recoverable c)"
    "text_list fs ?d ''unrecoverable_files'' = Inr (ch_unrecoverable c)"
    by (simp_all add: change_set_to_dict_def)
  moreover have "opt_text fs ?d ''run_id'' = ch_run c" "opt_text fs ?d ''workspace'' = ch_workspace c"
    "opt_text fs ?d ''status'' = ch_status c" "opt_text fs ?d ''created_at'' = ch_created c"
    by (simp_all add: change_set_to_dict_def)
  ultimately show ?thesis by (simp add: change_set_from_dict_def)
qed

text \<open>a change set that was saved is loaded under its run id exactly as it was built, whatever
  its paths, contents and edits are, and saving one leaves the change sets of other runs alone.\<close>

lemma change_set_saved:
  "load_change_set fs (save_change_set c store) run_id =
     (if run_id = ch_run c then Inr (Some c) else load_change_set fs store run_id)"
  by (simp add: load_change_set_def save_change_set_def update_conv')

section \<open>Budgets\<close>

definition held_bytes :: "(string \<times> content_entry) list \<Rightarrow> int" where
  "held_bytes files = sum_list (map (\<lambda>(k, e). case ce_content e of None \<Rightarrow> 0 | Some s \<Rightarrow> int (length s)) files)"

definition entry_size :: "content_entry \<Rightarrow> int" where
  "entry_size e = (case ce_content e of None \<Rightarrow> 0 | Some s \<Rightarrow> int (length s))"

lemma held_bytes_Cons: "held_bytes ((k, e) # files) = entry_size e + held_bytes files"
  by (simp add: held_bytes_def entry_size_def)

lemma held_bytes_update: "held_bytes (AList.update k e files) \<le> held_bytes files + entry_size e"
proof (induction files)
  case Nil
  then show ?case by (simp add: held_bytes_Cons)
next
  case (Cons a files)
  obtain j f where a: "a = (j, f)" by (cases a)
  have "0 \<le> entry_size f" by (simp add: entry_size_def split: option.splits)
  with Cons show ?case by (simp add: a held_bytes_Cons)
qed

definition sound_entry :: "fs \<Rightarrow> int \<Rightarrow> content_entry \<Rightarrow> bool" where
  \<comment> \<open>a captured content is the whole file: within the limit, valid text, with the recorded hash\<close>
  "sound_entry fs max_file e \<longleftrightarrow> (case ce_content e of
       None \<Rightarrow> ce_skipped e \<noteq> [] \<and> \<not> ce_text e
     | Some s \<Rightarrow> int (length s) = ce_size e \<and> ce_size e \<le> max_file \<and> utf8_ok s \<and> ce_sha e = fs_sha256 fs s \<and> ce_text e)"

definition within_budget :: "fs \<Rightarrow> int \<Rightarrow> int \<Rightarrow> capture \<Rightarrow> bool" where
  "within_budget fs max_file max_total s \<longleftrightarrow>
     held_bytes (cap_files s) \<le> cap_bytes s \<and> cap_bytes s \<le> max 0 max_total \<and>
     list_all (\<lambda>(k, e). sound_entry fs max_file e) (cap_files s)"

lemma list_all_update: "P (k, e) \<Longrightarrow> list_all P files \<Longrightarrow> list_all P (AList.update k e files)"
  by (induction files) auto

lemma classify_cases:
  "classify max_file max_total n raw = Captured \<Longrightarrow>
     int (length raw) \<le> max_file \<and> n + int (length raw) \<le> max_total \<and> utf8_ok raw"
  "classify max_file max_total n raw = Skipped w \<Longrightarrow> w \<noteq> []"
  "classify max_file max_total n raw = OverTotal w \<Longrightarrow> w \<noteq> []"
  by (auto simp: classify_def Let_def split: if_splits)

lemma stat_bytes: "bytes_at d p = Some raw \<Longrightarrow> \<exists>mt. stat_at d p = Some (int (length raw), mt)"
  by (auto simp: bytes_at_def stat_at_def split: option.splits node.splits)

definition in_scope :: "path \<Rightarrow> path \<Rightarrow> bool" where
  "in_scope base p \<longleftrightarrow> is_within p base \<and> visible (below base p)"

definition rel_name :: "path \<Rightarrow> path \<Rightarrow> string" where
  "rel_name base p = posix (below base p)"

definition describes :: "fs \<Rightarrow> string \<Rightarrow> content_entry \<Rightarrow> bool" where
  "describes fs raw e \<longleftrightarrow> ce_sha e = fs_sha256 fs raw \<and> ce_content e \<in> {None, Some raw}"

lemma capture_file_step:
  assumes raw: "bytes_at d p = Some raw"
  shows "\<exists>e. sound_entry fs max_file e \<and> describes fs raw e \<and>
     cap_files (capture_file fs max_file max_total base d p s) = AList.update (rel_name base p) e (cap_files s) \<and>
     cap_bytes (capture_file fs max_file max_total base d p s) = cap_bytes s + entry_size e \<and>
     cap_bytes (capture_file fs max_file max_total base d p s) \<le> max (cap_bytes s) max_total"
proof -
  obtain mt where st: "stat_at d p = Some (int (length raw), mt)" using stat_bytes [OF raw] by blast
  let ?r = "classify max_file max_total (cap_bytes s) raw"
  define e where "e = \<lparr> ce_path = rel_name base p, ce_exists = True, ce_size = int (length raw), ce_mtime = mt,
     ce_sha = fs_sha256 fs raw, ce_text = (?r = Captured), ce_content = (if ?r = Captured then Some raw else None),
     ce_skipped = (case ?r of Captured \<Rightarrow> [] | Skipped w \<Rightarrow> w | OverTotal w \<Rightarrow> w) \<rparr>"
  have f: "cap_files (capture_file fs max_file max_total base d p s) = AList.update (rel_name base p) e (cap_files s)"
    and b: "cap_bytes (capture_file fs max_file max_total base d p s) =
      (if ?r = Captured then cap_bytes s + int (length raw) else cap_bytes s)"
    by (simp_all add: capture_file_def st raw Let_def e_def rel_name_def)
  note c = classify_cases [of max_file max_total "cap_bytes s" raw]
  have "sound_entry fs max_file e"
    using c by (cases ?r) (simp_all add: e_def sound_entry_def)
  moreover have "describes fs raw e" by (simp add: e_def describes_def)
  moreover have "cap_bytes (capture_file fs max_file max_total base d p s) = cap_bytes s + entry_size e"
    by (simp add: b e_def entry_size_def)
  moreover have "cap_bytes (capture_file fs max_file max_total base d p s) \<le> max (cap_bytes s) max_total"
    using c(1) by (auto simp: b le_max_iff_disj)
  ultimately show ?thesis using f by blast
qed

lemma capture_file_skip: "bytes_at d p = None \<Longrightarrow> capture_file fs max_file max_total base d p s = s"
  by (simp add: capture_file_def split: option.splits prod.splits)

lemma capture_file_budget:
  assumes "within_budget fs max_file max_total s"
  shows "within_budget fs max_file max_total (capture_file fs max_file max_total base d p s)"
proof (cases "bytes_at d p")
  case None
  then show ?thesis using assms by (simp add: capture_file_skip)
next
  case (Some raw)
  obtain e where e: "sound_entry fs max_file e"
      "cap_files (capture_file fs max_file max_total base d p s) = AList.update (rel_name base p) e (cap_files s)"
      "cap_bytes (capture_file fs max_file max_total base d p s) = cap_bytes s + entry_size e"
      "cap_bytes (capture_file fs max_file max_total base d p s) \<le> max (cap_bytes s) max_total"
    using capture_file_step [OF Some] by blast
  have "list_all (\<lambda>(k, e). sound_entry fs max_file e) (AList.update (rel_name base p) e (cap_files s))"
    by (rule list_all_update) (use e(1) assms in \<open>simp_all add: within_budget_def\<close>)
  moreover have "held_bytes (AList.update (rel_name base p) e (cap_files s)) \<le> cap_bytes s + entry_size e"
    using held_bytes_update [of "rel_name base p" e "cap_files s"] assms by (simp add: within_budget_def)
  moreover have "cap_bytes s + entry_size e \<le> max 0 max_total"
    using e(3,4) assms by (auto simp: within_budget_def max_def split: if_splits)
  ultimately show ?thesis by (simp add: within_budget_def e(2,3))
qed

lemma fold_keeps: "(\<And>p s. P s \<Longrightarrow> P (f p s)) \<Longrightarrow> P s \<Longrightarrow> P (fold f ps s)"
  by (induction ps arbitrary: s) auto

lemma capture_all_budget: "within_budget fs max_file max_total (capture_all fs max_file max_total base d ps)"
  unfolding capture_all_def
proof (rule fold_keeps)
  show "within_budget fs max_file max_total \<lparr> cap_files = [], cap_bytes = 0, cap_truncated = False \<rparr>"
    by (simp add: within_budget_def held_bytes_def)
qed (rule capture_file_budget)

text \<open>a content snapshot keeps at most \<open>max_total_bytes\<close> of content, counted by what it says it
  captured; a content it keeps is a whole file of valid UTF-8 of at most \<open>max_file_bytes\<close> with
  the recorded hash, and a file without content carries the reason.\<close>

lemma snapshot_within_budget:
  "let s = take_content_snapshot fs now max_file max_total base d in
     held_bytes (sn_files s) \<le> sn_captured s \<and> sn_captured s \<le> max 0 max_total \<and>
     list_all (\<lambda>(k, e). sound_entry fs max_file e) (sn_files s)"
  using capture_all_budget [of fs max_file max_total base d "sort (walk base d)"]
  by (simp add: take_content_snapshot_def Let_def within_budget_def held_bytes_def)

section \<open>The entry of a file\<close>

lemma in_scope_ne: "in_scope base p \<Longrightarrow> p \<noteq> []"
  by (auto simp: in_scope_def visible_def below_def)

lemma in_walk: "p \<in> set (walk base d) \<longleftrightarrow> in_scope base p \<and> stat_at d p \<noteq> None"
proof -
  have "p \<in> fst ` set d" if "in_scope base p" "stat_at d p \<noteq> None"
  proof (rule ccontr)
    assume "p \<notin> fst ` set d"
    then have "map_of d p = None" by (simp add: map_of_eq_None_iff)
    then have "node_at d p = None" using in_scope_ne [OF that(1)] by (simp add: node_at_def)
    then show False using that(2) by (simp add: stat_at_def follow_def)
  qed
  then show ?thesis by (auto simp: walk_def in_scope_def)
qed

lemma capture_files_spec:
  assumes "s' = fold (capture_file fs max_file max_total base d) ps s"
  shows "(map_of (cap_files s') k = Some e \<longrightarrow> map_of (cap_files s) k = Some e \<or>
            (\<exists>p\<in>set ps. \<exists>raw. k = rel_name base p \<and> bytes_at d p = Some raw \<and> describes fs raw e)) \<and>
         (map_of (cap_files s) k \<noteq> None \<or> (\<exists>p\<in>set ps. k = rel_name base p \<and> bytes_at d p \<noteq> None) \<longrightarrow>
            map_of (cap_files s') k \<noteq> None)"
  using assms
proof (induction ps arbitrary: s)
  case Nil
  then show ?case by simp
next
  case (Cons p ps)
  let ?s1 = "capture_file fs max_file max_total base d p s"
  have IH: "(map_of (cap_files s') k = Some e \<longrightarrow> map_of (cap_files ?s1) k = Some e \<or>
            (\<exists>p\<in>set ps. \<exists>raw. k = rel_name base p \<and> bytes_at d p = Some raw \<and> describes fs raw e)) \<and>
         (map_of (cap_files ?s1) k \<noteq> None \<or> (\<exists>p\<in>set ps. k = rel_name base p \<and> bytes_at d p \<noteq> None) \<longrightarrow>
            map_of (cap_files s') k \<noteq> None)"
    by (rule Cons.IH) (simp add: Cons.prems)
  show ?case
  proof (cases "bytes_at d p")
    case None
    then show ?thesis using IH by (auto simp: capture_file_skip)
  next
    case (Some raw)
    obtain f where "cap_files ?s1 = AList.update (rel_name base p) f (cap_files s)" and f: "describes fs raw f"
      using capture_file_step [OF Some] by blast
    then have m: "map_of (cap_files ?s1) = (map_of (cap_files s))(rel_name base p \<mapsto> f)"
      by (simp only: update_conv')
    show ?thesis
    proof (cases "k = rel_name base p")
      case True
      then show ?thesis using IH Some f by (auto simp: m)
    next
      case False
      then show ?thesis using IH by (auto simp: m)
    qed
  qed
qed

lemma snapshot_spec:
  assumes "exists_at d base" and "s = sn_files (take_content_snapshot fs now max_file max_total base d)"
  shows "map_of s k = Some e \<Longrightarrow>
           \<exists>p raw. in_scope base p \<and> k = rel_name base p \<and> bytes_at d p = Some raw \<and> describes fs raw e"
    and "in_scope base p \<Longrightarrow> bytes_at d p \<noteq> None \<Longrightarrow> map_of s (rel_name base p) \<noteq> None"
proof -
  have s: "s = cap_files (fold (capture_file fs max_file max_total base d) (sort (walk base d))
      \<lparr> cap_files = [], cap_bytes = 0, cap_truncated = False \<rparr>)"
    using assms by (simp add: take_content_snapshot_def capture_all_def Let_def)
  note spec = capture_files_spec [OF refl, of fs max_file max_total base d "sort (walk base d)"
      "\<lparr> cap_files = [], cap_bytes = 0, cap_truncated = False \<rparr>", folded s]
  show "\<exists>p raw. in_scope base p \<and> k = rel_name base p \<and> bytes_at d p = Some raw \<and> describes fs raw e"
    if "map_of s k = Some e"
    using spec [of k e] that in_walk by auto
  show "map_of s (rel_name base p) \<noteq> None" if i: "in_scope base p" and b: "bytes_at d p \<noteq> None"
  proof -
    have "p \<in> set (walk base d)" using i b stat_bytes by (force simp: in_walk)
    then show ?thesis using spec [of "rel_name base p"] b by auto
  qed
qed

end
