(* ===== verification/Reverts.thy ===== *)
theory Reverts
  imports ChangeSets
begin

text \<open>
  Reverting a change set (\<open>revert_change_set\<close> in \<open>workspace/change_set.py\<close>): the check that
  nothing has changed since the run, the undoing of fragment edits, and the loop that writes the
  old contents back in reverse order. An exception leaves the disk as it stands at that moment.
\<close>

section \<open>Fragment edits\<close>

fun replace_once :: "string \<Rightarrow> string \<Rightarrow> string \<Rightarrow> string" where
  \<comment> \<open>\<open>text.replace(pat, r, 1)\<close> for a nonempty \<open>pat\<close>\<close>
  "replace_once pat r [] = []"
| "replace_once pat r (c # cs) =
     (if prefix pat (c # cs) then r @ drop (length pat) (c # cs) else c # replace_once pat r cs)"

function replace_all :: "string \<Rightarrow> string \<Rightarrow> string \<Rightarrow> string" where
  \<comment> \<open>\<open>text.replace(pat, r)\<close> for a nonempty \<open>pat\<close>: left to right, without overlap\<close>
  "replace_all pat r [] = []"
| "replace_all pat r (c # cs) =
     (if prefix pat (c # cs) then r @ replace_all pat r (drop (length pat - 1) cs) else c # replace_all pat r cs)"
  by pat_completeness auto
termination by (relation "measure (\<lambda>(pat, r, s). length s)") auto

fun undo_edits :: "string \<Rightarrow> dict list \<Rightarrow> string \<times> bool" where
  "undo_edits text [] = (text, True)"
| "undo_edits text (e # es) =
     (case (dget e ''new'', dget e ''old'') of
        (JStr new, JStr old) \<Rightarrow>
          (if new = [] then (if old = [] then undo_edits text es else (text, False))
           else if \<not> contains new text then (text, False)
           else undo_edits (if truthy (dget e ''replace_all'') then replace_all new old text
                            else replace_once new old text) es)
      | _ \<Rightarrow> (text, False))"

definition reverse_apply_edits :: "string \<Rightarrow> dict list \<Rightarrow> string \<times> bool" where
  "reverse_apply_edits text edits = undo_edits text (rev edits)"

section \<open>Conflicts\<close>

record revert_conflict =
  rc_path :: string
  rc_reason :: string
  rc_expected :: string
  rc_actual :: string

definition conflict :: "string \<Rightarrow> string \<Rightarrow> revert_conflict" where
  "conflict p reason = \<lparr> rc_path = p, rc_reason = reason, rc_expected = [], rc_actual = [] \<rparr>"

definition sha256_file :: "fs \<Rightarrow> disk \<Rightarrow> path \<Rightarrow> py_exc + string" where
  "sha256_file fs d p = (case bytes_at d p of None \<Rightarrow> Inl OSError | Some b \<Rightarrow> Inr (fs_sha256 fs b))"

definition sha_conflict :: "fs \<Rightarrow> disk \<Rightarrow> path \<Rightarrow> file_change \<Rightarrow> py_exc + revert_conflict option" where
  "sha_conflict fs d p c =
     (case sha256_file fs d p of
        Inl e \<Rightarrow> Inl e
      | Inr actual \<Rightarrow> Inr
          (if actual \<noteq> fc_new_sha c
           then Some \<lparr> rc_path = fc_path c, rc_reason = ''file changed after the run'',
             rc_expected = fc_new_sha c, rc_actual = actual \<rparr>
           else None))"

definition edit_conflict :: "fs \<Rightarrow> disk \<Rightarrow> path \<Rightarrow> file_change \<Rightarrow> py_exc + revert_conflict option" where
  "edit_conflict fs d p c =
     (case sha_conflict fs d p c of
        Inl e \<Rightarrow> Inl e
      | Inr (Some x) \<Rightarrow> Inr (Some x)
      | Inr None \<Rightarrow>
          (case read_text d p of
             Inl e \<Rightarrow> Inl e
           | Inr text \<Rightarrow> Inr
               (if snd (reverse_apply_edits text (fc_edits c)) then None
                else Some (conflict (fc_path c) ''edited fragment not found''))))"

definition change_conflict :: "fs \<Rightarrow> disk \<Rightarrow> path \<Rightarrow> file_change \<Rightarrow> py_exc + revert_conflict option" where
  "change_conflict fs d base c =
     (case join_resolve fs d base (fc_path c) of
        None \<Rightarrow> Inl OSError
      | Some p \<Rightarrow>
          (if \<not> is_within p base then Inr (Some (conflict (fc_path c) ''path escapes workspace''))
           else if \<not> fc_recoverable c
           then Inr (Some (conflict (fc_path c) (str_or (fc_skipped c) ''change is not recoverable'')))
           else if fc_type c = ''added'' then (if exists_at d p then sha_conflict fs d p c else Inr None)
           else if fc_type c = ''deleted''
           then Inr (if exists_at d p then Some (conflict (fc_path c) ''deleted file exists again'') else None)
           else if fc_type c = ''modified''
           then (if exists_at d p then sha_conflict fs d p c
                 else Inr (Some (conflict (fc_path c) ''modified file is missing'')))
           else if fc_type c = ''edited''
           then (if exists_at d p then edit_conflict fs d p c
                 else Inr (Some (conflict (fc_path c) ''edited file is missing'')))
           else Inr None))"

fun revert_conflicts :: "fs \<Rightarrow> disk \<Rightarrow> path \<Rightarrow> file_change list \<Rightarrow> py_exc + revert_conflict list" where
  "revert_conflicts fs d base [] = Inr []"
| "revert_conflicts fs d base (c # cs) =
     (case change_conflict fs d base c of Inl e \<Rightarrow> Inl e | Inr x \<Rightarrow>
     (case revert_conflicts fs d base cs of Inl e \<Rightarrow> Inl e | Inr xs \<Rightarrow>
        Inr (case x of None \<Rightarrow> xs | Some y \<Rightarrow> y # xs)))"

section \<open>Undoing one change\<close>

datatype undone = Undone | Refused revert_conflict | NoAction

definition restore :: "int \<Rightarrow> disk \<Rightarrow> path \<Rightarrow> file_change \<Rightarrow> disk \<times> (py_exc + undone)" where
  "restore mt d p c =
     (if fc_old_content c = JNull then (d, Inr (Refused (conflict (fc_path c) ''missing old content'')))
      else (case make_dirs d [] (butlast p) of
          Inl e \<Rightarrow> (d, Inl e)
        | Inr d1 \<Rightarrow>
            (case fc_old_content c of
               JStr s \<Rightarrow> (case write_text mt d1 p s of Inl e \<Rightarrow> (d1, Inl e) | Inr d2 \<Rightarrow> (d2, Inr Undone))
             | _ \<Rightarrow> (d1, Inl TypeError))))"

definition undo_edited :: "int \<Rightarrow> disk \<Rightarrow> path \<Rightarrow> file_change \<Rightarrow> disk \<times> (py_exc + undone)" where
  "undo_edited mt d p c =
     (case read_text d p of
        Inl e \<Rightarrow> (d, Inl e)
      | Inr text \<Rightarrow>
          (let (reverted_text, ok) = reverse_apply_edits text (fc_edits c) in
           if \<not> ok then (d, Inr (Refused (conflict (fc_path c) ''edited fragment not found'')))
           else (case write_text mt d p reverted_text of Inl e \<Rightarrow> (d, Inl e) | Inr d1 \<Rightarrow> (d1, Inr Undone))))"

definition undo_change :: "fs \<Rightarrow> int \<Rightarrow> path \<Rightarrow> disk \<Rightarrow> file_change \<Rightarrow> disk \<times> (py_exc + undone)" where
  "undo_change fs mt base d c =
     (case join_resolve fs d base (fc_path c) of
        None \<Rightarrow> (d, Inl OSError)
      | Some p \<Rightarrow>
          (if \<not> is_within p base then (d, Inr (Refused (conflict (fc_path c) ''path escapes workspace'')))
           else if fc_type c = ''added''
           then (if exists_at d p then (case unlink d p of Inl e \<Rightarrow> (d, Inl e) | Inr d1 \<Rightarrow> (d1, Inr Undone))
                 else (d, Inr Undone))
           else if fc_type c = ''deleted'' then restore mt d p c
           else if fc_type c = ''modified'' then restore mt d p c
           else if fc_type c = ''edited'' then undo_edited mt d p c
           else (d, Inr NoAction)))"

fun undo_loop :: "fs \<Rightarrow> int \<Rightarrow> path \<Rightarrow> disk \<Rightarrow> file_change list \<Rightarrow>
    disk \<times> (py_exc + string list \<times> revert_conflict list)" where
  "undo_loop fs mt base d [] = (d, Inr ([], []))"
| "undo_loop fs mt base d (c # cs) =
     (case undo_change fs mt base d c of
        (d1, Inl e) \<Rightarrow> (d1, Inl e)
      | (d1, Inr u) \<Rightarrow>
          (case undo_loop fs mt base d1 cs of
             (d2, Inl e) \<Rightarrow> (d2, Inl e)
           | (d2, Inr (reverted, conflicts)) \<Rightarrow>
               (d2, Inr (case u of
                  Undone \<Rightarrow> (fc_path c # reverted, conflicts)
                | Refused x \<Rightarrow> (reverted, x # conflicts)
                | NoAction \<Rightarrow> (reverted, conflicts)))))"

section \<open>Reverting\<close>

record revert_result =
  rr_success :: bool
  rr_run :: string
  rr_workspace :: string
  rr_reverted :: "string list"
  rr_conflicts :: "revert_conflict list"
  rr_summary :: string

definition blocked :: "string \<Rightarrow> string \<Rightarrow> string list \<Rightarrow> revert_conflict list \<Rightarrow> string \<Rightarrow> revert_result" where
  "blocked run_id ws reverted conflicts summary = \<lparr> rr_success = False, rr_run = run_id, rr_workspace = ws,
     rr_reverted = reverted, rr_conflicts = conflicts, rr_summary = summary \<rparr>"

definition finish_revert :: "string \<Rightarrow> path \<Rightarrow> string list \<times> revert_conflict list \<Rightarrow> revert_result" where
  "finish_revert run_id base rc = (case rc of (reverted, conflicts) \<Rightarrow>
     (if conflicts \<noteq> []
      then blocked run_id (str_path base) reverted conflicts ''Revert partially applied and then hit conflicts.''
      else \<lparr> rr_success = True, rr_run = run_id, rr_workspace = str_path base, rr_reverted = reverted,
        rr_conflicts = [],
        rr_summary = ''Reverted '' @ show_int (int (length reverted)) @ '' file(s).'' \<rparr>))"

definition revert_files :: "fs \<Rightarrow> int \<Rightarrow> disk \<Rightarrow> string \<Rightarrow> change_set \<Rightarrow> path \<Rightarrow> disk \<times> (py_exc + revert_result)" where
  "revert_files fs mt d run_id c base =
     (case revert_conflicts fs d base (ch_files c) of
        Inl e \<Rightarrow> (d, Inl e)
      | Inr conflicts \<Rightarrow>
          (if conflicts \<noteq> []
           then (d, Inr (blocked run_id (str_path base) [] conflicts ''Revert blocked by conflicts.''))
           else (case undo_loop fs mt base d (rev (ch_files c)) of
               (d1, Inl e) \<Rightarrow> (d1, Inl e)
             | (d1, Inr rc) \<Rightarrow> (d1, Inr (finish_revert run_id base rc)))))"

definition revert_change_set ::
    "fs \<Rightarrow> int \<Rightarrow> change_store \<Rightarrow> disk \<Rightarrow> string \<Rightarrow> disk \<times> (py_exc + revert_result)" where
  "revert_change_set fs mt store d run_id =
     (case load_change_set fs store run_id of
        Inl e \<Rightarrow> (d, Inl e)
      | Inr None \<Rightarrow> (d, Inr (blocked run_id [] []
            [conflict [] (''ChangeSet not found for run_id='' @ run_id)] ''ChangeSet not found.''))
      | Inr (Some c) \<Rightarrow>
          (case join_resolve fs d (fs_cwd fs) (ch_workspace c) of
             None \<Rightarrow> (d, Inl OSError)
           | Some base \<Rightarrow> revert_files fs mt d run_id c base))"

end
