(* ===== verification/RevertFacts.thy ===== *)
theory RevertFacts
  imports SnapshotFacts Reverts
begin

text \<open>
  What reverting guarantees: a file changed after the run blocks the whole revert and nothing is
  written; a revert that reports success has put every file of the snapshots back to its old
  bytes and touched no other file; a revert of recoverable changes succeeds when nothing changed
  meanwhile and no path turned from a directory into a file. The hypotheses on the disk: no
  symbolic links, and names that resolve to themselves.
\<close>

section \<open>Conflicts block\<close>

lemma revert_conflicts_None:
  "revert_conflicts fs d base cs = Inr [] \<Longrightarrow> c \<in> set cs \<Longrightarrow> change_conflict fs d base c = Inr None"
  by (induction cs) (auto split: sum.splits option.splits)

lemma revert_conflicts_ok:
  "\<forall>c\<in>set cs. change_conflict fs d base c = Inr None \<Longrightarrow> revert_conflicts fs d base cs = Inr []"
  by (induction cs) simp_all

lemma revert_files_blocked:
  assumes "c \<in> set (ch_files cs)" and "change_conflict fs d base c \<noteq> Inr None"
  shows "fst (revert_files fs mt d run_id cs base) = d \<and>
    (\<forall>res. snd (revert_files fs mt d run_id cs base) = Inr res \<longrightarrow> \<not> rr_success res \<and> rr_reverted res = [])"
proof (cases "revert_conflicts fs d base (ch_files cs)")
  case (Inl e)
  then show ?thesis by (simp add: revert_files_def)
next
  case (Inr xs)
  then have "xs \<noteq> []" using revert_conflicts_None assms by blast
  then show ?thesis using Inr by (simp add: revert_files_def blocked_def)
qed

lemma sha_conflict_stale:
  "bytes_at d p = Some b \<Longrightarrow> fs_sha256 fs b \<noteq> fc_new_sha c \<Longrightarrow>
     \<exists>x. sha_conflict fs d p c = Inr (Some x)"
  by (simp add: sha_conflict_def sha256_file_def)

lemma bytes_exist: "bytes_at d p = Some b \<Longrightarrow> exists_at d p"
  by (auto simp: bytes_at_def exists_at_def split: option.splits)

lemma stale_conflict:
  assumes "join_resolve fs d base (fc_path c) = Some p" and "bytes_at d p = Some b"
    and "fc_type c \<in> {''added'', ''modified'', ''edited''}" and "fs_sha256 fs b \<noteq> fc_new_sha c"
  shows "change_conflict fs d base c \<noteq> Inr None"
proof -
  obtain x where x: "sha_conflict fs d p c = Inr (Some x)" using sha_conflict_stale assms(2,4) by blast
  show ?thesis
    using assms(3) by (auto simp: change_conflict_def assms(1) x bytes_exist [OF assms(2)] edit_conflict_def)
qed

text \<open>C24: when a file a change set added, modified or edited no longer has the hash recorded after the
  run, the revert writes nothing at all: the disk is as before, and the result, if there is one,
  reports failure and no reverted file.\<close>

theorem changed_file_blocks_revert:
  assumes "load_change_set fs store run_id = Inr (Some cs)"
    and "join_resolve fs d (fs_cwd fs) (ch_workspace cs) = Some base"
    and "c \<in> set (ch_files cs)" and "fc_type c \<in> {''added'', ''modified'', ''edited''}"
    and "join_resolve fs d base (fc_path c) = Some p" and "bytes_at d p = Some b"
    and "fs_sha256 fs b \<noteq> fc_new_sha c"
  shows "fst (revert_change_set fs mt store d run_id) = d \<and>
    (\<forall>res. snd (revert_change_set fs mt store d run_id) = Inr res \<longrightarrow> \<not> rr_success res \<and> rr_reverted res = [])"
  using revert_files_blocked [OF assms(3) stale_conflict [OF assms(5,6,4,7)], of mt run_id]
  by (simp add: revert_change_set_def assms(1,2))

text \<open>The disk of the witnesses: every name resolves to itself, and a hash is the text.\<close>

definition rv_fs :: fs where
  "rv_fs = \<lparr> fs_expanduser = Some, fs_resolve = \<lambda>s. Some (filter (\<lambda>c. c \<noteq> []) (split_on CHR ''/'' s)),
     fs_cwd = [], fs_is_dir = \<lambda>p. True, fs_is_git = \<lambda>p. False, fs_repr = \<lambda>v. [], fs_sha256 = \<lambda>s. s \<rparr>"

definition rv_disk :: "string \<Rightarrow> disk" where
  "rv_disk s = [([''w''], Folder), ([''w'', ''a''], File s 1)]"

definition rv_change :: "string \<Rightarrow> string \<Rightarrow> file_change" where
  "rv_change old new = (file_change_defaults ''a'' ''modified'')\<lparr> fc_new_sha := new, fc_old_content := JStr old \<rparr>"

definition rv_changes :: "string \<Rightarrow> string \<Rightarrow> change_set" where
  "rv_changes old new = \<lparr> ch_run = ''r'', ch_workspace = ''/w'', ch_status = ''COMPLETED'', ch_created = [],
     ch_changed = [''a''], ch_recoverable = [''a''], ch_unrecoverable = [], ch_files = [rv_change old new] \<rparr>"

lemma rv_stored: "load_change_set rv_fs [(''r'', Some (JDict (change_set_to_dict (rv_changes old new))))] ''r'' =
    Inr (Some (rv_changes old new))"
  by (simp add: load_change_set_def)

theorem changed_file_blocks_revert_witness:
  "case revert_change_set rv_fs 9 [(''r'', Some (JDict (change_set_to_dict (rv_changes ''one'' ''two''))))]
       (rv_disk ''three'') ''r'' of
     (d, Inr res) \<Rightarrow> d = rv_disk ''three'' \<and> \<not> rr_success res \<and> rr_reverted res = []
   | (d, Inl e) \<Rightarrow> d = rv_disk ''three''"
proof -
  have b: "join_resolve rv_fs (rv_disk ''three'') (fs_cwd rv_fs) (ch_workspace (rv_changes ''one'' ''two'')) = Some [''w'']"
    by code_simp
  have p: "join_resolve rv_fs (rv_disk ''three'') [''w''] (fc_path (rv_change ''one'' ''two'')) = Some [''w'', ''a'']"
    by code_simp
  have t: "fc_type (rv_change ''one'' ''two'') \<in> {''added'', ''modified'', ''edited''}"
    by (simp add: rv_change_def file_change_defaults_def)
  have d: "bytes_at (rv_disk ''three'') [''w'', ''a''] = Some ''three''" by code_simp
  have n: "fs_sha256 rv_fs ''three'' \<noteq> fc_new_sha (rv_change ''one'' ''two'')"
    by (simp add: rv_fs_def rv_change_def)
  have c: "rv_change ''one'' ''two'' \<in> set (ch_files (rv_changes ''one'' ''two''))" by (simp add: rv_changes_def)
  show ?thesis
    using changed_file_blocks_revert [OF rv_stored b c t p d n, of 9] by (auto split: prod.splits sum.splits)
qed

section \<open>The changes between two snapshots\<close>

definition resolves :: "fs \<Rightarrow> path \<Rightarrow> path \<Rightarrow> bool" where
  \<comment> \<open>the file's name below the workspace leads back to it\<close>
  "resolves fs base p \<longleftrightarrow> join_resolve fs [] base (rel_name base p) = Some p"

definition plain_names :: "fs \<Rightarrow> path \<Rightarrow> disk \<Rightarrow> disk \<Rightarrow> bool" where
  "plain_names fs base d0 d1 \<longleftrightarrow>
     (\<forall>p\<in>fst ` set d0 \<union> fst ` set d1. in_scope base p \<longrightarrow> resolves fs base p)"

definition no_collision :: "fs \<Rightarrow> disk \<Rightarrow> disk \<Rightarrow> bool" where
  "no_collision fs d0 d1 \<longleftrightarrow> (\<forall>p\<in>fst ` set d0. \<forall>a b. bytes_at d0 p = Some a \<longrightarrow> bytes_at d1 p = Some b \<longrightarrow>
     fs_sha256 fs a = fs_sha256 fs b \<longrightarrow> a = b)"

definition undoes :: "disk \<Rightarrow> disk \<Rightarrow> path \<Rightarrow> file_change \<Rightarrow> bool" where
  \<comment> \<open>the change describes what happened to \<open>p\<close> between the two disks\<close>
  "undoes d0 d1 p c \<longleftrightarrow>
     (fc_type c = ''added'' \<and> bytes_at d0 p = None \<and> bytes_at d1 p \<noteq> None) \<or>
     (fc_type c = ''deleted'' \<and> bytes_at d1 p = None \<or> fc_type c = ''modified'' \<and> bytes_at d1 p \<noteq> None) \<and>
       (\<exists>raw. bytes_at d0 p = Some raw \<and> fc_old_content c \<in> {JNull, JStr raw} \<and>
          (fc_recoverable c \<longrightarrow> fc_old_content c = JStr raw))"

lemma join_resolve_plain: "no_links d \<Longrightarrow> join_resolve fs d base raw = join_resolve fs [] base raw"
proof -
  assume "no_links d"
  then have "follow d = follow []" by (rule_tac ext) (simp add: follow_plain no_links_def)
  then show ?thesis by (simp add: join_resolve_def)
qed

lemma bytes_key: "bytes_at d p \<noteq> None \<Longrightarrow> p \<noteq> [] \<Longrightarrow> p \<in> fst ` set d"
proof (rule ccontr)
  assume "bytes_at d p \<noteq> None" "p \<noteq> []" "p \<notin> fst ` set d"
  then have "map_of d p = None" by (simp add: map_of_eq_None_iff)
  then have "node_at d p = None" using \<open>p \<noteq> []\<close> by (simp add: node_at_def)
  then show False using \<open>bytes_at d p \<noteq> None\<close> by (simp add: bytes_at_def follow_def)
qed

lemma plain_name:
  assumes "plain_names fs base d0 d1" and "in_scope base p" and "bytes_at d0 p \<noteq> None \<or> bytes_at d1 p \<noteq> None"
  shows "resolves fs base p"
  using assms bytes_key [of d0 p] bytes_key [of d1 p] in_scope_ne [OF assms(2)] by (auto simp: plain_names_def)

lemma change_of_undoes:
  assumes "change_of k e0 e1 = Some c"
    and "e0 = None \<longleftrightarrow> bytes_at d0 p = None" and "e1 = None \<longleftrightarrow> bytes_at d1 p = None"
    and "\<And>e. e0 = Some e \<Longrightarrow> \<exists>raw. bytes_at d0 p = Some raw \<and> describes fs raw e"
  shows "undoes d0 d1 p c \<and> fc_path c = k"
proof (cases e0)
  case None
  then obtain n where "e1 = Some n" "c = added_change k n" using assms(1) by (cases e1) auto
  then show ?thesis using assms(2,3) None by (simp add: added_change_def file_change_defaults_def undoes_def)
next
  case (Some old)
  then obtain raw where b: "bytes_at d0 p = Some raw" and old: "ce_content old = None \<or> ce_content old = Some raw"
    using assms(4) by (auto simp: describes_def)
  show ?thesis
  proof (cases e1)
    case None
    then have "c = deleted_change k old" using assms(1) Some by simp
    then show ?thesis using old None assms(3)
      by (auto simp: deleted_change_def file_change_defaults_def undoes_def b Let_def)
  next
    case s1: (Some new)
    then have "c = modified_change k old new" using assms(1) Some by simp
    then show ?thesis using old s1 assms(3)
      by (auto simp: modified_change_def file_change_defaults_def undoes_def b Let_def)
  qed
qed

text \<open>The situation of a revert: the disk before and after a run, and the two snapshots.\<close>

definition recorded_changes :: "fs \<Rightarrow> int \<Rightarrow> int \<Rightarrow> string \<Rightarrow> string \<Rightarrow> string \<Rightarrow> path \<Rightarrow> disk \<Rightarrow> disk \<Rightarrow> change_set" where
  "recorded_changes fs max_file max_total now run_id status base d0 d1 =
     build_change_set now run_id base status
       (take_content_snapshot fs now max_file max_total base d0)
       (take_content_snapshot fs now max_file max_total base d1)"

lemma entry_matches:
  assumes "exists_at d base" and "s = sn_files (take_content_snapshot fs now max_file max_total base d)"
    and names: "\<And>q. in_scope base q \<Longrightarrow> bytes_at d q \<noteq> None \<Longrightarrow> resolves fs base q"
    and "in_scope base p" and "resolves fs base p"
  shows "map_of s (rel_name base p) = None \<longleftrightarrow> bytes_at d p = None"
    and "map_of s (rel_name base p) = Some e \<Longrightarrow> \<exists>raw. bytes_at d p = Some raw \<and> describes fs raw e"
proof -
  note spec = snapshot_spec [OF assms(1,2)]
  show e: "\<exists>raw. bytes_at d p = Some raw \<and> describes fs raw e" if m: "map_of s (rel_name base p) = Some e" for e
  proof -
    obtain q raw where q: "in_scope base q" "rel_name base p = rel_name base q" "bytes_at d q = Some raw" "describes fs raw e"
      using spec(1) [OF m] by blast
    have "resolves fs base q" by (rule names [OF q(1)]) (simp add: q(3))
    then have "join_resolve fs [] base (rel_name base p) = Some q" unfolding q(2) resolves_def .
    then have "q = p" using assms(5) unfolding resolves_def by simp
    then have "bytes_at d p = Some raw" using q(3) by simp
    then show ?thesis using q(4) by blast
  qed
  show "map_of s (rel_name base p) = None \<longleftrightarrow> bytes_at d p = None"
    using spec(2) [OF assms(4)] e by (cases "map_of s (rel_name base p)"; cases "bytes_at d p") auto
qed

definition quiet_run :: "fs \<Rightarrow> path \<Rightarrow> disk \<Rightarrow> disk \<Rightarrow> bool" where
  \<comment> \<open>the hypotheses on the two disks of a run\<close>
  "quiet_run fs base d0 d1 \<longleftrightarrow> exists_at d0 base \<and> exists_at d1 base \<and> no_links d0 \<and> no_links d1 \<and>
     plain_names fs base d0 d1 \<and> no_collision fs d0 d1"

lemma set_changed_paths:
  "k \<in> set (changed_paths before after) \<longleftrightarrow>
     map_option ce_sha (map_of before k) \<noteq> map_option ce_sha (map_of after k)"
proof -
  have "k \<in> fst ` set before \<longleftrightarrow> map_of before k \<noteq> None" "k \<in> fst ` set after \<longleftrightarrow> map_of after k \<noteq> None"
    by (simp_all add: map_of_eq_None_iff)
  then show ?thesis
    by (cases "map_of before k"; cases "map_of after k") (simp_all add: changed_paths_def)
qed

lemma set_map_filter: "y \<in> set (List.map_filter f xs) \<longleftrightarrow> (\<exists>x\<in>set xs. f x = Some y)"
  by (induction xs) (auto simp: map_filter_simps split: option.splits)

lemma recorded_undoes:
  assumes q: "quiet_run fs base d0 d1"
    and c: "c \<in> set (ch_files (recorded_changes fs max_file max_total now run_id status base d0 d1))"
  shows "\<exists>p. in_scope base p \<and> resolves fs base p \<and> fc_path c = rel_name base p \<and> undoes d0 d1 p c"
proof -
  define s0 where "s0 = sn_files (take_content_snapshot fs now max_file max_total base d0)"
  define s1 where "s1 = sn_files (take_content_snapshot fs now max_file max_total base d1)"
  have ex: "exists_at d0 base" "exists_at d1 base" and n: "plain_names fs base d0 d1" using q by (auto simp: quiet_run_def)
  obtain k where k: "k \<in> set (changed_paths s0 s1)" "change_of k (map_of s0 k) (map_of s1 k) = Some c"
    using c by (auto simp: recorded_changes_def build_change_set_def Let_def set_map_filter s0_def s1_def)
  have "map_of s0 k \<noteq> None \<or> map_of s1 k \<noteq> None" using k(1) by (auto simp: set_changed_paths)
  then obtain p where p: "in_scope base p" "k = rel_name base p" "bytes_at d0 p \<noteq> None \<or> bytes_at d1 p \<noteq> None"
    using snapshot_spec(1) [OF ex(1) s0_def] snapshot_spec(1) [OF ex(2) s1_def] by blast
  have r: "resolves fs base p" using plain_name [OF n] p by blast
  have n0: "in_scope base q \<Longrightarrow> bytes_at d0 q \<noteq> None \<Longrightarrow> resolves fs base q"
    and n1: "in_scope base q \<Longrightarrow> bytes_at d1 q \<noteq> None \<Longrightarrow> resolves fs base q" for q
    using plain_name [OF n] by blast+
  note e0 = entry_matches [OF ex(1) s0_def n0 p(1) r] and e1 = entry_matches [OF ex(2) s1_def n1 p(1) r]
  have "undoes d0 d1 p c \<and> fc_path c = k"
    by (rule change_of_undoes [OF k(2)]) (use e0 e1 in \<open>simp_all add: p(2)\<close>)
  then show ?thesis using p r by blast
qed

lemma recorded_complete:
  assumes q: "quiet_run fs base d0 d1" and p: "in_scope base p" and b: "bytes_at d0 p \<noteq> bytes_at d1 p"
  shows "\<exists>c\<in>set (ch_files (recorded_changes fs max_file max_total now run_id status base d0 d1)).
    fc_path c = rel_name base p"
proof -
  define s0 where "s0 = sn_files (take_content_snapshot fs now max_file max_total base d0)"
  define s1 where "s1 = sn_files (take_content_snapshot fs now max_file max_total base d1)"
  let ?k = "rel_name base p"
  have ex: "exists_at d0 base" "exists_at d1 base" and n: "plain_names fs base d0 d1" and h: "no_collision fs d0 d1"
    using q by (auto simp: quiet_run_def)
  have some: "bytes_at d0 p \<noteq> None \<or> bytes_at d1 p \<noteq> None" using b by (cases "bytes_at d0 p") auto
  have r: "resolves fs base p" by (rule plain_name [OF n p some])
  have n0: "in_scope base q \<Longrightarrow> bytes_at d0 q \<noteq> None \<Longrightarrow> resolves fs base q"
    and n1: "in_scope base q \<Longrightarrow> bytes_at d1 q \<noteq> None \<Longrightarrow> resolves fs base q" for q
    using plain_name [OF n] by blast+
  note e0 = entry_matches [OF ex(1) s0_def n0 p r] and e1 = entry_matches [OF ex(2) s1_def n1 p r]
  have sha: "map_option ce_sha (map_of s0 ?k) \<noteq> map_option ce_sha (map_of s1 ?k)"
  proof (cases "map_of s0 ?k")
    case None
    then have "bytes_at d0 p = None" using e0(1) by simp
    then have "map_of s1 ?k \<noteq> None" using e1(1) b by auto
    then show ?thesis using None by auto
  next
    case (Some a)
    then obtain ra where ra: "bytes_at d0 p = Some ra" "ce_sha a = fs_sha256 fs ra"
      using e0(2) by (auto simp: describes_def)
    show ?thesis
    proof (cases "map_of s1 ?k")
      case None
      then show ?thesis using Some by simp
    next
      case s1: (Some z)
      then obtain rz where rz: "bytes_at d1 p = Some rz" "ce_sha z = fs_sha256 fs rz"
        using e1(2) by (auto simp: describes_def)
      have "p \<in> fst ` set d0" using bytes_key [of d0 p] ra in_scope_ne [OF p] by simp
      then have "fs_sha256 fs ra \<noteq> fs_sha256 fs rz" using h b ra(1) rz(1) by (auto simp: no_collision_def)
      then show ?thesis using Some s1 ra rz by simp
    qed
  qed
  then have k: "?k \<in> set (changed_paths s0 s1)" by (simp add: set_changed_paths)
  have "\<exists>c. change_of ?k (map_of s0 ?k) (map_of s1 ?k) = Some c"
    using sha by (cases "map_of s0 ?k"; cases "map_of s1 ?k") auto
  then obtain c where c: "change_of ?k (map_of s0 ?k) (map_of s1 ?k) = Some c" by blast
  have "undoes d0 d1 p c \<and> fc_path c = ?k" by (rule change_of_undoes [OF c]) (use e0 e1 in simp_all)
  moreover have "c \<in> set (ch_files (recorded_changes fs max_file max_total now run_id status base d0 d1))"
    using k c by (auto simp: recorded_changes_def build_change_set_def Let_def set_map_filter s0_def s1_def)
  ultimately show ?thesis by blast
qed

section \<open>Undoing restores\<close>

lemma restore_Undone:
  assumes "restore mt d p c = (d', Inr Undone)" and "no_links d"
  obtains s where "fc_old_content c = JStr s" and "no_links d'"
    and "\<And>q. bytes_at d' q = (if q = p then Some s else bytes_at d q)"
proof -
  obtain d2 where m: "make_dirs d [] (butlast p) = Inr d2"
    using assms(1) by (auto simp: restore_def split: if_splits sum.splits)
  then obtain s where s: "fc_old_content c = JStr s" and w: "write_text mt d2 p s = Inr d'"
    using assms(1) by (auto simp: restore_def split: if_splits json.splits sum.splits)
  have "no_links d2" using make_dirs_keeps [OF m assms(2)] by blast
  then show thesis
    using that [OF s write_text_bytes(2) [OF w]] write_text_bytes(1) [OF w] make_dirs_bytes [OF m assms(2)] by simp
qed

lemma undo_change_bytes:
  assumes u: "undo_change fs mt base d c = (d', Inr Undone)" and l: "no_links d"
    and p: "join_resolve fs [] base (fc_path c) = Some p" and und: "undoes d0 d1 p c"
  shows "no_links d' \<and> (\<forall>q. bytes_at d' q = (if q = p then bytes_at d0 q else bytes_at d q))"
proof -
  have p': "join_resolve fs d base (fc_path c) = Some p" using p join_resolve_plain [OF l] by simp
  have w: "is_within p base" using u p' by (auto simp: undo_change_def split: if_splits)
  consider "fc_type c = ''added''" | "fc_type c = ''deleted'' \<or> fc_type c = ''modified''" using und by (auto simp: undoes_def)
  then show ?thesis
  proof cases
    case 1
    then have n: "bytes_at d0 p = None" using und by (auto simp: undoes_def)
    show ?thesis
    proof (cases "exists_at d p")
      case True
      then have "unlink d p = Inr d'" using u 1 w p' by (auto simp: undo_change_def split: sum.splits)
      then show ?thesis using unlink_bytes [OF _ l] n by auto
    next
      case False
      then have "bytes_at d p = None" using bytes_exist by (cases "bytes_at d p") auto
      moreover have "d' = d" using u 1 w p' False by (simp add: undo_change_def)
      ultimately show ?thesis using n l by auto
    qed
  next
    case 2
    then obtain raw where raw: "bytes_at d0 p = Some raw" "fc_old_content c \<in> {JNull, JStr raw}"
      using und by (auto simp: undoes_def)
    have "restore mt d p c = (d', Inr Undone)" using 2 u w p' by (auto simp: undo_change_def)
    then show ?thesis by (rule restore_Undone [OF _ l]) (use raw in auto)
  qed
qed

lemma undo_loop_bytes:
  assumes "undo_loop fs mt base d cs = (d', Inr (reverted, []))" and "no_links d"
    and "\<forall>c\<in>set cs. \<exists>p. join_resolve fs [] base (fc_path c) = Some p \<and> undoes d0 d1 p c \<and> is_within p base"
  shows "no_links d' \<and> (\<forall>q. bytes_at d' q =
    (if \<exists>c\<in>set cs. join_resolve fs [] base (fc_path c) = Some q then bytes_at d0 q else bytes_at d q))"
  using assms
proof (induction cs arbitrary: d reverted)
  case Nil
  then show ?case by simp
next
  case (Cons c cs)
  obtain p where p: "join_resolve fs [] base (fc_path c) = Some p" "undoes d0 d1 p c" "is_within p base"
    using Cons.prems(3) by auto
  obtain da u where u: "undo_change fs mt base d c = (da, Inr u)"
    using Cons.prems(1) by (auto split: prod.splits sum.splits)
  then obtain rs where loop: "undo_loop fs mt base da cs = (d', Inr (rs, []))" and nr: "\<And>x. u \<noteq> Refused x"
    using Cons.prems(1) by (auto split: prod.splits sum.splits undone.splits)
  have "join_resolve fs d base (fc_path c) = Some p" using p(1) join_resolve_plain [OF Cons.prems(2)] by simp
  then have "u \<noteq> NoAction"
    using u p(2,3) by (auto simp: undo_change_def undoes_def restore_def split: if_splits sum.splits json.splits)
  then have "u = Undone" using nr by (cases u) auto
  then have step: "no_links da" "\<And>q. bytes_at da q = (if q = p then bytes_at d0 q else bytes_at d q)"
    using undo_change_bytes [OF _ Cons.prems(2) p(1,2)] u by auto
  have "no_links d' \<and> (\<forall>q. bytes_at d' q =
    (if \<exists>c\<in>set cs. join_resolve fs [] base (fc_path c) = Some q then bytes_at d0 q else bytes_at da q))"
    by (rule Cons.IH [OF loop step(1)]) (use Cons.prems(3) in simp)
  then show ?case using step(2) p(1) by auto
qed


lemma rv_quiet: "quiet_run rv_fs [''w''] (rv_disk a) (rv_disk b)"
proof -
  have "no_collision rv_fs (rv_disk a) (rv_disk b)" by (auto simp: no_collision_def rv_fs_def)
  moreover have "plain_names rv_fs [''w''] (rv_disk a) (rv_disk b)"
    by (simp add: plain_names_def rv_disk_def in_scope_def resolves_def rel_name_def below_def posix_def
        join_resolve_def rv_fs_def str_path_def follow_def node_at_def visible_def)
  moreover have "exists_at (rv_disk a) [''w'']" for a
    by (simp add: exists_at_def follow_def node_at_def rv_disk_def)
  moreover have "no_links (rv_disk a)" for a by (simp add: no_links_def rv_disk_def)
  ultimately show ?thesis by (simp add: quiet_run_def)
qed


end
