(* ===== verification/RevertSucceeds.thy ===== *)
theory RevertSucceeds
  imports RevertFacts
begin

text \<open>
  When a revert succeeds. The run must not have turned a file into a directory or a directory into
  a file; then every recorded change that is recoverable is undone without an exception.
\<close>

section \<open>Kinds of nodes\<close>

definition rooted :: "disk \<Rightarrow> bool" where
  \<comment> \<open>everything lies in a directory\<close>
  "rooted d \<longleftrightarrow> (\<forall>p\<in>fst ` set d. node_at d p \<noteq> None \<longrightarrow> node_at d (butlast p) = Some Folder)"

definition is_plain_file :: "node option \<Rightarrow> bool" where
  "is_plain_file n = (case n of Some (File b t) \<Rightarrow> True | _ \<Rightarrow> False)"

definition kinds_kept :: "disk \<Rightarrow> disk \<Rightarrow> bool" where
  \<comment> \<open>a directory stays one or goes, a file stays one or goes\<close>
  "kinds_kept d0 d1 \<longleftrightarrow>
     (\<forall>p\<in>fst ` set d0. (node_at d0 p = Some Folder \<longrightarrow> node_at d1 p \<in> {None, Some Folder}) \<and>
        (is_plain_file (node_at d0 p) \<longrightarrow> node_at d1 p = None \<or> is_plain_file (node_at d1 p)))"

definition between :: "disk \<Rightarrow> disk \<Rightarrow> disk \<Rightarrow> bool" where
  \<comment> \<open>every node of a disk half reverted is of a kind it has before or after the run\<close>
  "between d0 d1 d \<longleftrightarrow> no_links d \<and> (\<forall>q. case node_at d q of
       None \<Rightarrow> True
     | Some (File b t) \<Rightarrow> is_plain_file (node_at d0 q) \<or> is_plain_file (node_at d1 q)
     | Some Folder \<Rightarrow> node_at d0 q = Some Folder \<or> node_at d1 q = Some Folder
     | Some (Locked n t) \<Rightarrow> node_at d1 q = Some (Locked n t)
     | Some (Link r) \<Rightarrow> False)"

lemma node_key: "node_at d p \<noteq> None \<Longrightarrow> p \<noteq> [] \<Longrightarrow> p \<in> fst ` set d"
  by (metis map_of_eq_None_iff node_at_def)

lemma plain_file_bytes: "no_links d \<Longrightarrow> is_plain_file (node_at d p) = (bytes_at d p \<noteq> None)"
  by (auto simp: is_plain_file_def bytes_plain split: option.splits node.splits)

lemma rootedD:
  assumes "rooted d" and "node_at d p \<noteq> None" and "p \<noteq> []"
  shows "node_at d (butlast p) = Some Folder"
  using node_key [OF assms(2,3)] assms(1,2) unfolding rooted_def by blast

lemma rooted_prefixes:
  assumes "rooted d" and "node_at d p \<noteq> None" and "p \<noteq> []"
  shows "node_at d (take k (butlast p)) = Some Folder"
  using assms
proof (induction p rule: rev_induct)
  case Nil
  then show ?case by simp
next
  case (snoc x p)
  have up: "node_at d p = Some Folder" using rootedD [OF snoc.prems] by simp
  show ?case
  proof (cases "k < length p")
    case True
    then have "p \<noteq> []" by auto
    moreover have "take k p = take k (butlast p)" using True by (simp add: take_butlast)
    ultimately show ?thesis using snoc.IH [OF snoc.prems(1)] up by simp
  next
    case False
    then show ?thesis using up by simp
  qed
qed

lemma plain_file_some: "is_plain_file n \<Longrightarrow> n \<noteq> None"
  by (cases n) (simp_all add: is_plain_file_def)

lemma kinds_folder: "kinds_kept d0 d1 \<Longrightarrow> node_at d0 p = Some Folder \<Longrightarrow> node_at d1 p \<in> {None, Some Folder}"
  using node_key [of d0 p] by (cases "p = []") (auto simp: kinds_kept_def node_at_def)

lemma kinds_file:
  assumes "kinds_kept d0 d1" and "is_plain_file (node_at d0 p)"
  shows "node_at d1 p = None \<or> is_plain_file (node_at d1 p)"
proof (cases "p = []")
  case True
  then show ?thesis using assms(2) by (simp add: node_at_def is_plain_file_def)
next
  case False
  then have "p \<in> fst ` set d0" using node_key plain_file_some [OF assms(2)] by blast
  from bspec [OF assms(1) [unfolded kinds_kept_def] this] show ?thesis using assms(2) by blast
qed

lemma between_start: "no_links d1 \<Longrightarrow> between d0 d1 d1"
  by (auto simp: between_def is_plain_file_def dest: no_linksD split: option.splits node.splits)

lemma between_dir:
  assumes "between d0 d1 d" and "kinds_kept d0 d1" and "node_at d0 q = Some Folder"
  shows "node_at d q \<in> {None, Some Folder}"
  using assms(1) [unfolded between_def, THEN conjunct2, rule_format, of q] kinds_folder [OF assms(2,3)] assms(3)
  by (auto simp: is_plain_file_def split: option.splits node.splits)

lemma between_old_file:
  assumes "between d0 d1 d" and "kinds_kept d0 d1" and "is_plain_file (node_at d0 q)"
  shows "node_at d q = None \<or> is_plain_file (node_at d q)"
  using assms(1) [unfolded between_def, THEN conjunct2, rule_format, of q] kinds_file [OF assms(2,3)] assms(3)
  by (auto simp: is_plain_file_def split: option.splits node.splits)

lemma between_new_file:
  assumes "between d0 d1 d" and "kinds_kept d0 d1" and "is_plain_file (node_at d1 q)"
  shows "node_at d q = None \<or> is_plain_file (node_at d q)"
  using assms(1) [unfolded between_def, THEN conjunct2, rule_format, of q] kinds_folder [OF assms(2), of q] assms(3)
  by (auto simp: is_plain_file_def split: option.splits node.splits)

lemma between_delete: "between d0 d1 d \<Longrightarrow> p \<noteq> [] \<Longrightarrow> between d0 d1 (AList.delete p d)"
  by (simp add: between_def no_links_delete)

lemma between_put:
  assumes "between d0 d1 d" and "p \<noteq> []" and "is_plain_file (node_at d0 p)"
  shows "between d0 d1 (put_node p (File s mt) d)"
  using assms by (simp add: between_def no_links_put)

lemma between_put_dir:
  assumes "between d0 d1 d" and "p \<noteq> []" and "node_at d0 p = Some Folder"
  shows "between d0 d1 (put_node p Folder d)"
  using assms by (simp add: between_def no_links_put)

lemma make_dirs_between:
  assumes "between d0 d1 d" and "kinds_kept d0 d1" and "\<forall>k. node_at d0 (base @ take k cs) = Some Folder"
    and "node_at d base = Some Folder"
  shows "\<exists>d'. make_dirs d base cs = Inr d' \<and> between d0 d1 d' \<and> node_at d' (base @ cs) = Some Folder \<and>
    (\<forall>q. length (base @ cs) < length q \<longrightarrow> node_at d' q = node_at d q)"
  using assms
proof (induction d base cs rule: make_dirs.induct)
  case (1 d base)
  then show ?case by simp
next
  case (2 d base c cs)
  let ?q = "base @ [c]"
  have q0: "node_at d0 ?q = Some Folder" using "2.prems"(3) [rule_format, of 1] by simp
  have k: "\<forall>k. node_at d0 (?q @ take k cs) = Some Folder"
  proof
    fix k
    show "node_at d0 (?q @ take k cs) = Some Folder" using "2.prems"(3) [rule_format, of "Suc k"] by simp
  qed
  show ?case
  proof (cases "node_at d ?q")
    case None
    have b: "between d0 d1 (put_node ?q Folder d)" by (rule between_put_dir [OF "2.prems"(1) _ q0]) simp
    obtain d' where d': "make_dirs (put_node ?q Folder d) ?q cs = Inr d'" "between d0 d1 d'"
        "node_at d' (?q @ cs) = Some Folder"
        "\<forall>r. length (?q @ cs) < length r \<longrightarrow> node_at d' r = node_at (put_node ?q Folder d) r"
      using "2.IH"(1) [OF refl None b "2.prems"(2) k] by auto
    have "node_at d' r = node_at d r" if "length (base @ c # cs) < length r" for r
    proof -
      have "r \<noteq> ?q" using that by auto
      then show ?thesis using d'(4) that by simp
    qed
    then show ?thesis using None d' by (simp add: Let_def)
  next
    case (Some n)
    then have n: "n = Folder" using between_dir [OF "2.prems"(1,2) q0] by simp
    show ?thesis using "2.IH"(2) [OF refl Some n "2.prems"(1,2) k] Some n by (simp add: Let_def)
  qed
qed

section \<open>Each change can be undone\<close>

definition current :: "fs \<Rightarrow> disk \<Rightarrow> path \<Rightarrow> file_change \<Rightarrow> bool" where
  \<comment> \<open>the recorded new hash is that of the file after the run\<close>
  "current fs d1 p c \<longleftrightarrow> (fc_type c \<in> {''added'', ''modified''} \<longrightarrow>
     (\<exists>b. bytes_at d1 p = Some b \<and> fc_new_sha c = fs_sha256 fs b))"

lemma undo_change_ok:
  assumes b: "between d0 d1 d" and kinds: "kinds_kept d0 d1" and l: "no_links d0" "no_links d1" and r: "rooted d0"
    and p: "join_resolve fs [] base (fc_path c) = Some p" "is_within p base" "p \<noteq> []"
    and und: "undoes d0 d1 p c" and rec: "fc_recoverable c"
  shows "\<exists>d'. undo_change fs mt base d c = (d', Inr Undone) \<and> between d0 d1 d'"
proof -
  have ld: "no_links d" using b by (simp add: between_def)
  have p': "join_resolve fs d base (fc_path c) = Some p" using p join_resolve_plain [OF ld] by simp
  consider "fc_type c = ''added''" | "fc_type c = ''deleted'' \<or> fc_type c = ''modified''" using und by (auto simp: undoes_def)
  then show ?thesis
  proof cases
    case 1
    then have "is_plain_file (node_at d1 p)" using und l by (auto simp: plain_file_bytes undoes_def)
    then have n: "node_at d p = None \<or> is_plain_file (node_at d p)" by (rule between_new_file [OF b kinds])
    show ?thesis
    proof (cases "node_at d p")
      case None
      then show ?thesis using 1 p p' b ld by (simp add: undo_change_def exists_plain)
    next
      case (Some m)
      then have "unlink d p = Inr (AList.delete p d)"
        using n by (auto simp: unlink_def is_plain_file_def split: node.splits)
      then show ?thesis using 1 p p' ld Some between_delete [OF b p(3)] by (simp add: undo_change_def exists_plain)
    qed
  next
    case 2
    then obtain raw where raw: "bytes_at d0 p = Some raw" "fc_old_content c = JStr raw"
      using und rec by (auto simp: undoes_def)
    have f0: "is_plain_file (node_at d0 p)" using raw by (simp add: plain_file_bytes l)
    then have "node_at d0 p \<noteq> None" by (rule plain_file_some)
    then have "\<forall>k. node_at d0 ([] @ take k (butlast p)) = Some Folder"
      using rooted_prefixes [OF r _ p(3)] by simp
    then obtain d2 where m: "make_dirs d [] (butlast p) = Inr d2" and b2: "between d0 d1 d2"
        and up: "node_at d2 (butlast p) = Some Folder" and keep: "\<forall>q. length (butlast p) < length q \<longrightarrow> node_at d2 q = node_at d q"
      using make_dirs_between [OF b kinds, of "[]" "butlast p"] by (auto simp: node_at_def)
    have "node_at d2 p = node_at d p" using keep p(3) by simp
    then have "can_write d2 p"
      using up p(3) between_old_file [OF b kinds f0] by (auto simp: can_write_def is_plain_file_def split: option.splits node.splits)
    then have "restore mt d p c = (put_node p (File raw mt) d2, Inr Undone)"
      by (simp add: restore_def raw m write_text_def)
    then show ?thesis using 2 p p' between_put [OF b2 p(3) f0] by (auto simp: undo_change_def)
  qed
qed

lemma undo_loop_ok:
  assumes "between d0 d1 d" and "kinds_kept d0 d1" and "no_links d0" "no_links d1" and "rooted d0"
    and "\<forall>c\<in>set cs. fc_recoverable c \<and> (\<exists>p. join_resolve fs [] base (fc_path c) = Some p \<and> is_within p base \<and>
      p \<noteq> [] \<and> undoes d0 d1 p c)"
  shows "\<exists>d' reverted. undo_loop fs mt base d cs = (d', Inr (reverted, []))"
  using assms
proof (induction cs arbitrary: d)
  case Nil
  then show ?case by simp
next
  case (Cons c cs)
  obtain p where "join_resolve fs [] base (fc_path c) = Some p" "is_within p base" "p \<noteq> []" "undoes d0 d1 p c"
      "fc_recoverable c"
    using Cons.prems(6) by auto
  then obtain da where da: "undo_change fs mt base d c = (da, Inr Undone)" "between d0 d1 da"
    using undo_change_ok [OF Cons.prems(1-5)] by blast
  obtain d' rs where "undo_loop fs mt base da cs = (d', Inr (rs, []))"
    using Cons.IH [OF da(2) Cons.prems(2-5)] Cons.prems(6) by auto
  then show ?case using da(1) by simp
qed

lemma change_current:
  assumes "change_of k e0 e1 = Some c" and "\<And>e. e1 = Some e \<Longrightarrow> \<exists>raw. bytes_at d1 p = Some raw \<and> describes fs raw e"
  shows "current fs d1 p c"
  using assms by (cases e0; cases e1)
    (auto simp: added_change_def modified_change_def deleted_change_def file_change_defaults_def current_def describes_def Let_def)

lemma recorded_current:
  assumes q: "quiet_run fs base d0 d1"
    and c: "c \<in> set (ch_files (recorded_changes fs max_file max_total now run_id status base d0 d1))"
    and p: "in_scope base p" "resolves fs base p" "fc_path c = rel_name base p"
  shows "current fs d1 p c"
proof -
  define s0 where "s0 = sn_files (take_content_snapshot fs now max_file max_total base d0)"
  define s1 where "s1 = sn_files (take_content_snapshot fs now max_file max_total base d1)"
  have ex: "exists_at d1 base" and n: "plain_names fs base d0 d1" using q by (auto simp: quiet_run_def)
  have n1: "in_scope base q \<Longrightarrow> bytes_at d1 q \<noteq> None \<Longrightarrow> resolves fs base q" for q
    using plain_name [OF n] by blast
  obtain k where k: "change_of k (map_of s0 k) (map_of s1 k) = Some c"
    using c by (auto simp: recorded_changes_def build_change_set_def Let_def set_map_filter s0_def s1_def)
  have "fc_path c = k"
    using k by (cases "map_of s0 k"; cases "map_of s1 k")
      (auto simp: added_change_def modified_change_def deleted_change_def file_change_defaults_def Let_def)
  then have k': "k = rel_name base p" using p(3) by simp
  show ?thesis
    by (rule change_current [OF k]) (use entry_matches(2) [OF ex s1_def n1 p(1,2)] in \<open>simp add: k'\<close>)
qed

lemma no_conflict:
  assumes l: "no_links d1" "no_links d0" and kinds: "kinds_kept d0 d1"
    and p: "join_resolve fs [] base (fc_path c) = Some p" "is_within p base"
    and und: "undoes d0 d1 p c" and cur: "current fs d1 p c" and rec: "fc_recoverable c"
  shows "change_conflict fs d1 base c = Inr None"
proof -
  have p': "join_resolve fs d1 base (fc_path c) = Some p" using p(1) join_resolve_plain [OF l(1)] by simp
  consider "fc_type c \<in> {''added'', ''modified''}" | "fc_type c = ''deleted''" using und by (auto simp: undoes_def)
  then show ?thesis
  proof cases
    case 1
    then obtain b where b: "bytes_at d1 p = Some b" "fc_new_sha c = fs_sha256 fs b" using cur by (auto simp: current_def)
    then show ?thesis using 1 p(2) rec
      by (auto simp: change_conflict_def p' bytes_exist [OF b(1)] sha_conflict_def sha256_file_def)
  next
    case 2
    then have "bytes_at d0 p \<noteq> None" "bytes_at d1 p = None" using und by (auto simp: undoes_def)
    then have "node_at d1 p = None"
      using kinds_file [OF kinds, of p] by (simp add: plain_file_bytes l)
    then show ?thesis using 2 p(2) rec by (simp add: change_conflict_def p' exists_plain [OF l(1)])
  qed
qed



end
