(* ===== verification/RevertProps.thy ===== *)
theory RevertProps
  imports RevertSucceeds
begin

text \<open>
  Stream-derived changes and their reverts, concrete instances of the revert theorems, and three
  runs whose revert does harm: a directory replaced by a file, a link made to an existing file,
  and a file deleted and created again.
\<close>

section \<open>Undoing fragment edits\<close>

inductive edits_lead :: "string \<Rightarrow> dict list \<Rightarrow> string \<Rightarrow> bool" where
  nothing: "edits_lead t [] t"
| fragment: "edits_lead t es (pre @ old @ post) \<Longrightarrow> dget e ''old'' = JStr old \<Longrightarrow> dget e ''new'' = JStr new \<Longrightarrow>
    \<not> truthy (dget e ''replace_all'') \<Longrightarrow> new \<noteq> [] \<Longrightarrow> (\<forall>k<length pre. \<not> prefix new (drop k (pre @ new @ post))) \<Longrightarrow>
    edits_lead t (es @ [e]) (pre @ new @ post)"

lemma replace_once_at:
  assumes "\<forall>k<length pre. \<not> prefix new (drop k (pre @ new @ post))" and "new \<noteq> []"
  shows "replace_once new old (pre @ new @ post) = pre @ old @ post"
  using assms(1)
proof (induction pre)
  case Nil
  then show ?case using assms(2) by (cases new) simp_all
next
  case (Cons c pre)
  have "\<not> prefix new ((c # pre) @ new @ post)" using Cons.prems [rule_format, of 0] by simp
  moreover have "\<forall>k<length pre. \<not> prefix new (drop k (pre @ new @ post))"
  proof (intro allI impI)
    fix k
    assume "k < length pre"
    then show "\<not> prefix new (drop k (pre @ new @ post))" using Cons.prems [rule_format, of "Suc k"] by simp
  qed
  ultimately show ?case using Cons.IH by simp
qed

lemma edits_undone: "edits_lead t es t' \<Longrightarrow> reverse_apply_edits t' es = (t, True)"
proof (induction rule: edits_lead.induct)
  case (nothing t)
  show ?case by (simp add: reverse_apply_edits_def)
next
  case (fragment t es pre old post e new)
  have "contains new (pre @ new @ post)" by (auto simp: contains_def sublist_def)
  moreover note replace_once_at [OF fragment.hyps(6,5), of old]
  ultimately show ?case using fragment.hyps(2-5) fragment.IH by (simp add: reverse_apply_edits_def)
qed

lemma edits_valid: "edits_lead t es t' \<Longrightarrow> filter is_valid_edit es = es"
  by (induction rule: edits_lead.induct) (simp_all add: is_valid_edit_def is_str_def)

section \<open>Stream changes\<close>

text \<open>a stream change listed as recoverable is either a file the run created or a file it edited,
  neither deleted nor overwritten in place, and records the hash and size of the file as it is
  when the run ends, so the revert can tell whether it changed since.\<close>

lemma stream_recoverable:
  assumes "stream_file_change fs d base rel e = Some c" and "fc_recoverable c"
  shows "fc_path c = rel \<and> \<not> os_deleted e \<and>
    (fc_type c = ''added'' \<and> os_created e \<or>
     fc_type c = ''edited'' \<and> \<not> os_created e \<and> \<not> os_overwritten e \<and> fc_edits c \<noteq> []) \<and>
    (\<exists>p raw. join_resolve fs d base rel = Some p \<and> is_within p base \<and> bytes_at d p = Some raw \<and>
       fc_new_sha c = fs_sha256 fs raw \<and> fc_new_size c = int (length raw))"
proof -
  define after where "after = (case join_resolve fs d base rel of
     None \<Rightarrow> None | Some p \<Rightarrow> (if is_within p base then read_after fs d p else None))"
  have a: "\<exists>p raw. join_resolve fs d base rel = Some p \<and> is_within p base \<and> bytes_at d p = Some raw \<and>
      sha = fs_sha256 fs raw \<and> n = int (length raw)" if "after = Some (sha, content, n)" for sha content n
    using that by (auto simp: after_def read_after_def split: option.splits if_splits)
  have f: "stream_file_change fs d base rel e =
     (if os_deleted e \<and> \<not> os_created e
      then Some ((file_change_defaults rel ''deleted'')\<lparr> fc_recoverable := False,
             fc_skipped := ''file deleted; '' @ full_capture_hint \<rparr>)
      else if os_deleted e \<and> os_created e then None
      else if os_created e then Some (created_change rel after)
      else if os_overwritten e
      then Some ((file_change_defaults rel ''modified'')\<lparr> fc_recoverable := False,
             fc_skipped := ''file overwritten; '' @ full_capture_hint \<rparr>)
      else if filter is_valid_edit (os_edits e) \<noteq> [] then Some (edited_change rel (filter is_valid_edit (os_edits e)) after)
      else None)"
    by (simp add: stream_file_change_def after_def Let_def)
  show ?thesis
  proof (cases after)
    case None
    then show ?thesis using assms by (auto simp: f created_change_def edited_change_def split: if_splits)
  next
    case (Some x)
    obtain sha content n where x: "x = (sha, content, n)" by (cases x)
    obtain p raw where p: "join_resolve fs d base rel = Some p" "is_within p base" "bytes_at d p = Some raw"
        "sha = fs_sha256 fs raw" "n = int (length raw)"
      using a Some x by blast
    show ?thesis using assms Some p
      by (auto simp: f x created_change_def edited_change_def file_change_defaults_def split: if_splits)
  qed
qed

text \<open>a file the run only edited through fragments, whose text holds no carriage return, gets its old
  text back when each inserted fragment is found first where it was put: the change the stream
  gives is recoverable and its revert succeeds.\<close>

lemma edited_file_restored:
  assumes "edits_lead old es raw" and "es \<noteq> []" and "no_links d"
    and "bytes_at d p = Some raw" and "utf8_ok raw" and "CR \<notin> set raw" and "can_write d p"
    and "join_resolve fs d base rel = Some p" and "is_within p base"
  shows "\<exists>c res. stream_file_change fs d base rel
      \<lparr> os_created = False, os_overwritten = False, os_deleted = False, os_edits = es \<rparr> = Some c \<and>
    (\<forall>cs. ch_files cs = [c] \<longrightarrow> revert_files fs mt d rid cs base = (put_node p (File old mt) d, Inr res)) \<and> rr_success res"
proof -
  define c where "c = edited_change rel es (read_after fs d p)"
  have ra: "read_after fs d p = Some (fs_sha256 fs raw, Some raw, int (length raw))"
    using assms(4,5) by (simp add: read_after_def)
  have c: "fc_path c = rel" "fc_type c = ''edited''" "fc_recoverable c" "fc_new_sha c = fs_sha256 fs raw" "fc_edits c = es"
    by (simp_all add: c_def ra edited_change_def file_change_defaults_def)
  have rt: "read_text d p = Inr raw" using assms(4-6) by (simp add: read_text_def normalize_id)
  have "change_conflict fs d base c = Inr None"
    using assms(9) c edits_undone [OF assms(1)]
    by (simp add: change_conflict_def assms(8) bytes_exist [OF assms(4)] edit_conflict_def sha_conflict_def
        sha256_file_def assms(4) rt)
  moreover have "undo_change fs mt base d c = (put_node p (File old mt) d, Inr Undone)"
    using assms(9) c edits_undone [OF assms(1)] assms(7)
    by (simp add: undo_change_def assms(8) undo_edited_def rt write_text_def)
  ultimately have "\<forall>cs. ch_files cs = [c] \<longrightarrow>
      revert_files fs mt d rid cs base = (put_node p (File old mt) d, Inr (finish_revert rid base ([rel], [])))"
    by (simp add: revert_files_def c(1))
  moreover have "stream_file_change fs d base rel
      \<lparr> os_created = False, os_overwritten = False, os_deleted = False, os_edits = es \<rparr> = Some c"
    using assms(2,8,9) edits_valid [OF assms(1)] by (simp add: stream_file_change_def c_def)
  ultimately show ?thesis by (auto simp: finish_revert_def)
qed

definition rv_edit :: dict where
  "rv_edit = [(''old'', JStr ''b''), (''new'', JStr ''B'')]"

section \<open>Reverts that do harm\<close>

text \<open>The disks of three runs: a directory gives way to a file of its name; a link to the file appears; a
  file that could not be read before can be read after.\<close>

definition replaced_before :: disk where
  "replaced_before = [([''w''], Folder), ([''w'', ''x''], Folder), ([''w'', ''x'', ''b''], File ''old'' 1), ([''w'', ''z''], File ''1'' 1)]"

definition replaced_after :: disk where
  "replaced_after = [([''w''], Folder), ([''w'', ''x''], File ''new'' 2), ([''w'', ''z''], File ''2'' 2)]"

definition linked_after :: disk where
  "linked_after = rv_disk ''one'' @ [([''w'', ''l''], Link [''w'', ''a''])]"

definition locked_before :: disk where
  "locked_before = [([''w''], Folder), ([''w'', ''a''], Locked 3 1)]"

definition rv_recorded :: "disk \<Rightarrow> disk \<Rightarrow> change_set" where
  "rv_recorded a b = recorded_changes rv_fs 10 20 [] ''r'' [] [''w''] a b"

text \<open>a run that replaces a directory by a file of the same name gives a change set in which every
  file is recoverable, yet its revert stops with an exception: it restores the directory's file
  before it removes the new file. The changes later in the list have already been undone.\<close>

lemma replaced_directory_breaks_revert:
  "ch_unrecoverable (rv_recorded replaced_before replaced_after) = [] \<and>
   snd (revert_files rv_fs 9 replaced_after ''r'' (rv_recorded replaced_before replaced_after) [''w'']) = Inl OSError \<and>
   bytes_at (fst (revert_files rv_fs 9 replaced_after ''r'' (rv_recorded replaced_before replaced_after) [''w'']))
     [''w'', ''z''] = Some ''1''"
  by code_simp

text \<open>a run that only makes a link to a file that was there is recorded as having added the link; the
  revert follows the link, removes the file itself and reports success.\<close>

lemma link_revert_deletes_target:
  "map fc_path (ch_files (rv_recorded (rv_disk ''one'') linked_after)) = [''l''] \<and>
   (case revert_files rv_fs 9 linked_after ''r'' (rv_recorded (rv_disk ''one'') linked_after) [''w''] of
      (d, Inr res) \<Rightarrow> rr_success res \<and> bytes_at d [''w'', ''a''] = None \<and>
         node_at d [''w'', ''l''] = Some (Link [''w'', ''a''])
    | (d, Inl e) \<Rightarrow> False)"
  by code_simp

text \<open>a file the stream reports deleted and then created again is listed as an added, recoverable
  file, although its old content was never captured: the revert reports success and the file is
  gone. Deleted alone it is unrecoverable, as it should be.\<close>

lemma recreated_file_lost:
  "(case build_stream_change_set rv_fs (rv_disk ''new'') [] ''r'' [''w''] []
       [JDict [(''op'', JStr ''delete''), (''path'', JStr ''a'')], JDict [(''op'', JStr ''create''), (''path'', JStr ''a'')]] of
     Inr c \<Rightarrow> ch_recoverable c = [''a''] \<and>
       (case revert_files rv_fs 9 (rv_disk ''new'') ''r'' c [''w''] of
          (d, Inr res) \<Rightarrow> rr_success res \<and> bytes_at d [''w'', ''a''] = None
        | (d, Inl e) \<Rightarrow> False)
   | Inl e \<Rightarrow> False) \<and>
   (case build_stream_change_set rv_fs (rv_disk ''new'') [] ''r'' [''w''] []
       [JDict [(''op'', JStr ''delete''), (''path'', JStr ''a'')]] of
     Inr c \<Rightarrow> ch_recoverable c = [] \<and> ch_unrecoverable c = [''a'']
   | Inl e \<Rightarrow> False)"
  by code_simp

text \<open>A file without read permission is not in the first snapshot; once it can be read it counts as
  added, and the revert removes it.\<close>

lemma unlocked_file_deleted:
  "(case revert_files rv_fs 9 (rv_disk ''one'') ''r'' (rv_recorded locked_before (rv_disk ''one'')) [''w''] of
      (d, Inr res) \<Rightarrow> rr_success res \<and> node_at d [''w'', ''a''] = None
    | (d, Inl e) \<Rightarrow> False)"
  by code_simp

text \<open>Reading in text mode loses the carriage returns of the untouched lines.\<close>

lemma crlf_edit_revert:
  "undo_edited 9 (rv_disk ([CHR ''B'', CR, LF])) [''w'', ''a'']
     ((file_change_defaults ''a'' ''edited'')\<lparr> fc_edits := [rv_edit] \<rparr>) =
   ([([''w''], Folder), ([''w'', ''a''], File [CHR ''b'', LF] 9)], Inr Undone)"
  by code_simp

text \<open>When the inserted fragment also stands earlier in the file, the wrong occurrence is undone and the
  edit still counts as reverted.\<close>

lemma wrong_occurrence_undone: "reverse_apply_edits ''B-aBc'' [rv_edit] = (''b-aBc'', True)"
  by code_simp

end
