(* ===== verification/EventLog.thy ===== *)
theory EventLog
  imports JsonLines KeyedStore
begin

text \<open>
  The append-only logs of tasks and sessions (\<open>core/storage.py\<close>): a file is its text, one JSON
  object a line. \<open>loads\<close> is \<open>json.loads\<close> with \<open>None\<close> for \<open>JSONDecodeError\<close>; \<open>fl\<close> renders floats
  and \<open>rp\<close> is \<open>repr\<close>.
\<close>

section \<open>The files\<close>

definition append_event :: "(rat \<Rightarrow> string) \<Rightarrow> dict \<Rightarrow> string \<Rightarrow> string" where
  "append_event fl payload content = content @ dumps fl (JDict payload) @ [LF]"

definition event_row :: "(string \<Rightarrow> json option) \<Rightarrow> string \<Rightarrow> dict option" where
  "event_row loads line =
     (if strip line = [] then None else (case loads line of Some (JDict d) \<Rightarrow> Some d | _ \<Rightarrow> None))"

definition tail_of :: "int \<Rightarrow> 'a list \<Rightarrow> 'a list" where
  \<comment> \<open>\<open>lines[-max(1, limit):]\<close>\<close>
  "tail_of limit xs = drop (length xs - nat (max 1 limit)) xs"

definition read_tail :: "(string \<Rightarrow> json option) \<Rightarrow> int \<Rightarrow> string \<Rightarrow> dict list" where
  "read_tail loads limit content =
     List.map_filter (event_row loads) (tail_of limit (splitlines (normalize_newlines content)))"

definition stripped_text :: "(json \<Rightarrow> string) \<Rightarrow> dict \<Rightarrow> string \<Rightarrow> string" where
  \<comment> \<open>\<open>str(event.get(key, "")).strip()\<close>\<close>
  "stripped_text rp d k = strip (py_str rp (dget_or d k (JStr [])))"

section \<open>The latest event of a key\<close>

text \<open>A dictionary filled in reading order: an event replaces the value of its key and keeps the
  key's place.\<close>

fun latest_by :: "(dict \<Rightarrow> string) \<Rightarrow> dict list \<Rightarrow> (string \<times> dict) list \<Rightarrow> (string \<times> dict) list" where
  "latest_by key [] acc = acc"
| "latest_by key (e # es) acc = latest_by key es (if key e = [] then acc else AList.update (key e) e acc)"

definition load_latest_sessions :: "(json \<Rightarrow> string) \<Rightarrow> (string \<Rightarrow> json option) \<Rightarrow> string \<Rightarrow> (string \<times> dict) list" where
  "load_latest_sessions rp loads content =
     latest_by (\<lambda>e. stripped_text rp e ''conversation_key'') (read_tail loads 5000 content) []"

definition latest_first :: "(dict \<Rightarrow> string) \<Rightarrow> dict list \<Rightarrow> dict list" where
  \<comment> \<open>\<open>sorted(items, key=key, reverse=True)\<close>, which keeps the order of equal keys\<close>
  "latest_first key xs = rev (sort_key key (rev xs))"

definition summary_row :: "dict \<Rightarrow> dict" where
  "summary_row e = [(''task_id'', dget_or e ''task_id'' (JStr [])), (''status'', dget_or e ''status'' (JStr [])),
     (''timestamp'', dget_or e ''timestamp'' (JStr []))]"

definition take_slice :: "int \<Rightarrow> 'a list \<Rightarrow> 'a list" where
  \<comment> \<open>\<open>items[:limit]\<close>\<close>
  "take_slice n xs = (if 0 \<le> n then take (nat n) xs else take (length xs - nat (- n)) xs)"

definition list_recent_task_summaries ::
    "(json \<Rightarrow> string) \<Rightarrow> (string \<Rightarrow> json option) \<Rightarrow> int \<Rightarrow> string \<Rightarrow> dict list" where
  "list_recent_task_summaries rp loads limit content =
     (let latest = latest_by (\<lambda>e. stripped_text rp e ''task_id'') (read_tail loads 500 content) [] in
      map summary_row (take_slice limit
        (latest_first (\<lambda>e. py_str rp (dget_or e ''timestamp'' (JStr []))) (map snd latest))))"

section \<open>Facts\<close>

text \<open>A document the log carries: no U+0085, and \<open>json.loads\<close> reads back what \<open>json.dumps\<close> wrote.\<close>

definition loggable :: "(rat \<Rightarrow> string) \<Rightarrow> (string \<Rightarrow> json option) \<Rightarrow> dict \<Rightarrow> bool" where
  "loggable fl loads d \<longleftrightarrow> nel_free (JDict d) \<and> loads (dumps fl (JDict d)) = Some (JDict d)"

definition log_text :: "(rat \<Rightarrow> string) \<Rightarrow> dict list \<Rightarrow> string" where
  "log_text fl es = file_text (map (\<lambda>d. dumps fl (JDict d)) es)"

lemma file_text_append: "file_text (xs @ ys) = file_text xs @ file_text ys"
  by (induction xs) simp_all

lemma append_event_log: "append_event fl e (log_text fl es) = log_text fl (es @ [e])"
  by (simp add: append_event_def log_text_def file_text_append)

lemma log_text_Nil [simp]: "log_text fl [] = []"
  by (simp add: log_text_def)

lemma event_row_dumps: "loggable fl loads d \<Longrightarrow> event_row loads (dumps fl (JDict d)) = Some d"
  by (simp add: event_row_def loggable_def del: dumps.simps)

lemma no_CR_file: "\<forall>l\<in>set ls. unbroken l \<Longrightarrow> CR \<notin> set (file_text ls)"
proof (induction ls)
  case (Cons l ls)
  have "is_break CR" by (simp add: is_break_def)
  then have "CR \<notin> set l" using Cons.prems by (auto simp: unbroken_def)
  then show ?case using Cons by simp
qed simp

lemma map_filter_all: "(\<And>x. x \<in> set xs \<Longrightarrow> f (g x) = Some x) \<Longrightarrow> List.map_filter f (map g xs) = xs"
  by (induction xs) (simp_all add: map_filter_simps)

lemma tail_of_map: "tail_of n (map f xs) = map f (tail_of n xs)"
  by (simp add: tail_of_def drop_map)

lemma set_tail_of: "set (tail_of n xs) \<subseteq> set xs"
  by (simp add: tail_of_def set_drop_subset)

lemma read_tail_log:
  assumes "\<forall>e\<in>set es. loggable fl loads e"
  shows "read_tail loads limit (log_text fl es) = tail_of limit es"
proof -
  have u: "\<forall>l\<in>set (map (\<lambda>d. dumps fl (JDict d)) es). unbroken l"
    using assms by (auto simp: loggable_def intro!: unbroken_dumps simp del: dumps.simps nel_free.simps)
  have "splitlines (normalize_newlines (log_text fl es)) = map (\<lambda>d. dumps fl (JDict d)) es"
    unfolding log_text_def normalize_id [OF no_CR_file [OF u]] by (rule splitlines_file_text [OF u])
  then show ?thesis
    using assms set_tail_of [of limit es]
    by (auto simp: read_tail_def tail_of_map intro!: map_filter_all event_row_dumps simp del: dumps.simps)
qed

lemma tail_of_short: "int (length xs) \<le> limit \<Longrightarrow> tail_of limit xs = xs"
  by (simp add: tail_of_def)

lemma latest_by_append: "latest_by key (xs @ ys) acc = latest_by key ys (latest_by key xs acc)"
  by (induction xs arbitrary: acc) simp_all

text \<open>The last event of the key wins.\<close>

fun last_event :: "(dict \<Rightarrow> string) \<Rightarrow> dict list \<Rightarrow> string \<Rightarrow> dict option" where
  "last_event key [] k = None"
| "last_event key (e # es) k =
     (case last_event key es k of Some x \<Rightarrow> Some x | None \<Rightarrow> (if key e = k then Some e else None))"

lemma map_of_latest_by:
  "k \<noteq> [] \<Longrightarrow> map_of (latest_by key es acc) k =
     (case last_event key es k of Some e \<Rightarrow> Some e | None \<Rightarrow> map_of acc k)"
  by (induction es arbitrary: acc) (auto simp: update_conv' split: option.splits)

lemma last_event_snoc:
  "last_event key (es @ [e]) k = (if key e = k then Some e else last_event key es k)"
  by (induction es) (auto split: option.splits)

lemma last_event_key: "last_event key es k = Some e \<Longrightarrow> key e = k \<and> e \<in> set es"
  by (induction es) (auto split: option.splits if_splits)

lemma distinct_latest_by: "distinct (map fst acc) \<Longrightarrow> distinct (map fst (latest_by key es acc))"
  by (induction es arbitrary: acc) (simp_all add: distinct_update)

lemma latest_by_keys: "\<forall>x\<in>set acc. fst x \<noteq> [] \<and> key (snd x) = fst x \<Longrightarrow> x \<in> set (latest_by key es acc) \<Longrightarrow>
    fst x \<noteq> [] \<and> key (snd x) = fst x"
proof (induction es arbitrary: acc)
  case (Cons e es)
  have "\<forall>x\<in>set (AList.update (key e) e acc). fst x \<noteq> [] \<and> key (snd x) = fst x" if "key e \<noteq> []"
    using Cons.prems(1) that by (induction acc) (auto split: if_splits)
  then show ?case using Cons by (simp split: if_splits)
qed simp

lemma last_event_append:
  "last_event key (xs @ ys) k = (case last_event key ys k of Some e \<Rightarrow> Some e | None \<Rightarrow> last_event key xs k)"
  by (induction xs) (auto split: option.splits)

lemma last_event_None: "last_event key es k = None \<longleftrightarrow> k \<notin> key ` set es"
  by (induction es) (auto split: option.splits)

end
