(* ===== verification/Sessions.thy ===== *)
theory Sessions
  imports EventLog IsoTime
begin

text \<open>
  Conversations (\<open>core/session_manager.py\<close>): the executor session, model and overrides of each
  conversation, kept in memory, appended to the session log after every change of them, and
  restored from the log when the process starts. A method's \<open>touch\<close> and change are one step.
\<close>

section \<open>State\<close>

record session_state =
  se_key :: string
  se_channel :: string
  se_user :: string
  se_active :: "string option"
  se_exec :: "(string \<times> string) list"
  se_traj :: "(string \<times> int) list"
  se_models :: "(string \<times> string) list"
  se_override :: json
  se_overrides :: "(string \<times> string) list"
  se_seen :: int

record session_manager =
  sm_sessions :: "(string \<times> session_state) list"
  sm_log :: "string option"

text \<open>The arguments every method takes.\<close>

record conversation =
  cv_key :: string
  cv_channel :: string
  cv_user :: string

definition new_session :: "int \<Rightarrow> string \<Rightarrow> string \<Rightarrow> string \<Rightarrow> session_state" where
  "new_session now key channel user = \<lparr> se_key = key, se_channel = channel, se_user = user, se_active = None,
     se_exec = [], se_traj = [], se_models = [], se_override = JNull, se_overrides = [], se_seen = now \<rparr>"

interpretation session_table: keyed_store map_of AList.update AList.delete "\<lambda>k v. True"
  by unfold_locales (simp_all add: update_conv' delete_conv')

section \<open>Methods\<close>

definition touched :: "int \<Rightarrow> conversation \<Rightarrow> session_manager \<Rightarrow> session_state" where
  "touched now cv m =
     (or_default (map_of (sm_sessions m) (cv_key cv)) (new_session now (cv_key cv) (cv_channel cv) (cv_user cv)))
       \<lparr> se_seen := now \<rparr>"

definition put_session :: "conversation \<Rightarrow> session_state \<Rightarrow> session_manager \<Rightarrow> session_manager" where
  "put_session cv s m = m\<lparr> sm_sessions := AList.update (cv_key cv) s (sm_sessions m) \<rparr>"

definition touch_session :: "int \<Rightarrow> conversation \<Rightarrow> session_manager \<Rightarrow> session_state \<times> session_manager" where
  "touch_session now cv m = (touched now cv m, put_session cv (touched now cv m) m)"

definition text_items :: "(string \<times> string) list \<Rightarrow> json" where
  \<comment> \<open>\<open>dict(sorted(d.items()))\<close>\<close>
  "text_items d = JDict (map (\<lambda>(k, v). (k, JStr v)) (sort_key fst d))"

definition int_items :: "(string \<times> int) list \<Rightarrow> json" where
  "int_items d = JDict (map (\<lambda>(k, v). (k, JInt v)) (sort_key fst d))"

definition session_payload :: "int \<Rightarrow> session_state \<Rightarrow> dict" where
  "session_payload now s =
     [(''timestamp'', JStr (isoformat now)), (''conversation_key'', JStr (se_key s)), (''channel'', JStr (se_channel s)),
      (''user_id'', JStr (se_user s)),
      (''active_task_id'', case se_active s of None \<Rightarrow> JNull | Some t \<Rightarrow> JStr t),
      (''executor_sessions'', text_items (se_exec s)), (''trajectory_idx'', int_items (se_traj s)),
      (''session_models'', text_items (se_models s)), (''executor_override'', se_override s),
      (''model_overrides'', text_items (se_overrides s))]"

definition persist_state :: "(rat \<Rightarrow> string) \<Rightarrow> int \<Rightarrow> session_state \<Rightarrow> session_manager \<Rightarrow> session_manager" where
  "persist_state fl now s m = (case sm_log m of
       None \<Rightarrow> m
     | Some content \<Rightarrow> m\<lparr> sm_log := Some (append_event fl (session_payload now s) content) \<rparr>)"

definition write_session ::
    "(rat \<Rightarrow> string) \<Rightarrow> int \<Rightarrow> conversation \<Rightarrow> (session_state \<Rightarrow> session_state) \<Rightarrow> session_manager \<Rightarrow> session_manager" where
  \<comment> \<open>touch_session, change, persist\<close>
  "write_session fl now cv f m =
     (let s = f (touched now cv m) in persist_state fl now s (put_session cv s m))"

definition set_active_task :: "int \<Rightarrow> conversation \<Rightarrow> string option \<Rightarrow> session_manager \<Rightarrow> session_manager" where
  "set_active_task now cv task m = put_session cv ((touched now cv m)\<lparr> se_active := task \<rparr>) m"

definition norm_name :: "string \<Rightarrow> string" where
  "norm_name name = lower (strip name)"

definition opt_strip :: "string option \<Rightarrow> string" where
  \<comment> \<open>\<open>v.strip() if v else ""\<close>\<close>
  "opt_strip v = strip (or_default v [])"

definition set_or_pop :: "string \<Rightarrow> string \<Rightarrow> (string \<times> string) list \<Rightarrow> (string \<times> string) list" where
  "set_or_pop k v d = (if v \<noteq> [] then AList.update k v d else AList.delete k d)"

definition get_executor_session_id ::
    "int \<Rightarrow> conversation \<Rightarrow> string \<Rightarrow> session_manager \<Rightarrow> string option \<times> session_manager" where
  "get_executor_session_id now cv name m = (case touch_session now cv m of (s, m') \<Rightarrow>
     (if norm_name name = [] then None else map_of (se_exec s) (norm_name name), m'))"

definition set_executor_session_id ::
    "(rat \<Rightarrow> string) \<Rightarrow> int \<Rightarrow> conversation \<Rightarrow> string \<Rightarrow> string option \<Rightarrow> session_manager \<Rightarrow> session_manager" where
  "set_executor_session_id fl now cv name session_id m =
     (let k = norm_name name in
      if k = [] then snd (touch_session now cv m)
      else write_session fl now cv (\<lambda>s. s\<lparr> se_exec := set_or_pop k (opt_strip session_id) (se_exec s) \<rparr>) m)"

definition get_trajectory_idx :: "int \<Rightarrow> conversation \<Rightarrow> string \<Rightarrow> session_manager \<Rightarrow> int \<times> session_manager" where
  "get_trajectory_idx now cv session_id m = (case touch_session now cv m of (s, m') \<Rightarrow>
     (if strip session_id = [] then -1 else or_default (map_of (se_traj s) (strip session_id)) (-1), m'))"

definition set_trajectory_idx ::
    "(rat \<Rightarrow> string) \<Rightarrow> int \<Rightarrow> conversation \<Rightarrow> string \<Rightarrow> int \<Rightarrow> session_manager \<Rightarrow> session_manager" where
  "set_trajectory_idx fl now cv session_id idx m =
     (let k = strip session_id in
      if k = [] then snd (touch_session now cv m)
      else write_session fl now cv (\<lambda>s. s\<lparr> se_traj := AList.update k idx (se_traj s) \<rparr>) m)"

definition get_session_model :: "int \<Rightarrow> conversation \<Rightarrow> string \<Rightarrow> session_manager \<Rightarrow> string \<times> session_manager" where
  "get_session_model now cv session_id m = (case touch_session now cv m of (s, m') \<Rightarrow>
     (if strip session_id = [] then [] else or_default (map_of (se_models s) (strip session_id)) [], m'))"

definition set_session_model ::
    "(rat \<Rightarrow> string) \<Rightarrow> int \<Rightarrow> conversation \<Rightarrow> string \<Rightarrow> string \<Rightarrow> session_manager \<Rightarrow> session_manager" where
  "set_session_model fl now cv session_id model m =
     (let k = strip session_id; v = strip model in
      if k = [] \<or> v = [] then snd (touch_session now cv m)
      else write_session fl now cv
        (\<lambda>s. if map_of (se_models s) k = None then s\<lparr> se_models := AList.update k v (se_models s) \<rparr> else s) m)"

definition get_executor_override :: "int \<Rightarrow> conversation \<Rightarrow> session_manager \<Rightarrow> json \<times> session_manager" where
  "get_executor_override now cv m = (case touch_session now cv m of (s, m') \<Rightarrow> (se_override s, m'))"

definition set_executor_override ::
    "(rat \<Rightarrow> string) \<Rightarrow> int \<Rightarrow> conversation \<Rightarrow> string option \<Rightarrow> session_manager \<Rightarrow> session_manager" where
  "set_executor_override fl now cv name m =
     write_session fl now cv (\<lambda>s. s\<lparr> se_override := (case name of
         None \<Rightarrow> JNull
       | Some n \<Rightarrow> (if n = [] then JNull else JStr (norm_name n))) \<rparr>) m"

definition get_model_override ::
    "int \<Rightarrow> conversation \<Rightarrow> string \<Rightarrow> session_manager \<Rightarrow> string option \<times> session_manager" where
  "get_model_override now cv name m = (case touch_session now cv m of (s, m') \<Rightarrow>
     (if norm_name name = [] then None else map_of (se_overrides s) (norm_name name), m'))"

definition set_model_override ::
    "(rat \<Rightarrow> string) \<Rightarrow> int \<Rightarrow> conversation \<Rightarrow> string \<Rightarrow> string option \<Rightarrow> session_manager \<Rightarrow> session_manager" where
  "set_model_override fl now cv name model m =
     (let k = norm_name name in
      if k = [] then snd (touch_session now cv m)
      else write_session fl now cv (\<lambda>s. s\<lparr> se_overrides := set_or_pop k (opt_strip model) (se_overrides s) \<rparr>) m)"

definition reset_had :: "session_state \<Rightarrow> bool" where
  "reset_had s \<longleftrightarrow> se_exec s \<noteq> [] \<or> or_default (se_active s) [] \<noteq> [] \<or> truthy (se_override s) \<or> se_overrides s \<noteq> []"

definition reset_session ::
    "(rat \<Rightarrow> string) \<Rightarrow> int \<Rightarrow> conversation \<Rightarrow> session_manager \<Rightarrow> bool \<times> session_manager" where
  "reset_session fl now cv m =
     (reset_had (touched now cv m),
      write_session fl now cv (\<lambda>s. s\<lparr> se_active := None, se_exec := [], se_traj := [], se_models := [],
        se_override := JNull, se_overrides := [] \<rparr>) m)"

section \<open>Restoring\<close>

definition items_of :: "json \<Rightarrow> dict" where
  "items_of v = (case v of JDict d \<Rightarrow> d | _ \<Rightarrow> [])"

definition restore_text :: "(json \<Rightarrow> string) \<Rightarrow> (string \<Rightarrow> string) \<Rightarrow> string \<times> json \<Rightarrow> (string \<times> string) list
    \<Rightarrow> (string \<times> string) list" where
  "restore_text rp nf kv acc =
     (let k = nf (fst kv); v = strip (py_str rp (snd kv)) in
      if k \<noteq> [] \<and> v \<noteq> [] then AList.update k v acc else acc)"

definition restore_int :: "string \<times> json \<Rightarrow> (string \<times> int) list \<Rightarrow> (string \<times> int) list" where
  "restore_int kv acc = (case py_to_int (snd kv) of
       Inl e \<Rightarrow> acc
     | Inr n \<Rightarrow> (if strip (fst kv) \<noteq> [] then AList.update (strip (fst kv)) n acc else acc))"

definition restored_session :: "(json \<Rightarrow> string) \<Rightarrow> int \<Rightarrow> string \<Rightarrow> dict \<Rightarrow> session_state option" where
  "restored_session rp now key payload =
     (let channel = stripped_text rp payload ''channel''; user = stripped_text rp payload ''user_id'' in
      if channel = [] \<or> user = [] then None
      else Some \<lparr> se_key = key, se_channel = channel, se_user = user, se_active = None,
        se_exec = fold (restore_text rp norm_name) (items_of (dget payload ''executor_sessions'')) [],
        se_traj = fold restore_int (items_of (dget payload ''trajectory_idx'')) [],
        se_models = fold (restore_text rp strip) (items_of (dget payload ''session_models'')) [],
        se_override = dget payload ''executor_override'',
        se_overrides = fold (restore_text rp norm_name) (items_of (dget payload ''model_overrides'')) [],
        se_seen = now \<rparr>)"

fun restore_rows :: "(json \<Rightarrow> string) \<Rightarrow> int \<Rightarrow> (string \<times> dict) list \<Rightarrow> (string \<times> session_state) list \<Rightarrow>
    (string \<times> session_state) list" where
  "restore_rows rp now [] acc = acc"
| "restore_rows rp now ((k, payload) # rows) acc =
     restore_rows rp now rows (case restored_session rp now k payload of None \<Rightarrow> acc | Some s \<Rightarrow> AList.update k s acc)"

definition start_manager ::
    "(json \<Rightarrow> string) \<Rightarrow> (string \<Rightarrow> json option) \<Rightarrow> int \<Rightarrow> string option \<Rightarrow> session_manager" where
  "start_manager rp loads now storage = \<lparr>
     sm_sessions = (case storage of None \<Rightarrow> []
       | Some content \<Rightarrow> restore_rows rp now (load_latest_sessions rp loads content) []),
     sm_log = storage \<rparr>"

end
