(* ===== verification/SessionFacts.thy ===== *)
theory SessionFacts
  imports Sessions
begin

text \<open>
  A restart gives every conversation back: what the session manager holds after any sequence of
  method calls is what a new manager restores from the log, as long as the log's tail holds the
  events. The executor session table is a keyed store; the first model recorded for a session
  stays.
\<close>

section \<open>Runs\<close>

datatype session_op =
    Touch
  | SetActive "string option"
  | SetSession string "string option"
  | SetTrajectory string int
  | SetModel string string
  | SetOverride "string option"
  | SetModelOverride string "string option"
  | Reset

fun session_step :: "(rat \<Rightarrow> string) \<Rightarrow> int \<Rightarrow> conversation \<Rightarrow> session_op \<Rightarrow> session_manager \<Rightarrow> session_manager" where
  "session_step fl now cv Touch m = snd (touch_session now cv m)"
| "session_step fl now cv (SetActive t) m = set_active_task now cv t m"
| "session_step fl now cv (SetSession n v) m = set_executor_session_id fl now cv n v m"
| "session_step fl now cv (SetTrajectory n i) m = set_trajectory_idx fl now cv n i m"
| "session_step fl now cv (SetModel n v) m = set_session_model fl now cv n v m"
| "session_step fl now cv (SetOverride n) m = set_executor_override fl now cv n m"
| "session_step fl now cv (SetModelOverride n v) m = set_model_override fl now cv n v m"
| "session_step fl now cv Reset m = snd (reset_session fl now cv m)"

fun persists :: "session_op \<Rightarrow> bool" where
  "persists Touch = False"
| "persists (SetActive t) = False"
| "persists (SetSession n v) = (norm_name n \<noteq> [])"
| "persists (SetTrajectory n i) = (strip n \<noteq> [])"
| "persists (SetModel n v) = (strip n \<noteq> [] \<and> strip v \<noteq> [])"
| "persists (SetOverride n) = True"
| "persists (SetModelOverride n v) = (norm_name n \<noteq> [])"
| "persists Reset = True"

fun session_run :: "(rat \<Rightarrow> string) \<Rightarrow> (int \<times> conversation \<times> session_op) list \<Rightarrow> session_manager \<Rightarrow> session_manager" where
  "session_run fl [] m = m"
| "session_run fl ((now, cv, op) # ops) m = session_run fl ops (session_step fl now cv op m)"

text \<open>The events a run appends to the log.\<close>

fun session_events :: "(rat \<Rightarrow> string) \<Rightarrow> (int \<times> conversation \<times> session_op) list \<Rightarrow> session_manager \<Rightarrow> dict list" where
  "session_events fl [] m = []"
| "session_events fl ((now, cv, op) # ops) m =
     (let m1 = session_step fl now cv op m in
      (if persists op then [session_payload now (the (map_of (sm_sessions m1) (cv_key cv)))] else []) @
      session_events fl ops m1)"

section \<open>Clean texts\<close>

definition clean_text :: "string \<Rightarrow> bool" where
  \<comment> \<open>a text the log keeps as it is: stripped, not empty, no U+0085\<close>
  "clean_text s \<longleftrightarrow> strip s = s \<and> s \<noteq> [] \<and> nel_free_str s"

definition clean_map :: "(string \<Rightarrow> string) \<Rightarrow> (string \<times> string) list \<Rightarrow> bool" where
  "clean_map nf d \<longleftrightarrow> distinct (map fst d) \<and>
     (\<forall>(k, v)\<in>set d. nf k = k \<and> k \<noteq> [] \<and> nel_free_str k \<and> clean_text v)"

definition clean_ints :: "(string \<times> int) list \<Rightarrow> bool" where
  "clean_ints d \<longleftrightarrow> distinct (map fst d) \<and> (\<forall>(k, v)\<in>set d. clean_text k)"

definition clean_option :: "string option \<Rightarrow> bool" where
  "clean_option v \<longleftrightarrow> nel_free_str (or_default v [])"

definition clean_override :: "json \<Rightarrow> bool" where
  "clean_override v \<longleftrightarrow> v = JNull \<or> (\<exists>s. v = JStr s \<and> nel_free_str s)"

definition clean_conversation :: "conversation \<Rightarrow> bool" where
  "clean_conversation cv \<longleftrightarrow> clean_text (cv_key cv) \<and> clean_text (cv_channel cv) \<and> clean_text (cv_user cv)"

fun clean_op :: "session_op \<Rightarrow> bool" where
  "clean_op Touch = True"
| "clean_op (SetActive t) = clean_option t"
| "clean_op (SetSession n v) = (nel_free_str n \<and> clean_option v)"
| "clean_op (SetTrajectory n i) = nel_free_str n"
| "clean_op (SetModel n v) = (nel_free_str n \<and> nel_free_str v)"
| "clean_op (SetOverride n) = clean_option n"
| "clean_op (SetModelOverride n v) = (nel_free_str n \<and> clean_option v)"
| "clean_op Reset = True"

definition clean_session :: "string \<Rightarrow> session_state \<Rightarrow> bool" where
  "clean_session k s \<longleftrightarrow> se_key s = k \<and> clean_text k \<and> clean_text (se_channel s) \<and> clean_text (se_user s) \<and>
     clean_option (se_active s) \<and> clean_map norm_name (se_exec s) \<and> clean_ints (se_traj s) \<and>
     clean_map strip (se_models s) \<and> clean_override (se_override s) \<and> clean_map norm_name (se_overrides s)"

definition same_saved :: "session_state \<Rightarrow> session_state \<Rightarrow> bool" where
  "same_saved s t \<longleftrightarrow> se_channel s = se_channel t \<and> se_user s = se_user t \<and>
     map_of (se_exec s) = map_of (se_exec t) \<and> map_of (se_traj s) = map_of (se_traj t) \<and>
     map_of (se_models s) = map_of (se_models t) \<and> se_override s = se_override t \<and>
     map_of (se_overrides s) = map_of (se_overrides t)"

definition unset :: "session_state \<Rightarrow> bool" where
  "unset s \<longleftrightarrow> se_exec s = [] \<and> se_traj s = [] \<and> se_models s = [] \<and> se_override s = JNull \<and> se_overrides s = []"

lemma nel_free_dropWhile: "nel_free_str s \<Longrightarrow> nel_free_str (dropWhile P s)"
  by (auto simp: nel_free_str_def dest: set_dropWhileD)

lemma nel_free_rev [simp]: "nel_free_str (rev s) = nel_free_str s"
  by (simp add: nel_free_str_def)

lemma nel_free_strip [simp]: "nel_free_str s \<Longrightarrow> nel_free_str (strip s)"
  by (simp add: strip_def lstrip_def nel_free_dropWhile)

lemma nel_free_lower [simp]: "nel_free_str s \<Longrightarrow> nel_free_str (lower s)"
proof -
  assume a: "nel_free_str s"
  have "code (lower_char c) \<noteq> 133" if "c \<in> set s" for c
  proof -
    have "code c < 256" "code c \<noteq> 133" using a that by (auto simp: code_less nel_free_str_def)
    then show ?thesis by (auto simp: lower_char_def Let_def)
  qed
  then show ?thesis by (simp add: nel_free_str_def lower_def)
qed

lemma nel_free_Nil [simp]: "nel_free_str []"
  by (simp add: nel_free_str_def)

lemma norm_name_idem [simp]: "norm_name (norm_name n) = norm_name n"
  by (simp add: norm_name_def)

lemma nel_free_norm [simp]: "nel_free_str n \<Longrightarrow> nel_free_str (norm_name n)"
  by (simp add: norm_name_def)

lemma set_AList_update: "set (AList.update k v d) \<subseteq> insert (k, v) (set d)"
  by (induction d) auto

lemma clean_map_update:
  "clean_map nf d \<Longrightarrow> nf k = k \<Longrightarrow> k \<noteq> [] \<Longrightarrow> nel_free_str k \<Longrightarrow> clean_text v \<Longrightarrow> clean_map nf (AList.update k v d)"
  using set_AList_update [of k v d] by (auto simp: clean_map_def distinct_update)

lemma clean_map_delete: "clean_map nf d \<Longrightarrow> clean_map nf (AList.delete k d)"
  by (auto simp: clean_map_def AList.delete_eq distinct_map_filter)

lemma clean_map_set_or_pop:
  "clean_map norm_name d \<Longrightarrow> nel_free_str n \<Longrightarrow> norm_name n \<noteq> [] \<Longrightarrow> clean_option v \<Longrightarrow>
     clean_map norm_name (set_or_pop (norm_name n) (opt_strip v) d)"
  by (auto simp: set_or_pop_def opt_strip_def clean_option_def clean_text_def intro!: clean_map_update clean_map_delete)

lemma clean_ints_update: "clean_ints d \<Longrightarrow> clean_text k \<Longrightarrow> clean_ints (AList.update k n d)"
  using set_AList_update [of k n d] by (auto simp: clean_ints_def distinct_update)

section \<open>Payloads\<close>

lemma map_of_sorted_items: "distinct (map fst d) \<Longrightarrow> map_of (sort_key fst d) = map_of d"
proof -
  assume d: "distinct (map fst d)"
  then have "distinct (map fst (sort_key fst d))" by (metis distinct_map distinct_sort set_sort)
  then show ?thesis using d map_of_inject_set by fastforce
qed

lemma distinct_sorted_items: "distinct (map fst d) \<Longrightarrow> distinct (map fst (sort_key fst d))"
  by (metis distinct_map distinct_sort set_sort)

lemma restore_texts:
  assumes "\<forall>(k, v)\<in>set d. nf k = k \<and> k \<noteq> [] \<and> nel_free_str k \<and> clean_text v"
  shows "fold (restore_text rp nf) (map (\<lambda>(k, v). (k, JStr v)) d) acc = fold (\<lambda>(k, v). AList.update k v) d acc"
  using assms by (induction d arbitrary: acc) (auto simp: restore_text_def clean_text_def)

lemma restored_texts:
  assumes "clean_map nf d"
  shows "map_of (fold (restore_text rp nf) (items_of (text_items d)) []) = map_of d"
proof
  fix k
  have d: "distinct (map fst d)" using assms by (simp add: clean_map_def)
  have "fold (restore_text rp nf) (items_of (text_items d)) [] = fold (\<lambda>(k, v). AList.update k v) (sort_key fst d) []"
    unfolding text_items_def items_of_def json.case
    by (rule restore_texts) (use assms in \<open>auto simp: clean_map_def\<close>)
  then show "map_of (fold (restore_text rp nf) (items_of (text_items d)) []) k = map_of d k"
    using session_table.store_batch [OF distinct_sorted_items [OF d], of "[]" k]
    by (simp add: map_of_sorted_items [OF d] split: option.splits)
qed

lemma restore_ints:
  assumes "\<forall>(k, v)\<in>set d. clean_text k"
  shows "fold restore_int (map (\<lambda>(k, v). (k, JInt v)) d) acc = fold (\<lambda>(k, v). AList.update k v) d acc"
  using assms by (induction d arbitrary: acc) (auto simp: restore_int_def clean_text_def)

lemma restored_ints:
  assumes "clean_ints d"
  shows "map_of (fold restore_int (items_of (int_items d)) []) = map_of d"
proof
  fix k
  have d: "distinct (map fst d)" using assms by (simp add: clean_ints_def)
  have "fold restore_int (items_of (int_items d)) [] = fold (\<lambda>(k, v). AList.update k v) (sort_key fst d) []"
    unfolding int_items_def items_of_def json.case
    by (rule restore_ints) (use assms in \<open>auto simp: clean_ints_def\<close>)
  then show "map_of (fold restore_int (items_of (int_items d)) []) k = map_of d k"
    using session_table.store_batch [OF distinct_sorted_items [OF d], of "[]" k]
    by (simp add: map_of_sorted_items [OF d] split: option.splits)
qed

lemma payload_fields:
  "dget (session_payload t s) ''executor_sessions'' = text_items (se_exec s)"
  "dget (session_payload t s) ''trajectory_idx'' = int_items (se_traj s)"
  "dget (session_payload t s) ''session_models'' = text_items (se_models s)"
  "dget (session_payload t s) ''executor_override'' = se_override s"
  "dget (session_payload t s) ''model_overrides'' = text_items (se_overrides s)"
  "stripped_text rp (session_payload t s) ''conversation_key'' = strip (se_key s)"
  "stripped_text rp (session_payload t s) ''channel'' = strip (se_channel s)"
  "stripped_text rp (session_payload t s) ''user_id'' = strip (se_user s)"
  by (simp_all add: session_payload_def stripped_text_def)

lemma restored_payload:
  assumes "clean_session k s"
  shows "\<exists>s'. restored_session rp now k (session_payload t s) = Some s' \<and> same_saved s s' \<and> se_active s' = None"
proof -
  have "strip (se_channel s) = se_channel s" "se_channel s \<noteq> []" "strip (se_user s) = se_user s" "se_user s \<noteq> []"
    and c: "clean_map norm_name (se_exec s)" "clean_ints (se_traj s)" "clean_map strip (se_models s)"
      "clean_map norm_name (se_overrides s)"
    using assms by (simp_all add: clean_session_def clean_text_def)
  then show ?thesis
    by (simp add: restored_session_def payload_fields Let_def same_saved_def restored_texts restored_ints)
qed

lemma nel_free_items: "clean_map nf d \<Longrightarrow> nel_free (text_items d)"
  by (auto simp: text_items_def clean_map_def clean_text_def)

lemma nel_free_int_items: "clean_ints d \<Longrightarrow> nel_free (int_items d)"
  by (auto simp: int_items_def clean_ints_def clean_text_def)

lemma nel_free_isoformat: "nel_free_str (isoformat t)"
proof -
  have "is_space c" if "code c = 133" for c using that by (simp add: is_space_def)
  then show ?thesis using isoformat_no_space by (auto simp: nel_free_str_def)
qed

lemma nel_free_payload:
  assumes "clean_session k s"
  shows "nel_free (JDict (session_payload t s))"
proof -
  have "\<forall>kv\<in>set (session_payload t s). nel_free_str (fst kv)"
    by (simp add: session_payload_def nel_free_str_def code_def)
  moreover have "nel_free (se_override s)" using assms by (auto simp: clean_session_def clean_override_def)
  moreover have "nel_free (case se_active s of None \<Rightarrow> JNull | Some t \<Rightarrow> JStr t)"
    using assms by (simp add: clean_session_def opt_strip_def clean_option_def or_default_def split: option.splits)
  moreover have "nel_free (text_items (se_exec s))" "nel_free (text_items (se_models s))"
      "nel_free (text_items (se_overrides s))" "nel_free (int_items (se_traj s))"
    using assms unfolding clean_session_def by (blast intro: nel_free_items nel_free_int_items)+
  ultimately show ?thesis using assms
    by (simp add: session_payload_def clean_session_def clean_text_def nel_free_isoformat)
qed

section \<open>What a step does to the log\<close>

abbreviation event_key :: "(json \<Rightarrow> string) \<Rightarrow> dict \<Rightarrow> string" where
  "event_key rp e \<equiv> stripped_text rp e ''conversation_key''"

definition logged :: "(json \<Rightarrow> string) \<Rightarrow> (rat \<Rightarrow> string) \<Rightarrow> session_manager \<Rightarrow> dict list \<Rightarrow> bool" where
  \<comment> \<open>the log holds these events, and the last one of a conversation is what the manager would save\<close>
  "logged rp fl m es \<longleftrightarrow> sm_log m = Some (log_text fl es) \<and> (\<forall>e\<in>set es. nel_free (JDict e)) \<and>
     (\<forall>k. case map_of (sm_sessions m) k of
        None \<Rightarrow> last_event (event_key rp) es k = None
      | Some s \<Rightarrow> clean_session k s \<and>
          (case last_event (event_key rp) es k of
             None \<Rightarrow> unset s
           | Some e \<Rightarrow> \<exists>t s'. e = session_payload t s' \<and> clean_session k s' \<and> same_saved s s'))"

definition keeps_saved :: "(session_state \<Rightarrow> session_state) \<Rightarrow> bool" where
  "keeps_saved g \<longleftrightarrow> (\<forall>k s. clean_session k s \<longrightarrow> clean_session k (g s) \<and> same_saved (g s) s \<and> (unset s \<longrightarrow> unset (g s)))"

lemma same_saved_refl [simp]: "same_saved s s"
  by (simp add: same_saved_def)

lemma same_saved_trans: "same_saved a b \<Longrightarrow> same_saved b c \<Longrightarrow> same_saved a c"
  by (simp add: same_saved_def)

lemma touched_clean:
  assumes "logged rp fl m es" and "clean_conversation cv"
  shows "clean_session (cv_key cv) (touched now cv m)"
proof (cases "map_of (sm_sessions m) (cv_key cv)")
  case None
  then show ?thesis using assms(2)
    by (simp add: touched_def new_session_def or_default_def clean_session_def clean_conversation_def opt_strip_def clean_option_def
        clean_map_def clean_ints_def clean_override_def)
next
  case (Some s)
  then have "clean_session (cv_key cv) s"
    using assms(1) [unfolded logged_def, THEN conjunct2, THEN conjunct2, rule_format, of "cv_key cv"] by simp
  then show ?thesis using Some by (simp add: touched_def or_default_def clean_session_def)
qed

lemma keep_step:
  assumes l: "logged rp fl m es" and cv: "clean_conversation cv" and g: "keeps_saved g"
  shows "logged rp fl (put_session cv (g (touched now cv m)) m) es"
proof -
  let ?k = "cv_key cv" and ?s = "g (touched now cv m)"
  have c: "clean_session ?k (touched now cv m)" by (rule touched_clean [OF l cv])
  then have cs: "clean_session ?k ?s" "same_saved ?s (touched now cv m)" "unset (touched now cv m) \<Longrightarrow> unset ?s"
    using g by (auto simp: keeps_saved_def)
  note at_key = l [unfolded logged_def, THEN conjunct2, THEN conjunct2, rule_format, of ?k]
  have "case last_event (event_key rp) es ?k of None \<Rightarrow> unset ?s
     | Some e \<Rightarrow> \<exists>t s'. e = session_payload t s' \<and> clean_session ?k s' \<and> same_saved ?s s'"
  proof (cases "map_of (sm_sessions m) ?k")
    case None
    then show ?thesis using at_key cs(3) by (simp add: touched_def or_default_def new_session_def unset_def)
  next
    case (Some s)
    have u: "unset s = unset (touched now cv m)" and t: "same_saved (touched now cv m) s"
      using Some by (simp_all add: touched_def or_default_def unset_def same_saved_def)
    have ss: "same_saved ?s s" by (rule same_saved_trans [OF cs(2) t])
    show ?thesis
    proof (cases "last_event (event_key rp) es ?k")
      case None
      then show ?thesis using at_key Some u cs(3) by simp
    next
      case e: (Some e)
      then obtain t s' where "e = session_payload t s'" "clean_session ?k s'" "same_saved s s'"
        using at_key Some by auto
      then show ?thesis using e same_saved_trans [OF ss] by auto
    qed
  qed
  then show ?thesis using l cs(1) by (auto simp: logged_def put_session_def update_conv')
qed

lemma write_step:
  assumes l: "logged rp fl m es" and cv: "clean_conversation cv"
    and f: "clean_session (cv_key cv) (f (touched now cv m))"
  shows "logged rp fl (write_session fl now cv f m) (es @ [session_payload now (f (touched now cv m))])"
proof -
  let ?k = "cv_key cv" and ?s = "f (touched now cv m)"
  have ek: "event_key rp (session_payload now ?s) = ?k"
    using f cv by (simp add: payload_fields clean_session_def clean_text_def)
  moreover have nf: "nel_free (JDict (session_payload now ?s))" by (rule nel_free_payload [OF f])
  moreover have "sm_log (write_session fl now cv f m) = Some (log_text fl (es @ [session_payload now ?s]))"
    using l by (simp add: logged_def write_session_def persist_state_def put_session_def append_event_log Let_def)
  moreover have at: "map_of (sm_sessions (write_session fl now cv f m)) j =
      (if j = ?k then Some ?s else map_of (sm_sessions m) j)" for j
    by (simp add: write_session_def persist_state_def put_session_def update_conv' Let_def split: option.splits)
  moreover have "\<forall>e\<in>set (es @ [session_payload now ?s]). nel_free (JDict e)"
    using l nf by (simp add: logged_def del: nel_free.simps)
  moreover have "case map_of (sm_sessions (write_session fl now cv f m)) k of
        None \<Rightarrow> last_event (event_key rp) (es @ [session_payload now ?s]) k = None
      | Some s \<Rightarrow> clean_session k s \<and>
          (case last_event (event_key rp) (es @ [session_payload now ?s]) k of
             None \<Rightarrow> unset s
           | Some e \<Rightarrow> \<exists>t s'. e = session_payload t s' \<and> clean_session k s' \<and> same_saved s s')" for k
  proof (cases "k = ?k")
    case True
    then have "last_event (event_key rp) (es @ [session_payload now ?s]) k = Some (session_payload now ?s)"
      using last_event_snoc [of "event_key rp" es "session_payload now ?s" k] ek by simp
    moreover have "\<exists>t s'. session_payload now ?s = session_payload t s' \<and> clean_session ?k s' \<and> same_saved ?s s'"
      using f same_saved_refl by blast
    ultimately show ?thesis using True f by (simp add: at)
  next
    case False
    then have "last_event (event_key rp) (es @ [session_payload now ?s]) k = last_event (event_key rp) es k"
      using last_event_snoc [of "event_key rp" es "session_payload now ?s" k] ek by simp
    then show ?thesis using False l [unfolded logged_def, THEN conjunct2, THEN conjunct2, rule_format, of k]
      by (simp add: at split: option.splits)
  qed
  ultimately show ?thesis unfolding logged_def by blast
qed

text \<open>Every method is one of the two, so a run keeps the log in step.\<close>

lemma keeps_saved_id: "keeps_saved (\<lambda>s. s)"
  by (simp add: keeps_saved_def)

lemma keeps_saved_active: "clean_option t \<Longrightarrow> keeps_saved (\<lambda>s. s\<lparr> se_active := t \<rparr>)"
  by (simp add: keeps_saved_def clean_session_def same_saved_def unset_def)

lemma or_default_None [simp]: "or_default None x = x" "or_default (Some y) x = y"
  by (simp_all add: or_default_def)

definition step_logged :: "(json \<Rightarrow> string) \<Rightarrow> (rat \<Rightarrow> string) \<Rightarrow> int \<Rightarrow> conversation \<Rightarrow> session_op \<Rightarrow> session_manager
    \<Rightarrow> dict list \<Rightarrow> bool" where
  "step_logged rp fl now cv op m es \<longleftrightarrow>
     (let m1 = session_step fl now cv op m in
      logged rp fl m1
        (es @ (if persists op then [session_payload now (the (map_of (sm_sessions m1) (cv_key cv)))] else [])))"

lemma step_logged_keep:
  assumes "logged rp fl m es" and "clean_conversation cv" and "\<not> persists op" and "keeps_saved g"
    and "session_step fl now cv op m = put_session cv (g (touched now cv m)) m"
  shows "step_logged rp fl now cv op m es"
  using keep_step [OF assms(1,2,4)] assms(3,5) by (simp add: step_logged_def)

lemma step_logged_write:
  assumes "logged rp fl m es" and "clean_conversation cv" and "persists op"
    and "session_step fl now cv op m = write_session fl now cv f m"
    and "\<And>s. clean_session (cv_key cv) s \<Longrightarrow> clean_session (cv_key cv) (f s)"
  shows "step_logged rp fl now cv op m es"
proof -
  have "map_of (sm_sessions (write_session fl now cv f m)) (cv_key cv) = Some (f (touched now cv m))"
    by (simp add: write_session_def persist_state_def put_session_def update_conv' Let_def split: option.splits)
  then show ?thesis
    using write_step [of rp fl m es cv f now, OF assms(1,2) assms(5) [OF touched_clean [OF assms(1,2)]]] assms(3,4)
    by (simp add: step_logged_def)
qed

lemma clean_model_update:
  assumes "clean_session k s" and "nel_free_str n" and "nel_free_str v" and "strip n \<noteq> []" and "strip v \<noteq> []"
  shows "clean_session k (s\<lparr> se_models := AList.update (strip n) (strip v) (se_models s) \<rparr>)"
  using assms by (auto simp: clean_session_def clean_text_def intro!: clean_map_update)

lemma session_step_logged:
  assumes l: "logged rp fl m es" and cv: "clean_conversation cv" and op: "clean_op op"
  shows "step_logged rp fl now cv op m es"
proof (cases op)
  case Touch
  then show ?thesis
    by (intro step_logged_keep [OF l cv _ keeps_saved_id]) (simp_all add: touched_def touch_session_def)
next
  case (SetActive t)
  then have "clean_option t" using op by simp
  then show ?thesis
    by (intro step_logged_keep [OF l cv _ keeps_saved_active [of t]]) (simp_all add: SetActive set_active_task_def)
next
  case (SetSession n v)
  show ?thesis
  proof (cases "norm_name n = []")
    case True
    then show ?thesis
      by (intro step_logged_keep [OF l cv _ keeps_saved_id])
        (simp_all add: SetSession touched_def touch_session_def set_executor_session_id_def)
  next
    case False
    then show ?thesis
      by (intro step_logged_write [OF l cv]) (use op in \<open>auto simp: SetSession set_executor_session_id_def
          clean_session_def intro!: clean_map_set_or_pop\<close>)
  qed
next
  case (SetTrajectory n i)
  show ?thesis
  proof (cases "strip n = []")
    case True
    then show ?thesis
      by (intro step_logged_keep [OF l cv _ keeps_saved_id]) (simp_all add: SetTrajectory touched_def touch_session_def set_trajectory_idx_def)
  next
    case False
    then show ?thesis
      by (intro step_logged_write [OF l cv]) (use op in \<open>auto simp: SetTrajectory set_trajectory_idx_def
          clean_session_def clean_text_def intro!: clean_ints_update\<close>)
  qed
next
  case (SetModel n v)
  show ?thesis
  proof (cases "strip n = [] \<or> strip v = []")
    case True
    then show ?thesis
      by (intro step_logged_keep [OF l cv _ keeps_saved_id]) (auto simp: SetModel touched_def touch_session_def set_session_model_def)
  next
    case False
    then show ?thesis
      by (intro step_logged_write [OF l cv, where f = "\<lambda>s. if map_of (se_models s) (strip n) = None
            then s\<lparr> se_models := AList.update (strip n) (strip v) (se_models s) \<rparr> else s"])
        (use op in \<open>auto simp: SetModel set_session_model_def Let_def intro!: clean_model_update\<close>)
  qed
next
  case (SetOverride n)
  then show ?thesis
    by (intro step_logged_write [OF l cv]) (use op in \<open>auto simp: set_executor_override_def
        clean_session_def clean_override_def opt_strip_def clean_option_def split: option.splits\<close>)
next
  case (SetModelOverride n v)
  show ?thesis
  proof (cases "norm_name n = []")
    case True
    then show ?thesis
      by (intro step_logged_keep [OF l cv _ keeps_saved_id])
        (simp_all add: SetModelOverride touched_def touch_session_def set_model_override_def)
  next
    case False
    then show ?thesis
      by (intro step_logged_write [OF l cv]) (use op in \<open>auto simp: SetModelOverride set_model_override_def
          clean_session_def intro!: clean_map_set_or_pop\<close>)
  qed
next
  case Reset
  then show ?thesis
    by (intro step_logged_write [OF l cv]) (auto simp: reset_session_def clean_session_def clean_map_def
        clean_ints_def clean_override_def opt_strip_def clean_option_def)
qed

lemma session_run_logged:
  assumes "logged rp fl m es" and "\<forall>(now, cv, op)\<in>set ops. clean_conversation cv \<and> clean_op op"
  shows "logged rp fl (session_run fl ops m) (es @ session_events fl ops m)"
  using assms
proof (induction ops arbitrary: m es)
  case (Cons x ops)
  obtain now cv op where x: "x = (now, cv, op)" by (cases x)
  have "step_logged rp fl now cv op m es"
    by (rule session_step_logged [OF Cons.prems(1)]) (use Cons.prems(2) x in auto)
  note step = this [unfolded step_logged_def Let_def]
  have "\<forall>(now, cv, op)\<in>set ops. clean_conversation cv \<and> clean_op op" using Cons.prems(2) by simp
  from Cons.IH [OF step this] show ?case by (simp add: x Let_def)
qed simp

section \<open>Restarting\<close>

lemma map_of_restore_rows:
  assumes "distinct (map fst rows)"
  shows "map_of (restore_rows rp now rows acc) k =
    (case map_of rows k of None \<Rightarrow> map_of acc k
     | Some p \<Rightarrow> (case restored_session rp now k p of None \<Rightarrow> map_of acc k | Some s \<Rightarrow> Some s))"
  using assms
proof (induction rows arbitrary: acc)
  case (Cons x rows)
  obtain j p where x: "x = (j, p)" by (cases x)
  then have d: "distinct (map fst rows)" "j \<notin> fst ` set rows" using Cons.prems by auto
  then have "map_of rows j = None" by (simp add: map_of_eq_None_iff)
  then show ?case using Cons.IH [OF d(1)] by (auto simp: x update_conv' split: option.splits)
qed simp

definition given_back :: "session_state option \<Rightarrow> session_state option \<Rightarrow> bool" where
  \<comment> \<open>what a restart does to a conversation: everything saved is there, only the active task is not\<close>
  "given_back old new \<longleftrightarrow> (case old of
       None \<Rightarrow> new = None
     | Some s \<Rightarrow> (case new of None \<Rightarrow> unset s | Some s' \<Rightarrow> same_saved s s' \<and> se_active s' = None))"

definition forgotten :: "(json \<Rightarrow> string) \<Rightarrow> dict list \<Rightarrow> string \<Rightarrow> bool" where
  \<comment> \<open>the conversation has events, and all of them are older than the 5,000 lines a start reads\<close>
  "forgotten rp es k \<longleftrightarrow> k \<in> event_key rp ` set es \<and> k \<notin> event_key rp ` set (tail_of 5000 es)"

lemma last_event_tail:
  assumes "\<not> forgotten rp es k"
  shows "last_event (event_key rp) (tail_of 5000 es) k = last_event (event_key rp) es k"
proof (cases "last_event (event_key rp) (tail_of 5000 es) k")
  case None
  then have "k \<notin> event_key rp ` set es" using assms by (auto simp: forgotten_def last_event_None)
  then show ?thesis using None last_event_None by metis
next
  case (Some e)
  have "es = take (length es - 5000) es @ tail_of 5000 es" by (simp add: tail_of_def)
  then show ?thesis using Some last_event_append [of "event_key rp" _ "tail_of 5000 es" k] by (metis option.simps(5))
qed

lemma logged_restart:
  assumes l: "logged rp fl m es"
    and loads: "\<forall>e\<in>set es. loads (dumps fl (JDict e)) = Some (JDict e)" and k: "k \<noteq> []"
  shows "let new = map_of (sm_sessions (start_manager rp loads now (sm_log m))) k in
    if forgotten rp es k then new = None else given_back (map_of (sm_sessions m) k) new"
proof -
  have log: "sm_log m = Some (log_text fl es)" and "\<forall>e\<in>set es. loggable fl loads e"
    using l loads by (simp_all add: logged_def loggable_def del: nel_free.simps dumps.simps)
  then have "read_tail loads 5000 (log_text fl es) = tail_of 5000 es" by (simp add: read_tail_log)
  then have latest: "load_latest_sessions rp loads (log_text fl es) = latest_by (event_key rp) (tail_of 5000 es) []"
    by (simp add: load_latest_sessions_def)
  have "map_of (latest_by (event_key rp) (tail_of 5000 es) []) k = last_event (event_key rp) (tail_of 5000 es) k"
    using map_of_latest_by [OF k, of "event_key rp" "tail_of 5000 es" "[]"] by (simp split: option.splits)
  then have new: "map_of (sm_sessions (start_manager rp loads now (sm_log m))) k =
      (case last_event (event_key rp) (tail_of 5000 es) k of None \<Rightarrow> None
       | Some p \<Rightarrow> (case restored_session rp now k p of None \<Rightarrow> None | Some s \<Rightarrow> Some s))"
    using map_of_restore_rows [OF distinct_latest_by [of "[]" "event_key rp" "tail_of 5000 es"], of rp now "[]" k]
    by (simp add: start_manager_def log latest split: option.splits)
  note at_k = l [unfolded logged_def, THEN conjunct2, THEN conjunct2, rule_format, of k]
  show ?thesis
  proof (cases "forgotten rp es k")
    case True
    then have "last_event (event_key rp) (tail_of 5000 es) k = None" by (simp add: forgotten_def last_event_None)
    then show ?thesis using new True by simp
  next
    case kept: False
    note new = new [unfolded last_event_tail [OF kept]]
    have "given_back (map_of (sm_sessions m) k) (map_of (sm_sessions (start_manager rp loads now (sm_log m))) k)"
    proof (cases "map_of (sm_sessions m) k")
      case None
      then show ?thesis using at_k new by (simp add: given_back_def)
    next
      case (Some s)
      show ?thesis
      proof (cases "last_event (event_key rp) es k")
        case None
        then show ?thesis using at_k Some new by (simp add: given_back_def)
      next
        case e: (Some e)
        then obtain t s' where s': "e = session_payload t s'" "clean_session k s'" "same_saved s s'"
          using at_k Some by auto
        obtain s2 where "restored_session rp now k (session_payload t s') = Some s2" "same_saved s' s2" "se_active s2 = None"
          using restored_payload [OF s'(2)] by blast
        then show ?thesis using new e s' Some same_saved_trans [OF s'(3)] by (simp add: given_back_def)
      qed
    qed
    with kept show ?thesis by simp
  qed
qed

text \<open>C25: A restart gives the conversations back. Whatever methods were called, with stripped texts free
  of U+0085, on a manager that started with an empty log, a manager started on the resulting log
  holds for a conversation the same user, executor sessions, trajectory marks, session models and
  overrides. Only the active task is dropped, a conversation nothing was ever set for may be
  absent, and one whose events are all older than the last 5,000 lines of the log is lost.
  \<open>json.loads\<close> must read back the events of the run.\<close>

theorem restart_keeps_sessions:
  assumes "\<forall>(now, cv, op)\<in>set ops. clean_conversation cv \<and> clean_op op"
    and "\<forall>e\<in>set (session_events fl ops (start_manager rp loads t0 (Some []))).
      loads (dumps fl (JDict e)) = Some (JDict e)"
    and "k \<noteq> []"
  shows "let m0 = start_manager rp loads t0 (Some []); m = session_run fl ops m0;
      new = map_of (sm_sessions (start_manager rp loads now (sm_log m))) k in
    if forgotten rp (session_events fl ops m0) k then new = None else given_back (map_of (sm_sessions m) k) new"
proof -
  let ?m0 = "start_manager rp loads t0 (Some [])"
  have "logged rp fl ?m0 []"
    by (simp add: logged_def start_manager_def load_latest_sessions_def read_tail_def tail_of_def splitlines_def map_filter_simps)
  then have l: "logged rp fl (session_run fl ops ?m0) (session_events fl ops ?m0)"
    using session_run_logged [OF _ assms(1)] by fastforce
  then show ?thesis using logged_restart [OF l assms(2,3)] by (simp add: Let_def)
qed

section \<open>The first model stays\<close>

lemma write_session_at:
  "map_of (sm_sessions (write_session fl now cv f m)) k =
     (if k = cv_key cv then Some (f (touched now cv m)) else map_of (sm_sessions m) k)"
  by (simp add: write_session_def persist_state_def put_session_def update_conv' Let_def split: option.splits)

lemma put_session_at:
  "map_of (sm_sessions (put_session cv s m)) k = (if k = cv_key cv then Some s else map_of (sm_sessions m) k)"
  by (simp add: put_session_def update_conv')

text \<open>the model recorded first for an executor session is the one reported for it whatever is recorded
  later, in whatever conversation, until that conversation is reset.\<close>

lemma first_model_stays:
  assumes "fst (get_session_model t cv sid m) = model" and "model \<noteq> []" and "op = Reset \<longrightarrow> cv_key cv' \<noteq> cv_key cv"
  shows "fst (get_session_model t' cv sid (session_step fl now cv' op m)) = model"
proof -
  have "map_of (sm_sessions m) (cv_key cv) \<noteq> None"
  proof
    assume "map_of (sm_sessions m) (cv_key cv) = None"
    then have "fst (get_session_model t cv sid m) = []"
      by (simp add: get_session_model_def touched_def touch_session_def new_session_def)
    then show False using assms(1,2) by simp
  qed
  then obtain s where s: "map_of (sm_sessions m) (cv_key cv) = Some s" by auto
  have sid: "strip sid \<noteq> []" and model: "map_of (se_models s) (strip sid) = Some model"
    using assms(1,2) s by (auto simp: get_session_model_def touched_def touch_session_def or_default_def split: if_splits option.splits)
  have "\<exists>s'. map_of (sm_sessions (session_step fl now cv' op m)) (cv_key cv) = Some s' \<and>
      map_of (se_models s') (strip sid) = Some model"
    using s model assms(3)
    by (cases op)
      (auto simp: touched_def touch_session_def set_active_task_def set_executor_session_id_def set_trajectory_idx_def set_session_model_def
        set_executor_override_def set_model_override_def reset_session_def Let_def write_session_at put_session_at
        touched_def or_default_def update_conv')
  then show ?thesis using sid by (auto simp: get_session_model_def touched_def touch_session_def or_default_def)
qed

section \<open>Witnesses\<close>

definition sf_cv :: conversation where
  "sf_cv = \<lparr> cv_key = ''slack:u'', cv_channel = ''slack'', cv_user = ''u'' \<rparr>"

definition sf_ops :: "(int \<times> conversation \<times> session_op) list" where
  "sf_ops = [(1, sf_cv, SetModel ''s1'' '' m'')]"

definition sf_empty :: session_manager where
  "sf_empty = \<lparr> sm_sessions = [], sm_log = Some [] \<rparr>"

text \<open>A \<open>json.loads\<close> for the events of the run, as pairs of line and document.\<close>

definition sf_loads :: "string \<Rightarrow> json option" where
  "sf_loads = map_of (map (\<lambda>e. (dumps (\<lambda>x. []) (JDict e), JDict e)) (session_events (\<lambda>x. []) sf_ops sf_empty))"

lemma sf_start: "start_manager rp loads t (Some []) = sf_empty"
  by (simp add: start_manager_def sf_empty_def load_latest_sessions_def read_tail_def tail_of_def splitlines_def map_filter_simps)

theorem restart_keeps_sessions_witness:
  "map_option se_exec (map_of (sm_sessions (start_manager (\<lambda>v. []) sf_loads 3
     (sm_log (session_run (\<lambda>x. []) sf_ops sf_empty)))) ''slack:u'') \<noteq> None"
proof -
  have a: "\<forall>(now, cv, op)\<in>set sf_ops. clean_conversation cv \<and> clean_op op" by code_simp
  have b: "\<not> forgotten (\<lambda>v. []) (session_events (\<lambda>x. []) sf_ops sf_empty) ''slack:u''"
    by (simp add: forgotten_def sf_ops_def tail_of_def Let_def)
  have c: "\<forall>e\<in>set (session_events (\<lambda>x. []) sf_ops (start_manager (\<lambda>v. []) sf_loads 0 (Some []))).
      sf_loads (dumps (\<lambda>x. []) (JDict e)) = Some (JDict e)"
    unfolding sf_start by (cases "persists (SetModel ''s1'' '' m'')") (simp_all add: sf_loads_def sf_ops_def Let_def)
  have d: "''slack:u'' \<noteq> []" by simp
  have e: "map_of (sm_sessions (session_run (\<lambda>x. []) sf_ops sf_empty)) ''slack:u'' \<noteq> None \<and>
      \<not> unset (the (map_of (sm_sessions (session_run (\<lambda>x. []) sf_ops sf_empty)) ''slack:u''))"
    by code_simp
  show ?thesis
    using restart_keeps_sessions [OF a c d, of 3, unfolded sf_start Let_def] e b
    by (auto simp: given_back_def split: option.splits)
qed

end
