(* ===== verification/TaskOwners.thy ===== *)
theory TaskOwners
  imports EventLog IsoTime
begin

text \<open>
  Process ownership and liveness of tasks (\<open>core/runtime_registry.py\<close>): the heartbeat files of
  the processes, the check whether a task's owner is alive, and the closing of tasks whose owner
  is gone. The heartbeat directory maps an instance id to its file, \<open>None\<close> for a file that cannot
  be read or parsed. What \<open>os.kill(pid, 0)\<close> answers is a parameter, and so is whether the
  directory can be written.
\<close>

section \<open>Processes and heartbeats\<close>

datatype pid_probe = Signalled | ProcessLookup | PermissionDenied | OtherOSError

record owner =
  ow_instance :: string
  ow_pid :: int
  ow_host :: string

record owner_env =
  oe_me :: owner
  oe_probe :: "int \<Rightarrow> pid_probe"
  oe_writable :: bool
  oe_repr :: "json \<Rightarrow> string"

type_synonym heartbeats = "(string \<times> json option) list"

definition owner_payload :: "owner \<Rightarrow> dict" where
  "owner_payload w = [(''instance_id'', JStr (ow_instance w)), (''pid'', JInt (ow_pid w)), (''hostname'', JStr (ow_host w))]"

definition lease_ttl :: int where
  "lease_ttl = 120 * usec_per_sec"

definition terminal_statuses :: "string list" where
  "terminal_statuses = [''RETURNED'', ''FAILED'', ''CANCELED'', ''INTERRUPTED'']"

definition text_or :: "owner_env \<Rightarrow> dict \<Rightarrow> string \<Rightarrow> string" where
  \<comment> \<open>\<open>str(d.get(key) or "")\<close>\<close>
  "text_or env d k = py_str (oe_repr env) (py_or (dget d k) (JStr []))"

definition is_older_than :: "string \<Rightarrow> int \<Rightarrow> bool" where
  \<comment> \<open>no usable timestamp counts as old\<close>
  "is_older_than ts cutoff = (case parse_iso (Some ts) of None \<Rightarrow> True | Some t \<Rightarrow> t < cutoff)"

definition pid_alive :: "owner_env \<Rightarrow> int \<Rightarrow> bool" where
  "pid_alive env pid = (if pid \<le> 0 then False
     else (case oe_probe env pid of Signalled \<Rightarrow> True | ProcessLookup \<Rightarrow> False | PermissionDenied \<Rightarrow> True
       | OtherOSError \<Rightarrow> False))"

definition int_value :: "json \<Rightarrow> int option" where
  \<comment> \<open>\<open>isinstance(v, int)\<close>, which a \<open>bool\<close> is too\<close>
  "int_value v = (case v of JInt n \<Rightarrow> Some n | JBool b \<Rightarrow> Some (if b then 1 else 0) | _ \<Rightarrow> None)"

definition instance_is_alive :: "owner_env \<Rightarrow> int \<Rightarrow> dict \<Rightarrow> bool" where
  "instance_is_alive env now d = (case int_value (dget d ''pid'') of
       None \<Rightarrow> False
     | Some pid \<Rightarrow> (if \<not> pid_alive env pid then False
         else \<not> is_older_than (text_or env d ''heartbeat_at'') (now - lease_ttl)))"

definition owner_is_alive :: "owner_env \<Rightarrow> int \<Rightarrow> heartbeats \<Rightarrow> json \<Rightarrow> bool" where
  "owner_is_alive env now hb v = (case v of
       JDict d \<Rightarrow>
         (let instance_id = text_or env d ''instance_id'' in
          if instance_id = [] then False
          else if instance_id = ow_instance (oe_me env) then True
          else (case map_of hb instance_id of Some (Some (JDict p)) \<Rightarrow> instance_is_alive env now p | _ \<Rightarrow> False))
     | _ \<Rightarrow> False)"

fun parsed_instances :: "heartbeats \<Rightarrow> dict list" where
  "parsed_instances [] = []"
| "parsed_instances ((i, Some (JDict d)) # hb) = d # parsed_instances hb"
| "parsed_instances (x # hb) = parsed_instances hb"

definition list_instances :: "owner_env \<Rightarrow> int \<Rightarrow> heartbeats \<Rightarrow> dict list" where
  "list_instances env now hb =
     latest_first (\<lambda>d. text_or env d ''heartbeat_at'')
       (map (\<lambda>d. dset ''alive'' (JBool (instance_is_alive env now d)) d) (parsed_instances hb))"

definition prune_one :: "owner_env \<Rightarrow> dict \<Rightarrow> heartbeats \<times> nat \<Rightarrow> heartbeats \<times> nat" where
  "prune_one env d s =
     (let instance_id = text_or env d ''instance_id'' in
      if truthy (dget d ''alive'') then s
      else if instance_id = [] \<or> instance_id = ow_instance (oe_me env) then s
      else (AList.delete instance_id (fst s), snd s + 1))"

definition prune_dead_instances :: "owner_env \<Rightarrow> int \<Rightarrow> heartbeats \<Rightarrow> heartbeats \<times> nat" where
  "prune_dead_instances env now hb = fold (prune_one env) (list_instances env now hb) (hb, 0)"

section \<open>The registry of a process\<close>

record registry =
  rg_role :: string
  rg_started :: int
  rg_active :: "string list"
  rg_stopped :: bool

definition registry_snapshot :: "owner_env \<Rightarrow> int \<Rightarrow> registry \<Rightarrow> dict" where
  "registry_snapshot env now g = owner_payload (oe_me env) @
     [(''role'', JStr (rg_role g)), (''started_at'', JStr (isoformat (rg_started g))),
      (''heartbeat_at'', JStr (isoformat now)), (''active_task_ids'', JList (map JStr (sort (rg_active g))))]"

definition publish :: "owner_env \<Rightarrow> int \<Rightarrow> registry \<Rightarrow> heartbeats \<Rightarrow> heartbeats" where
  \<comment> \<open>\<open>_write\<close>: nothing once stopped, and a failing write is only logged\<close>
  "publish env now g hb =
     (if rg_stopped g then hb
      else if \<not> oe_writable env then hb
      else AList.update (ow_instance (oe_me env)) (Some (JDict (registry_snapshot env now g))) hb)"

definition track :: "owner_env \<Rightarrow> int \<Rightarrow> string \<Rightarrow> registry \<times> heartbeats \<Rightarrow> registry \<times> heartbeats" where
  "track env now task_id s =
     (let g = (fst s)\<lparr> rg_active := List.insert task_id (rg_active (fst s)) \<rparr> in (g, publish env now g (snd s)))"

definition untrack :: "owner_env \<Rightarrow> int \<Rightarrow> string \<Rightarrow> registry \<times> heartbeats \<Rightarrow> registry \<times> heartbeats" where
  "untrack env now task_id s =
     (let g = (fst s)\<lparr> rg_active := filter (\<lambda>t. t \<noteq> task_id) (rg_active (fst s)) \<rparr> in (g, publish env now g (snd s)))"

definition heartbeat :: "owner_env \<Rightarrow> int \<Rightarrow> registry \<times> heartbeats \<Rightarrow> registry \<times> heartbeats" where
  \<comment> \<open>the first write of \<open>start\<close> and every round of the heartbeat thread\<close>
  "heartbeat env now s = (fst s, publish env now (fst s) (snd s))"

definition stop_registry :: "owner_env \<Rightarrow> registry \<times> heartbeats \<Rightarrow> registry \<times> heartbeats" where
  "stop_registry env s = ((fst s)\<lparr> rg_stopped := True \<rparr>, AList.delete (ow_instance (oe_me env)) (snd s))"

section \<open>Closing orphaned tasks\<close>

definition latest_event_per_task :: "owner_env \<Rightarrow> dict list \<Rightarrow> dict list" where
  "latest_event_per_task env events = map snd (latest_by (\<lambda>e. text_or env e ''task_id'') events [])"

definition is_object :: "json \<Rightarrow> bool" where
  "is_object v = (case v of JDict d \<Rightarrow> True | _ \<Rightarrow> False)"

definition orphaned :: "owner_env \<Rightarrow> int \<Rightarrow> heartbeats \<Rightarrow> dict \<Rightarrow> bool" where
  \<comment> \<open>the loop body's \<open>continue\<close>s\<close>
  "orphaned env now hb e =
     (let status = text_or env e ''status''; owner = dget e ''owner'' in
      if status \<in> set terminal_statuses \<or> status = [] then False
      else if owner_is_alive env now hb owner then False
      else if \<not> is_object owner \<and> \<not> is_older_than (text_or env e ''timestamp'') (now - lease_ttl) then False
      else text_or env e ''task_id'' \<noteq> [])"

definition orphan_reason :: "owner_env \<Rightarrow> json \<Rightarrow> string" where
  "orphan_reason env owner = (case owner of
       JDict d \<Rightarrow> ''owning process is gone (pid='' @ py_str (oe_repr env) (dget d ''pid'') @ '', instance='' @
         take 8 (py_str (oe_repr env) (dget d ''instance_id'')) @ '')''
     | _ \<Rightarrow> ''owner unknown (recorded before task ownership tracking)'')"

definition interrupted_event :: "owner_env \<Rightarrow> int \<Rightarrow> dict \<Rightarrow> dict" where
  "interrupted_event env now e =
     (let status = text_or env e ''status''; owner = dget e ''owner''; reason = orphan_reason env owner in
      [(''timestamp'', JStr (isoformat now)), (''task_id'', JStr (text_or env e ''task_id'')),
       (''status'', JStr ''INTERRUPTED''), (''task'', dget_or e ''task'' (JDict [])),
       (''owner'', JDict (owner_payload (oe_me env))),
       (''reconciled'', JDict [(''from_status'', JStr status), (''reason'', JStr reason),
          (''previous_owner'', if is_object owner then owner else JNull), (''at'', JStr (isoformat now))]),
       (''result'', JDict [(''success'', JBool False),
          (''summary'', JStr (''Run interrupted: '' @ reason @ ''. It was last seen as '' @ status @
             '' and its process is gone, so no result was recorded. Re-run if still needed.'')),
          (''stdout'', JStr []), (''stderr'', JStr []), (''exit_code'', JInt 1)])])"

definition reclaimed_row :: "owner_env \<Rightarrow> dict \<Rightarrow> dict" where
  "reclaimed_row env e = [(''task_id'', JStr (text_or env e ''task_id'')), (''from_status'', JStr (text_or env e ''status'')),
     (''reason'', JStr (orphan_reason env (dget e ''owner'')))]"

fun reconcile_loop :: "owner_env \<Rightarrow> (rat \<Rightarrow> string) \<Rightarrow> int \<Rightarrow> heartbeats \<Rightarrow> dict list \<Rightarrow> string \<Rightarrow> string \<times> dict list" where
  "reconcile_loop env fl now hb [] content = (content, [])"
| "reconcile_loop env fl now hb (e # es) content =
     (if orphaned env now hb e
      then (case reconcile_loop env fl now hb es (append_event fl (interrupted_event env now e) content) of
              (content', rows) \<Rightarrow> (content', reclaimed_row env e # rows))
      else reconcile_loop env fl now hb es content)"

definition reconcile_orphaned_tasks ::
    "owner_env \<Rightarrow> (rat \<Rightarrow> string) \<Rightarrow> (string \<Rightarrow> json option) \<Rightarrow> int \<Rightarrow> int \<Rightarrow> heartbeats \<Rightarrow> string \<Rightarrow> string \<times> dict list" where
  "reconcile_orphaned_tasks env fl loads limit now hb content =
     reconcile_loop env fl now hb (latest_event_per_task env (read_tail loads limit content)) content"

section \<open>Facts\<close>

lemma task_id_interrupted [simp]: "text_or env (interrupted_event env now e) ''task_id'' = text_or env e ''task_id''"
proof -
  have "dget (interrupted_event env now e) ''task_id'' = JStr (text_or env e ''task_id'')"
    by (simp add: interrupted_event_def Let_def)
  then show ?thesis by (cases "text_or env e ''task_id''") (simp_all add: text_or_def [of env "interrupted_event env now e"] py_or_def)
qed

lemma status_interrupted [simp]: "text_or env (interrupted_event env now e) ''status'' = ''INTERRUPTED''"
  by (simp add: text_or_def py_or_def interrupted_event_def Let_def)

lemma interrupted_not_orphaned [simp]: "\<not> orphaned env t hb (interrupted_event env now e)"
  by (simp add: orphaned_def terminal_statuses_def Let_def)

lemma reconcile_loop_spec:
  "reconcile_loop env fl now hb es (log_text fl old) =
     (log_text fl (old @ map (interrupted_event env now) (filter (orphaned env now hb) es)),
      map (reclaimed_row env) (filter (orphaned env now hb) es))"
  by (induction es arbitrary: old) (simp_all add: append_event_log)

end
