(* ===== verification/TaskOwnerFacts.thy ===== *)
theory TaskOwnerFacts
  imports TaskOwners
begin

text \<open>
  What closing orphaned tasks does to the log: exactly the tasks whose last event names a dead
  owner and is not final get one more event, a second pass finds nothing, and a task whose owner
  keeps its heartbeat is left alone. A stopped registry never publishes again.
\<close>

section \<open>The last event of a task\<close>

abbreviation task_key :: "owner_env \<Rightarrow> dict \<Rightarrow> string" where
  "task_key env e \<equiv> text_or env e ''task_id''"

lemma last_event_distinct:
  "distinct (map key es) \<Longrightarrow> e \<in> set es \<Longrightarrow> last_event key es (key e) = Some e"
proof (induction es)
  case (Cons x es)
  show ?case
  proof (cases "e \<in> set es")
    case True
    then show ?thesis using Cons by simp
  next
    case False
    then have "e = x" using Cons.prems(2) by simp
    moreover have "last_event key es (key x) = None"
      using Cons.prems(1) by (simp add: last_event_None)
    ultimately show ?thesis by simp
  qed
qed simp

text \<open>The dictionary of latest events holds one event a task, its last.\<close>

lemma latest_spec:
  "e \<in> set (latest_event_per_task env es) \<longleftrightarrow>
     task_key env e \<noteq> [] \<and> last_event (task_key env) es (task_key env e) = Some e"
proof -
  let ?key = "task_key env" and ?l = "latest_by (task_key env) es []"
  have d: "distinct (map fst ?l)" by (rule distinct_latest_by) simp
  have keys: "\<And>x. x \<in> set ?l \<Longrightarrow> fst x \<noteq> [] \<and> ?key (snd x) = fst x" by (rule latest_by_keys [of "[]"]) simp_all
  have m: "k \<noteq> [] \<Longrightarrow> map_of ?l k = last_event ?key es k" for k
    using map_of_latest_by [of k ?key es "[]"] by (simp split: option.splits)
  show ?thesis
  proof
    assume "e \<in> set (latest_event_per_task env es)"
    then obtain k where k: "(k, e) \<in> set ?l" by (auto simp: latest_event_per_task_def)
    then show "?key e \<noteq> [] \<and> last_event ?key es (?key e) = Some e"
      using keys [OF k] m [of k] map_of_is_SomeI [OF d k] by simp
  next
    assume "?key e \<noteq> [] \<and> last_event ?key es (?key e) = Some e"
    then have "map_of ?l (?key e) = Some e" using m by simp
    then show "e \<in> set (latest_event_per_task env es)"
      unfolding latest_event_per_task_def by (force dest: map_of_SomeD)
  qed
qed

lemma latest_distinct: "distinct (map (task_key env) (latest_event_per_task env es))"
proof -
  let ?l = "latest_by (task_key env) es []"
  have "\<And>x. x \<in> set ?l \<Longrightarrow> fst x \<noteq> [] \<and> task_key env (snd x) = fst x" by (rule latest_by_keys [of "[]"]) simp_all
  then have "map (task_key env) (latest_event_per_task env es) = map fst ?l"
    by (simp add: latest_event_per_task_def)
  moreover have "distinct (map fst ?l)" by (rule distinct_latest_by) simp
  ultimately show ?thesis by simp
qed

lemma last_event_closed:
  assumes "distinct (map (task_key env) ls)"
  shows "last_event (task_key env) (map (interrupted_event env now) (filter P ls)) k =
    (case last_event (task_key env) ls k of None \<Rightarrow> None
     | Some e \<Rightarrow> (if P e then Some (interrupted_event env now e) else None))"
  using assms
proof (induction ls)
  case (Cons x ls)
  then have IH: "last_event (task_key env) (map (interrupted_event env now) (filter P ls)) k =
    (case last_event (task_key env) ls k of None \<Rightarrow> None
     | Some e \<Rightarrow> (if P e then Some (interrupted_event env now e) else None))" by simp
  show ?case
  proof (cases "task_key env x = k")
    case True
    then have "last_event (task_key env) ls k = None" using Cons.prems by (auto simp: last_event_None)
    then show ?thesis using IH True by simp
  next
    case False
    then show ?thesis using IH by (simp split: option.splits)
  qed
qed simp

lemma last_event_latest:
  "k \<noteq> [] \<Longrightarrow> last_event (task_key env) (latest_event_per_task env es) k = last_event (task_key env) es k"
proof -
  assume k: "k \<noteq> []"
  show ?thesis
  proof (cases "last_event (task_key env) es k")
    case None
    have "k \<notin> task_key env ` set (latest_event_per_task env es)"
      using latest_spec [of _ env es] None by force
    then show ?thesis using None last_event_None [of "task_key env" _ k] by metis
  next
    case (Some e)
    then have "task_key env e = k" using last_event_key [OF Some] by simp
    then have "e \<in> set (latest_event_per_task env es)" using latest_spec [of e env es] Some k by simp
    then show ?thesis using last_event_distinct [OF latest_distinct] \<open>task_key env e = k\<close> Some by metis
  qed
qed

lemma reconcile_log:
  assumes "\<forall>e\<in>set es. loggable fl loads e" and "int (length es) \<le> limit"
  shows "reconcile_orphaned_tasks env fl loads limit now hb (log_text fl es) =
    (log_text fl (es @ map (interrupted_event env now) (filter (orphaned env now hb) (latest_event_per_task env es))),
     map (reclaimed_row env) (filter (orphaned env now hb) (latest_event_per_task env es)))"
  by (simp add: reconcile_orphaned_tasks_def read_tail_log [OF assms(1)] tail_of_short [OF assms(2)]
      reconcile_loop_spec)

text \<open>What a pass should do, in terms of the events and the heartbeat files alone.\<close>

definition recent_beat :: "owner_env \<Rightarrow> int \<Rightarrow> dict \<Rightarrow> bool" where
  \<comment> \<open>a heartbeat file names a process that exists, and it is at most two minutes old\<close>
  "recent_beat env now file \<longleftrightarrow> (\<exists>pid t. int_value (dget file ''pid'') = Some pid \<and> 0 < pid \<and>
     oe_probe env pid \<in> {Signalled, PermissionDenied} \<and>
     parse_iso (Some (text_or env file ''heartbeat_at'')) = Some t \<and> now \<le> t + 120 * 1000000)"

definition owned_by_living :: "owner_env \<Rightarrow> int \<Rightarrow> heartbeats \<Rightarrow> dict \<Rightarrow> bool" where
  "owned_by_living env now hb e \<longleftrightarrow> (\<exists>d. dget e ''owner'' = JDict d \<and> text_or env d ''instance_id'' \<noteq> [] \<and>
     (text_or env d ''instance_id'' = ow_instance (oe_me env) \<or>
      (\<exists>file. map_of hb (text_or env d ''instance_id'') = Some (Some (JDict file)) \<and> recent_beat env now file)))"

definition recent_unowned :: "owner_env \<Rightarrow> int \<Rightarrow> dict \<Rightarrow> bool" where
  \<comment> \<open>an event without an owner, of the last two minutes\<close>
  "recent_unowned env now e \<longleftrightarrow> (\<forall>d. dget e ''owner'' \<noteq> JDict d) \<and>
     (\<exists>t. parse_iso (Some (text_or env e ''timestamp'')) = Some t \<and> now \<le> t + 120 * 1000000)"

definition left_alone :: "owner_env \<Rightarrow> int \<Rightarrow> heartbeats \<Rightarrow> dict \<Rightarrow> bool" where
  "left_alone env now hb e \<longleftrightarrow>
     text_or env e ''status'' \<in> {[], ''RETURNED'', ''FAILED'', ''CANCELED'', ''INTERRUPTED''} \<or>
     owned_by_living env now hb e \<or> recent_unowned env now e"

definition closes :: "owner_env \<Rightarrow> int \<Rightarrow> dict \<Rightarrow> dict \<Rightarrow> bool" where
  \<comment> \<open>\<open>c\<close> ends the task of \<open>e\<close> as interrupted and failed, keeps its description and says what it was\<close>
  "closes env now e c \<longleftrightarrow> text_or env c ''task_id'' = text_or env e ''task_id'' \<and>
     dget c ''status'' = JStr ''INTERRUPTED'' \<and> dget c ''timestamp'' = JStr (isoformat now) \<and>
     dget c ''task'' = dget_or e ''task'' (JDict []) \<and> dget c ''owner'' = JDict (owner_payload (oe_me env)) \<and>
     (\<exists>why res. dget c ''reconciled'' = JDict why \<and> dget why ''from_status'' = JStr (text_or env e ''status'') \<and>
        dget why ''previous_owner'' = (if is_object (dget e ''owner'') then dget e ''owner'' else JNull) \<and>
        dget c ''result'' = JDict res \<and> dget res ''success'' = JBool False \<and> dget res ''exit_code'' = JInt 1)"

lemma recent_beat_alive: "instance_is_alive env now file \<longleftrightarrow> recent_beat env now file"
  by (auto simp: instance_is_alive_def recent_beat_def pid_alive_def is_older_than_def lease_ttl_def usec_per_sec_def
      split: option.splits pid_probe.splits)

lemma living_owner: "owner_is_alive env now hb (dget e ''owner'') \<longleftrightarrow> owned_by_living env now hb e"
  by (auto simp: owner_is_alive_def owned_by_living_def Let_def recent_beat_alive split: json.splits option.splits)

lemma orphaned_iff:
  assumes "text_or env e ''task_id'' \<noteq> []"
  shows "orphaned env now hb e \<longleftrightarrow> \<not> left_alone env now hb e"
proof -
  have "(\<not> is_object (dget e ''owner'') \<and> \<not> is_older_than (text_or env e ''timestamp'') (now - lease_ttl)) = recent_unowned env now e"
    by (auto simp: is_object_def is_older_than_def recent_unowned_def lease_ttl_def usec_per_sec_def
        split: json.splits option.splits)
  then show ?thesis using assms
    unfolding orphaned_def left_alone_def living_owner [symmetric] by (auto simp: terminal_statuses_def Let_def)
qed

lemma interrupted_closes: "closes env now e (interrupted_event env now e)"
proof -
  note task_id_interrupted [of env now e]
  then show ?thesis unfolding closes_def by (simp add: interrupted_event_def Let_def)
qed

text \<open>C26: A pass closes exactly the orphaned tasks. Over a log that reads back as the events \<open>es\<close> and
  fits the lines that are read, the pass appends events \<open>new\<close>, at most one for a task. A task whose
  last event is final, names this process or one whose heartbeat file is at most two minutes old
  and whose process exists, or names none and is at most two minutes old, keeps that last event.
  Every other task of the log ends with an event that closes it as interrupted. The answer has one
  row for each task closed, in the same order, and no task appears.\<close>

theorem reconcile_effect:
  assumes "\<forall>e\<in>set es. loggable fl loads e" and "int (length es) \<le> limit"
  shows "\<exists>new rows. reconcile_orphaned_tasks env fl loads limit now hb (log_text fl es) = (log_text fl (es @ new), rows) \<and>
    (\<forall>t. t \<noteq> [] \<longrightarrow> (case last_event (task_key env) es t of
         None \<Rightarrow> last_event (task_key env) (es @ new) t = None
       | Some e \<Rightarrow> (if left_alone env now hb e then last_event (task_key env) (es @ new) t = Some e
           else (\<exists>c. last_event (task_key env) (es @ new) t = Some c \<and> closes env now e c)))) \<and>
    distinct (map (task_key env) new) \<and> map (\<lambda>r. dget r ''task_id'') rows = map (\<lambda>e. dget e ''task_id'') new"
proof -
  let ?ls = "latest_event_per_task env es"
  define new where "new = map (interrupted_event env now) (filter (orphaned env now hb) ?ls)"
  have "case last_event (task_key env) es t of None \<Rightarrow> last_event (task_key env) (es @ new) t = None
      | Some e \<Rightarrow> (if left_alone env now hb e then last_event (task_key env) (es @ new) t = Some e
          else (\<exists>c. last_event (task_key env) (es @ new) t = Some c \<and> closes env now e c))" if t: "t \<noteq> []" for t
  proof (cases "last_event (task_key env) es t")
    case None
    then show ?thesis
      using last_event_closed [OF latest_distinct, of env now "orphaned env now hb" es t] last_event_latest [OF t, of env es]
      by (simp add: new_def last_event_append)
  next
    case (Some e)
    then have "orphaned env now hb e \<longleftrightarrow> \<not> left_alone env now hb e"
      using orphaned_iff [of env e] last_event_key [OF Some] t by simp
    then show ?thesis using Some interrupted_closes [of env now e]
        last_event_closed [OF latest_distinct, of env now "orphaned env now hb" es t] last_event_latest [OF t, of env es]
      by (auto simp: new_def last_event_append split: option.splits)
  qed
  moreover have "distinct (map (task_key env) new)"
    using latest_distinct [of env es] by (simp add: new_def distinct_map_filter o_def)
  moreover have "map (\<lambda>r. dget r ''task_id'') (map (reclaimed_row env) (filter (orphaned env now hb) ?ls)) = map (\<lambda>e. dget e ''task_id'') new"
    by (simp add: new_def reclaimed_row_def interrupted_event_def Let_def)
  ultimately show ?thesis
    using reconcile_log [OF assms, of env now hb] unfolding new_def [symmetric] by blast
qed

text \<open>closing is idempotent: a second pass with the same processes and clock, over the log the first
  one left, finds no orphaned task.\<close>

lemma reconcile_idempotent:
  assumes "\<forall>e\<in>set es. loggable fl loads e"
    and "\<forall>e\<in>set es. loggable fl loads (interrupted_event env now e)"
    and "2 * int (length es) \<le> limit"
  shows "snd (reconcile_orphaned_tasks env fl loads limit now hb
    (fst (reconcile_orphaned_tasks env fl loads limit now hb (log_text fl es)))) = []"
proof -
  let ?ls = "latest_event_per_task env es"
  define new where "new = map (interrupted_event env now) (filter (orphaned env now hb) ?ls)"
  have lim: "int (length es) \<le> limit" using assms(3) by linarith
  have sub: "set ?ls \<subseteq> set es" using latest_spec [of _ env es] last_event_key [of "task_key env" es] by blast
  have "length ?ls = card (set (map (task_key env) ?ls))"
    using latest_distinct [of env es] by (simp add: distinct_card del: set_map)
  also have "\<dots> \<le> card (task_key env ` set es)" using sub by (intro card_mono) auto
  also have "\<dots> \<le> length es" using card_image_le [of "set es" "task_key env"] card_length [of es] by simp
  finally have n: "length ?ls \<le> length es" .
  have "length new \<le> length ?ls" by (simp add: new_def)
  then have "int (length (es @ new)) \<le> limit" using assms(3) n by simp
  moreover have "\<forall>e\<in>set (es @ new). loggable fl loads e" using assms(1,2) sub by (auto simp: new_def)
  moreover have none: "\<not> orphaned env now hb e" if e: "e \<in> set (latest_event_per_task env (es @ new))" for e
  proof -
    let ?t = "task_key env e"
    have t: "?t \<noteq> []" "last_event (task_key env) (es @ new) ?t = Some e" using e latest_spec [of e env "es @ new"] by auto
    obtain e0 where "last_event (task_key env) es ?t = Some e0" "e = (if orphaned env now hb e0 then interrupted_event env now e0 else e0)"
      using t last_event_closed [OF latest_distinct, of env now "orphaned env now hb" es ?t] last_event_latest [OF t(1), of env es]
      by (auto simp: new_def last_event_append split: option.splits if_splits)
    then show ?thesis by auto
  qed
  ultimately have second: "snd (reconcile_orphaned_tasks env fl loads limit now hb (log_text fl (es @ new))) =
      map (reclaimed_row env) (filter (orphaned env now hb) (latest_event_per_task env (es @ new)))"
    by (simp only: reconcile_log snd_conv)
  have "filter (orphaned env now hb) (latest_event_per_task env (es @ new)) = []"
    using none by (simp only: filter_empty_conv) blast
  moreover have "fst (reconcile_orphaned_tasks env fl loads limit now hb (log_text fl es)) = log_text fl (es @ new)"
    by (simp only: reconcile_log [OF assms(1) lim] new_def fst_conv)
  ultimately show ?thesis using second by (simp only: list.map)
qed

section \<open>A living owner\<close>

lemma text_or_str: "dget d k = JStr s \<Longrightarrow> text_or env d k = s"
  by (cases s) (simp_all add: text_or_def py_or_def)

lemma snapshot_fields:
  "dget (registry_snapshot env now g) ''instance_id'' = JStr (ow_instance (oe_me env))"
  "dget (registry_snapshot env now g) ''pid'' = JInt (ow_pid (oe_me env))"
  "dget (registry_snapshot env now g) ''heartbeat_at'' = JStr (isoformat now)"
  by (simp_all add: registry_snapshot_def owner_payload_def)

lemma fresh_snapshot_alive:
  assumes "valid_instant t0" and "now \<le> t0 + lease_ttl" and "pid_alive other (ow_pid (oe_me env))"
  shows "instance_is_alive other now (registry_snapshot env t0 g)"
  using assms
  by (simp add: instance_is_alive_def int_value_def snapshot_fields text_or_str is_older_than_def parse_iso_isoformat)

text \<open>a task is safe from the moment it is tracked: as long as the process is alive and its last
  heartbeat is at most two minutes old, no other process takes an event that names it as owner
  for orphaned, whatever the event's status.\<close>

lemma tracked_task_not_orphaned:
  assumes "\<not> rg_stopped g" and "oe_writable env" and "ow_instance (oe_me env) \<noteq> []" and "valid_instant t0"
    and "now \<le> t0 + lease_ttl" and "pid_alive other (ow_pid (oe_me env))"
    and "dget e ''owner'' = JDict (owner_payload (oe_me env))"
  shows "\<not> orphaned other now (snd (track env t0 task_id (g, hb))) e"
proof -
  let ?i = "ow_instance (oe_me env)"
  have "map_of (snd (track env t0 task_id (g, hb))) ?i =
      Some (Some (JDict (registry_snapshot env t0 (g\<lparr> rg_active := List.insert task_id (rg_active g) \<rparr>))))"
    using assms(1,2) by (simp add: track_def publish_def Let_def update_conv')
  moreover have "text_or other (owner_payload (oe_me env)) ''instance_id'' = ?i"
    by (rule text_or_str) (simp add: owner_payload_def)
  ultimately have "owner_is_alive other now (snd (track env t0 task_id (g, hb))) (dget e ''owner'')"
    using fresh_snapshot_alive [OF assms(4,5,6)] assms(3) by (simp add: owner_is_alive_def assms(7) Let_def)
  then show ?thesis by (simp add: orphaned_def Let_def)
qed

section \<open>A stopped registry\<close>

datatype registry_op = Track string | Untrack string | Beat

fun registry_step :: "owner_env \<Rightarrow> int \<times> registry_op \<Rightarrow> registry \<times> heartbeats \<Rightarrow> registry \<times> heartbeats" where
  "registry_step env (now, Track t) s = track env now t s"
| "registry_step env (now, Untrack t) s = untrack env now t s"
| "registry_step env (now, Beat) s = heartbeat env now s"

text \<open>once a process has retracted its ownership, neither a late \<open>track\<close> or \<open>untrack\<close> of a worker nor
  the heartbeat thread publishes its file again.\<close>

lemma stopped_registry_silent:
  "map_of (snd (fold (registry_step env) ops (stop_registry env s))) (ow_instance (oe_me env)) = None"
proof -
  have step: "registry_step env op x = (g', hb) \<Longrightarrow> rg_stopped (fst x) \<Longrightarrow> rg_stopped g' \<and> hb = snd x" for op x g' hb
    by (cases op; cases "snd op") (auto simp: track_def untrack_def heartbeat_def publish_def Let_def)
  have "rg_stopped (fst x) \<Longrightarrow> snd (fold (registry_step env) ops x) = snd x" for x
  proof (induction ops arbitrary: x)
    case (Cons op ops)
    then show ?case using step [of op x] by (metis fold_simps(2) prod.collapse)
  qed simp
  then show ?thesis by (simp add: stop_registry_def delete_conv')
qed

section \<open>A torn line\<close>

lemma splitlines_torn:
  assumes "\<forall>l\<in>set ls. unbroken l" and "unbroken torn" and "unbroken line"
  shows "splitlines (file_text ls @ torn @ line @ [LF]) = ls @ [torn @ line]"
  using splitlines_append_line [OF assms(1), of "torn @ line"] assms(2,3) by simp

text \<open>when a process died in the middle of appending a line, the next event appended is glued to the
  fragment and is lost with it: the interruption recorded by the first pass after the crash is
  not in the log when it is read back.\<close>

lemma torn_line_swallows_event:
  assumes "\<forall>e\<in>set es. loggable fl loads e" and "loggable fl loads e" and "unbroken torn"
    and "loads (torn @ dumps fl (JDict e)) = None" and "int (length es) < limit"
  shows "read_tail loads limit (append_event fl e (log_text fl es @ torn)) = es"
proof -
  have u: "\<forall>l\<in>set (map (\<lambda>d. dumps fl (JDict d)) es). unbroken l"
    using assms(1) by (auto simp: loggable_def intro!: unbroken_dumps simp del: dumps.simps nel_free.simps)
  have ue: "unbroken (dumps fl (JDict e))"
    using assms(2) unfolding loggable_def by (blast intro: unbroken_dumps)
  have "is_break CR" by (simp add: is_break_def)
  then have "CR \<notin> set (dumps fl (JDict e))" "CR \<notin> set torn" using ue assms(3) unfolding unbroken_def by blast+
  moreover have "CR \<noteq> LF" by simp
  ultimately have "CR \<notin> set (append_event fl e (log_text fl es @ torn))"
    using no_CR_file [OF u] by (simp add: append_event_def log_text_def del: dumps.simps)
  then have "splitlines (normalize_newlines (append_event fl e (log_text fl es @ torn))) =
      map (\<lambda>d. dumps fl (JDict d)) es @ [torn @ dumps fl (JDict e)]"
    using splitlines_torn [OF u assms(3) ue] by (simp add: normalize_id append_event_def log_text_def del: dumps.simps)
  moreover have "event_row loads (torn @ dumps fl (JDict e)) = None"
    using assms(4) by (simp add: event_row_def del: dumps.simps)
  moreover have "List.map_filter (event_row loads) (map (\<lambda>d. dumps fl (JDict d)) es) = es"
    using assms(1) by (intro map_filter_all event_row_dumps) simp
  ultimately show ?thesis using assms(5)
    by (simp add: read_tail_def tail_of_def map_filter_def del: dumps.simps)
qed

section \<open>Witnesses\<close>

definition to_env :: owner_env where
  "to_env = \<lparr> oe_me = \<lparr> ow_instance = ''i2'', ow_pid = 7, ow_host = ''h'' \<rparr>, oe_probe = \<lambda>p. Signalled, oe_writable = True,
     oe_repr = \<lambda>v. [] \<rparr>"

definition to_event :: dict where
  "to_event = [(''task_id'', JStr ''t1''), (''status'', JStr ''RUNNING'')]"

definition to_loads :: "string \<Rightarrow> json option" where
  \<comment> \<open>reads the task's event and its interruption, told apart by their first key\<close>
  "to_loads s = Some (JDict (if s ! 3 = CHR ''a'' then to_event else interrupted_event to_env 0 to_event))"

lemma to_loggable: "loggable (\<lambda>x. []) to_loads to_event"
proof -
  have "nel_free (JDict to_event)" by code_simp
  moreover have "dumps (\<lambda>x. []) (JDict to_event) ! 3 = CHR ''a''" by code_simp
  ultimately show ?thesis by (simp only: loggable_def to_loads_def simp_thms if_True)
qed

lemma to_loggable_interrupted: "loggable (\<lambda>x. []) to_loads (interrupted_event to_env 0 to_event)"
proof -
  have "nel_free (JDict (interrupted_event to_env 0 to_event))" by code_simp
  moreover have "(dumps (\<lambda>x. []) (JDict (interrupted_event to_env 0 to_event)) ! 3 = CHR ''a'') = False" by code_simp
  ultimately show ?thesis by (simp only: loggable_def to_loads_def simp_thms if_False)
qed

lemma to_not_alone: "\<not> left_alone to_env 0 [] to_event"
  by (simp add: left_alone_def owned_by_living_def recent_unowned_def to_event_def text_or_def py_or_def)

theorem reconcile_effect_witness:
  "\<exists>new rows c. reconcile_orphaned_tasks to_env (\<lambda>x. []) to_loads 5000 0 [] (log_text (\<lambda>x. []) [to_event]) =
     (log_text (\<lambda>x. []) ([to_event] @ new), rows) \<and>
     last_event (task_key to_env) ([to_event] @ new) ''t1'' = Some c \<and> closes to_env 0 to_event c"
proof -
  have a: "\<forall>e\<in>set [to_event]. loggable (\<lambda>x. []) to_loads e" using to_loggable by simp
  have b: "int (length [to_event]) \<le> 5000" by simp
  have c: "last_event (task_key to_env) [to_event] ''t1'' = Some to_event"
    by (simp add: to_event_def text_or_def py_or_def)
  obtain new rows where n: "reconcile_orphaned_tasks to_env (\<lambda>x. []) to_loads 5000 0 [] (log_text (\<lambda>x. []) [to_event]) =
      (log_text (\<lambda>x. []) ([to_event] @ new), rows)"
    and l: "\<And>t. t \<noteq> [] \<Longrightarrow> (case last_event (task_key to_env) [to_event] t of
        None \<Rightarrow> last_event (task_key to_env) ([to_event] @ new) t = None
      | Some e \<Rightarrow> (if left_alone to_env 0 [] e then last_event (task_key to_env) ([to_event] @ new) t = Some e
          else (\<exists>c. last_event (task_key to_env) ([to_event] @ new) t = Some c \<and> closes to_env 0 e c)))"
    using reconcile_effect [OF a b, of to_env 0 "[]"] by blast
  have "\<exists>c. last_event (task_key to_env) ([to_event] @ new) ''t1'' = Some c \<and> closes to_env 0 to_event c"
    using l [of "''t1''"] c to_not_alone by simp
  with n show ?thesis by blast
qed

end
