(* ===== verification/Attachments.thy ===== *)
theory Attachments
  imports Reverts
begin

text \<open>
  Attachments of a task (\<open>core/models/attachment.py\<close>): the spellings of an attachment an executor may
  echo, their redaction in a complete text, and the redactor for output that arrives in chunks.
  The order in which Python iterates over a set is a parameter.
\<close>

section \<open>Attachments and their spellings\<close>

record attachment =
  ac_path :: path
  ac_media_type :: string
  ac_sha256 :: string
  ac_byte_size :: int
  ac_ordinal :: int

record image_attachment = attachment +
  im_width :: int
  im_height :: int
  im_frame_count :: int

definition pixel_count :: "image_attachment \<Rightarrow> int" where
  "pixel_count i = im_width i * im_height i * im_frame_count i"

definition spellings :: "path \<Rightarrow> attachment \<Rightarrow> string list" where
  "spellings ws a = [str_path (ac_path a)] @
     (if is_within (ac_path a) ws then [posix (below ws (ac_path a))] else []) @
     [if ac_path a = [] then [] else last (ac_path a)]"

definition attachment_reference_patterns :: "(string list \<Rightarrow> string list) \<Rightarrow> path \<Rightarrow> attachment list \<Rightarrow> string list" where
  \<comment> \<open>\<open>ord\<close> is the order in which the set is iterated over; the sort is stable\<close>
  "attachment_reference_patterns ord ws atts =
     sort_key (\<lambda>p. - int (length p)) (filter (\<lambda>p. p \<noteq> []) (ord (remdups (concat (map (spellings ws) atts)))))"

definition redaction :: string where
  "redaction = ''the attached file''"

definition redact_all :: "string list \<Rightarrow> string \<Rightarrow> string" where
  "redact_all ps text = fold (\<lambda>p t. replace_all p redaction t) ps text"

definition redact_attachment_references ::
    "(string list \<Rightarrow> string list) \<Rightarrow> path \<Rightarrow> attachment list \<Rightarrow> string \<Rightarrow> string" where
  "redact_attachment_references ord ws atts text = redact_all (attachment_reference_patterns ord ws atts) text"

section \<open>The redactor of a stream\<close>

record redactor =
  rd_patterns :: "string list"
  rd_max :: nat
  rd_buffer :: string

definition new_redactor :: "string list \<Rightarrow> redactor" where
  "new_redactor ps = \<lparr> rd_patterns = ps, rd_max = fold max (map length ps) 0, rd_buffer = [] \<rparr>"

fun find_sub :: "string \<Rightarrow> string \<Rightarrow> nat option" where
  \<comment> \<open>\<open>s.find(pat)\<close>, \<open>None\<close> for -1\<close>
  "find_sub pat [] = (if pat = [] then Some 0 else None)"
| "find_sub pat (c # cs) = (if prefix pat (c # cs) then Some 0 else map_option Suc (find_sub pat cs))"

definition better_match :: "nat \<times> string \<Rightarrow> (nat \<times> string) option \<Rightarrow> bool" where
  "better_match m found \<longleftrightarrow> (case found of
       None \<Rightarrow> True
     | Some f \<Rightarrow> fst m < fst f \<or> fst m = fst f \<and> length (snd f) < length (snd m))"

fun earliest_loop :: "string list \<Rightarrow> string \<Rightarrow> (nat \<times> string) option \<Rightarrow> (nat \<times> string) option" where
  "earliest_loop [] b found = found"
| "earliest_loop (p # ps) b found = earliest_loop ps b (case find_sub p b of
       None \<Rightarrow> found
     | Some i \<Rightarrow> (if better_match (i, p) found then Some (i, p) else found))"

definition earliest_match :: "string list \<Rightarrow> string \<Rightarrow> (nat \<times> string) option" where
  "earliest_match ps b = earliest_loop ps b None"

fun drain :: "nat \<Rightarrow> string list \<Rightarrow> nat \<Rightarrow> string \<Rightarrow> string \<times> string" where
  \<comment> \<open>the loop of \<open>feed_chunk\<close>: a round takes at least one character off the buffer, so its length is
    fuel enough; the result is the output and the new buffer\<close>
  "drain 0 ps m b = ([], b)"
| "drain (Suc n) ps m b =
     (if b = [] then ([], b)
      else (case earliest_match ps b of
              Some (i, p) \<Rightarrow> (case drain n ps m (drop (i + length p) b) of
                  (out, b') \<Rightarrow> (take i b @ redaction @ out, b'))
            | None \<Rightarrow>
                (let safe = int (length b) - int m + 1 in
                 if safe \<le> 0 then ([], b) else (take (nat safe) b, drop (nat safe) b))))"

definition feed_chunk :: "string \<Rightarrow> redactor \<Rightarrow> string \<times> redactor" where
  "feed_chunk chunk r =
     (if rd_patterns r = [] then (chunk, r)
      else (let b = rd_buffer r @ chunk; (out, b') = drain (length b) (rd_patterns r) (rd_max r) b in
            (out, r\<lparr> rd_buffer := b' \<rparr>)))"

definition flush_redactor :: "redactor \<Rightarrow> string \<times> redactor" where
  "flush_redactor r = (redact_all (rd_patterns r) (rd_buffer r), r\<lparr> rd_buffer := [] \<rparr>)"

fun feed_chunks :: "string list \<Rightarrow> redactor \<Rightarrow> string \<times> redactor" where
  "feed_chunks [] r = ([], r)"
| "feed_chunks (c # cs) r = (case feed_chunk c r of (out, r') \<Rightarrow> (case feed_chunks cs r' of (out', r'') \<Rightarrow> (out @ out', r'')))"

definition streamed :: "string list \<Rightarrow> string list \<Rightarrow> string" where
  \<comment> \<open>what a channel is sent for an output that arrives in \<open>chunks\<close>\<close>
  "streamed ps chunks = (case feed_chunks chunks (new_redactor ps) of (out, r) \<Rightarrow> out @ fst (flush_redactor r))"

section \<open>The redaction of a whole text in one pass\<close>

text \<open>The reference: from left to right, the longest pattern that starts here is replaced.\<close>

definition longest_here :: "string list \<Rightarrow> string \<Rightarrow> string option" where
  "longest_here ps s = (case filter (\<lambda>p. prefix p s) ps of [] \<Rightarrow> None
     | m # ms \<Rightarrow> Some (fold (\<lambda>p b. if length b < length p then p else b) ms m))"

fun scan :: "string list \<Rightarrow> nat \<Rightarrow> string \<Rightarrow> string" where
  \<comment> \<open>\<open>skip\<close> characters belong to a pattern already replaced\<close>
  "scan ps skip [] = []"
| "scan ps (Suc skip) (c # cs) = scan ps skip cs"
| "scan ps 0 (c # cs) = (case longest_here ps (c # cs) of
       None \<Rightarrow> c # scan ps 0 cs
     | Some p \<Rightarrow> redaction @ scan ps (length p - 1) cs)"

section \<open>Facts\<close>

lemma scan_skip: "scan ps k s = scan ps 0 (drop k s)"
  by (induction ps k s rule: scan.induct) auto

lemma find_sub_Some:
  "find_sub p s = Some i \<Longrightarrow> prefix p (drop i s) \<and> i \<le> length s \<and> (\<forall>k<i. \<not> prefix p (drop k s))"
proof (induction s arbitrary: i)
  case Nil
  then show ?case by (simp split: if_splits)
next
  case (Cons c cs)
  show ?case
  proof (cases "prefix p (c # cs)")
    case True
    then show ?thesis using Cons.prems by simp
  next
    case False
    then obtain j where j: "find_sub p cs = Some j" "i = Suc j" using Cons.prems by auto
    have "\<not> prefix p (drop k (c # cs))" if "k < i" for k
      using that False j(2) Cons.IH [OF j(1)] by (cases k) auto
    then show ?thesis using Cons.IH [OF j(1)] j(2) by auto
  qed
qed

lemma find_sub_None: "find_sub p s = None \<Longrightarrow> k \<le> length s \<Longrightarrow> \<not> prefix p (drop k s)"
proof (induction s arbitrary: k)
  case (Cons c cs)
  then show ?case by (cases k) (auto split: if_splits)
qed (simp split: if_splits)

definition as_good :: "nat \<times> string \<Rightarrow> nat \<times> string \<Rightarrow> bool" where
  "as_good f m \<longleftrightarrow> fst f < fst m \<or> fst f = fst m \<and> length (snd m) \<le> length (snd f)"

lemma as_good_trans: "as_good f g \<Longrightarrow> as_good g h \<Longrightarrow> as_good f h"
  by (auto simp: as_good_def)

lemma better_step:
  "\<exists>f'. (if better_match m found then Some m else found) = Some f' \<and> as_good f' m \<and> (\<forall>f. found = Some f \<longrightarrow> as_good f' f)"
  by (cases found; cases "better_match m found") (auto simp: as_good_def better_match_def)

lemma earliest_loop_keeps: "found = Some f \<Longrightarrow> \<exists>g. earliest_loop ps b found = Some g \<and> as_good g f"
proof (induction ps b found arbitrary: f rule: earliest_loop.induct)
  case (2 p ps b found)
  let ?f = "case find_sub p b of None \<Rightarrow> found | Some i \<Rightarrow> (if better_match (i, p) found then Some (i, p) else found)"
  have "\<exists>f'. ?f = Some f' \<and> as_good f' f"
  proof (cases "find_sub p b")
    case (Some i)
    then show ?thesis using 2(2) better_step [of "(i, p)" found] by auto
  qed (use 2(2) in \<open>simp add: as_good_def\<close>)
  then obtain f' where f': "?f = Some f'" "as_good f' f" by blast
  then show ?case using 2(1) [OF f'(1)] as_good_trans by fastforce
qed (simp add: as_good_def)

lemma earliest_loop_best:
  "q \<in> set ps \<Longrightarrow> find_sub q b = Some j \<Longrightarrow> \<exists>g. earliest_loop ps b found = Some g \<and> as_good g (j, q)"
proof (induction ps b found rule: earliest_loop.induct)
  case (2 p ps b found)
  show ?case
  proof (cases "q = p")
    case True
    let ?f = "if better_match (j, p) found then Some (j, p) else found"
    obtain f' where f': "?f = Some f'" "as_good f' (j, p)"
      using better_step [of "(j, p)" found] by blast
    then show ?thesis using earliest_loop_keeps [OF f'(1), of ps b] as_good_trans 2(3) True by fastforce
  qed (use 2 in auto)
qed simp

lemma earliest_loop_mem:
  "earliest_loop ps b found = Some (i, p) \<Longrightarrow> found = Some (i, p) \<or> (p \<in> set ps \<and> find_sub p b = Some i)"
proof (induction ps b found rule: earliest_loop.induct)
  case (2 p' ps b found)
  then show ?case by (auto split: option.splits if_splits)
qed simp

lemma earliest_Some:
  assumes "earliest_match ps b = Some (i, p)"
  shows "p \<in> set ps" "prefix p (drop i b)" "i + length p \<le> length b"
    and "\<And>q k. q \<in> set ps \<Longrightarrow> k \<le> length b \<Longrightarrow> prefix q (drop k b) \<Longrightarrow> i < k \<or> (i = k \<and> length q \<le> length p)"
proof -
  have mem: "p \<in> set ps" "find_sub p b = Some i"
    using assms earliest_loop_mem [of ps b None] by (auto simp: earliest_match_def)
  show "p \<in> set ps" "prefix p (drop i b)" using mem find_sub_Some [OF mem(2)] by simp_all
  show "i + length p \<le> length b"
    using find_sub_Some [OF mem(2)] prefix_length_le [of p "drop i b"] by auto
  fix q k assume q: "q \<in> set ps" "k \<le> length b" "prefix q (drop k b)"
  obtain j where j: "find_sub q b = Some j" using find_sub_None [of q b k] q by fastforce
  have "j \<le> k" using find_sub_Some [OF j] q(3) by (meson leI)
  then show "i < k \<or> (i = k \<and> length q \<le> length p)"
    using earliest_loop_best [OF q(1) j, of None] assms by (auto simp: earliest_match_def as_good_def)
qed

lemma earliest_None:
  assumes "earliest_match ps b = None" "q \<in> set ps" "k \<le> length b"
  shows "\<not> prefix q (drop k b)"
proof -
  have "find_sub q b = None"
    using earliest_loop_best [OF assms(2), of b _ None] assms(1) by (cases "find_sub q b") (auto simp: earliest_match_def)
  then show ?thesis by (rule find_sub_None [OF _ assms(3)])
qed

lemma longest_fold: "p \<in> set ms \<union> {m} \<Longrightarrow>
    length p \<le> length (fold (\<lambda>p b. if length b < length p then p else b) ms m) \<and>
    fold (\<lambda>p b. if length b < length p then p else b) ms m \<in> set ms \<union> {m}"
proof (induction ms arbitrary: m p)
  case (Cons x ms)
  let ?m = "if length m < length x then x else m"
  have "length p \<le> length ?m \<or> p \<in> set ms" using Cons.prems by auto
  then show ?case using Cons.IH [of p ?m] Cons.IH [of ?m ?m] by auto
qed simp

lemma longest_here_None [simp]: "longest_here ps s = None \<longleftrightarrow> (\<forall>p\<in>set ps. \<not> prefix p s)"
proof -
  have "longest_here ps s = None \<longleftrightarrow> filter (\<lambda>p. prefix p s) ps = []" by (simp add: longest_here_def split: list.split)
  then show ?thesis by (simp add: filter_empty_conv)
qed

lemma longest_here_Some:
  "longest_here ps s = Some p \<Longrightarrow> p \<in> set ps \<and> prefix p s \<and> (\<forall>q\<in>set ps. prefix q s \<longrightarrow> length q \<le> length p)"
proof -
  assume a: "longest_here ps s = Some p"
  then obtain m ms where m: "filter (\<lambda>p. prefix p s) ps = m # ms" by (auto simp: longest_here_def split: list.splits)
  then have p: "p = fold (\<lambda>p b. if length b < length p then p else b) ms m" using a by (simp add: longest_here_def)
  have set: "set ms \<union> {m} = {q \<in> set ps. prefix q s}" using m by (metis Un_insert_right list.simps(15) set_filter sup_bot.right_neutral)
  show ?thesis using longest_fold [of _ ms m] p set by auto
qed

text \<open>Where a pattern is the longest one and none starts earlier, the scan replaces it.\<close>

lemma scan_clear:
  "\<forall>k<n. \<forall>q\<in>set ps. \<not> prefix q (drop k s) \<Longrightarrow> n \<le> length s \<Longrightarrow> scan ps 0 s = take n s @ scan ps 0 (drop n s)"
proof (induction n arbitrary: s)
  case (Suc n)
  then obtain c cs where s: "s = c # cs" by (cases s) auto
  have "longest_here ps (c # cs) = None" using Suc.prems(1) s by (auto dest: spec [of _ 0])
  moreover have "\<forall>k<n. \<forall>q\<in>set ps. \<not> prefix q (drop k cs)" using Suc.prems(1) s by (auto dest: spec [of _ "Suc _"])
  ultimately show ?case using Suc.IH [of cs] Suc.prems(2) s by (simp del: longest_here_None)
qed simp

lemma scan_hit:
  assumes "p \<in> set ps" "p \<noteq> []" "prefix p s" "\<forall>q\<in>set ps. prefix q s \<longrightarrow> length q \<le> length p"
  shows "scan ps 0 s = redaction @ scan ps 0 (drop (length p) s)"
proof -
  obtain c cs where s: "s = c # cs" using assms(2,3) by (cases s) auto
  obtain q where q: "longest_here ps s = Some q" using assms(1,3) by (cases "longest_here ps s") auto
  have "length q = length p" using longest_here_Some [OF q] assms by (meson le_antisym)
  moreover have "length p > 0" using assms(2) by simp
  ultimately show ?thesis using q s by (cases "length p") (auto intro: scan_skip)
qed

lemma prefix_left: "prefix q (drop k (b @ r)) \<Longrightarrow> k + length q \<le> length b \<Longrightarrow> prefix q (drop k b)"
  using prefix_length_prefix [of q "drop k (b @ r)" "drop k b"] by simp

lemma splittable_hit:
  assumes "\<forall>p\<in>set ps. \<forall>q\<in>set ps. \<not> sublist p (butlast q)" "[] \<notin> set ps" "earliest_match ps b = Some (i, p)"
  shows "scan ps 0 (b @ r) = take i b @ redaction @ scan ps 0 (drop (i + length p) b @ r)"
proof -
  note e = earliest_Some [OF assms(3)]
  have inner: "q \<in> set ps \<Longrightarrow> k \<le> i \<Longrightarrow> prefix q (drop k (b @ r)) \<Longrightarrow> k + length q \<le> length b \<or> i + length p = k + length q" for q k
  proof (rule ccontr)
    assume q: "q \<in> set ps" "k \<le> i" "prefix q (drop k (b @ r))"
      and c: "\<not> (k + length q \<le> length b \<or> i + length p = k + length q)"
    let ?t = "drop k (take (i + length p) b)"
    have "i + length p < k + length q" using c e(3) by linarith
    then have len: "length ?t \<le> length (butlast q)" using e(3) by simp
    have "?t = take (i + length p - k) (drop k (b @ r))" using e(3) q(2) by (simp add: drop_take)
    then have "prefix ?t (drop k (b @ r))" by (metis take_is_prefix)
    moreover have "prefix (butlast q) (drop k (b @ r))" using q(3) prefixeq_butlast prefix_order.trans by blast
    ultimately have "prefix ?t (butlast q)" using len prefix_length_prefix by blast
    moreover have "suffix p ?t"
    proof -
      have "take (length p) (drop i b) = p" using e(2,3) by (auto simp: prefix_def)
      then have "?t = drop k (take i b) @ p" using q(2) e(3) by (simp add: take_add drop_append)
      then show ?thesis by (simp add: suffix_def)
    qed
    ultimately have "sublist p (butlast q)" by (meson prefix_imp_sublist sublist_order.order_trans suffix_imp_sublist)
    then show False using assms(1) e(1) q(1) by blast
  qed
  have clear: "\<forall>k<i. \<forall>q\<in>set ps. \<not> prefix q (drop k (b @ r))"
  proof (intro allI impI ballI notI)
    fix k q assume k: "k < i" "q \<in> set ps" "prefix q (drop k (b @ r))"
    have kb: "k + length q \<le> length b" using inner [OF k(2) _ k(3)] k(1) e(3) by auto
    then have "prefix q (drop k b)" by (rule prefix_left [OF k(3)])
    then show False using e(4) [OF k(2), of k] k(1) kb by simp
  qed
  have longest: "\<forall>q\<in>set ps. prefix q (drop i (b @ r)) \<longrightarrow> length q \<le> length p"
  proof (intro ballI impI)
    fix q assume q: "q \<in> set ps" "prefix q (drop i (b @ r))"
    show "length q \<le> length p"
    proof (cases "i + length q \<le> length b")
      case True
      then have "prefix q (drop i b)" by (rule prefix_left [OF q(2)])
      then show ?thesis using e(4) [OF q(1), of i] e(3) by simp
    qed (use inner [OF q(1) _ q(2)] in auto)
  qed
  have "scan ps 0 (b @ r) = take i (b @ r) @ scan ps 0 (drop i (b @ r))" using scan_clear [OF clear] e(3) by simp
  moreover have "prefix p (drop i (b @ r))" using e(2) by (auto simp: prefix_def)
  moreover have "p \<noteq> []" using e(1) assms(2) by blast
  ultimately show ?thesis using scan_hit [OF e(1) _ _ longest] e(3) by (simp add: add.commute)
qed

lemma max_length: "p \<in> set ps \<Longrightarrow> length p \<le> fold max (map length ps) n"
proof (induction ps arbitrary: n)
  case (Cons x ps)
  have ge: "n \<le> fold max ns n" for ns :: "nat list" and n
    by (induction ns arbitrary: n) (auto, meson max.bounded_iff)
  show ?case using Cons ge [of "max (length x) n" "map length ps"] by auto
qed simp

lemma splittable_miss:
  assumes "\<forall>p\<in>set ps. length p \<le> m" "earliest_match ps b = None" "n + m \<le> length b + 1"
  shows "scan ps 0 (b @ r) = take n b @ scan ps 0 (drop n b @ r)"
proof (cases "n = 0")
  case False
  have "\<forall>k<min n (length b). \<forall>q\<in>set ps. \<not> prefix q (drop k (b @ r))"
  proof (intro allI impI ballI notI)
    fix k q assume k: "k < min n (length b)" "q \<in> set ps" "prefix q (drop k (b @ r))"
    have "length q \<le> m" using assms(1) k(2) by blast
    then have "k + length q \<le> length b" using assms(3) k(1) by simp
    then have "prefix q (drop k b)" by (rule prefix_left [OF k(3)])
    then show False using earliest_None [OF assms(2) k(2), of k] k(1) by simp
  qed
  then show ?thesis using scan_clear [of "min n (length b)" ps "b @ r"] by (cases "n \<le> length b") (auto simp: min_def)
qed simp

definition splittable :: "string list \<Rightarrow> bool" where
  \<comment> \<open>no spelling occurs in another one, except at its end\<close>
  "splittable ps \<longleftrightarrow> [] \<notin> set ps \<and> (\<forall>p\<in>set ps. \<forall>q\<in>set ps. \<not> sublist p (butlast q))"

lemma drain_scan:
  assumes "splittable ps" "\<forall>p\<in>set ps. length p \<le> m" "0 < m" "length b \<le> n" "drain n ps m b = (out, b')"
  shows "scan ps 0 (b @ r) = out @ scan ps 0 (b' @ r) \<and> earliest_match ps b' = None"
  using assms(4,5)
proof (induction n arbitrary: b out)
  case 0
  have "find_sub p [] = None" if "p \<in> set ps" for p using that assms(1) by (auto simp: splittable_def)
  then have "earliest_loop ps' [] None = None" if "set ps' \<subseteq> set ps" for ps'
    using that by (induction ps') auto
  then show ?case using 0 by (simp add: earliest_match_def)
next
  case (Suc n)
  note sp = assms(1) [unfolded splittable_def]
  show ?case
  proof (cases "b = []")
    case True
    have "find_sub p [] = None" if "p \<in> set ps" for p using that sp by auto
    then have "earliest_loop ps' [] None = None" if "set ps' \<subseteq> set ps" for ps'
      using that by (induction ps') auto
    then show ?thesis using Suc.prems True by (simp add: earliest_match_def)
  next
    case False
    show ?thesis
    proof (cases "earliest_match ps b")
      case None
      define safe where "safe = nat (int (length b) - int m + 1)"
      have eq: "out = take safe b" "b' = drop safe b"
        using Suc.prems(2) False None by (auto simp: safe_def Let_def split: if_splits)
      have "\<And>q k. q \<in> set ps \<Longrightarrow> \<not> prefix q (drop k b)"
        using earliest_None [OF None] sp by (metis drop_all linorder_le_cases prefix_Nil)
      then have "\<And>q. q \<in> set ps \<Longrightarrow> find_sub q b' = None"
        using find_sub_Some unfolding eq(2) by (metis drop_drop not_None_eq)
      then have "earliest_match ps b' = None"
        using earliest_Some(1) earliest_loop_mem [of ps b' None] by (cases "earliest_match ps b'") (auto simp: earliest_match_def)
      moreover have "safe = 0 \<or> safe + m \<le> length b + 1" by (auto simp: safe_def)
      ultimately show ?thesis using splittable_miss [OF assms(2) None, of safe] eq by auto
    next
      case (Some ip)
      obtain i p where ip: "ip = (i, p)" by fastforce
      note e = earliest_Some [OF Some [unfolded ip]]
      obtain out' where d: "drain n ps m (drop (i + length p) b) = (out', b')" "out = take i b @ redaction @ out'"
        using Suc.prems(2) False Some ip by (auto split: prod.splits)
      have "0 < length p" using e(1) sp by fastforce
      then have "length (drop (i + length p) b) \<le> n" using Suc.prems(1) unfolding length_drop by linarith
      from Suc.IH [OF this d(1)] show ?thesis
        using splittable_hit [OF conjunct2 [OF sp] conjunct1 [OF sp] Some [unfolded ip], of r] d(2) by simp
    qed
  qed
qed

lemma replace_all_absent: "\<forall>k. \<not> prefix p (drop k s) \<Longrightarrow> replace_all p r s = s"
proof (induction s)
  case (Cons c cs)
  have "\<forall>k. \<not> prefix p (drop k cs)" using Cons.prems by (metis drop_Suc_Cons)
  then show ?case using Cons.IH Cons.prems [rule_format, of 0] by simp
qed simp

lemma redact_none:
  assumes "earliest_match ps s = None" "[] \<notin> set ps"
  shows "redact_all ps s = s"
proof -
  have absent: "replace_all p redaction s = s" if "p \<in> set ps" for p
    using replace_all_absent [of p s] earliest_None [OF assms(1) that] that assms(2)
    by (metis drop_all linorder_le_cases prefix_Nil)
  have "fold (\<lambda>p t. replace_all p redaction t) qs s = s" if "set qs \<subseteq> set ps" for qs
    using that by (induction qs) (auto simp: absent)
  then show ?thesis by (simp add: redact_all_def)
qed

lemma scan_none:
  assumes "earliest_match ps s = None" "[] \<notin> set ps"
  shows "scan ps 0 s = s"
proof -
  have "\<forall>k<length s. \<forall>q\<in>set ps. \<not> prefix q (drop k s)" using earliest_None [OF assms(1)] by simp
  then show ?thesis using scan_clear [of "length s" ps s] by simp
qed

lemma scan_no_patterns [simp]: "scan [] k s = drop k s"
  by (induction "[] :: string list" k s rule: scan.induct) (auto simp: longest_here_def)

lemma feed_chunks_scan:
  assumes "splittable ps" "ps \<noteq> []" "\<forall>p\<in>set ps. length p \<le> m" "0 < m"
    "rd_patterns r = ps" "rd_max r = m" "earliest_match ps (rd_buffer r) = None" "feed_chunks cs r = (out, r')"
  shows "scan ps 0 (rd_buffer r @ concat cs) = out @ rd_buffer r' \<and> rd_patterns r' = ps \<and>
    earliest_match ps (rd_buffer r') = None"
  using assms(5-8)
proof (induction cs arbitrary: r out)
  case Nil
  then show ?case using scan_none assms(1) by (auto simp: splittable_def)
next
  case (Cons c cs)
  let ?b = "rd_buffer r @ c"
  obtain o1 b1 where d: "drain (length ?b) ps m ?b = (o1, b1)" by fastforce
  let ?r = "r\<lparr> rd_buffer := b1 \<rparr>"
  obtain o2 where f: "feed_chunks cs ?r = (o2, r')" "out = o1 @ o2"
    using Cons.prems d assms(2) by (auto simp: feed_chunk_def Let_def split: prod.splits)
  note s = drain_scan [OF assms(1,3,4) order_refl d, of "concat cs"]
  show ?case using Cons.IH [of ?r o2] Cons.prems f s by simp
qed

text \<open>C27: The redaction of streamed output, for attachments whose spellings do not occur inside one another
  except at the end (as a name ends its path): what the channel is sent does not depend on how the
  executor's output is cut into chunks, it is the whole output with, from left to right, every
  longest spelling replaced. For other attachments this is false: a cut can leak the rest of a
  longer spelling (\<open>cut_spelling_leaks\<close>).\<close>

theorem chunks_do_not_matter:
  assumes "splittable ps"
  shows "streamed ps chunks = scan ps 0 (concat chunks)"
proof (cases "ps = []")
  case True
  have "feed_chunks cs r = (concat cs, r)" if "rd_patterns r = []" for cs r
    using that by (induction cs) (auto simp: feed_chunk_def)
  then show ?thesis using True by (simp add: streamed_def new_redactor_def flush_redactor_def redact_all_def)
next
  case False
  let ?r = "new_redactor ps"
  have le: "\<forall>p\<in>set ps. length p \<le> rd_max ?r" by (simp add: new_redactor_def max_length)
  obtain p where "p \<in> set ps" "p \<noteq> []" using False assms by (cases ps) (auto simp: splittable_def)
  then have pos: "0 < rd_max ?r" using le by (metis length_greater_0_conv order_less_le_trans)
  obtain out r where f: "feed_chunks chunks ?r = (out, r)" by fastforce
  have "earliest_match ps [] = None"
    using drain_scan [OF assms le pos, of "[]" 0 "[]" "[]"] by simp
  then have "scan ps 0 (concat chunks) = out @ rd_buffer r \<and> rd_patterns r = ps \<and> earliest_match ps (rd_buffer r) = None"
    using feed_chunks_scan [OF assms False le pos _ _ _ f] by (simp add: new_redactor_def)
  moreover have "[] \<notin> set ps" using assms by (simp add: splittable_def)
  ultimately show ?thesis using f by (simp add: streamed_def flush_redactor_def redact_none)
qed

definition photo_spellings :: "string list" where
  "photo_spellings = attachment_reference_patterns (\<lambda>xs. xs) [''ws'']
     [\<lparr> ac_path = [''ws'', ''in'', ''a.png''], ac_media_type = ''image/png'', ac_sha256 = [], ac_byte_size = 1, ac_ordinal = 1 \<rparr>]"

lemma photo_spellings_value: "photo_spellings = [''/ws/in/a.png'', ''in/a.png'', ''a.png'']"
  by code_simp

theorem chunks_do_not_matter_witness:
  "streamed photo_spellings [''see /ws/i'', ''n/a.p'', ''ng!''] = ''see the attached file!''"
proof -
  have "splittable photo_spellings" by code_simp
  then have "streamed photo_spellings [''see /ws/i'', ''n/a.p'', ''ng!''] = scan photo_spellings 0 (concat [''see /ws/i'', ''n/a.p'', ''ng!''])"
    by (rule chunks_do_not_matter)
  moreover have "scan photo_spellings 0 (concat [''see /ws/i'', ''n/a.p'', ''ng!'']) = ''see the attached file!''" by code_simp
  ultimately show ?thesis by simp
qed

text \<open>An attachment whose name begins with another one's name is not redacted whole when a chunk ends
  between the two, and in a complete text the replacement is itself redacted once more when it
  contains a spelling.\<close>

lemma cut_spelling_leaks:
  "streamed [''in/a.png'', ''in/a.p'', ''a.png'', ''a.p''] [''see in/a.p'', ''ng''] = ''see the attached fileng''"
  "scan [''in/a.png'', ''in/a.p'', ''a.png'', ''a.p''] 0 ''see in/a.png'' = ''see the attached file''"
  "redact_all [''in/file'', ''file''] ''see in/file'' = ''see the attached the attached file''"
  by code_simp+

end
