(* ===== verification/EngineTasks.thy ===== *)
theory EngineTasks
  imports Sessions Attachments TaskOwners
begin

text \<open>
  Tasks and results of the task engine (\<open>core/engine.py\<close>, \<open>core/router.py\<close>, \<open>core/models\<close>): the
  choice of the executor, the model a task is launched with, when a failed attempt is retried, the
  result of a canceled run, and the report of what a run changed in the workspace. The executors,
  \<open>git\<close> and the reader of agy's trajectory database are parameters, and so is the order in which
  Python iterates over a set.
\<close>

section \<open>Tasks, results and the engine's surroundings\<close>

record task =
  tk_id :: string
  tk_channel :: string
  tk_user :: string
  tk_text :: string
  tk_workspace :: path
  tk_created :: int
  tk_metadata :: dict
  tk_attachments :: "attachment list"
  tk_images :: "image_attachment list"

record exec_result =
  rs_success :: bool
  rs_summary :: string
  rs_stdout :: string
  rs_stderr :: string
  rs_exit_code :: int
  rs_artifacts :: "string list"
  rs_changed_files :: "string list"
  rs_risk_flags :: "string list"
  rs_file_operations :: "json list"
  rs_diff_summary :: string
  rs_change_set_file :: string
  rs_log_file :: string
  rs_session_id :: string
  rs_effective_model :: string
  rs_resolved_model :: string
  rs_model_source :: string
  rs_token_usage :: dict
  rs_duration :: rat
  rs_finished :: int
  rs_pending_finalization :: bool
  rs_process_cleanup :: dict

definition plain_result :: "int \<Rightarrow> bool \<Rightarrow> string \<Rightarrow> string \<Rightarrow> int \<Rightarrow> exec_result" where
  \<comment> \<open>\<open>ExecutionResult\<close> with its defaults\<close>
  "plain_result now ok summary stderr exit_code = \<lparr> rs_success = ok, rs_summary = summary, rs_stdout = [], rs_stderr = stderr,
     rs_exit_code = exit_code, rs_artifacts = [], rs_changed_files = [], rs_risk_flags = [], rs_file_operations = [],
     rs_diff_summary = [], rs_change_set_file = [], rs_log_file = [], rs_session_id = [], rs_effective_model = [],
     rs_resolved_model = [], rs_model_source = [], rs_token_usage = [], rs_duration = 0, rs_finished = now,
     rs_pending_finalization = False, rs_process_cleanup = [] \<rparr>"

text \<open>\<open>asdict\<close> and the storage's \<open>_json_default\<close>: a path and a time become text.\<close>

definition attachment_json :: "'a attachment_scheme \<Rightarrow> dict" where
  "attachment_json a = [(''path'', JStr (str_path (ac_path a))), (''media_type'', JStr (ac_media_type a)),
     (''sha256'', JStr (ac_sha256 a)), (''byte_size'', JInt (ac_byte_size a)), (''ordinal'', JInt (ac_ordinal a))]"

definition image_json :: "image_attachment \<Rightarrow> dict" where
  "image_json i = attachment_json i @
     [(''width'', JInt (im_width i)), (''height'', JInt (im_height i)), (''frame_count'', JInt (im_frame_count i))]"

definition task_json :: "task \<Rightarrow> dict" where
  "task_json t = [(''id'', JStr (tk_id t)), (''channel'', JStr (tk_channel t)), (''user_id'', JStr (tk_user t)),
     (''text'', JStr (tk_text t)), (''workspace'', JStr (str_path (tk_workspace t))),
     (''created_at'', JStr (isoformat (tk_created t))), (''metadata'', JDict (tk_metadata t)),
     (''attachments'', JList (map (JDict \<circ> attachment_json) (tk_attachments t))),
     (''image_attachments'', JList (map (JDict \<circ> image_json) (tk_images t)))]"

definition texts_json :: "string list \<Rightarrow> json" where
  "texts_json xs = JList (map JStr xs)"

definition result_json :: "exec_result \<Rightarrow> dict" where
  "result_json r = [(''success'', JBool (rs_success r)), (''summary'', JStr (rs_summary r)),
     (''stdout'', JStr (rs_stdout r)), (''stderr'', JStr (rs_stderr r)), (''exit_code'', JInt (rs_exit_code r)),
     (''artifacts'', texts_json (rs_artifacts r)), (''changed_files'', texts_json (rs_changed_files r)),
     (''risk_flags'', texts_json (rs_risk_flags r)), (''file_operations'', JList (rs_file_operations r)),
     (''diff_summary'', JStr (rs_diff_summary r)), (''change_set_file'', JStr (rs_change_set_file r)),
     (''log_file'', JStr (rs_log_file r)), (''executor_session_id'', JStr (rs_session_id r)),
     (''effective_model'', JStr (rs_effective_model r)), (''resolved_model'', JStr (rs_resolved_model r)),
     (''model_resolution_source'', JStr (rs_model_source r)), (''token_usage'', JDict (rs_token_usage r)),
     (''duration_sec'', JFloat (rs_duration r)), (''finished_at'', JStr (isoformat (rs_finished r))),
     (''pending_finalization'', JBool (rs_pending_finalization r)), (''process_cleanup'', JDict (rs_process_cleanup r))]"

definition create_task ::
    "string \<Rightarrow> int \<Rightarrow> string \<Rightarrow> string \<Rightarrow> string \<Rightarrow> path \<Rightarrow> dict \<Rightarrow> attachment list \<Rightarrow> image_attachment list \<Rightarrow> task" where
  \<comment> \<open>\<open>Task.create\<close>, the identifier a fresh UUID\<close>
  "create_task uid now channel user text ws metadata atts images = \<lparr> tk_id = uid, tk_channel = channel, tk_user = user,
     tk_text = strip text, tk_workspace = ws, tk_created = now, tk_metadata = metadata, tk_attachments = atts,
     tk_images = images \<rparr>"

record trajectory =
  tj_changed_files :: "string list"
  tj_change_set_file :: string
  tj_risk_flags :: "string list"
  tj_max_step :: int

text \<open>The executors, by name in the router's order: which tasks each supports, and the model it would
  choose itself, where it can say (\<open>resolve_effective_model\<close>), and what it corrects in a result once its
  process is gone (\<open>refresh_model_resolution\<close>).\<close>

record executor =
  ex_name :: string
  ex_supports :: "task \<Rightarrow> bool"
  ex_resolve :: "(task \<Rightarrow> string \<times> string) option"
  ex_refresh :: "task \<Rightarrow> exec_result \<Rightarrow> exec_result"

record engine_env =
  ee_executors :: "executor list"
  ee_default :: string
  ee_workers :: nat
  ee_max_pending :: nat
  ee_max_retries :: nat
  ee_artifact_max :: int
  ee_detection :: string
  ee_capture :: string
  ee_max_file :: int
  ee_max_total :: int
  ee_repr :: "json \<Rightarrow> string"
  ee_float :: "rat \<Rightarrow> string"
  ee_fs :: fs
  ee_git_diff :: "path \<Rightarrow> disk \<Rightarrow> string"
  ee_collect :: "string \<Rightarrow> task \<Rightarrow> string \<Rightarrow> string \<Rightarrow> int \<Rightarrow> trajectory"
  ee_data_dir :: string
  ee_order :: "string list \<Rightarrow> string list"
  ee_lock_timeout :: int
  ee_owner :: owner_env
  ee_traceback :: "string \<Rightarrow> string"

section \<open>Routing\<close>

definition executor_named :: "engine_env \<Rightarrow> string \<Rightarrow> executor option" where
  "executor_named env name = find (\<lambda>x. ex_name x = name) (ee_executors env)"

definition meta_text :: "engine_env \<Rightarrow> task \<Rightarrow> string \<Rightarrow> string" where
  \<comment> \<open>\<open>str(task.metadata.get(key) or "")\<close>\<close>
  "meta_text env t k = py_str (ee_repr env) (py_or (dget (tk_metadata t) k) (JStr []))"

definition select_executor_with_name :: "engine_env \<Rightarrow> task \<Rightarrow> py_exc + executor" where
  "select_executor_with_name env t =
     (let preferred = strip (py_str (ee_repr env) (py_or (dget (tk_metadata t) ''executor'') (JStr (ee_default env)))) in
      case executor_named env preferred of
        Some x \<Rightarrow> (if ex_supports x t then Inr x
          else (case find (\<lambda>x. ex_supports x t) (ee_executors env) of None \<Rightarrow> Inl RuntimeError | Some y \<Rightarrow> Inr y))
      | None \<Rightarrow> (case find (\<lambda>x. ex_supports x t) (ee_executors env) of None \<Rightarrow> Inl RuntimeError | Some y \<Rightarrow> Inr y))"

definition conversation_key :: "engine_env \<Rightarrow> task \<Rightarrow> string" where
  "conversation_key env t =
     (let v = strip (py_str (ee_repr env) (dget_or (tk_metadata t) ''conversation_key'' (JStr []))) in
      if v \<noteq> [] then v else tk_channel t @ '':'' @ tk_user t)"

definition conversation_of :: "engine_env \<Rightarrow> task \<Rightarrow> conversation" where
  "conversation_of env t = \<lparr> cv_key = conversation_key env t, cv_channel = tk_channel t, cv_user = tk_user t \<rparr>"

section \<open>The model of a task\<close>

definition set_meta :: "string \<Rightarrow> string \<Rightarrow> task \<Rightarrow> task" where
  "set_meta k v t = t\<lparr> tk_metadata := dset k (JStr v) (tk_metadata t) \<rparr>"

definition own_model :: "engine_env \<Rightarrow> executor \<Rightarrow> task \<Rightarrow> string \<times> task" where
  \<comment> \<open>the model the executor resolves when none was asked for\<close>
  "own_model env x t = (case ex_resolve x of
       None \<Rightarrow> ([], t)
     | Some f \<Rightarrow> (case f t of (model, source) \<Rightarrow>
         (let m = strip model in
          (m, if m \<noteq> [] then set_meta ''model_resolution_source'' (str_or source ''fluxion_prelaunch'') t else t))))"

definition with_override :: "engine_env \<Rightarrow> string option \<Rightarrow> task \<Rightarrow> task" where
  "with_override env ov t =
     (if or_default ov [] \<noteq> [] \<and> strip (meta_text env t ''model'') = []
      then set_meta ''model_resolution_source'' ''conversation_override'' (set_meta ''model'' (or_default ov []) t)
      else t)"

definition resolve_model :: "engine_env \<Rightarrow> executor \<Rightarrow> task \<Rightarrow> task" where
  "resolve_model env x t =
     (let asked = strip (meta_text env t ''model'');
          (effective, t1) = (if asked = [] then own_model env x t else (asked, t));
          t2 = set_meta ''effective_model'' effective t1 in
      if effective \<noteq> [] \<and> strip (meta_text env t2 ''model_resolution_source'') = []
      then set_meta ''model_resolution_source'' ''requested_override'' t2
      else if effective = [] then set_meta ''model_resolution_source'' ''executor_runtime'' t2
      else t2)"

definition prepare_task ::
    "engine_env \<Rightarrow> int \<Rightarrow> task \<Rightarrow> session_manager \<Rightarrow> session_manager \<times> (py_exc + task)" where
  \<comment> \<open>the first half of \<open>submit_task\<close>, before a record is made\<close>
  "prepare_task env now t m =
     (case select_executor_with_name env t of
        Inl e \<Rightarrow> (m, Inl e)
      | Inr x \<Rightarrow>
          (let cv = conversation_of env t;
               (sid, m1) = get_executor_session_id now cv (ex_name x) m;
               t1 = set_meta ''executor_session_id'' (or_default sid []) (set_meta ''executor'' (ex_name x) t);
               (ov, m2) = get_model_override now cv (ex_name x) m1 in
           (m2, Inr (resolve_model env x (with_override env ov t1)))))"

definition attach_model_resolution :: "engine_env \<Rightarrow> task \<Rightarrow> exec_result \<Rightarrow> exec_result" where
  "attach_model_resolution env t r =
     (let effective = py_str (ee_repr env)
            (py_or (py_or (dget (tk_metadata t) ''effective_model'') (dget (tk_metadata t) ''model'')) (JStr []));
          source = meta_text env t ''model_resolution_source'' in
      r\<lparr> rs_effective_model := str_or (rs_effective_model r) effective,
         rs_resolved_model := str_or (rs_resolved_model r) effective,
         rs_model_source := str_or (rs_model_source r)
           (str_or source (if effective \<noteq> [] then ''fluxion_prelaunch'' else ''executor_runtime'')) \<rparr>)"

section \<open>Retries and cancellation\<close>

definition transient_hints :: "string list" where
  "transient_hints = [''rate limit'', ''temporarily'', ''timeout'', ''connection reset'', ''service unavailable'']"

definition should_retry :: "engine_env \<Rightarrow> exec_result \<Rightarrow> nat \<Rightarrow> bool" where
  "should_retry env r attempt =
     (if attempt > ee_max_retries env then False
      else if rs_exit_code r \<in> {124, 137} then True
      else (let message = lower (rs_summary r @ [LF] @ rs_stderr r) in
            list_ex (\<lambda>hint. contains hint message) transient_hints))"

definition canceled_result :: "int \<Rightarrow> string \<Rightarrow> exec_result option \<Rightarrow> exec_result" where
  "canceled_result now summary partial = (case partial of
       None \<Rightarrow> plain_result now False summary [] 130
     | Some r \<Rightarrow> r\<lparr> rs_success := False, rs_summary := summary, rs_exit_code := 130, rs_pending_finalization := False \<rparr>)"

section \<open>Redaction\<close>

definition task_patterns :: "engine_env \<Rightarrow> task \<Rightarrow> string list" where
  "task_patterns env t = attachment_reference_patterns (ee_order env) (tk_workspace t)
     (tk_attachments t @ map attachment.truncate (tk_images t))"

definition redact_result :: "engine_env \<Rightarrow> task \<Rightarrow> exec_result \<Rightarrow> exec_result" where
  "redact_result env t r = (let f = redact_all (task_patterns env t) in
     r\<lparr> rs_summary := f (rs_summary r), rs_stdout := f (rs_stdout r), rs_stderr := f (rs_stderr r) \<rparr>)"

fun fed_deltas :: "string list \<Rightarrow> redactor \<Rightarrow> string list \<times> redactor" where
  \<comment> \<open>the texts sent while the executor streams \<open>chunks\<close>\<close>
  "fed_deltas [] r = ([], r)"
| "fed_deltas (c # cs) r = (case feed_chunk c r of (out, r') \<Rightarrow> (case fed_deltas cs r' of (outs, r'') \<Rightarrow>
     (if out \<noteq> [] then out # outs else outs, r'')))"

section \<open>What a run changed\<close>

fun merge_unique_loop :: "string list \<Rightarrow> string list \<Rightarrow> string list" where
  "merge_unique_loop seen [] = []"
| "merge_unique_loop seen (x # xs) =
     (if x = [] \<or> x \<in> set seen then merge_unique_loop seen xs else x # merge_unique_loop (x # seen) xs)"

definition merge_unique :: "string list \<Rightarrow> string list \<Rightarrow> string list" where
  "merge_unique existing extra = merge_unique_loop [] (existing @ extra)"

definition run_snapshot :: "engine_env \<Rightarrow> task \<Rightarrow> disk \<Rightarrow> fingerprints option" where
  \<comment> \<open>\<open>_take_snapshot\<close>\<close>
  "run_snapshot env t d =
     (if ee_detection env \<in> {''snapshot'', ''force''} then Some (take_fingerprints (tk_workspace t) d) else None)"

definition run_content_snapshot :: "engine_env \<Rightarrow> int \<Rightarrow> task \<Rightarrow> disk \<Rightarrow> content_snapshot option" where
  \<comment> \<open>\<open>_take_content_snapshot\<close>\<close>
  "run_content_snapshot env now t d =
     (if ee_capture env \<noteq> ''full'' then None
      else if ee_max_file env \<le> 0 \<or> ee_max_total env \<le> 0 then None
      else Some (take_content_snapshot (ee_fs env) (isoformat now) (ee_max_file env) (ee_max_total env) (tk_workspace t) d))"

definition capture_trajectory ::
    "engine_env \<Rightarrow> int \<Rightarrow> task \<Rightarrow> exec_result \<Rightarrow> string \<Rightarrow> session_manager \<Rightarrow> trajectory option \<times> session_manager" where
  "capture_trajectory env now t r status m =
     (let session_id = strip (rs_session_id r) in
      if strip (meta_text env t ''executor'') \<noteq> ''antigravity'' then (None, m)
      else if session_id = [] then (None, m)
      else
        (let cv = conversation_of env t;
             (since, m1) = get_trajectory_idx now cv session_id m;
             mode = (if ee_capture env = ''off'' \<and> ee_detection env = ''off'' then ''off'' else ee_capture env);
             c = ee_collect env session_id t status mode since;
             m2 = set_trajectory_idx (ee_float env) now cv session_id (tj_max_step c) m1 in
         (if tj_changed_files c \<noteq> [] \<or> tj_change_set_file c \<noteq> [] \<or> tj_risk_flags c \<noteq> [] then Some c else None, m2)))"

definition with_trajectory :: "trajectory option \<Rightarrow> exec_result \<Rightarrow> exec_result" where
  "with_trajectory c r = (case c of
       None \<Rightarrow> r
     | Some j \<Rightarrow> r\<lparr>
         rs_changed_files := (if rs_changed_files r = [] then tj_changed_files j else rs_changed_files r),
         rs_change_set_file := (if rs_change_set_file r = [] \<and> tj_change_set_file j \<noteq> [] then tj_change_set_file j
            else rs_change_set_file r),
         rs_risk_flags := merge_unique (rs_risk_flags r) (tj_risk_flags j) \<rparr>)"

definition with_change_set :: "engine_env \<Rightarrow> change_set \<Rightarrow> exec_result \<times> change_store \<Rightarrow> exec_result \<times> change_store" where
  \<comment> \<open>a change set that has changes is saved and named in the result\<close>
  "with_change_set env c rs = (case rs of (r, store) \<Rightarrow>
     (if has_changes c
      then (r\<lparr> rs_change_set_file := ee_data_dir env @ ''/change_sets/'' @ ch_run c @ ''.json'',
              rs_changed_files := (if rs_changed_files r = [] then ch_changed c else rs_changed_files r) \<rparr>,
            save_change_set c store)
      else (r, store)))"

definition stream_capture ::
    "engine_env \<Rightarrow> int \<Rightarrow> task \<Rightarrow> string \<Rightarrow> disk \<Rightarrow> exec_result \<times> change_store \<Rightarrow> exec_result \<times> change_store" where
  \<comment> \<open>an exception is logged and nothing is recorded\<close>
  "stream_capture env now t status d rs =
     (if rs_change_set_file (fst rs) = [] \<and> ee_capture env = ''structured'' \<and> rs_file_operations (fst rs) \<noteq> []
      then (case build_stream_change_set (ee_fs env) d (isoformat now) (tk_id t) (tk_workspace t) status
                  (rs_file_operations (fst rs)) of
              Inl e \<Rightarrow> rs
            | Inr c \<Rightarrow> with_change_set env c rs)
      else rs)"

definition full_capture ::
    "engine_env \<Rightarrow> int \<Rightarrow> task \<Rightarrow> string \<Rightarrow> content_snapshot option \<Rightarrow> disk \<Rightarrow> exec_result \<times> change_store \<Rightarrow>
      exec_result \<times> change_store" where
  "full_capture env now t status before d rs =
     (case (before, run_content_snapshot env now t d) of
        (Some b, Some a) \<Rightarrow>
          with_change_set env (build_change_set (isoformat now) (tk_id t) (tk_workspace t) status b a) rs
      | _ \<Rightarrow> rs)"

definition attach_workspace_delta ::
    "engine_env \<Rightarrow> int \<Rightarrow> task \<Rightarrow> string \<Rightarrow> fingerprints option \<Rightarrow> content_snapshot option \<Rightarrow> disk \<Rightarrow> exec_result \<Rightarrow>
      change_store \<times> session_manager \<Rightarrow> exec_result \<times> change_store \<times> session_manager" where
  "attach_workspace_delta env now t status before content d r sm =
     (let r1 = (case (before, run_snapshot env t d) of
                  (Some b, Some a) \<Rightarrow> r\<lparr> rs_changed_files := delta_changed (diff_snapshot b a) \<rparr>
                | _ \<Rightarrow> r);
          r2 = r1\<lparr> rs_artifacts := take_slice (ee_artifact_max env) (rs_artifacts r1) \<rparr>;
          (c, m1) = capture_trajectory env now t r2 status (snd sm);
          (r3, store1) = stream_capture env now t status d (with_trajectory c r2, fst sm);
          (r4, store2) = full_capture env now t status content d (r3, store1);
          r5 = (if rs_diff_summary r4 = [] then r4\<lparr> rs_diff_summary := ee_git_diff env (tk_workspace t) d \<rparr> else r4) in
      (r5, store2, m1))"

end
