(* ===== verification/EngineRun.thy ===== *)
theory EngineRun
  imports EngineTasks
begin

text \<open>
  The life of a task in the engine (\<open>core/engine.py\<close>): \<open>submit_task\<close>, \<open>cancel_task\<close>, the worker loop
  and \<open>_execute_task\<close> as steps that other threads may come between. A task has one thread of
  control, first its submitter and then a worker; its phase names the place where it stands. A
  step ends before the next place where the code takes the records lock or waits, and the answers
  of the channel, the executor, the disk and the other processes are given to each step. Task
  identifiers are UUIDs, so no two submissions share one. The heartbeat thread, which only sends,
  is left out, and writing the logs is taken to succeed.
\<close>

section \<open>State\<close>

record task_rec =
  tr_task :: task
  tr_status :: string
  tr_attempts :: nat
  tr_cancel :: bool
  tr_submitted :: int
  tr_updated :: int
  tr_finished :: "int option"
  tr_summary :: string
  tr_reason :: string
  tr_by_ws :: string
  tr_by :: "dict option"

datatype sent =
    SentStatus string string string
  | SentDelta string string
  | SentResult string exec_result

datatype phase =
    Received | Registered | Validated | Enqueuing
  | Waiting
  | Taken | ThreadLock int | ThreadBlocked int | FileLock int | FileBlocked int "dict option" | Holding | Entering
  | Attempt nat | Executing nat | Retrying nat exec_result | Finishing exec_result | Closing exec_result
  | Failing string | Canceling "exec_result option" bool | Leaving
  | Busy string | Refused string
  | Done | Crashed

record thread =
  th_phase :: phase
  th_fps :: "fingerprints option"
  th_snap :: "content_snapshot option"
  th_exec :: string

record engine =
  en_records :: "(string \<times> task_rec) list"
  en_threads :: "string \<Rightarrow> thread option"
  en_queue :: "string list"
  en_idle :: nat
  en_locks :: "path \<Rightarrow> string option"
  en_running :: int
  en_submitted :: nat
  en_completed :: nat
  en_events :: "dict list"
  en_sent :: "sent list"
  en_sessions :: session_manager
  en_store :: change_store
  en_registry :: "registry \<times> heartbeats"

definition start_engine :: "engine_env \<Rightarrow> session_manager \<Rightarrow> change_store \<Rightarrow> dict list \<Rightarrow> registry \<times> heartbeats \<Rightarrow> engine" where
  \<comment> \<open>after \<open>start\<close>, which runs the reconciliation of orphaned tasks on the log first\<close>
  "start_engine env m store events g = \<lparr> en_records = [], en_threads = (\<lambda>i. None), en_queue = [], en_idle = ee_workers env,
     en_locks = (\<lambda>p. None), en_running = 0, en_submitted = 0, en_completed = 0, en_events = events, en_sent = [],
     en_sessions = m, en_store = store, en_registry = g \<rparr>"

text \<open>What the surroundings answer in one step: whether the channel takes the first and the second
  message, the file lock, the executor, the disk at that moment, and the text of an exception.\<close>

datatype lock_answer = Got | Held "dict option" | LockError

datatype outcome = Raised | Returned exec_result

record answers =
  oc_ok :: bool
  oc_ok2 :: bool
  oc_file :: lock_answer
  oc_chunks :: "string list"
  oc_outcome :: outcome
  oc_disk :: disk
  oc_error :: string

section \<open>Records and events\<close>

definition change_record :: "string \<Rightarrow> (task_rec \<Rightarrow> task_rec) \<Rightarrow> engine \<Rightarrow> engine" where
  "change_record i f e = (case map_of (en_records e) i of
       None \<Rightarrow> e
     | Some r \<Rightarrow> e\<lparr> en_records := AList.update i (f r) (en_records e) \<rparr>)"

definition update_record ::
    "int \<Rightarrow> string \<Rightarrow> string option \<Rightarrow> nat option \<Rightarrow> string option \<Rightarrow> int option \<Rightarrow> string option \<Rightarrow> engine \<Rightarrow> engine" where
  "update_record now i status attempts summary finished reason =
     change_record i (\<lambda>r.
       (let r1 = (case reason of None \<Rightarrow> r
              | Some v \<Rightarrow> (if v = [] then r\<lparr> tr_reason := v, tr_by_ws := [], tr_by := None \<rparr> else r\<lparr> tr_reason := v \<rparr>)) in
        r1\<lparr> tr_status := or_default status (tr_status r1), tr_attempts := or_default attempts (tr_attempts r1),
            tr_summary := or_default summary (tr_summary r1),
            tr_finished := (case finished of None \<Rightarrow> tr_finished r1 | Some t \<Rightarrow> Some t), tr_updated := now \<rparr>))"

definition set_record_status :: "int \<Rightarrow> string \<Rightarrow> string \<Rightarrow> engine \<Rightarrow> engine" where
  "set_record_status now i status = update_record now i (Some status) None None None None"

definition status_event :: "engine_env \<Rightarrow> int \<Rightarrow> task \<Rightarrow> string \<Rightarrow> dict \<Rightarrow> dict" where
  \<comment> \<open>\<open>_set_status\<close>: the payload, updated with \<open>extra\<close>\<close>
  "status_event env now t status extra = fold (\<lambda>(k, v). dset k v) extra
     [(''timestamp'', JStr (isoformat now)), (''task_id'', JStr (tk_id t)), (''status'', JStr status),
      (''task'', JDict (task_json t)), (''owner'', JDict (owner_payload (oe_me (ee_owner env))))]"

definition log_status :: "engine_env \<Rightarrow> int \<Rightarrow> task \<Rightarrow> string \<Rightarrow> dict \<Rightarrow> engine \<Rightarrow> engine" where
  "log_status env now t status extra e = e\<lparr> en_events := en_events e @ [status_event env now t status extra] \<rparr>"

definition result_extra :: "exec_result \<Rightarrow> dict" where
  "result_extra r = [(''result'', JDict (result_json r))]"

definition say :: "bool \<Rightarrow> sent \<Rightarrow> engine \<Rightarrow> engine" where
  \<comment> \<open>a channel call that raises sends nothing\<close>
  "say ok s e = (if ok then e\<lparr> en_sent := en_sent e @ [s] \<rparr> else e)"

definition is_canceled :: "string \<Rightarrow> engine \<Rightarrow> bool" where
  "is_canceled i e = (case map_of (en_records e) i of None \<Rightarrow> False | Some r \<Rightarrow> tr_cancel r \<and> tr_status r = ''CANCELED'')"

definition cancel_requested :: "string \<Rightarrow> engine \<Rightarrow> bool" where
  "cancel_requested i e = (case map_of (en_records e) i of None \<Rightarrow> False | Some r \<Rightarrow> tr_cancel r)"

definition goto :: "string \<Rightarrow> thread \<Rightarrow> phase \<Rightarrow> engine \<Rightarrow> engine" where
  "goto i th ph e = e\<lparr> en_threads := (en_threads e)(i := Some (th\<lparr> th_phase := ph \<rparr>)) \<rparr>"

definition leave :: "string \<Rightarrow> thread \<Rightarrow> phase \<Rightarrow> engine \<Rightarrow> engine" where
  \<comment> \<open>back in the worker loop, which also catches and logs every exception\<close>
  "leave i th ph e = goto i th ph (e\<lparr> en_idle := en_idle e + 1 \<rparr>)"

section \<open>Submitting\<close>

definition pending_statuses :: "string list" where
  "pending_statuses = [''RECEIVED'', ''QUEUED'', ''RUNNING'', ''RETRYING'']"

definition pending_of :: "string \<Rightarrow> engine \<Rightarrow> nat" where
  "pending_of user e =
     length (filter (\<lambda>(i, r). tk_user (tr_task r) = user \<and> tr_status r \<in> set pending_statuses) (en_records e))"

definition new_record :: "int \<Rightarrow> task \<Rightarrow> task_rec" where
  "new_record now t = \<lparr> tr_task = t, tr_status = ''RECEIVED'', tr_attempts = 0, tr_cancel = False, tr_submitted = now,
     tr_updated = now, tr_finished = None, tr_summary = [], tr_reason = [], tr_by_ws = [], tr_by = None \<rparr>"

definition too_many :: "engine_env \<Rightarrow> string" where
  "too_many env = ''too many pending tasks for user (limit='' @ show_nat (ee_max_pending env) @ '')''"

definition queue_detail :: "engine \<Rightarrow> string" where
  "queue_detail e = ''queue_depth='' @ show_nat (length (en_queue e) + 1)"

datatype admission = Admitted | TooMany string | NoExecutor py_exc

definition admit_task :: "engine_env \<Rightarrow> int \<Rightarrow> task \<Rightarrow> engine \<Rightarrow> engine \<times> admission" where
  "admit_task env now t e = (case prepare_task env now t (en_sessions e) of
       (m, Inl x) \<Rightarrow> (e\<lparr> en_sessions := m \<rparr>, NoExecutor x)
     | (m, Inr t') \<Rightarrow>
         (let e1 = e\<lparr> en_sessions := m \<rparr> in
          if pending_of (tk_user t') e1 \<ge> ee_max_pending env
          then (e1, TooMany (too_many env))
          else (goto (tk_id t') \<lparr> th_phase = Received, th_fps = None, th_snap = None, th_exec = [] \<rparr> Received
                  (e1\<lparr> en_records := AList.update (tk_id t') (new_record now t') (en_records e1) \<rparr>), Admitted)))"

definition submit_received :: "engine_env \<Rightarrow> int \<Rightarrow> answers \<Rightarrow> string \<Rightarrow> task \<Rightarrow> thread \<Rightarrow> engine \<Rightarrow> engine" where
  "submit_received env now oc i t th e =
     goto i th (if oc_ok oc then Registered else Crashed)
       (say (oc_ok oc) (SentStatus i ''RECEIVED'' []) (log_status env now t ''RECEIVED'' [] e))"

definition submit_validated :: "engine_env \<Rightarrow> int \<Rightarrow> string \<Rightarrow> task \<Rightarrow> thread \<Rightarrow> engine \<Rightarrow> engine" where
  "submit_validated env now i t th e =
     goto i th Validated (log_status env now t ''VALIDATED'' [] (set_record_status now i ''VALIDATED'' e))"

definition submit_queued :: "engine_env \<Rightarrow> int \<Rightarrow> string \<Rightarrow> task \<Rightarrow> thread \<Rightarrow> engine \<Rightarrow> engine" where
  "submit_queued env now i t th e =
     goto i th Enqueuing (log_status env now t ''QUEUED'' [] (set_record_status now i ''QUEUED'' e))"

definition submit_enqueue :: "answers \<Rightarrow> string \<Rightarrow> thread \<Rightarrow> engine \<Rightarrow> engine" where
  "submit_enqueue oc i th e =
     (if oc_ok oc
      then goto i th Waiting ((say True (SentStatus i ''QUEUED'' (queue_detail e)) e)
             \<lparr> en_submitted := en_submitted e + 1, en_queue := en_queue e @ [i] \<rparr>)
      else goto i th Crashed e)"

section \<open>Canceling\<close>

definition canceled_before :: string where
  "canceled_before = ''Task canceled before execution.''"

definition canceled_by_request :: string where
  "canceled_by_request = ''Task canceled by request.''"

definition cancel_task :: "engine_env \<Rightarrow> int \<Rightarrow> answers \<Rightarrow> string \<Rightarrow> engine \<Rightarrow> engine \<times> bool \<times> string" where
  "cancel_task env now oc i e = (case map_of (en_records e) i of
       None \<Rightarrow> (e, False, ''task not found'')
     | Some r \<Rightarrow>
         if tr_status r \<in> set terminal_statuses then (e, False, ''task already finished with status='' @ tr_status r)
         else if tr_status r \<in> {''RUNNING'', ''RETRYING''}
           then (change_record i (\<lambda>r. r\<lparr> tr_cancel := True, tr_updated := now \<rparr>) e, True, ''cancel requested for running task'')
         else
           (let result = canceled_result now canceled_before None;
                e1 = change_record i (\<lambda>r. r\<lparr> tr_cancel := True, tr_status := ''CANCELED'', tr_updated := now,
                       tr_finished := Some now \<rparr>) e;
                e2 = log_status env now (tr_task r) ''CANCELED'' (result_extra result) e1;
                e3 = say (oc_ok oc) (SentStatus i ''CANCELED'' ''before execution'') e2 in
            (say (oc_ok oc \<and> oc_ok2 oc) (SentResult i result) e3, True, ''task canceled'')))"

definition attach_delta ::
    "engine_env \<Rightarrow> int \<Rightarrow> answers \<Rightarrow> task \<Rightarrow> thread \<Rightarrow> string \<Rightarrow> exec_result \<Rightarrow> engine \<Rightarrow> exec_result \<times> engine" where
  "attach_delta env now oc t th status r e =
     (case attach_workspace_delta env now t status (th_fps th) (th_snap th) (oc_disk oc) r (en_store e, en_sessions e) of
        (r', store, m) \<Rightarrow> (r', e\<lparr> en_store := store, en_sessions := m \<rparr>))"

definition finalize_canceled ::
    "engine_env \<Rightarrow> int \<Rightarrow> answers \<Rightarrow> string \<Rightarrow> task \<Rightarrow> thread \<Rightarrow> exec_result option \<Rightarrow> engine \<Rightarrow> engine \<times> bool" where
  \<comment> \<open>and whether it returned: a channel call may raise\<close>
  "finalize_canceled env now oc i t th partial e = (case map_of (en_records e) i of
       None \<Rightarrow> (e, True)
     | Some r \<Rightarrow>
         if tr_status r = ''CANCELED'' \<and> tr_finished r \<noteq> None then (e, True)
         else
           (let summary = canceled_by_request;
                e1 = update_record now i (Some ''CANCELED'') None (Some summary) (Some now) None e;
                result = canceled_result now summary partial;
                (result', e2) = (if partial \<noteq> None \<or> th_fps th \<noteq> None
                   then attach_delta env now oc t th ''CANCELED'' result e1 else (result, e1));
                e3 = log_status env now t ''CANCELED'' (result_extra result') e2;
                e4 = say (oc_ok oc) (SentStatus i ''CANCELED'' ''execution canceled'') e3 in
            (say (oc_ok oc \<and> oc_ok2 oc) (SentResult i result') e4, oc_ok oc \<and> oc_ok2 oc)))"

section \<open>Taking the workspace\<close>

definition needs_workspace_write_lock :: "engine_env \<Rightarrow> task \<Rightarrow> bool" where
  "needs_workspace_write_lock env t = (case dget (tk_metadata t) ''subagent'' of
       JDict d \<Rightarrow> py_str (ee_repr env) (py_or (dget d ''mode'') (JStr [])) = ''workspace-write''
     | _ \<Rightarrow> False)"

definition lock_key :: "engine_env \<Rightarrow> task \<Rightarrow> path option" where
  \<comment> \<open>\<open>task.workspace.resolve()\<close>, the key of the lock\<close>
  "lock_key env t = fs_resolve (ee_fs env) (str_path (tk_workspace t))"

definition blocked_extra :: "string \<Rightarrow> dict option \<Rightarrow> dict" where
  "blocked_extra ws holder = [(''blocked'', JDict [(''reason'', JStr ''workspace_busy''), (''workspace'', JStr ws),
     (''holder'', case holder of None \<Rightarrow> JNull | Some d \<Rightarrow> JDict d)])]"

definition blocked_detail :: "engine_env \<Rightarrow> string \<Rightarrow> dict option \<Rightarrow> string" where
  "blocked_detail env ws holder = ''waiting for workspace '' @ ws @ (case holder of
       None \<Rightarrow> []
     | Some d \<Rightarrow> (if d = [] then [] else '' held by task '' @ take 8 (py_str (ee_repr env) (py_or (dget d ''task_id'') (JStr [])))))"

definition note_blocked ::
    "engine_env \<Rightarrow> int \<Rightarrow> answers \<Rightarrow> string \<Rightarrow> task \<Rightarrow> string \<Rightarrow> dict option \<Rightarrow> engine \<Rightarrow> engine" where
  \<comment> \<open>an exception of the channel is logged only\<close>
  "note_blocked env now oc i t ws holder e = (case map_of (en_records e) i of
       None \<Rightarrow> e
     | Some r \<Rightarrow>
         (let e1 = change_record i (\<lambda>r. r\<lparr> tr_reason := ''workspace_busy'', tr_by_ws := ws, tr_by := holder, tr_updated := now \<rparr>) e in
          if tr_reason r = ''workspace_busy'' \<and> (now - tr_submitted r) mod (30 * usec_per_sec) > 500000 then e1
          else say (oc_ok oc) (SentStatus i ''QUEUED'' (blocked_detail env ws holder))
                 (log_status env now t ''QUEUED'' (blocked_extra ws holder) e1)))"

definition timeout_seconds :: "engine_env \<Rightarrow> string" where
  "timeout_seconds env = show_int (ee_lock_timeout env div usec_per_sec)"

definition holder_text :: "engine_env \<Rightarrow> dict option \<Rightarrow> string" where
  \<comment> \<open>\<open>{holder or 'unknown'}\<close>\<close>
  "holder_text env holder = (case holder of None \<Rightarrow> ''unknown'' | Some d \<Rightarrow>
     (if d = [] then ''unknown'' else ee_repr env (JDict d)))"

definition canceled_reason :: "path \<Rightarrow> string" where
  "canceled_reason ws = ''canceled while waiting for workspace '' @ str_path ws"

definition held_reason :: "engine_env \<Rightarrow> path \<Rightarrow> string" where
  "held_reason env ws =
     ''workspace '' @ str_path ws @ '' still held by another run in this process after '' @ timeout_seconds env @ ''s''"

definition locked_reason :: "engine_env \<Rightarrow> path \<Rightarrow> dict option \<Rightarrow> string" where
  "locked_reason env ws holder = ''workspace '' @ str_path ws @ '' still locked by another Fluxion process after '' @
     timeout_seconds env @ ''s (holder: '' @ holder_text env holder @ '')''"

definition not_started :: "string \<Rightarrow> string" where
  "not_started reason = ''Task did not start: '' @ reason @ ''.''"

definition release_lock :: "engine_env \<Rightarrow> task \<Rightarrow> engine \<Rightarrow> engine" where
  \<comment> \<open>only called by the thread that holds it\<close>
  "release_lock env t e = (if needs_workspace_write_lock env t
     then (case lock_key env t of None \<Rightarrow> e | Some ws \<Rightarrow> e\<lparr> en_locks := (en_locks e)(ws := None) \<rparr>) else e)"

definition worker_take :: "string \<Rightarrow> thread \<Rightarrow> engine \<Rightarrow> engine option" where
  \<comment> \<open>a free worker takes the head of the queue, and drops a task canceled meanwhile\<close>
  "worker_take i th e =
     (if en_queue e \<noteq> [] \<and> hd (en_queue e) = i \<and> 0 < en_idle e
      then (let e1 = e\<lparr> en_queue := tl (en_queue e), en_idle := en_idle e - 1 \<rparr> in
            Some (if is_canceled i e1 then leave i th Done e1 else goto i th Taken e1))
      else None)"

definition worker_lock :: "engine_env \<Rightarrow> int \<Rightarrow> string \<Rightarrow> task \<Rightarrow> thread \<Rightarrow> engine \<Rightarrow> engine" where
  "worker_lock env now i t th e =
     (if \<not> needs_workspace_write_lock env t then goto i th Holding e
      else (case lock_key env t of
              None \<Rightarrow> leave i th Crashed e
            | Some ws \<Rightarrow> goto i th (ThreadLock (now + ee_lock_timeout env)) e))"

definition worker_thread_lock :: "engine_env \<Rightarrow> int \<Rightarrow> string \<Rightarrow> thread \<Rightarrow> int \<Rightarrow> path \<Rightarrow> engine \<Rightarrow> engine" where
  "worker_thread_lock env now i th deadline ws e =
     (if en_locks e ws = None then goto i th (FileLock deadline) (e\<lparr> en_locks := (en_locks e)(ws \<mapsto> i) \<rparr>)
      else if cancel_requested i e then goto i th (Busy (canceled_reason ws)) e
      else if now \<ge> deadline
        then goto i th (Busy (held_reason env ws)) e
      else goto i th (ThreadBlocked deadline) e)"

definition worker_thread_blocked ::
    "engine_env \<Rightarrow> int \<Rightarrow> answers \<Rightarrow> string \<Rightarrow> task \<Rightarrow> thread \<Rightarrow> int \<Rightarrow> path \<Rightarrow> engine \<Rightarrow> engine" where
  "worker_thread_blocked env now oc i t th deadline ws e =
     goto i th (ThreadLock deadline) (note_blocked env now oc i t (str_path ws) None e)"

definition worker_file_lock ::
    "engine_env \<Rightarrow> int \<Rightarrow> answers \<Rightarrow> string \<Rightarrow> task \<Rightarrow> thread \<Rightarrow> int \<Rightarrow> path \<Rightarrow> engine \<Rightarrow> engine" where
  "worker_file_lock env now oc i t th deadline ws e = (case oc_file oc of
       Got \<Rightarrow> goto i th Holding e
     | LockError \<Rightarrow> leave i th Crashed (release_lock env t e)
     | Held holder \<Rightarrow>
         if cancel_requested i e
         then goto i th (Busy (canceled_reason ws)) (release_lock env t e)
         else if now \<ge> deadline
         then goto i th (Busy (locked_reason env ws holder)) (release_lock env t e)
         else goto i th (FileBlocked deadline holder) e)"

definition worker_file_blocked ::
    "engine_env \<Rightarrow> int \<Rightarrow> answers \<Rightarrow> string \<Rightarrow> task \<Rightarrow> thread \<Rightarrow> int \<Rightarrow> dict option \<Rightarrow> path \<Rightarrow> engine \<Rightarrow> engine" where
  "worker_file_blocked env now oc i t th deadline holder ws e =
     goto i th (FileLock deadline) (note_blocked env now oc i t (str_path ws) holder e)"

definition worker_busy :: "string \<Rightarrow> thread \<Rightarrow> string \<Rightarrow> engine \<Rightarrow> engine" where
  \<comment> \<open>\<open>_finalize_lock_timeout\<close> up to its check\<close>
  "worker_busy i th reason e =
     (if cancel_requested i e then goto i th (Canceling None False) e else goto i th (Refused reason) e)"

definition worker_refused ::
    "engine_env \<Rightarrow> int \<Rightarrow> answers \<Rightarrow> string \<Rightarrow> task \<Rightarrow> thread \<Rightarrow> string \<Rightarrow> engine \<Rightarrow> engine" where
  "worker_refused env now oc i t th reason e =
     (let result = plain_result now False (not_started reason) [] 1;
          e1 = update_record now i (Some ''FAILED'') None (Some (rs_summary result)) (Some now) None e;
          e2 = log_status env now t ''FAILED'' (result_extra result) e1;
          e3 = say (oc_ok oc) (SentStatus i ''FAILED'' ''workspace busy'') e2 in
      leave i th (if oc_ok oc \<and> oc_ok2 oc then Done else Crashed) (say (oc_ok oc \<and> oc_ok2 oc) (SentResult i result) e3))"

section \<open>Running\<close>

definition no_executor :: string where
  "no_executor = ''No executor can handle this task''"

definition internal_error :: "string \<Rightarrow> string" where
  "internal_error msg = ''Task failed with internal error: '' @ msg"

definition attempt_detail :: "engine_env \<Rightarrow> nat \<Rightarrow> string" where
  "attempt_detail env n = ''attempt='' @ show_nat n @ ''/'' @ show_nat (ee_max_retries env + 1)"

definition attempt_extra :: "nat \<Rightarrow> exec_result \<Rightarrow> dict" where
  "attempt_extra n r = [(''attempt'', JInt (int n)), (''summary'', JStr (rs_summary r))]"


definition worker_holding :: "engine_env \<Rightarrow> int \<Rightarrow> string \<Rightarrow> task \<Rightarrow> thread \<Rightarrow> engine \<Rightarrow> engine" where
  "worker_holding env now i t th e =
     (if is_canceled i e then goto i th (Canceling None False) (release_lock env t e)
      else goto i th Entering (e\<lparr>
        en_sessions := set_active_task now (conversation_of env t) (Some i) (en_sessions e),
        en_running := en_running e + 1,
        en_registry := track (ee_owner env) now i (en_registry e) \<rparr>))"

definition worker_entering :: "engine_env \<Rightarrow> int \<Rightarrow> answers \<Rightarrow> string \<Rightarrow> task \<Rightarrow> thread \<Rightarrow> engine \<Rightarrow> engine" where
  \<comment> \<open>an exception of the channel here is outside \<open>try\<close>: the worker loop logs it\<close>
  "worker_entering env now oc i t th e =
     (let e1 = update_record now i (Some ''RUNNING'') None None None (Some []) e in
      if \<not> oc_ok oc then leave i th Crashed e1
      else
        (let e2 = log_status env now t ''RUNNING'' [] (say True (SentStatus i ''RUNNING'' ''started'') e1);
             th1 = th\<lparr> th_fps := run_snapshot env t (oc_disk oc), th_snap := run_content_snapshot env now t (oc_disk oc) \<rparr> in
         case select_executor_with_name env t of
           Inl x \<Rightarrow> goto i th1 (Failing no_executor) e2
         | Inr x \<Rightarrow> goto i (th1\<lparr> th_exec := ex_name x \<rparr>) (Attempt 1)
             (change_record i (\<lambda>r. r\<lparr> tr_task := set_meta ''executor'' (ex_name x) (tr_task r) \<rparr>) e2)))"

definition worker_attempt :: "int \<Rightarrow> string \<Rightarrow> thread \<Rightarrow> nat \<Rightarrow> engine \<Rightarrow> engine" where
  "worker_attempt now i th n e =
     (if is_canceled i e then goto i th (Canceling None True) e
      else goto i th (Executing n) (update_record now i None (Some n) None None None e))"

definition send_deltas :: "string \<Rightarrow> string list \<Rightarrow> engine \<Rightarrow> engine" where
  "send_deltas i ds e = e\<lparr> en_sent := en_sent e @ map (SentDelta i) ds \<rparr>"

definition executed :: "engine_env \<Rightarrow> bool \<Rightarrow> nat \<Rightarrow> exec_result \<Rightarrow> phase" where
  \<comment> \<open>where a finished attempt leads, given whether a cancel was requested\<close>
  "executed env requested n r =
     (if requested then Canceling (Some r) True
      else if rs_success r then Finishing r
      else if \<not> should_retry env r n then Finishing r
      else Retrying n r)"

definition worker_executing ::
    "engine_env \<Rightarrow> answers \<Rightarrow> string \<Rightarrow> task \<Rightarrow> thread \<Rightarrow> nat \<Rightarrow> engine \<Rightarrow> engine" where
  \<comment> \<open>the executor's run from its start to the check that follows it\<close>
  "worker_executing env oc i t th n e =
     (let (ds, rd) = fed_deltas (oc_chunks oc) (new_redactor (task_patterns env t)); e1 = send_deltas i ds e in
      case oc_outcome oc of
        Raised \<Rightarrow> goto i th (Failing (oc_error oc)) e1
      | Returned r0 \<Rightarrow>
          (let tail = fst (flush_redactor rd); e2 = send_deltas i (if tail \<noteq> [] \<and> oc_ok oc then [tail] else []) e1;
               r = redact_result env t r0 in
           goto i th (if tail \<noteq> [] \<and> \<not> oc_ok oc then Failing (oc_error oc)
             else executed env (cancel_requested i e2) n r) e2))"

definition worker_retrying ::
    "engine_env \<Rightarrow> int \<Rightarrow> answers \<Rightarrow> string \<Rightarrow> task \<Rightarrow> thread \<Rightarrow> nat \<Rightarrow> exec_result \<Rightarrow> engine \<Rightarrow> engine" where
  \<comment> \<open>up to the end of the backoff and the next round of the \<open>for\<close> loop\<close>
  "worker_retrying env now oc i t th n r e =
     (let e1 = log_status env now t ''RETRYING'' (attempt_extra n r)
                 (set_record_status now i ''RETRYING'' e);
          e2 = say (oc_ok oc) (SentStatus i ''RETRYING'' (attempt_detail env n)) e1 in
      if \<not> oc_ok oc then goto i th (Failing (oc_error oc)) e2
      else if n + 1 < ee_max_retries env + 2 then goto i th (Attempt (n + 1)) e2
      else goto i th (Finishing r) e2)"

definition final_status :: "exec_result \<Rightarrow> string" where
  "final_status r = (if rs_success r then ''RETURNED'' else ''FAILED'')"

definition refreshed :: "engine_env \<Rightarrow> thread \<Rightarrow> task \<Rightarrow> exec_result \<Rightarrow> exec_result" where
  "refreshed env th t r = (case executor_named env (th_exec th) of None \<Rightarrow> r | Some x \<Rightarrow> ex_refresh x t r)"

definition worker_finishing ::
    "engine_env \<Rightarrow> int \<Rightarrow> answers \<Rightarrow> string \<Rightarrow> task \<Rightarrow> thread \<Rightarrow> exec_result \<Rightarrow> engine \<Rightarrow> engine" where
  \<comment> \<open>\<open>finalize_response\<close>, the wait for the executor's process, the report of what changed\<close>
  "worker_finishing env now oc i t th r e =
     (if \<not> oc_ok oc then goto i th (Failing (oc_error oc)) e
      else (case attach_delta env now oc t th (final_status r) (attach_model_resolution env t (refreshed env th t r)) e of
              (r', e1) \<Rightarrow> goto i th (Closing r') e1))"

definition store_session :: "engine_env \<Rightarrow> int \<Rightarrow> thread \<Rightarrow> task \<Rightarrow> exec_result \<Rightarrow> session_manager \<Rightarrow> session_manager" where
  "store_session env now th t r m =
     (if rs_session_id r = [] then m
      else set_session_model (ee_float env) now (conversation_of env t) (rs_session_id r) (meta_text env t ''model'')
             (set_executor_session_id (ee_float env) now (conversation_of env t) (th_exec th) (Some (rs_session_id r)) m))"

definition worker_closing ::
    "engine_env \<Rightarrow> int \<Rightarrow> answers \<Rightarrow> string \<Rightarrow> task \<Rightarrow> thread \<Rightarrow> exec_result \<Rightarrow> engine \<Rightarrow> engine" where
  "worker_closing env now oc i t th r e =
     (let e1 = update_record now i (Some (final_status r)) None (Some (rs_summary r)) (Some now) None e;
          e2 = log_status env now t (final_status r) (result_extra r) e1;
          e3 = e2\<lparr> en_sessions := store_session env now th t r (en_sessions e2) \<rparr> in
      goto i th (if oc_ok oc then Leaving else Failing (oc_error oc)) (say (oc_ok oc) (SentResult i r) e3))"

definition worker_failing ::
    "engine_env \<Rightarrow> int \<Rightarrow> answers \<Rightarrow> string \<Rightarrow> task \<Rightarrow> thread \<Rightarrow> string \<Rightarrow> engine \<Rightarrow> engine" where
  \<comment> \<open>the \<open>except\<close> branch; its result has no session, so the last \<open>if\<close> of the branch does nothing\<close>
  "worker_failing env now oc i t th msg e =
     (let result = plain_result now False (internal_error msg) (ee_traceback env msg) 1;
          (r, e1) = attach_delta env now oc t th ''FAILED'' result e;
          e2 = update_record now i (Some ''FAILED'') None (Some (rs_summary r)) (Some now) None e1;
          e3 = log_status env now t ''FAILED'' (result_extra r) e2 in
      goto i th Leaving (say (oc_ok oc) (SentResult i r) e3))"

definition worker_canceling ::
    "engine_env \<Rightarrow> int \<Rightarrow> answers \<Rightarrow> string \<Rightarrow> task \<Rightarrow> thread \<Rightarrow> exec_result option \<Rightarrow> bool \<Rightarrow> engine \<Rightarrow> engine" where
  "worker_canceling env now oc i t th partial inside e =
     (case finalize_canceled env now oc i t th partial e of (e1, returned) \<Rightarrow>
        if inside then goto i th (if returned then Leaving else Failing (oc_error oc)) e1
        else leave i th (if returned then Done else Crashed) e1)"

definition worker_leaving :: "engine_env \<Rightarrow> int \<Rightarrow> string \<Rightarrow> task \<Rightarrow> thread \<Rightarrow> engine \<Rightarrow> engine" where
  "worker_leaving env now i t th e =
     leave i th Done (release_lock env t (e\<lparr>
       en_running := max 0 (en_running e - 1), en_completed := en_completed e + 1,
       en_sessions := set_active_task now (conversation_of env t) None (en_sessions e),
       en_registry := untrack (ee_owner env) now i (en_registry e) \<rparr>))"

section \<open>One step\<close>

definition thread_step :: "engine_env \<Rightarrow> int \<Rightarrow> answers \<Rightarrow> string \<Rightarrow> thread \<Rightarrow> task \<Rightarrow> engine \<Rightarrow> engine option" where
  "thread_step env now oc i th t e = (case th_phase th of
       Received \<Rightarrow> Some (submit_received env now oc i t th e)
     | Registered \<Rightarrow> Some (submit_validated env now i t th e)
     | Validated \<Rightarrow> Some (submit_queued env now i t th e)
     | Enqueuing \<Rightarrow> Some (submit_enqueue oc i th e)
     | Waiting \<Rightarrow> worker_take i th e
     | Taken \<Rightarrow> Some (worker_lock env now i t th e)
     | ThreadLock dl \<Rightarrow> map_option (\<lambda>ws. worker_thread_lock env now i th dl ws e) (lock_key env t)
     | ThreadBlocked dl \<Rightarrow> map_option (\<lambda>ws. worker_thread_blocked env now oc i t th dl ws e) (lock_key env t)
     | FileLock dl \<Rightarrow> map_option (\<lambda>ws. worker_file_lock env now oc i t th dl ws e) (lock_key env t)
     | FileBlocked dl h \<Rightarrow> map_option (\<lambda>ws. worker_file_blocked env now oc i t th dl h ws e) (lock_key env t)
     | Holding \<Rightarrow> Some (worker_holding env now i t th e)
     | Entering \<Rightarrow> Some (worker_entering env now oc i t th e)
     | Attempt n \<Rightarrow> Some (worker_attempt now i th n e)
     | Executing n \<Rightarrow> Some (worker_executing env oc i t th n e)
     | Retrying n res \<Rightarrow> Some (worker_retrying env now oc i t th n res e)
     | Finishing res \<Rightarrow> Some (worker_finishing env now oc i t th res e)
     | Closing res \<Rightarrow> Some (worker_closing env now oc i t th res e)
     | Failing msg \<Rightarrow> Some (worker_failing env now oc i t th msg e)
     | Canceling p b \<Rightarrow> Some (worker_canceling env now oc i t th p b e)
     | Leaving \<Rightarrow> Some (worker_leaving env now i t th e)
     | Busy reason \<Rightarrow> Some (worker_busy i th reason e)
     | Refused reason \<Rightarrow> Some (worker_refused env now oc i t th reason e)
     | Done \<Rightarrow> None
     | Crashed \<Rightarrow> None)"

definition run_step :: "engine_env \<Rightarrow> int \<Rightarrow> answers \<Rightarrow> string \<Rightarrow> engine \<Rightarrow> engine option" where
  \<comment> \<open>the next step of the thread of task \<open>i\<close>, if it has one\<close>
  "run_step env now oc i e = (case (en_threads e i, map_of (en_records e) i) of
       (Some th, Some r) \<Rightarrow> thread_step env now oc i th (tr_task r) e
     | _ \<Rightarrow> None)"

datatype act = Submit task | Cancel string | Run string

definition engine_step :: "engine_env \<Rightarrow> int \<Rightarrow> answers \<Rightarrow> act \<Rightarrow> engine \<Rightarrow> engine option" where
  "engine_step env now oc a e = (case a of
       Submit t \<Rightarrow> (if map_of (en_records e) (tk_id t) = None then Some (fst (admit_task env now t e)) else None)
     | Cancel i \<Rightarrow> Some (fst (cancel_task env now oc i e))
     | Run i \<Rightarrow> run_step env now oc i e)"

fun run_acts :: "engine_env \<Rightarrow> (int \<times> answers \<times> act) list \<Rightarrow> engine \<Rightarrow> engine option" where
  "run_acts env [] e = Some e"
| "run_acts env ((now, oc, a) # acts) e = (case engine_step env now oc a e of
       None \<Rightarrow> None
     | Some e' \<Rightarrow> run_acts env acts e')"

text \<open>The states reached by the steps a condition allows.\<close>

inductive reached :: "engine_env \<Rightarrow> (answers \<Rightarrow> act \<Rightarrow> engine \<Rightarrow> bool) \<Rightarrow> engine \<Rightarrow> engine \<Rightarrow> bool" for env allowed e0 where
  reached_start: "reached env allowed e0 e0"
| reached_step: "reached env allowed e0 e \<Longrightarrow> allowed oc a e \<Longrightarrow> engine_step env now oc a e = Some e' \<Longrightarrow>
    reached env allowed e0 e'"

abbreviation any_step :: "answers \<Rightarrow> act \<Rightarrow> engine \<Rightarrow> bool" where
  "any_step oc a e \<equiv> True"

section \<open>Reports\<close>

definition get_runtime_status :: "engine_env \<Rightarrow> int \<Rightarrow> int \<Rightarrow> engine \<Rightarrow> (string \<times> int) list" where
  "get_runtime_status env started now e = [(''worker_count'', int (ee_workers env)),
     (''queue_depth'', int (length (en_queue e))), (''running_tasks'', en_running e),
     (''total_submitted'', int (en_submitted e)), (''total_completed'', int (en_completed e)),
     (''uptime_sec'', (now - started) div usec_per_sec)]"

definition get_task_overview :: "engine_env \<Rightarrow> string \<Rightarrow> engine \<Rightarrow> dict option" where
  "get_task_overview env i e = map_option (\<lambda>r. [(''task_id'', JStr (tk_id (tr_task r))), (''status'', JStr (tr_status r)),
     (''attempts'', JInt (int (tr_attempts r))), (''cancel_requested'', JBool (tr_cancel r)),
     (''submitted_at'', JStr (isoformat (tr_submitted r))), (''last_updated_at'', JStr (isoformat (tr_updated r))),
     (''finished_at'', case tr_finished r of None \<Rightarrow> JNull | Some t \<Rightarrow> JStr (isoformat t)),
     (''summary'', JStr (tr_summary r)), (''workspace'', JStr (str_path (tk_workspace (tr_task r)))),
     (''blocked_reason'', JStr (tr_reason r)), (''blocked_by_workspace'', JStr (tr_by_ws r)),
     (''blocked_by_task_id'', JStr (py_str (ee_repr env) (py_or (dget (or_default (tr_by r) []) ''task_id'') (JStr []))))])
     (map_of (en_records e) i)"

definition list_recent_tasks :: "int \<Rightarrow> engine \<Rightarrow> dict list" where
  "list_recent_tasks limit e = map (\<lambda>r. [(''task_id'', JStr (tk_id (tr_task r))), (''status'', JStr (tr_status r)),
       (''attempts'', JInt (int (tr_attempts r))), (''last_updated_at'', JStr (isoformat (tr_updated r))),
       (''summary'', JStr (tr_summary r))])
     (take_slice limit (rev (sort_key tr_updated (rev (map snd (en_records e))))))"

end
