(* ===== verification/EngineFacts.thy ===== *)
theory EngineFacts
  imports EngineRun
begin

text \<open>
  What one step of the engine changes, and the invariants of all reached states: the statuses and
  attempts of the records, the worker pool, and who holds which workspace lock.
\<close>

section \<open>The frame of a step\<close>

named_theorems engine_defs \<open>the primitive updates of the engine\<close>
named_theorems step_defs \<open>the steps of a thread\<close>

lemmas [engine_defs] = goto_def leave_def log_status_def say_def send_deltas_def update_record_def set_record_status_def or_default_def

lemmas [step_defs] = submit_received_def submit_validated_def submit_queued_def submit_enqueue_def worker_take_def
  worker_lock_def worker_thread_lock_def worker_thread_blocked_def worker_file_lock_def worker_file_blocked_def worker_busy_def worker_refused_def worker_holding_def
  worker_entering_def worker_attempt_def worker_executing_def worker_retrying_def worker_finishing_def
  worker_closing_def worker_failing_def worker_canceling_def worker_leaving_def

lemma change_record_at [simp]:
  "map_of (en_records (change_record i f e)) = (map_of (en_records e))(i := map_option f (map_of (en_records e) i))"
  by (auto simp: change_record_def update_conv' split: option.split)

lemma change_record_keys [simp]: "map fst (en_records (change_record i f e)) = map fst (en_records e)"
proof (cases "map_of (en_records e) i")
  case (Some r)
  then have "i \<in> fst ` set (en_records e)" by (metis map_of_eq_None_iff option.distinct(1))
  then show ?thesis using Some by (simp add: change_record_def update_keys)
qed (simp add: change_record_def)

lemma change_record_frame [simp]:
  "en_threads (change_record i f e) = en_threads e" "en_queue (change_record i f e) = en_queue e"
  "en_idle (change_record i f e) = en_idle e" "en_locks (change_record i f e) = en_locks e"
  "en_running (change_record i f e) = en_running e" "en_sent (change_record i f e) = en_sent e"
  "en_events (change_record i f e) = en_events e" "en_submitted (change_record i f e) = en_submitted e"
  "en_completed (change_record i f e) = en_completed e" "en_sessions (change_record i f e) = en_sessions e"
  "en_store (change_record i f e) = en_store e" "en_registry (change_record i f e) = en_registry e"
  by (simp_all add: change_record_def split: option.splits)

lemma note_blocked_frame [simp]:
  "en_threads (note_blocked env now oc i t ws h e) = en_threads e" "en_queue (note_blocked env now oc i t ws h e) = en_queue e"
  "en_idle (note_blocked env now oc i t ws h e) = en_idle e" "en_locks (note_blocked env now oc i t ws h e) = en_locks e"
  "en_running (note_blocked env now oc i t ws h e) = en_running e"
  by (simp_all add: note_blocked_def Let_def engine_defs split: option.split)

lemma note_blocked_record:
  assumes "map_of (en_records e) i = Some r"
  shows "\<exists>r'. map_of (en_records (note_blocked env now oc i t ws h e)) = (map_of (en_records e))(i \<mapsto> r') \<and>
    tr_task r' = tr_task r \<and> tr_status r' = tr_status r \<and> tr_attempts r' = tr_attempts r \<and> tr_cancel r' = tr_cancel r \<and>
    tr_finished r' = tr_finished r"
  using assms by (auto simp: note_blocked_def Let_def engine_defs)

lemma release_lock_frame [simp]:
  "en_threads (release_lock env t e) = en_threads e" "en_queue (release_lock env t e) = en_queue e"
  "en_idle (release_lock env t e) = en_idle e" "en_records (release_lock env t e) = en_records e"
  "en_running (release_lock env t e) = en_running e" "en_sent (release_lock env t e) = en_sent e"
  "en_events (release_lock env t e) = en_events e"
  by (simp_all add: release_lock_def split: option.split)

lemma attach_delta_frame:
  assumes "attach_delta env now oc t th s r e = (r', e')"
  shows "en_records e' = en_records e" "en_threads e' = en_threads e" "en_sent e' = en_sent e" "en_events e' = en_events e"
    "en_queue e' = en_queue e" "en_idle e' = en_idle e" "en_locks e' = en_locks e" "en_running e' = en_running e"
  using assms by (auto simp: attach_delta_def split: prod.splits)

text \<open>The end of a canceled run, unless the cancellation has ended the task already.\<close>

definition canceled_end :: "engine_env \<Rightarrow> int \<Rightarrow> answers \<Rightarrow> string \<Rightarrow> task \<Rightarrow> exec_result \<Rightarrow> engine \<Rightarrow> engine" where
  "canceled_end env now oc i t r e = say (oc_ok oc \<and> oc_ok2 oc) (SentResult i r)
     (say (oc_ok oc) (SentStatus i ''CANCELED'' ''execution canceled'') (log_status env now t ''CANCELED'' (result_extra r) e))"

lemma finalize_canceled_cases:
  assumes f: "finalize_canceled env now oc i t th p e = (e', b)" and r: "map_of (en_records e) i = Some r"
    and open_task: "\<not> (tr_status r = ''CANCELED'' \<and> tr_finished r \<noteq> None)"
  obtains r' e2 where "e' = canceled_end env now oc i t r' e2" "b = (oc_ok oc \<and> oc_ok2 oc)"
    "e2 = update_record now i (Some ''CANCELED'') None (Some canceled_by_request) (Some now) None e \<or>
     (\<exists>x. attach_delta env now oc t th ''CANCELED'' x
        (update_record now i (Some ''CANCELED'') None (Some canceled_by_request) (Some now) None e) = (r', e2))"
proof -
  let ?e1 = "update_record now i (Some ''CANCELED'') None (Some canceled_by_request) (Some now) None e"
  let ?res = "canceled_result now canceled_by_request p"
  obtain r' e2 where e2: "(if p \<noteq> None \<or> th_fps th \<noteq> None then attach_delta env now oc t th ''CANCELED'' ?res ?e1 else (?res, ?e1)) = (r', e2)"
    by fastforce
  have "e' = canceled_end env now oc i t r' e2" "b = (oc_ok oc \<and> oc_ok2 oc)"
    using f unfolding finalize_canceled_def r option.case if_not_P [OF open_task] Let_def e2 prod.case canceled_end_def
    by auto
  moreover have "e2 = ?e1 \<or> (\<exists>x. attach_delta env now oc t th ''CANCELED'' x ?e1 = (r', e2))" using e2 by (auto split: if_splits)
  ultimately show ?thesis by (rule that)
qed

lemma finalize_canceled_idle:
  assumes "finalize_canceled env now oc i t th p e = (e', b)"
    "map_of (en_records e) i = None \<or> (\<exists>r. map_of (en_records e) i = Some r \<and> tr_status r = ''CANCELED'' \<and> tr_finished r \<noteq> None)"
  shows "e' = e" "b"
  using assms by (auto simp: finalize_canceled_def)

lemma finalize_canceled_frame:
  assumes f: "finalize_canceled env now oc i t th p e = (e', b)"
  shows "en_threads e' = en_threads e" "en_queue e' = en_queue e" "en_idle e' = en_idle e" "en_locks e' = en_locks e"
    "en_running e' = en_running e" "map fst (en_records e') = map fst (en_records e)"
proof -
  have "en_threads e' = en_threads e \<and> en_queue e' = en_queue e \<and> en_idle e' = en_idle e \<and> en_locks e' = en_locks e \<and>
      en_running e' = en_running e \<and> map fst (en_records e') = map fst (en_records e)"
  proof (cases "map_of (en_records e) i = None \<or> (\<exists>r. map_of (en_records e) i = Some r \<and> tr_status r = ''CANCELED'' \<and> tr_finished r \<noteq> None)")
    case True
    then show ?thesis using finalize_canceled_idle [OF f] by simp
  next
    case False
    then obtain r where r: "map_of (en_records e) i = Some r" "\<not> (tr_status r = ''CANCELED'' \<and> tr_finished r \<noteq> None)" by auto
    let ?e1 = "update_record now i (Some ''CANCELED'') None (Some canceled_by_request) (Some now) None e"
    obtain r' e2 where e2: "e' = canceled_end env now oc i t r' e2"
      "e2 = ?e1 \<or> (\<exists>x. attach_delta env now oc t th ''CANCELED'' x ?e1 = (r', e2))"
      by (rule finalize_canceled_cases [OF f r])
    have same: "en_records e2 = en_records ?e1 \<and> en_threads e2 = en_threads ?e1 \<and> en_queue e2 = en_queue ?e1 \<and> en_idle e2 = en_idle ?e1 \<and>
        en_locks e2 = en_locks ?e1 \<and> en_running e2 = en_running ?e1"
      using e2(2) attach_delta_frame by metis
    then show ?thesis using e2(1) by (simp add: canceled_end_def engine_defs)
  qed
  then show "en_threads e' = en_threads e" "en_queue e' = en_queue e" "en_idle e' = en_idle e" "en_locks e' = en_locks e"
    "en_running e' = en_running e" "map fst (en_records e') = map fst (en_records e)" by blast+
qed

lemma needs_lock_executor [simp]:
  "needs_workspace_write_lock env (set_meta ''executor'' n t) = needs_workspace_write_lock env t"
  "lock_key env (set_meta ''executor'' n t) = lock_key env t" "tk_id (set_meta ''executor'' n t) = tk_id t"
  "tk_user (set_meta ''executor'' n t) = tk_user t"
  by (simp_all add: needs_workspace_write_lock_def lock_key_def set_meta_def)

text \<open>The identity of a task, as far as its lock is concerned, never changes.\<close>

definition same_lock :: "engine_env \<Rightarrow> task \<Rightarrow> task \<Rightarrow> bool" where
  "same_lock env t t' \<longleftrightarrow> needs_workspace_write_lock env t' = needs_workspace_write_lock env t \<and>
     lock_key env t' = lock_key env t \<and> tk_id t' = tk_id t"

lemma same_lock_refl [simp]: "same_lock env t t" by (simp add: same_lock_def)

lemma run_stepE:
  assumes "run_step env now oc i e = Some e'"
  obtains th r where "en_threads e i = Some th" "map_of (en_records e) i = Some r"
    "thread_step env now oc i th (tr_task r) e = Some e'"
  using assms by (auto simp: run_step_def split: option.splits)

lemmas step_unfold = step_defs engine_defs Let_def attach_delta_def
lemmas step_splits = if_splits option.splits prod.splits sum.splits

section \<open>The task_view of one task\<close>

text \<open>What matters of a task for its life: where its thread stands, its record, how many results the
  channel was sent, and the statuses its events have in the log.\<close>

record task_look =
  vw_phase :: phase
  vw_status :: string
  vw_attempts :: nat
  vw_cancel :: bool
  vw_finished :: bool
  vw_results :: nat
  vw_log :: "string list"

definition is_result_of :: "string \<Rightarrow> sent \<Rightarrow> bool" where
  "is_result_of i s \<longleftrightarrow> (case s of SentResult j r \<Rightarrow> j = i | _ \<Rightarrow> False)"

definition results_of :: "string \<Rightarrow> engine \<Rightarrow> nat" where
  "results_of i e = length (filter (is_result_of i) (en_sent e))"

definition logged_status :: "dict \<Rightarrow> string" where
  "logged_status d = (case dget d ''status'' of JStr s \<Rightarrow> s | _ \<Rightarrow> [])"

definition logged_statuses :: "string \<Rightarrow> engine \<Rightarrow> string list" where
  "logged_statuses i e = map logged_status (filter (\<lambda>d. dget d ''task_id'' = JStr i) (en_events e))"

definition task_view :: "string \<Rightarrow> engine \<Rightarrow> task_look" where
  "task_view i e = (let th = the (en_threads e i); r = the (map_of (en_records e) i) in
     \<lparr> vw_phase = th_phase th, vw_status = tr_status r, vw_attempts = tr_attempts r, vw_cancel = tr_cancel r,
       vw_finished = (tr_finished r \<noteq> None), vw_results = results_of i e, vw_log = logged_statuses i e \<rparr>)"

definition vw_to :: "phase \<Rightarrow> task_look \<Rightarrow> task_look" where
  "vw_to ph v = v\<lparr> vw_phase := ph \<rparr>"

definition vw_note :: "string \<Rightarrow> task_look \<Rightarrow> task_look" where
  "vw_note s v = v\<lparr> vw_log := vw_log v @ [s] \<rparr>"

definition vw_set :: "string \<Rightarrow> task_look \<Rightarrow> task_look" where
  "vw_set s v = vw_note s (v\<lparr> vw_status := s \<rparr>)"

definition vw_end :: "string \<Rightarrow> bool \<Rightarrow> task_look \<Rightarrow> task_look" where
  "vw_end s ok v = (vw_set s v)\<lparr> vw_finished := True, vw_results := vw_results v + (if ok then 1 else 0) \<rparr>"

definition vw_canceled :: "task_look \<Rightarrow> bool" where
  "vw_canceled v \<longleftrightarrow> vw_cancel v \<and> vw_status v = ''CANCELED''"

text \<open>The moves of a task's thread, with \<open>n\<close> the number of attempts allowed and \<open>ok\<close>, \<open>ok2\<close> whether
  the channel takes the messages of the step.\<close>

inductive task_move :: "nat \<Rightarrow> bool \<Rightarrow> bool \<Rightarrow> task_look \<Rightarrow> task_look \<Rightarrow> bool" for n ok ok2 where
  mv_received: "vw_phase v = Received \<Longrightarrow> task_move n ok ok2 v (vw_to (if ok then Registered else Crashed) (vw_note ''RECEIVED'' v))"
| mv_registered: "vw_phase v = Registered \<Longrightarrow> task_move n ok ok2 v (vw_to Validated (vw_set ''VALIDATED'' v))"
| mv_validated: "vw_phase v = Validated \<Longrightarrow> task_move n ok ok2 v (vw_to Enqueuing (vw_set ''QUEUED'' v))"
| mv_enqueuing: "vw_phase v = Enqueuing \<Longrightarrow> task_move n ok ok2 v (vw_to (if ok then Waiting else Crashed) v)"
| mv_waiting: "vw_phase v = Waiting \<Longrightarrow> task_move n ok ok2 v (vw_to (if vw_canceled v then Done else Taken) v)"
| mv_taken: "vw_phase v = Taken \<Longrightarrow> ph = Holding \<or> (\<exists>dl. ph = ThreadLock dl) \<or> ph = Crashed \<Longrightarrow> task_move n ok ok2 v (vw_to ph v)"
| mv_thread_lock: "vw_phase v = ThreadLock dl \<Longrightarrow> ph = FileLock dl \<or> (\<exists>m. ph = Busy m) \<Longrightarrow> task_move n ok ok2 v (vw_to ph v)"
| mv_thread_blocked: "vw_phase v = ThreadLock dl \<Longrightarrow> \<not> vw_cancel v \<Longrightarrow> task_move n ok ok2 v (vw_to (ThreadBlocked dl) v)"
| mv_thread_noted: "vw_phase v = ThreadBlocked dl \<Longrightarrow> u = v \<or> u = vw_note ''QUEUED'' v \<Longrightarrow> task_move n ok ok2 v (vw_to (ThreadLock dl) u)"
| mv_file_lock: "vw_phase v = FileLock dl \<Longrightarrow> ph = Holding \<or> ph = Crashed \<or> (\<exists>m. ph = Busy m) \<Longrightarrow> task_move n ok ok2 v (vw_to ph v)"
| mv_file_blocked: "vw_phase v = FileLock dl \<Longrightarrow> \<not> vw_cancel v \<Longrightarrow> task_move n ok ok2 v (vw_to (FileBlocked dl h) v)"
| mv_file_noted: "vw_phase v = FileBlocked dl h \<Longrightarrow> u = v \<or> u = vw_note ''QUEUED'' v \<Longrightarrow> task_move n ok ok2 v (vw_to (FileLock dl) u)"
| mv_busy: "vw_phase v = Busy m \<Longrightarrow> task_move n ok ok2 v (vw_to (if vw_cancel v then Canceling None False else Refused m) v)"
| mv_refused: "vw_phase v = Refused m \<Longrightarrow>
    task_move n ok ok2 v (vw_to (if ok \<and> ok2 then Done else Crashed) (vw_end ''FAILED'' (ok \<and> ok2) v))"
| mv_holding: "vw_phase v = Holding \<Longrightarrow> task_move n ok ok2 v (vw_to (if vw_canceled v then Canceling None False else Entering) v)"
| mv_entering: "vw_phase v = Entering \<Longrightarrow> ok \<Longrightarrow> ph = Attempt 1 \<or> (\<exists>m. ph = Failing m) \<Longrightarrow>
    task_move n ok ok2 v (vw_to ph (vw_set ''RUNNING'' v))"
| mv_entering_raises: "vw_phase v = Entering \<Longrightarrow> \<not> ok \<Longrightarrow> task_move n ok ok2 v (vw_to Crashed (v\<lparr> vw_status := ''RUNNING'' \<rparr>))"
| mv_attempt_canceled: "vw_phase v = Attempt k \<Longrightarrow> vw_canceled v \<Longrightarrow> task_move n ok ok2 v (vw_to (Canceling None True) v)"
| mv_attempt: "vw_phase v = Attempt k \<Longrightarrow> \<not> vw_canceled v \<Longrightarrow> task_move n ok ok2 v (vw_to (Executing k) (v\<lparr> vw_attempts := k \<rparr>))"
| mv_executing_raises: "vw_phase v = Executing k \<Longrightarrow> task_move n ok ok2 v (vw_to (Failing m) v)"
| mv_executing_canceled: "vw_phase v = Executing k \<Longrightarrow> vw_cancel v \<Longrightarrow> task_move n ok ok2 v (vw_to (Canceling (Some r) True) v)"
| mv_executed: "vw_phase v = Executing k \<Longrightarrow> \<not> vw_cancel v \<Longrightarrow> task_move n ok ok2 v (vw_to (Finishing r) v)"
| mv_executed_retry: "vw_phase v = Executing k \<Longrightarrow> \<not> vw_cancel v \<Longrightarrow> k < n \<Longrightarrow> task_move n ok ok2 v (vw_to (Retrying k r) v)"
| mv_retrying: "vw_phase v = Retrying k r \<Longrightarrow> ok \<Longrightarrow>
    task_move n ok ok2 v (vw_to (if k < n then Attempt (k + 1) else Finishing r) (vw_set ''RETRYING'' v))"
| mv_retrying_raises: "vw_phase v = Retrying k r \<Longrightarrow> \<not> ok \<Longrightarrow> task_move n ok ok2 v (vw_to (Failing m) (vw_set ''RETRYING'' v))"
| mv_finishing: "vw_phase v = Finishing r \<Longrightarrow> ok \<Longrightarrow> task_move n ok ok2 v (vw_to (Closing r') v)"
| mv_finishing_raises: "vw_phase v = Finishing r \<Longrightarrow> \<not> ok \<Longrightarrow> task_move n ok ok2 v (vw_to (Failing m) v)"
| mv_closing: "vw_phase v = Closing r \<Longrightarrow> ok \<Longrightarrow> task_move n ok ok2 v (vw_to Leaving (vw_end (final_status r) True v))"
| mv_closing_raises: "vw_phase v = Closing r \<Longrightarrow> \<not> ok \<Longrightarrow> task_move n ok ok2 v (vw_to (Failing m) (vw_end (final_status r) False v))"
| mv_failing: "vw_phase v = Failing m \<Longrightarrow> task_move n ok ok2 v (vw_to Leaving (vw_end ''FAILED'' ok v))"
| mv_canceling_done: "vw_phase v = Canceling p b \<Longrightarrow> vw_status v = ''CANCELED'' \<Longrightarrow> vw_finished v \<Longrightarrow>
    task_move n ok ok2 v (vw_to (if b then Leaving else Done) v)"
| mv_canceling: "vw_phase v = Canceling p b \<Longrightarrow> \<not> (vw_status v = ''CANCELED'' \<and> vw_finished v) \<Longrightarrow> ok \<and> ok2 \<Longrightarrow>
    task_move n ok ok2 v (vw_to (if b then Leaving else Done) (vw_end ''CANCELED'' True v))"
| mv_canceling_raises: "vw_phase v = Canceling p b \<Longrightarrow> \<not> (vw_status v = ''CANCELED'' \<and> vw_finished v) \<Longrightarrow> \<not> (ok \<and> ok2) \<Longrightarrow>
    task_move n ok ok2 v (vw_to (if b then Failing m else Crashed) (vw_end ''CANCELED'' False v))"
| mv_leaving: "vw_phase v = Leaving \<Longrightarrow> task_move n ok ok2 v (vw_to Done v)"

definition vw_cancel_task :: "bool \<Rightarrow> task_look \<Rightarrow> task_look" where
  \<comment> \<open>what \<open>cancel_task\<close> does to a task\<close>
  "vw_cancel_task ok v =
     (if vw_status v \<in> set terminal_statuses then v
      else if vw_status v \<in> {''RUNNING'', ''RETRYING''} then v\<lparr> vw_cancel := True \<rparr>
      else (vw_end ''CANCELED'' ok v)\<lparr> vw_cancel := True \<rparr>)"

section \<open>A step of the engine is a move of its task\<close>

lemma status_event_fields [simp]:
  "''status'' \<notin> fst ` set x \<Longrightarrow> dget (status_event env now t s x) ''status'' = JStr s"
  "''task_id'' \<notin> fst ` set x \<Longrightarrow> dget (status_event env now t s x) ''task_id'' = JStr (tk_id t)"
proof -
  have keep: "k \<notin> fst ` set x \<Longrightarrow> dget (fold (\<lambda>(k, v). dset k v) x d) k = dget d k" for k and d :: dict
    by (induction x arbitrary: d) auto
  show "''status'' \<notin> fst ` set x \<Longrightarrow> dget (status_event env now t s x) ''status'' = JStr s"
    "''task_id'' \<notin> fst ` set x \<Longrightarrow> dget (status_event env now t s x) ''task_id'' = JStr (tk_id t)"
    using keep by (simp_all add: status_event_def)
qed

lemma extras_clean [simp]:
  "''status'' \<notin> fst ` set (result_extra r)" "''task_id'' \<notin> fst ` set (result_extra r)"
  "''status'' \<notin> fst ` set (attempt_extra n r)" "''task_id'' \<notin> fst ` set (attempt_extra n r)"
  "''status'' \<notin> fst ` set (blocked_extra ws h)" "''task_id'' \<notin> fst ` set (blocked_extra ws h)"
  by (simp_all add: result_extra_def attempt_extra_def blocked_extra_def)

lemma is_result_of_simps [simp]:
  "\<not> is_result_of i (SentStatus j s d)" "\<not> is_result_of i (SentDelta j s)" "is_result_of i (SentResult j r) \<longleftrightarrow> j = i"
  by (simp_all add: is_result_of_def)

lemma no_result_deltas [simp]: "filter (is_result_of i) (map (SentDelta j) ds) = []"
  by (induction ds) auto

lemmas view_defs = task_view_def results_of_def logged_statuses_def logged_status_def vw_to_def vw_note_def vw_set_def
  vw_end_def vw_canceled_def

lemmas move_simps = thread_step_def step_unfold view_defs is_canceled_def cancel_requested_def

lemma thread_step_move_submit:
  assumes step: "thread_step env now oc i th (tr_task r) e = Some e'" and th: "en_threads e i = Some th"
    and r: "map_of (en_records e) i = Some r" "tk_id (tr_task r) = i"
    and ph: "th_phase th \<in> {Received, Registered, Validated, Enqueuing, Waiting, Taken, Holding, Leaving}"
  shows "task_move (ee_max_retries env + 1) (oc_ok oc) (oc_ok2 oc) (task_view i e) (task_view i e')"
proof (cases "th_phase th")
  case Received
  then have "task_view i e' = vw_to (if oc_ok oc then Registered else Crashed) (vw_note ''RECEIVED'' (task_view i e))"
    using step th r by (auto simp: move_simps)
  then show ?thesis using mv_received [of "task_view i e"] Received th by (simp add: task_view_def Let_def)
next
  case Registered
  then have "task_view i e' = vw_to Validated (vw_set ''VALIDATED'' (task_view i e))" using step th r by (auto simp: move_simps)
  then show ?thesis using mv_registered [of "task_view i e"] Registered th by (simp add: task_view_def Let_def)
next
  case Validated
  then have "task_view i e' = vw_to Enqueuing (vw_set ''QUEUED'' (task_view i e))" using step th r by (auto simp: move_simps)
  then show ?thesis using mv_validated [of "task_view i e"] Validated th by (simp add: task_view_def Let_def)
next
  case Enqueuing
  then have "task_view i e' = vw_to (if oc_ok oc then Waiting else Crashed) (task_view i e)"
    using step th r by (auto simp: move_simps split: if_splits)
  then show ?thesis using mv_enqueuing [of "task_view i e"] Enqueuing th by (simp add: task_view_def Let_def)
next
  case Waiting
  then have "task_view i e' = vw_to (if vw_canceled (task_view i e) then Done else Taken) (task_view i e)"
    using step th r by (auto simp: move_simps split: if_splits)
  then show ?thesis using mv_waiting [of "task_view i e"] Waiting th by (simp add: task_view_def Let_def)
next
  case Taken
  then have "\<exists>ph. task_view i e' = vw_to ph (task_view i e) \<and> (ph = Holding \<or> (\<exists>dl. ph = ThreadLock dl) \<or> ph = Crashed)"
    using step th r by (auto simp: move_simps split: if_splits option.splits)
  then show ?thesis using mv_taken [of "task_view i e"] Taken th by (auto simp: task_view_def Let_def)
next
  case Holding
  then have "task_view i e' = vw_to (if vw_canceled (task_view i e) then Canceling None False else Entering) (task_view i e)"
    using step th r by (auto simp: move_simps split: if_splits)
  then show ?thesis using mv_holding [of "task_view i e"] Holding th by (simp add: task_view_def Let_def)
next
  case Leaving
  then have "task_view i e' = vw_to Done (task_view i e)" using step th r by (auto simp: move_simps)
  then show ?thesis using mv_leaving [of "task_view i e"] Leaving th by (simp add: task_view_def Let_def)
qed (use ph in auto)

lemma note_blocked_view:
  assumes "map_of (en_records e) i = Some r" "tk_id t = i" "en_threads e i = Some th"
  shows "task_view i (note_blocked env now oc i t ws h e) \<in> {task_view i e, vw_note ''QUEUED'' (task_view i e)}"
  using assms by (auto simp: note_blocked_def Let_def engine_defs view_defs)

lemma thread_step_move_lock:
  assumes step: "thread_step env now oc i th (tr_task r) e = Some e'" and th: "en_threads e i = Some th"
    and r: "map_of (en_records e) i = Some r" "tk_id (tr_task r) = i"
    and ph: "(\<exists>dl. th_phase th = ThreadLock dl) \<or> (\<exists>dl. th_phase th = ThreadBlocked dl) \<or> (\<exists>dl. th_phase th = FileLock dl) \<or>
      (\<exists>dl h. th_phase th = FileBlocked dl h) \<or> (\<exists>m. th_phase th = Busy m) \<or> (\<exists>m. th_phase th = Refused m)"
  shows "task_move (ee_max_retries env + 1) (oc_ok oc) (oc_ok2 oc) (task_view i e) (task_view i e')"
proof (cases "th_phase th")
  case (ThreadLock dl)
  have p: "vw_phase (task_view i e) = ThreadLock dl" using ThreadLock th by (simp add: task_view_def Let_def)
  obtain ws where e': "e' = worker_thread_lock env now i th dl ws e" using step ThreadLock by (auto simp: thread_step_def)
  have to: "task_view i (goto i th ph e) = vw_to ph (task_view i e)" "task_view i (goto i th ph (e\<lparr> en_locks := l \<rparr>)) = vw_to ph (task_view i e)" for ph l
    using th by (simp_all add: view_defs engine_defs Let_def)
  have c: "cancel_requested i e = vw_cancel (task_view i e)" using r by (simp add: task_view_def cancel_requested_def Let_def)
  show ?thesis
    using e' to c mv_thread_lock [OF p] mv_thread_blocked [OF p] by (simp add: worker_thread_lock_def split: if_splits)
next
  case (ThreadBlocked dl)
  have p: "vw_phase (task_view i e) = ThreadBlocked dl" using ThreadBlocked th by (simp add: task_view_def Let_def)
  obtain ws where e': "e' = goto i th (ThreadLock dl) (note_blocked env now oc i (tr_task r) (str_path ws) None e)"
    using step ThreadBlocked by (auto simp: thread_step_def worker_thread_blocked_def)
  then have "task_view i e' = vw_to (ThreadLock dl) (task_view i (note_blocked env now oc i (tr_task r) (str_path ws) None e))"
    by (simp add: view_defs goto_def Let_def)
  then show ?thesis using note_blocked_view [OF r th] mv_thread_noted [OF p] by (metis insertE singletonD)
next
  case (FileLock dl)
  have p: "vw_phase (task_view i e) = FileLock dl" using FileLock th by (simp add: task_view_def Let_def)
  obtain ws where e': "e' = worker_file_lock env now oc i (tr_task r) th dl ws e" using step FileLock by (auto simp: thread_step_def)
  have to: "task_view i (goto i th ph e) = vw_to ph (task_view i e)" "task_view i (leave i th ph e) = vw_to ph (task_view i e)"
    "task_view i (goto i th ph (release_lock env t e)) = vw_to ph (task_view i e)"
    "task_view i (leave i th ph (release_lock env t e)) = vw_to ph (task_view i e)" for ph t
    using th by (simp_all add: view_defs engine_defs Let_def)
  have c: "cancel_requested i e = vw_cancel (task_view i e)" using r by (simp add: task_view_def cancel_requested_def Let_def)
  show ?thesis
  proof (cases "oc_file oc")
    case (Held h)
    then show ?thesis
      using e' to c mv_file_lock [OF p] mv_file_blocked [OF p] by (simp add: worker_file_lock_def split: if_splits)
  qed (use e' to mv_file_lock [OF p] in \<open>simp_all add: worker_file_lock_def\<close>)
next
  case (FileBlocked dl h)
  have p: "vw_phase (task_view i e) = FileBlocked dl h" using FileBlocked th by (simp add: task_view_def Let_def)
  obtain ws where e': "e' = goto i th (FileLock dl) (note_blocked env now oc i (tr_task r) (str_path ws) h e)"
    using step FileBlocked by (auto simp: thread_step_def worker_file_blocked_def)
  then have "task_view i e' = vw_to (FileLock dl) (task_view i (note_blocked env now oc i (tr_task r) (str_path ws) h e))"
    by (simp add: view_defs goto_def Let_def)
  then show ?thesis using note_blocked_view [OF r th] mv_file_noted [OF p] by (metis insertE singletonD)
next
  case (Busy m)
  then have "task_view i e' = vw_to (if vw_cancel (task_view i e) then Canceling None False else Refused m) (task_view i e)"
    using step th r by (auto simp: move_simps split: if_splits)
  then show ?thesis using mv_busy [of "task_view i e"] Busy th by (simp add: task_view_def Let_def)
next
  case (Refused m)
  then have "task_view i e' = vw_to (if oc_ok oc \<and> oc_ok2 oc then Done else Crashed) (vw_end ''FAILED'' (oc_ok oc \<and> oc_ok2 oc) (task_view i e))"
    using step th r by (auto simp: move_simps split: if_splits)
  then show ?thesis using mv_refused [of "task_view i e"] Refused th by (simp add: task_view_def Let_def)
qed (use ph in auto)

lemma executing_effect:
  "\<exists>ds ph. worker_executing env oc i t th n e = goto i th ph (send_deltas i ds e) \<and>
    ((\<exists>m. ph = Failing m) \<or> (\<exists>x. ph = executed env (cancel_requested i e) n x))"
proof -
  have same: "cancel_requested i (send_deltas i ds e) = cancel_requested i e"
    "send_deltas i ds' (send_deltas i ds e) = send_deltas i (ds @ ds') e" for ds ds'
    by (simp_all add: cancel_requested_def send_deltas_def)
  show ?thesis
  proof (cases "oc_outcome oc")
    case Raised
    then show ?thesis by (force simp: worker_executing_def Let_def split: prod.split)
  next
    case (Returned r0)
    obtain ds rd where d: "fed_deltas (oc_chunks oc) (new_redactor (task_patterns env t)) = (ds, rd)" by fastforce
    let ?tail = "fst (flush_redactor rd)" and ?r = "redact_result env t r0"
    let ?ds = "ds @ (if ?tail \<noteq> [] \<and> oc_ok oc then [?tail] else [])"
    let ?ph = "if ?tail \<noteq> [] \<and> \<not> oc_ok oc then Failing (oc_error oc) else executed env (cancel_requested i e) n ?r"
    have "worker_executing env oc i t th n e = goto i th ?ph (send_deltas i ?ds e)"
      by (simp add: worker_executing_def Let_def same d Returned del: append_Nil2)
    moreover have "(\<exists>m. ?ph = Failing m) \<or> (\<exists>x. ?ph = executed env (cancel_requested i e) n x)" by auto
    ultimately show ?thesis by blast
  qed
qed

lemma finalize_canceled_view:
  assumes f: "finalize_canceled env now oc i t th p e = (e1, b)" and th: "en_threads e i = Some th"
    and r: "map_of (en_records e) i = Some r" "tk_id t = i"
  shows "let c = vw_status (task_view i e) = ''CANCELED'' \<and> vw_finished (task_view i e); ok = oc_ok oc \<and> oc_ok2 oc in
    b = (c \<or> ok) \<and> task_view i e1 = (if c then task_view i e else vw_end ''CANCELED'' ok (task_view i e)) \<and>
    en_threads e1 = en_threads e"
proof (cases "tr_status r = ''CANCELED'' \<and> tr_finished r \<noteq> None")
  case True
  then show ?thesis using f r by (auto simp: finalize_canceled_def task_view_def Let_def)
next
  case False
  let ?e1 = "update_record now i (Some ''CANCELED'') None (Some canceled_by_request) (Some now) None e"
  obtain r' e2 where e2: "e1 = canceled_end env now oc i t r' e2" "b = (oc_ok oc \<and> oc_ok2 oc)"
    "e2 = ?e1 \<or> (\<exists>x. attach_delta env now oc t th ''CANCELED'' x ?e1 = (r', e2))"
    by (rule finalize_canceled_cases [OF f r(1) False])
  have fr: "en_records e2 = en_records ?e1 \<and> en_threads e2 = en_threads ?e1 \<and> en_sent e2 = en_sent ?e1 \<and> en_events e2 = en_events ?e1"
    using e2(3) attach_delta_frame by metis
  let ?ok = "oc_ok oc \<and> oc_ok2 oc"
  have "task_view i (canceled_end env now oc i t r' e2) =
      (vw_note ''CANCELED'' (task_view i e2))\<lparr> vw_results := vw_results (task_view i e2) + (if ?ok then 1 else 0) \<rparr>"
    using r(2) by (auto simp: canceled_end_def view_defs engine_defs Let_def)
  moreover have "task_view i e2 = task_view i ?e1" using fr by (simp add: task_view_def results_of_def logged_statuses_def)
  moreover have "task_view i ?e1 = (task_view i e)\<lparr> vw_status := ''CANCELED'', vw_finished := True \<rparr>"
    using th r(1) by (simp add: task_view_def results_of_def logged_statuses_def engine_defs Let_def)
  moreover have "\<not> (vw_status (task_view i e) = ''CANCELED'' \<and> vw_finished (task_view i e))" using False r(1) by (simp add: task_view_def Let_def)
  ultimately show ?thesis using e2(1,2) finalize_canceled_frame(1) [OF f] by (auto simp: vw_end_def vw_set_def vw_note_def Let_def)
qed

lemma thread_step_move_run:
  assumes step: "thread_step env now oc i th (tr_task r) e = Some e'" and th: "en_threads e i = Some th"
    and r: "map_of (en_records e) i = Some r" "tk_id (tr_task r) = i"
    and ph: "th_phase th = Entering \<or> (\<exists>n. th_phase th = Attempt n) \<or> (\<exists>n. th_phase th = Executing n) \<or>
      (\<exists>n x. th_phase th = Retrying n x)"
  shows "task_move (ee_max_retries env + 1) (oc_ok oc) (oc_ok2 oc) (task_view i e) (task_view i e')"
proof (cases "th_phase th")
  case Entering
  have p: "vw_phase (task_view i e) = Entering" using Entering th by (simp add: task_view_def Let_def)
  show ?thesis
  proof (cases "oc_ok oc")
    case True
    have "\<exists>ph. task_view i e' = vw_to ph (vw_set ''RUNNING'' (task_view i e)) \<and> (ph = Attempt 1 \<or> (\<exists>m. ph = Failing m))"
      using step th r Entering True
      by (cases "select_executor_with_name env (tr_task r)") (auto simp: move_simps)
    then show ?thesis using mv_entering [OF p] True by auto
  next
    case False
    have "task_view i e' = vw_to Crashed ((task_view i e)\<lparr> vw_status := ''RUNNING'' \<rparr>)"
      using step th r Entering False by (auto simp: move_simps)
    then show ?thesis using mv_entering_raises [OF p False] by simp
  qed
next
  case (Attempt n)
  have p: "vw_phase (task_view i e) = Attempt n" using Attempt th by (simp add: task_view_def Let_def)
  have "task_view i e' = (if vw_canceled (task_view i e) then vw_to (Canceling None True) (task_view i e)
      else vw_to (Executing n) ((task_view i e)\<lparr> vw_attempts := n \<rparr>))"
    using step th r Attempt by (auto simp: move_simps split: if_splits)
  then show ?thesis using mv_attempt_canceled [OF p] mv_attempt [OF p] by (auto split: if_splits)
next
  case (Executing n)
  have p: "vw_phase (task_view i e) = Executing n" using Executing th by (simp add: task_view_def Let_def)
  obtain ds ph where e': "e' = goto i th ph (send_deltas i ds e)"
      "(\<exists>m. ph = Failing m) \<or> (\<exists>x. ph = executed env (cancel_requested i e) n x)"
    using step Executing executing_effect [of env oc i "tr_task r" th n e] by (auto simp: thread_step_def)
  have task_view: "task_view i e' = vw_to ph (task_view i e)" using e' th r by (simp add: view_defs engine_defs Let_def)
  have c: "cancel_requested i e = vw_cancel (task_view i e)" using r by (simp add: task_view_def cancel_requested_def Let_def)
  show ?thesis
  proof (cases "\<exists>m. ph = Failing m")
    case True
    then show ?thesis using mv_executing_raises [OF p] task_view by auto
  next
    case False
    then obtain x where x: "ph = executed env (vw_cancel (task_view i e)) n x" using e'(2) c by auto
    have "should_retry env x n \<Longrightarrow> n < ee_max_retries env + 1" by (auto simp: should_retry_def split: if_splits)
    then show ?thesis
      using mv_executing_canceled [OF p] mv_executed [OF p] mv_executed_retry [OF p] task_view x by (simp add: executed_def)
  qed
next
  case (Retrying n x)
  have p: "vw_phase (task_view i e) = Retrying n x" using Retrying th by (simp add: task_view_def Let_def)
  show ?thesis
  proof (cases "oc_ok oc")
    case True
    have "task_view i e' = vw_to (if n < ee_max_retries env + 1 then Attempt (n + 1) else Finishing x) (vw_set ''RETRYING'' (task_view i e))"
      using step th r Retrying True by (auto simp: move_simps split: if_splits)
    then show ?thesis using mv_retrying [OF p True] by simp
  next
    case False
    have "\<exists>m. task_view i e' = vw_to (Failing m) (vw_set ''RETRYING'' (task_view i e))"
      using step th r Retrying False by (auto simp: move_simps)
    then show ?thesis using mv_retrying_raises [OF p False] by auto
  qed
qed (use ph in auto)

lemma thread_step_move_end:
  assumes step: "thread_step env now oc i th (tr_task r) e = Some e'" and th: "en_threads e i = Some th"
    and r: "map_of (en_records e) i = Some r" "tk_id (tr_task r) = i"
    and ph: "(\<exists>x. th_phase th = Finishing x) \<or> (\<exists>x. th_phase th = Closing x) \<or> (\<exists>m. th_phase th = Failing m) \<or>
      (\<exists>p b. th_phase th = Canceling p b)"
  shows "task_move (ee_max_retries env + 1) (oc_ok oc) (oc_ok2 oc) (task_view i e) (task_view i e')"
proof (cases "th_phase th")
  case (Finishing x)
  have p: "vw_phase (task_view i e) = Finishing x" using Finishing th by (simp add: task_view_def Let_def)
  have "if oc_ok oc then \<exists>y. task_view i e' = vw_to (Closing y) (task_view i e) else \<exists>m. task_view i e' = vw_to (Failing m) (task_view i e)"
    using step th r Finishing by (auto simp: move_simps split: if_splits prod.splits)
  then show ?thesis using mv_finishing [OF p] mv_finishing_raises [OF p] by (auto split: if_splits)
next
  case (Closing x)
  have p: "vw_phase (task_view i e) = Closing x" using Closing th by (simp add: task_view_def Let_def)
  have "if oc_ok oc then task_view i e' = vw_to Leaving (vw_end (final_status x) True (task_view i e))
      else \<exists>m. task_view i e' = vw_to (Failing m) (vw_end (final_status x) False (task_view i e))"
    using step th r Closing by (auto simp: move_simps split: if_splits prod.splits)
  then show ?thesis using mv_closing [OF p] mv_closing_raises [OF p] by (auto split: if_splits)
next
  case (Failing m)
  have p: "vw_phase (task_view i e) = Failing m" using Failing th by (simp add: task_view_def Let_def)
  have "task_view i e' = vw_to Leaving (vw_end ''FAILED'' (oc_ok oc) (task_view i e))"
    using step th r Failing by (auto simp: move_simps split: if_splits prod.splits)
  then show ?thesis using mv_failing [OF p] by simp
next
  case (Canceling q b)
  have p: "vw_phase (task_view i e) = Canceling q b" using Canceling th by (simp add: task_view_def Let_def)
  let ?c = "vw_status (task_view i e) = ''CANCELED'' \<and> vw_finished (task_view i e)" and ?ok = "oc_ok oc \<and> oc_ok2 oc"
  obtain e1 returned where f: "finalize_canceled env now oc i (tr_task r) th q e = (e1, returned)" by fastforce
  note v = finalize_canceled_view [OF f th r, unfolded Let_def]
  let ?ph = "if b then if returned then Leaving else Failing (oc_error oc) else if returned then Done else Crashed"
  have e': "en_threads e' = (en_threads e)(i \<mapsto> th\<lparr> th_phase := ?ph \<rparr>)" "en_records e' = en_records e1"
    "en_sent e' = en_sent e1" "en_events e' = en_events e1"
  proof -
    have "e' = (if b then goto i th ?ph e1 else leave i th ?ph e1)"
      using step Canceling f by (simp add: thread_step_def worker_canceling_def split: if_splits)
    then show "en_threads e' = (en_threads e)(i \<mapsto> th\<lparr> th_phase := ?ph \<rparr>)" "en_records e' = en_records e1"
      "en_sent e' = en_sent e1" "en_events e' = en_events e1"
      using conjunct2 [OF conjunct2 [OF v]] by (simp_all add: goto_def leave_def)
  qed
  have "task_view i e' = vw_to ?ph (task_view i e1)"
    using e' by (simp add: task_view_def vw_to_def results_of_def logged_statuses_def Let_def)
  then show ?thesis
    using v mv_canceling_done [OF p] mv_canceling [OF p] mv_canceling_raises [OF p] by (cases ?c; cases ?ok) auto
qed (use ph in auto)

lemma thread_step_move:
  assumes "thread_step env now oc i th (tr_task r) e = Some e'" "en_threads e i = Some th"
    "map_of (en_records e) i = Some r" "tk_id (tr_task r) = i"
  shows "task_move (ee_max_retries env + 1) (oc_ok oc) (oc_ok2 oc) (task_view i e) (task_view i e')"
  using assms thread_step_move_submit [OF assms] thread_step_move_lock [OF assms] thread_step_move_run [OF assms]
    thread_step_move_end [OF assms]
  by (cases "th_phase th") (auto simp: thread_step_def)

section \<open>Other tasks are left alone\<close>

definition keeps :: "string \<Rightarrow> engine \<Rightarrow> engine \<Rightarrow> bool" where
  "keeps j e e' \<longleftrightarrow> en_threads e' j = en_threads e j \<and> map_of (en_records e') j = map_of (en_records e) j \<and>
     results_of j e' = results_of j e \<and> logged_statuses j e' = logged_statuses j e"

lemma keeps_refl [simp]: "keeps j e e" by (simp add: keeps_def)

lemma keeps_update [simp]:
  "keeps j e (x\<lparr> en_locks := a \<rparr>) = keeps j e x" "keeps j e (x\<lparr> en_running := b \<rparr>) = keeps j e x"
  "keeps j e (x\<lparr> en_queue := c \<rparr>) = keeps j e x" "keeps j e (x\<lparr> en_idle := d \<rparr>) = keeps j e x"
  "keeps j e (x\<lparr> en_sessions := m \<rparr>) = keeps j e x" "keeps j e (x\<lparr> en_store := s \<rparr>) = keeps j e x"
  "keeps j e (x\<lparr> en_registry := g \<rparr>) = keeps j e x" "keeps j e (x\<lparr> en_submitted := n \<rparr>) = keeps j e x"
  "keeps j e (x\<lparr> en_completed := n \<rparr>) = keeps j e x"
  by (simp_all add: keeps_def results_of_def logged_statuses_def)

lemma keeps_prim [simp]:
  assumes "j \<noteq> i"
  shows "keeps j e (change_record i f x) = keeps j e x" "keeps j e (goto i th ph x) = keeps j e x"
    "keeps j e (leave i th ph x) = keeps j e x" "keeps j e (say ok (SentStatus i' s d) x) = keeps j e x"
    "keeps j e (say ok (SentResult i r) x) = keeps j e x" "keeps j e (send_deltas i ds x) = keeps j e x"
    "tk_id t = i \<Longrightarrow> ''task_id'' \<notin> fst ` set extra \<Longrightarrow> keeps j e (log_status env now t s extra x) = keeps j e x"
    "keeps j e (update_record now i a b c fin z x) = keeps j e x" "keeps j e (set_record_status now i s x) = keeps j e x"
    "keeps j e (release_lock env t x) = keeps j e x"
  using assms by (simp_all add: keeps_def results_of_def logged_statuses_def engine_defs release_lock_def split: option.split)

lemma keeps_attach:
  "attach_delta env now oc t th s r x = (r', x') \<Longrightarrow> keeps j e x' = keeps j e x"
  by (auto simp: attach_delta_def split: prod.splits)

lemma keeps_note_blocked:
  "j \<noteq> i \<Longrightarrow> tk_id t = i \<Longrightarrow> keeps j e (note_blocked env now oc i t ws h x) = keeps j e x"
  by (auto simp: note_blocked_def Let_def split: option.split)

lemma keeps_finalize:
  assumes "j \<noteq> i" "tk_id t = i" "finalize_canceled env now oc i t th p x = (x', b)"
  shows "keeps j e x' = keeps j e x"
  using assms keeps_attach
  by (auto simp: finalize_canceled_def Let_def split: option.splits if_splits prod.splits)

lemma thread_step_keeps:
  assumes "thread_step env now oc i th t e = Some e'" "j \<noteq> i" "tk_id t = i"
  shows "keeps j e e'"
proof (cases "th_phase th")
  case (FileLock dl)
  then show ?thesis using assms
    by (cases "oc_file oc") (auto simp: thread_step_def worker_file_lock_def keeps_note_blocked split: if_splits)
next
  case (Executing n)
  then show ?thesis using assms executing_effect [of env oc i t th n e] by (auto simp: thread_step_def)
next
  case (Canceling p b)
  then show ?thesis using assms keeps_finalize [OF assms(2,3)]
    by (auto simp: thread_step_def worker_canceling_def split: prod.splits)
qed (use assms keeps_attach in \<open>auto simp: thread_step_def step_defs Let_def keeps_note_blocked
   split: if_splits option.splits prod.splits sum.splits\<close>)

lemma keeps_view: "keeps j e e' \<Longrightarrow> task_view j e' = task_view j e"
  by (simp add: keeps_def task_view_def Let_def)

section \<open>The keys and the identity of tasks\<close>

lemma records_keys [simp]:
  "map fst (en_records (goto i th ph e)) = map fst (en_records e)" "map fst (en_records (leave i th ph e)) = map fst (en_records e)"
  "map fst (en_records (say ok msg e)) = map fst (en_records e)" "map fst (en_records (send_deltas i ds e)) = map fst (en_records e)"
  "map fst (en_records (log_status env now t s x e)) = map fst (en_records e)"
  "map fst (en_records (update_record now i a b c fin z e)) = map fst (en_records e)"
  "map fst (en_records (set_record_status now i s e)) = map fst (en_records e)"
  by (simp_all add: engine_defs)

lemma note_blocked_keys [simp]: "map fst (en_records (note_blocked env now oc i t ws h e)) = map fst (en_records e)"
  by (auto simp: note_blocked_def Let_def split: option.split)

lemma thread_step_keys:
  assumes "thread_step env now oc i th t e = Some e'"
  shows "map fst (en_records e') = map fst (en_records e)"
proof (cases "th_phase th")
  case (FileLock dl)
  then show ?thesis using assms
    by (cases "oc_file oc") (auto simp: thread_step_def worker_file_lock_def split: if_splits)
next
  case (Executing n)
  then show ?thesis using assms executing_effect [of env oc i t th n e] by (auto simp: thread_step_def)
next
  case (Canceling p b)
  then show ?thesis using assms finalize_canceled_frame(6)
    by (auto simp: thread_step_def worker_canceling_def split: prod.splits)
qed (use assms attach_delta_frame(1) in \<open>auto simp: thread_step_def step_defs Let_def
   split: if_splits option.splits prod.splits sum.splits\<close>)

text \<open>The task of a record: the same identifier, and the same lock.\<close>

definition task_at :: "string \<Rightarrow> engine \<Rightarrow> task option" where
  "task_at i e = map_option tr_task (map_of (en_records e) i)"

definition keeps_task :: "engine_env \<Rightarrow> string \<Rightarrow> engine \<Rightarrow> engine \<Rightarrow> bool" where
  "keeps_task env i e e' \<longleftrightarrow> rel_option (same_lock env) (task_at i e) (task_at i e')"

lemma keeps_task_refl [simp]: "keeps_task env i e e"
  by (simp add: keeps_task_def option.rel_refl)

lemma same_lock_trans: "same_lock env t u \<Longrightarrow> same_lock env u v \<Longrightarrow> same_lock env t v"
  by (simp add: same_lock_def)

lemma keeps_task_update [simp]:
  "keeps_task env i e (x\<lparr> en_locks := a \<rparr>) = keeps_task env i e x" "keeps_task env i e (x\<lparr> en_running := b \<rparr>) = keeps_task env i e x"
  "keeps_task env i e (x\<lparr> en_queue := c \<rparr>) = keeps_task env i e x" "keeps_task env i e (x\<lparr> en_idle := d \<rparr>) = keeps_task env i e x"
  "keeps_task env i e (x\<lparr> en_sessions := m \<rparr>) = keeps_task env i e x" "keeps_task env i e (x\<lparr> en_store := s \<rparr>) = keeps_task env i e x"
  "keeps_task env i e (x\<lparr> en_registry := g \<rparr>) = keeps_task env i e x" "keeps_task env i e (x\<lparr> en_submitted := n \<rparr>) = keeps_task env i e x"
  "keeps_task env i e (x\<lparr> en_completed := n \<rparr>) = keeps_task env i e x"
  by (simp_all add: keeps_task_def task_at_def)

lemma task_at_change [simp]:
  "(\<And>r. tr_task (f r) = tr_task r) \<Longrightarrow> task_at j (change_record i f x) = task_at j x"
  by (cases "map_of (en_records x) i") (auto simp: task_at_def)

lemma keeps_task_change [simp]:
  "(\<And>r. tr_task (f r) = tr_task r) \<Longrightarrow> keeps_task env j e (change_record i f x) = keeps_task env j e x"
  by (simp only: keeps_task_def task_at_change)

lemma keeps_task_record [simp]:
  "keeps_task env j e (update_record now i a b c fin z x) = keeps_task env j e x"
  "keeps_task env j e (set_record_status now i s x) = keeps_task env j e x"
proof -
  show "keeps_task env j e (update_record now i a b c fin z x) = keeps_task env j e x" for a b c fin z
    unfolding update_record_def by (rule keeps_task_change) (simp add: Let_def split: option.split)
  then show "keeps_task env j e (set_record_status now i s x) = keeps_task env j e x" by (simp add: set_record_status_def)
qed

lemma keeps_task_prim [simp]:
  "keeps_task env j e (goto i th ph x) = keeps_task env j e x" "keeps_task env j e (leave i th ph x) = keeps_task env j e x"
  "keeps_task env j e (say ok msg x) = keeps_task env j e x" "keeps_task env j e (send_deltas i ds x) = keeps_task env j e x"
  "keeps_task env j e (log_status env' now t s extra x) = keeps_task env j e x"
  "keeps_task env j e (release_lock env' t x) = keeps_task env j e x"
  by (simp_all add: keeps_task_def task_at_def goto_def leave_def say_def send_deltas_def log_status_def)

lemma keeps_task_attach:
  "attach_delta env now oc t th s r x = (r', x') \<Longrightarrow> keeps_task env' j e x' = keeps_task env' j e x"
  by (simp add: keeps_task_def task_at_def attach_delta_frame)

lemma keeps_task_note_blocked [simp]:
  "keeps_task env' j e (note_blocked env now oc i t ws h x) = keeps_task env' j e x"
  by (simp add: note_blocked_def Let_def split: option.split)

lemma keeps_task_finalize:
  assumes "finalize_canceled env now oc i t th p x = (x', b)"
  shows "keeps_task env' j e x' = keeps_task env' j e x"
  using assms keeps_task_attach
  by (auto simp: finalize_canceled_def Let_def split: option.splits if_splits prod.splits)

lemma keeps_task_entering: "keeps_task env i e (worker_entering env now oc i t th e)"
proof -
  have "keeps_task env i e (change_record i (\<lambda>r. r\<lparr> tr_task := set_meta ''executor'' n (tr_task r) \<rparr>) x)" if "keeps_task env i e x" for n x
    using that same_lock_def
    by (cases "map_of (en_records x) i"; cases "map_of (en_records e) i") (auto simp: keeps_task_def task_at_def same_lock_def)
  then show ?thesis by (simp add: worker_entering_def Let_def split: sum.split)
qed

lemma thread_step_task:
  assumes "thread_step env now oc i th t e = Some e'"
  shows "keeps_task env i e e'"
proof (cases "th_phase th")
  case (FileLock dl)
  then show ?thesis using assms
    by (cases "oc_file oc") (auto simp: thread_step_def worker_file_lock_def split: if_splits)
next
  case (Executing n)
  then show ?thesis using assms executing_effect [of env oc i t th n e] by (auto simp: thread_step_def)
next
  case (Canceling p b)
  then show ?thesis using assms keeps_task_finalize
    by (auto simp: thread_step_def worker_canceling_def split: prod.splits)
next
  case Entering
  then show ?thesis using assms keeps_task_entering by (auto simp: thread_step_def)
qed (use assms keeps_task_attach in \<open>auto simp: thread_step_def step_defs Let_def
   split: if_splits option.splits prod.splits sum.splits\<close>)

section \<open>Submitting and canceling\<close>

definition new_view :: "string list \<Rightarrow> task_look" where
  "new_view old = \<lparr> vw_phase = Received, vw_status = ''RECEIVED'', vw_attempts = 0, vw_cancel = False, vw_finished = False,
     vw_results = 0, vw_log = old \<rparr>"

lemma model_ids [simp]:
  "tk_id (set_meta k v t) = tk_id t" "tk_id (with_override env ov t) = tk_id t" "tk_id (snd (own_model env x t)) = tk_id t"
  "tk_id (resolve_model env x t) = tk_id t"
proof -
  show m: "tk_id (set_meta k v t) = tk_id t" for k v t by (simp add: set_meta_def)
  then show "tk_id (with_override env ov t) = tk_id t" by (simp add: with_override_def)
  show own: "tk_id (snd (own_model env x t)) = tk_id t" using m by (simp add: own_model_def Let_def split: option.split prod.split)
  show "tk_id (resolve_model env x t) = tk_id t"
    using m own by (simp add: resolve_model_def Let_def case_prod_beta)
qed

lemma prepare_task_id: "prepare_task env now t m = (m', Inr t') \<Longrightarrow> tk_id t' = tk_id t"
  by (auto simp: prepare_task_def Let_def split: sum.splits prod.splits)

lemma admit_task_effect:
  assumes "admit_task env now t e = (e', ans)"
  shows "j \<noteq> tk_id t \<Longrightarrow> keeps j e e'"
    and "ans \<noteq> Admitted \<Longrightarrow> keeps j e e' \<and> en_records e' = en_records e \<and> en_threads e' = en_threads e"
    and "ans = Admitted \<Longrightarrow> map_of (en_records e) (tk_id t) = None \<Longrightarrow> results_of (tk_id t) e = 0 \<Longrightarrow>
      task_view (tk_id t) e' = new_view (logged_statuses (tk_id t) e) \<and>
      (\<exists>r. map_of (en_records e') (tk_id t) = Some r \<and> tk_id (tr_task r) = tk_id t) \<and> en_threads e' (tk_id t) \<noteq> None"
    and "en_idle e' = en_idle e" "en_locks e' = en_locks e" "en_running e' = en_running e" "en_queue e' = en_queue e"
  using assms prepare_task_id
  by (auto simp: admit_task_def Let_def goto_def keeps_def results_of_def logged_statuses_def task_view_def new_view_def
      new_record_def update_conv' split: prod.splits sum.splits if_splits)

lemma cancel_task_effect:
  assumes "cancel_task env now oc i e = (e', ans)" "\<forall>r. map_of (en_records e) i = Some r \<longrightarrow> tk_id (tr_task r) = i"
  shows "j \<noteq> i \<Longrightarrow> keeps j e e'"
    and "map_of (en_records e) i = None \<Longrightarrow> e' = e"
    and "map_of (en_records e) i \<noteq> None \<Longrightarrow> task_view i e' = vw_cancel_task (oc_ok oc \<and> oc_ok2 oc) (task_view i e)"
    and "keeps_task env j e e'" "en_threads e' = en_threads e" "map fst (en_records e') = map fst (en_records e)"
    and "en_idle e' = en_idle e" "en_locks e' = en_locks e" "en_running e' = en_running e" "en_queue e' = en_queue e"
  using assms(1)
proof -
  show "keeps j e e'" if "j \<noteq> i"
    using assms that by (auto simp: cancel_task_def Let_def split: option.splits if_splits)
  show "e' = e" if "map_of (en_records e) i = None" using assms that by (simp add: cancel_task_def)
  show "keeps_task env j e e'"
    using assms by (auto simp: cancel_task_def Let_def split: option.splits if_splits)
  show "en_threads e' = en_threads e" "map fst (en_records e') = map fst (en_records e)" "en_idle e' = en_idle e"
    "en_locks e' = en_locks e" "en_running e' = en_running e" "en_queue e' = en_queue e"
    using assms by (auto simp: cancel_task_def Let_def say_def log_status_def split: option.splits if_splits)
  show "task_view i e' = vw_cancel_task (oc_ok oc \<and> oc_ok2 oc) (task_view i e)" if nn: "map_of (en_records e) i \<noteq> None"
  proof -
    obtain r where r: "map_of (en_records e) i = Some r" "tk_id (tr_task r) = i"
      using nn assms(2) by (cases "map_of (en_records e) i") auto
    consider (over) "tr_status r \<in> set terminal_statuses"
      | (running) "tr_status r \<notin> set terminal_statuses" "tr_status r \<in> {''RUNNING'', ''RETRYING''}"
      | (waiting) "tr_status r \<notin> set terminal_statuses" "tr_status r \<notin> {''RUNNING'', ''RETRYING''}" by blast
    then show ?thesis
      using assms(1) r by cases (auto simp: cancel_task_def vw_cancel_task_def view_defs engine_defs Let_def)
  qed
qed

section \<open>Invariants of the reached states\<close>

text \<open>Every record has a thread and the other way round, under the task's identifier; a task not yet
  submitted has no result and only the events the log began with.\<close>

definition engine_wf :: "engine \<Rightarrow> engine \<Rightarrow> bool" where
  "engine_wf e0 e \<longleftrightarrow>
     (\<forall>i. (en_threads e i = None) = (map_of (en_records e) i = None)) \<and>
     (\<forall>i r. map_of (en_records e) i = Some r \<longrightarrow> tk_id (tr_task r) = i) \<and>
     (\<forall>i. map_of (en_records e) i = None \<longrightarrow> results_of i e = 0 \<and> logged_statuses i e = logged_statuses i e0)"

lemma engine_wfD:
  assumes "engine_wf e0 e"
  shows "(en_threads e i = None) = (map_of (en_records e) i = None)" "map_of (en_records e) i = Some r \<Longrightarrow> tk_id (tr_task r) = i"
    "map_of (en_records e) i = None \<Longrightarrow> results_of i e = 0 \<and> logged_statuses i e = logged_statuses i e0"
  using assms unfolding engine_wf_def by blast+

text \<open>One step concerns one task \<open>i\<close>: it is submitted, canceled, or moved by its thread.\<close>

lemma run_step_effect:
  assumes wf: "engine_wf e0 e" and step: "run_step env now oc i e = Some e'"
  shows "task_move (ee_max_retries env + 1) (oc_ok oc) (oc_ok2 oc) (task_view i e) (task_view i e')"
    "j \<noteq> i \<Longrightarrow> keeps j e e'" "keeps_task env i e e'" "map fst (en_records e') = map fst (en_records e)"
proof -
  obtain th r where tr: "en_threads e i = Some th" "map_of (en_records e) i = Some r"
    "thread_step env now oc i th (tr_task r) e = Some e'" using step by (rule run_stepE)
  have idt: "tk_id (tr_task r) = i" using engine_wfD(2) [OF wf tr(2)] .
  show "task_move (ee_max_retries env + 1) (oc_ok oc) (oc_ok2 oc) (task_view i e) (task_view i e')"
    by (rule thread_step_move [OF tr(3,1,2) idt])
  show "j \<noteq> i \<Longrightarrow> keeps j e e'" by (rule thread_step_keeps [OF tr(3) _ idt])
  show "keeps_task env i e e'" by (rule thread_step_task [OF tr(3)])
  show "map fst (en_records e') = map fst (en_records e)" by (rule thread_step_keys [OF tr(3)])
qed

lemma map_of_keys: "map fst xs = map fst ys \<Longrightarrow> (map_of xs k = None) = (map_of ys k = None)"
  by (metis image_set map_of_eq_None_iff)

lemma run_step_thread:
  assumes "thread_step env now oc i th t e = Some e'" "en_threads e i = Some th"
  shows "en_threads e' i \<noteq> None"
proof (cases "th_phase th")
  case (FileLock dl)
  then show ?thesis using assms
    by (cases "oc_file oc") (auto simp: thread_step_def worker_file_lock_def goto_def leave_def split: if_splits)
next
  case (Executing n)
  then show ?thesis using assms executing_effect [of env oc i t th n e] by (auto simp: thread_step_def goto_def)
next
  case (Canceling p b)
  then show ?thesis using assms
    by (auto simp: thread_step_def worker_canceling_def goto_def leave_def split: prod.splits if_splits)
qed (use assms in \<open>auto simp: thread_step_def step_defs Let_def goto_def leave_def
   split: if_splits option.splits prod.splits sum.splits\<close>)

lemma keeps_wf:
  assumes wf: "engine_wf e0 e" and others: "\<And>j. j \<noteq> i \<Longrightarrow> keeps j e e'"
    and own: "\<And>r. map_of (en_records e') i = Some r \<Longrightarrow> tk_id (tr_task r) = i"
      "(en_threads e' i = None) = (map_of (en_records e') i = None)"
      "map_of (en_records e') i = None \<Longrightarrow> keeps i e e'"
  shows "engine_wf e0 e'"
  unfolding engine_wf_def
proof (intro conjI allI impI)
  fix j
  show "(en_threads e' j = None) = (map_of (en_records e') j = None)"
    using engine_wfD(1) [OF wf, of j] others [of j] own(2) by (cases "j = i") (auto simp: keeps_def)
  show "results_of j e' = 0" "logged_statuses j e' = logged_statuses j e0" if j: "map_of (en_records e') j = None"
  proof -
    have k: "keeps j e e'" using others own(3) j by (cases "j = i") auto
    then have "map_of (en_records e) j = None" using j by (simp add: keeps_def)
    then show "results_of j e' = 0" "logged_statuses j e' = logged_statuses j e0"
      using engine_wfD(3) [OF wf] k by (simp_all add: keeps_def)
  qed
  fix r assume r: "map_of (en_records e') j = Some r"
  show "tk_id (tr_task r) = j"
  proof (cases "j = i")
    case True
    then show ?thesis using own(1) r by simp
  next
    case False
    then show ?thesis using engine_wfD(2) [OF wf] others r by (simp add: keeps_def)
  qed
qed

lemma keeps_task_id:
  assumes "keeps_task env i e e'" "map_of (en_records e') i = Some r'" "\<And>r. map_of (en_records e) i = Some r \<Longrightarrow> tk_id (tr_task r) = i"
  shows "tk_id (tr_task r') = i"
  using assms by (cases "map_of (en_records e) i") (auto simp: keeps_task_def task_at_def same_lock_def)

lemma run_step_wf:
  assumes wf: "engine_wf e0 e" and step: "run_step env now oc i e = Some e'"
  shows "engine_wf e0 e'"
proof -
  obtain th r where tr: "en_threads e i = Some th" "map_of (en_records e) i = Some r"
    "thread_step env now oc i th (tr_task r) e = Some e'" using step by (rule run_stepE)
  have keys: "map_of (en_records e') i \<noteq> None" using map_of_keys [OF run_step_effect(4) [OF wf step], of i] tr(2) by simp
  have th: "(en_threads e' i = None) = (map_of (en_records e') i = None)" using run_step_thread [OF tr(3,1)] keys by blast
  have own: "\<And>r'. map_of (en_records e') i = Some r' \<Longrightarrow> tk_id (tr_task r') = i"
    using keeps_task_id [OF run_step_effect(3) [OF wf step]] engine_wfD(2) [OF wf] by blast
  have none: "map_of (en_records e') i = None \<Longrightarrow> keeps i e e'" using keys by simp
  show ?thesis by (rule keeps_wf [OF wf run_step_effect(2) [OF wf step] own th none])
qed

lemma submit_wf:
  assumes wf: "engine_wf e0 e" and fresh: "map_of (en_records e) (tk_id t) = None" and a: "admit_task env now t e = (e', ans)"
  shows "engine_wf e0 e'"
proof (cases "ans = Admitted")
  case True
  have res: "results_of (tk_id t) e = 0" using engine_wfD(3) [OF wf fresh] by blast
  note ad = admit_task_effect(3) [OF a True fresh res]
  obtain r where r: "map_of (en_records e') (tk_id t) = Some r" "tk_id (tr_task r) = tk_id t" using ad by blast
  have th: "en_threads e' (tk_id t) \<noteq> None" using ad by blast
  have oth: "\<And>j. j \<noteq> tk_id t \<Longrightarrow> keeps j e e'" by (rule admit_task_effect(1) [OF a])
  show ?thesis using keeps_wf [where i = "tk_id t", OF wf oth] r th by simp
next
  case False
  have k: "keeps j e e'" for j using admit_task_effect(2) [OF a False] by blast
  then show ?thesis using wf by (simp add: engine_wf_def keeps_def)
qed

lemma cancel_wf:
  assumes wf: "engine_wf e0 e" and c: "cancel_task env now oc i e = (e', ans)"
  shows "engine_wf e0 e'"
proof -
  have idt: "\<forall>r. map_of (en_records e) i = Some r \<longrightarrow> tk_id (tr_task r) = i" using engine_wfD(2) [OF wf] by blast
  note ce = cancel_task_effect [OF c idt]
  have keys: "(map_of (en_records e') i = None) = (map_of (en_records e) i = None)" by (rule map_of_keys [OF ce(6)])
  have own: "map_of (en_records e') i = Some r \<Longrightarrow> tk_id (tr_task r) = i" for r
    using keeps_task_id [OF ce(4)] idt by blast
  have th: "(en_threads e' i = None) = (map_of (en_records e') i = None)" using engine_wfD(1) [OF wf] ce(5) keys by simp
  have none: "map_of (en_records e') i = None \<Longrightarrow> keeps i e e'" using ce(2) keys by simp
  show ?thesis using keeps_wf [where i = i, OF wf ce(1)] own th none by blast
qed

lemma engine_step_wf:
  assumes "engine_wf e0 e" "engine_step env now oc a e = Some e'"
  shows "engine_wf e0 e'"
proof (cases a)
  case (Submit t)
  obtain e1 ans where "admit_task env now t e = (e1, ans)" by fastforce
  then show ?thesis using submit_wf [OF assms(1)] assms(2) Submit by (auto simp: engine_step_def split: if_splits)
next
  case (Cancel i)
  obtain e1 ans where "cancel_task env now oc i e = (e1, ans)" by (cases "cancel_task env now oc i e")
  then show ?thesis using cancel_wf [OF assms(1)] assms(2) Cancel by (auto simp: engine_step_def)
next
  case (Run i)
  then show ?thesis using run_step_wf [OF assms(1)] assms(2) by (auto simp: engine_step_def)
qed

definition fresh_engine :: "engine \<Rightarrow> bool" where
  \<comment> \<open>an engine that has just been started\<close>
  "fresh_engine e \<longleftrightarrow> en_records e = [] \<and> en_threads e = (\<lambda>i. None) \<and> en_queue e = [] \<and> en_locks e = (\<lambda>p. None) \<and>
     en_running e = 0 \<and> en_sent e = []"

lemma start_engine_fresh [simp]: "fresh_engine (start_engine env m store events g)"
  by (simp add: fresh_engine_def start_engine_def)

lemma fresh_wf: "fresh_engine e \<Longrightarrow> engine_wf e e"
  by (auto simp: engine_wf_def fresh_engine_def results_of_def)

lemma reached_wf: "reached env allowed e0 e \<Longrightarrow> fresh_engine e0 \<Longrightarrow> engine_wf e0 e"
  by (induction rule: reached.induct) (auto intro: fresh_wf engine_step_wf)

text \<open>An invariant of the task_view of every task: it holds of a new task and is kept by the moves of its
  thread and by a cancellation.\<close>

lemma view_invariant:
  assumes reached: "reached env allowed e0 e" and start: "fresh_engine e0"
    and new: "\<And>i. P i (new_view (logged_statuses i e0))"
    and move: "\<And>i oc e v'. allowed oc (Run i) e \<Longrightarrow> P i (task_view i e) \<Longrightarrow>
      task_move (ee_max_retries env + 1) (oc_ok oc) (oc_ok2 oc) (task_view i e) v' \<Longrightarrow> P i v'"
    and cancel: "\<And>i oc e. allowed oc (Cancel i) e \<Longrightarrow> en_threads e i \<noteq> None \<Longrightarrow> P i (task_view i e) \<Longrightarrow> P i (vw_cancel_task (oc_ok oc \<and> oc_ok2 oc) (task_view i e))"
    and "map_of (en_records e) i \<noteq> None"
  shows "P i (task_view i e)"
  using reached assms(6)
proof (induction arbitrary: i rule: reached.induct)
  case reached_start
  then show ?case using start by (simp add: fresh_engine_def)
next
  case (reached_step e oc a now e')
  have wf: "engine_wf e0 e" by (rule reached_wf [OF reached_step.hyps(1) start])
  have kept: "P i (task_view i e')" if k: "keeps i e e'"
  proof -
    have "map_of (en_records e) i \<noteq> None" using k reached_step.prems by (simp add: keeps_def)
    then show ?thesis using reached_step.IH keeps_view [OF k] by simp
  qed
  show ?case
  proof (cases a)
    case (Submit t)
    have fresh: "map_of (en_records e) (tk_id t) = None" and e': "e' = fst (admit_task env now t e)"
      using reached_step.hyps(3) Submit by (auto simp: engine_step_def split: if_splits)
    obtain ans where ad: "admit_task env now t e = (e', ans)" using e' by (cases "admit_task env now t e") auto
    show ?thesis
    proof (cases "ans = Admitted \<and> i = tk_id t")
      case True
      have "results_of i e = 0" "logged_statuses i e = logged_statuses i e0" using engine_wfD(3) [OF wf fresh] True by simp_all
      then have "task_view i e' = new_view (logged_statuses i e0)" using admit_task_effect(3) [OF ad _ fresh] True by simp
      then show ?thesis using new by simp
    next
      case False
      then show ?thesis using kept admit_task_effect(1,2) [OF ad] by blast
    qed
  next
    case (Cancel j)
    obtain ans where c: "cancel_task env now oc j e = (e', ans)"
      using reached_step.hyps(3) Cancel by (cases "cancel_task env now oc j e") (auto simp: engine_step_def)
    have idt: "\<forall>r. map_of (en_records e) j = Some r \<longrightarrow> tk_id (tr_task r) = j" using engine_wfD(2) [OF wf] by blast
    note ce = cancel_task_effect [OF c idt]
    show ?thesis
    proof (cases "i = j")
      case True
      have nn: "map_of (en_records e) i \<noteq> None" using ce(2) True reached_step.prems by auto
      have "P i (vw_cancel_task (oc_ok oc \<and> oc_ok2 oc) (task_view i e))"
        by (rule cancel [OF _ _ reached_step.IH [OF nn]])
          (use reached_step.hyps(2) Cancel True engine_wfD(1) [OF wf, of i] nn in simp_all)
      then show ?thesis using ce(3) nn True by simp
    qed (use kept ce(1) in blast)
  next
    case (Run j)
    have st: "run_step env now oc j e = Some e'" using reached_step.hyps(3) Run by (simp add: engine_step_def)
    note ef = run_step_effect [OF wf st]
    show ?thesis
    proof (cases "i = j")
      case True
      have nn: "map_of (en_records e) i \<noteq> None" using map_of_keys [OF ef(4), of i] reached_step.prems by simp
      have "allowed oc (Run i) e" using reached_step.hyps(2) Run True by simp
      from move [OF this reached_step.IH [OF nn]] show ?thesis using ef(1) True by simp
    qed (use kept ef(2) in blast)
  qed
qed

end
