(* ===== verification/EngineProps.thy ===== *)
theory EngineProps
  imports EngineFacts
begin

text \<open>
  Properties of the engine: the bounds on attempts, the life of a task and the results it is
  answered with as long as no cancel and no channel error comes at a bad moment, and the runs in
  which one does.
\<close>

section \<open>Statuses and attempts\<close>

definition task_statuses :: "string list" where
  "task_statuses = [''RECEIVED'', ''VALIDATED'', ''QUEUED'', ''RUNNING'', ''RETRYING'', ''RETURNED'', ''FAILED'', ''CANCELED'']"

definition round_ok :: "nat \<Rightarrow> phase \<Rightarrow> bool" where
  "round_ok n ph \<longleftrightarrow> (case ph of Attempt k \<Rightarrow> k \<le> n | Executing k \<Rightarrow> k \<le> n | Retrying k r \<Rightarrow> k \<le> n | _ \<Rightarrow> True)"

definition typed_view :: "nat \<Rightarrow> task_look \<Rightarrow> bool" where
  "typed_view n v \<longleftrightarrow> vw_status v \<in> set task_statuses \<and> vw_attempts v \<le> n \<and> round_ok n (vw_phase v)"

lemmas vw_simps = vw_to_def vw_note_def vw_set_def vw_end_def vw_cancel_task_def vw_canceled_def

lemma typed_move: "typed_view n v \<Longrightarrow> 0 < n \<Longrightarrow> task_move n ok ok2 v v' \<Longrightarrow> typed_view n v'"
  by (erule task_move.cases) (auto simp: typed_view_def round_ok_def vw_simps task_statuses_def final_status_def)

lemma typed_cancel: "typed_view n v \<Longrightarrow> typed_view n (vw_cancel_task ok v)"
  by (auto simp: typed_view_def vw_simps task_statuses_def)

lemma typed_new: "typed_view n (new_view old)"
  by (simp add: typed_view_def new_view_def task_statuses_def round_ok_def)

lemma reached_typed:
  assumes "reached env allowed e0 e" "fresh_engine e0" "map_of (en_records e) i \<noteq> None"
  shows "typed_view (ee_max_retries env + 1) (task_view i e)"
  by (rule view_invariant [where P = "\<lambda>i. typed_view (ee_max_retries env + 1)", OF assms(1,2) typed_new _ _ assms(3)])
    (auto intro: typed_move typed_cancel)

lemma view_record:
  assumes "map_of (en_records e) i = Some r"
  shows "vw_status (task_view i e) = tr_status r" "vw_attempts (task_view i e) = tr_attempts r"
    "vw_cancel (task_view i e) = tr_cancel r" "vw_finished (task_view i e) = (tr_finished r \<noteq> None)"
    "vw_results (task_view i e) = results_of i e" "vw_log (task_view i e) = logged_statuses i e"
  using assms by (simp_all add: task_view_def Let_def)

section \<open>The life of a task\<close>

text \<open>The statuses a task goes through, as a status report or a log reader may rely on them.\<close>

definition may_follow :: "string \<Rightarrow> string list" where
  "may_follow s =
     (if s = [] then [''RECEIVED''] else if s = ''RECEIVED'' then [''VALIDATED''] else if s = ''VALIDATED'' then [''QUEUED'']
      else if s = ''QUEUED'' then [''QUEUED'', ''RUNNING'', ''FAILED'', ''CANCELED'']
      else if s = ''RUNNING'' \<or> s = ''RETRYING'' then [''RETRYING'', ''RETURNED'', ''FAILED'', ''CANCELED'']
      else [])"

fun status_path :: "string \<Rightarrow> string list \<Rightarrow> bool" where
  "status_path s [] = True"
| "status_path s (x # xs) = (x \<in> set (may_follow s) \<and> status_path x xs)"

lemma status_path_snoc [simp]: "status_path s (xs @ [x]) = (status_path s xs \<and> x \<in> set (may_follow (last (s # xs))))"
  by (induction xs arbitrary: s) auto

text \<open>A cancel disturbs a task only between the moments where the engine looks whether it was canceled
  and where it writes the next status; a channel error does so anywhere.\<close>

definition exposed :: "phase \<Rightarrow> bool" where
  "exposed ph \<longleftrightarrow> (case ph of Received \<Rightarrow> True | Registered \<Rightarrow> True | Validated \<Rightarrow> True | Enqueuing \<Rightarrow> True
     | ThreadBlocked dl \<Rightarrow> True | FileBlocked dl h \<Rightarrow> True | Entering \<Rightarrow> True | Refused m \<Rightarrow> True | _ \<Rightarrow> False)"

definition undisturbed :: "string \<Rightarrow> answers \<Rightarrow> act \<Rightarrow> engine \<Rightarrow> bool" where
  "undisturbed i oc a e \<longleftrightarrow> (case a of
       Submit t \<Rightarrow> True
     | Run j \<Rightarrow> j \<noteq> i \<or> oc_ok oc \<and> oc_ok2 oc
     | Cancel j \<Rightarrow> j \<noteq> i \<or> oc_ok oc \<and> oc_ok2 oc \<and>
         (case en_threads e i of None \<Rightarrow> True | Some th \<Rightarrow> \<not> exposed (th_phase th)))"

definition over_view :: "task_look \<Rightarrow> bool" where
  "over_view v \<longleftrightarrow> vw_status v \<in> {''RETURNED'', ''FAILED'', ''CANCELED''} \<and> vw_finished v \<and> vw_results v = 1"

definition open_view :: "string list \<Rightarrow> task_look \<Rightarrow> bool" where
  "open_view ss v \<longleftrightarrow> vw_status v \<in> set ss \<and> \<not> vw_finished v \<and> vw_results v = 0"

definition queued_view :: "task_look \<Rightarrow> bool" where
  "queued_view v \<longleftrightarrow> (open_view [''QUEUED''] v \<and> \<not> vw_cancel v) \<or>
     (vw_status v = ''CANCELED'' \<and> vw_cancel v \<and> over_view v)"

definition calm_phase :: "task_look \<Rightarrow> bool" where
  "calm_phase v \<longleftrightarrow> (case vw_phase v of
       Received \<Rightarrow> open_view [''RECEIVED''] v \<and> \<not> vw_cancel v
     | Registered \<Rightarrow> open_view [''RECEIVED''] v \<and> \<not> vw_cancel v
     | Validated \<Rightarrow> open_view [''VALIDATED''] v \<and> \<not> vw_cancel v
     | Enqueuing \<Rightarrow> open_view [''QUEUED''] v \<and> \<not> vw_cancel v
     | ThreadBlocked dl \<Rightarrow> open_view [''QUEUED''] v \<and> \<not> vw_cancel v
     | FileBlocked dl h \<Rightarrow> open_view [''QUEUED''] v \<and> \<not> vw_cancel v
     | Entering \<Rightarrow> open_view [''QUEUED''] v \<and> \<not> vw_cancel v
     | Refused m \<Rightarrow> open_view [''QUEUED''] v \<and> \<not> vw_cancel v
     | Attempt k \<Rightarrow> open_view [''RUNNING'', ''RETRYING''] v
     | Executing k \<Rightarrow> open_view [''RUNNING'', ''RETRYING''] v
     | Retrying k r \<Rightarrow> open_view [''RUNNING'', ''RETRYING''] v
     | Finishing r \<Rightarrow> open_view [''RUNNING'', ''RETRYING''] v
     | Closing r \<Rightarrow> open_view [''RUNNING'', ''RETRYING''] v
     | Failing m \<Rightarrow> open_view [''RUNNING'', ''RETRYING''] v
     | Canceling p b \<Rightarrow> (if b then open_view [''RUNNING'', ''RETRYING''] v else vw_status v = ''CANCELED'' \<and> over_view v)
     | Leaving \<Rightarrow> over_view v
     | Done \<Rightarrow> over_view v
     | _ \<Rightarrow> queued_view v)"

definition calm_log :: "task_look \<Rightarrow> bool" where
  "calm_log v \<longleftrightarrow> status_path [] (vw_log v) \<and>
     (if vw_phase v = Received then vw_log v = [] else vw_log v \<noteq> [] \<and> last (vw_log v) = vw_status v)"

lemmas calm_defs = calm_phase_def calm_log_def queued_view_def open_view_def over_view_def vw_simps final_status_def

lemma calm_move:
  assumes "task_move n True True v v'" "calm_phase v" "calm_log v"
  shows "calm_phase v' \<and> calm_log v'"
  using assms by (cases rule: task_move.cases) (auto simp: calm_defs may_follow_def split: if_splits)

lemma calm_cancel:
  assumes "calm_phase v" "calm_log v" "\<not> exposed (vw_phase v)"
  shows "calm_phase (vw_cancel_task True v) \<and> calm_log (vw_cancel_task True v)"
  using assms
  by (cases "vw_phase v") (auto simp: calm_defs exposed_def may_follow_def terminal_statuses_def split: if_splits)

lemma calm_new: "calm_phase (new_view []) \<and> calm_log (new_view [])"
  by (simp add: calm_defs new_view_def)

lemma calm_sides:
  assumes "calm_phase v"
  shows "vw_results v = (if vw_finished v then 1 else 0)" "vw_phase v = Done \<Longrightarrow> over_view v"
proof -
  have o: "open_view ss v \<Longrightarrow> vw_results v = (if vw_finished v then 1 else 0)"
    "over_view v \<Longrightarrow> vw_results v = (if vw_finished v then 1 else 0)" for ss
    by (simp_all add: open_view_def over_view_def)
  show "vw_results v = (if vw_finished v then 1 else 0)"
    using assms o by (cases "vw_phase v") (auto simp: calm_phase_def queued_view_def split: if_splits)
  show "vw_phase v = Done \<Longrightarrow> over_view v" using assms by (simp add: calm_phase_def)
qed

lemma reached_calm:
  assumes "reached env (undisturbed i) e0 e" "fresh_engine e0" "logged_statuses i e0 = []" "map_of (en_records e) i \<noteq> None"
  shows "calm_phase (task_view i e) \<and> calm_log (task_view i e)"
proof -
  let ?P = "\<lambda>j v. j = i \<longrightarrow> calm_phase v \<and> calm_log v"
  have "?P i (task_view i e)"
  proof (rule view_invariant [where P = ?P, OF assms(1,2) _ _ _ assms(4)])
    fix j show "?P j (new_view (logged_statuses j e0))" using assms(3) calm_new by simp
  next
    fix j oc x v'
    assume "undisturbed i oc (Run j) x" "?P j (task_view j x)" "task_move (ee_max_retries env + 1) (oc_ok oc) (oc_ok2 oc) (task_view j x) v'"
    then show "?P j v'" using calm_move by (auto simp: undisturbed_def)
  next
    fix j oc x
    assume a: "undisturbed i oc (Cancel j) x" "?P j (task_view j x)" and t: "en_threads x j \<noteq> None"
    show "?P j (vw_cancel_task (oc_ok oc \<and> oc_ok2 oc) (task_view j x))"
    proof
      assume j: "j = i"
      show "calm_phase (vw_cancel_task (oc_ok oc \<and> oc_ok2 oc) (task_view j x)) \<and> calm_log (vw_cancel_task (oc_ok oc \<and> oc_ok2 oc) (task_view j x))"
      proof (cases "en_threads x i")
        case (Some th)
        then have "\<not> exposed (vw_phase (task_view i x))" using a(1) j by (simp add: undisturbed_def task_view_def Let_def)
        then show ?thesis using calm_cancel a j by (auto simp: undisturbed_def)
      qed (use t j in simp)
    qed
  qed
  then show ?thesis by simp
qed

section \<open>Runs to try\<close>

fun acts_allowed :: "engine_env \<Rightarrow> (answers \<Rightarrow> act \<Rightarrow> engine \<Rightarrow> bool) \<Rightarrow> (int \<times> answers \<times> act) list \<Rightarrow> engine \<Rightarrow> bool" where
  "acts_allowed env allowed [] e = True"
| "acts_allowed env allowed ((now, oc, a) # acts) e = (allowed oc a e \<and>
     (case engine_step env now oc a e of None \<Rightarrow> False | Some e' \<Rightarrow> acts_allowed env allowed acts e'))"

definition after :: "engine_env \<Rightarrow> (int \<times> answers \<times> act) list \<Rightarrow> engine \<Rightarrow> engine" where
  "after env acts e = or_default (run_acts env acts e) e"

lemma acts_reached: "acts_allowed env allowed acts e \<Longrightarrow> reached env allowed e0 e \<Longrightarrow> reached env allowed e0 (after env acts e)"
proof (induction acts arbitrary: e)
  case Nil
  then show ?case by (simp add: after_def or_default_def)
next
  case (Cons x acts)
  obtain now oc a where x: "x = (now, oc, a)" by (cases x) auto
  obtain e' where e': "engine_step env now oc a e = Some e'" "allowed oc a e" "acts_allowed env allowed acts e'"
    using Cons.prems(1) x by (auto split: option.splits)
  have "reached env allowed e0 (after env acts e')"
    by (rule Cons.IH [OF e'(3) reached_step [OF Cons.prems(2) e'(2,1)]])
  moreover have "after env (x # acts) e = after env acts e'"
  proof -
    have "run_acts env acts e' \<noteq> None" using e'(3) by (induction env allowed acts e' rule: acts_allowed.induct) (auto split: option.splits)
    then show ?thesis using x e'(1) by (auto simp: after_def or_default_def)
  qed
  ultimately show ?case by simp
qed

definition tiny_owner :: owner_env where
  "tiny_owner = \<lparr> oe_me = \<lparr> ow_instance = ''me'', ow_pid = 1, ow_host = ''h'' \<rparr>, oe_probe = (\<lambda>p. Signalled), oe_writable = True,
     oe_repr = (\<lambda>j. []) \<rparr>"

definition tiny_env :: engine_env where
  \<comment> \<open>one executor, two workers, one retry\<close>
  "tiny_env = \<lparr> ee_executors = [\<lparr> ex_name = ''x'', ex_supports = (\<lambda>t. True), ex_resolve = None, ex_refresh = (\<lambda>t r. r) \<rparr>],
     ee_default = ''x'', ee_workers = 2, ee_max_pending = 2, ee_max_retries = 1, ee_artifact_max = 5, ee_detection = ''off'',
     ee_capture = ''off'', ee_max_file = 0, ee_max_total = 0, ee_repr = (\<lambda>j. []), ee_float = (\<lambda>x. []),
     ee_fs = \<lparr> fs_expanduser = Some, fs_resolve = (\<lambda>s. Some (filter (\<lambda>c. c \<noteq> []) (split_on CHR ''/'' s))), fs_cwd = [], fs_is_dir = (\<lambda>p. True),
       fs_is_git = (\<lambda>p. False), fs_repr = (\<lambda>j. []), fs_sha256 = (\<lambda>s. s) \<rparr>,
     ee_git_diff = (\<lambda>p d. []), ee_collect = (\<lambda>a b c d e. \<lparr> tj_changed_files = [], tj_change_set_file = [], tj_risk_flags = [], tj_max_step = 0 \<rparr>),
     ee_data_dir = ''/d'', ee_order = (\<lambda>xs. xs), ee_lock_timeout = 60 * usec_per_sec, ee_owner = tiny_owner, ee_traceback = (\<lambda>s. s) \<rparr>"

definition write_task :: "string \<Rightarrow> task" where
  "write_task i = \<lparr> tk_id = i, tk_channel = ''c'', tk_user = ''u'', tk_text = ''do'', tk_workspace = [''w''], tk_created = 0,
     tk_metadata = [(''subagent'', JDict [(''mode'', JStr ''workspace-write'')])], tk_attachments = [], tk_images = [] \<rparr>"

definition tiny_start :: engine where
  "tiny_start = start_engine tiny_env (start_manager (\<lambda>j. []) (\<lambda>s. None) 0 None) [] []
     (\<lparr> rg_role = ''engine'', rg_started = 0, rg_active = [], rg_stopped = False \<rparr>, [])"

definition fine :: answers where
  "fine = \<lparr> oc_ok = True, oc_ok2 = True, oc_file = Got, oc_chunks = [], oc_outcome = Returned (plain_result 0 True ''ok'' [] 0),
     oc_disk = [], oc_error = ''e'' \<rparr>"

definition runs :: "nat \<Rightarrow> string \<Rightarrow> (int \<times> answers \<times> act) list" where
  "runs n i = replicate n (0, fine, Run i)"

definition submits :: "string \<Rightarrow> (int \<times> answers \<times> act) list" where
  \<comment> \<open>up to the queue\<close>
  "submits i = (0, fine, Submit (write_task i)) # runs 4 i"

lemma try_one: "results_of ''t'' (after tiny_env (submits ''t'' @ runs 11 ''t'') tiny_start) = 1"
  by code_simp

section \<open>Properties of one task\<close>

lemma tiny_start_fresh [simp]: "fresh_engine tiny_start" "logged_statuses i tiny_start = []"
  by (simp_all add: tiny_start_def) (simp add: start_engine_def logged_statuses_def)

lemma tiny_reached: "acts_allowed tiny_env allowed acts tiny_start \<Longrightarrow> reached tiny_env allowed tiny_start (after tiny_env acts tiny_start)"
  by (rule acts_reached [OF _ reached_start])

text \<open>C28: The records of the engine are well typed in every state it reaches, whatever the channels, the
  executors and the disk answer: a record's status is one of the eight statuses, and an executor is
  launched for it at most one time more than the configured number of retries.\<close>

theorem records_well_typed:
  assumes "reached env any_step e0 e" and "fresh_engine e0" and "map_of (en_records e) i = Some r"
  shows "tr_status r \<in> set task_statuses \<and> tr_attempts r \<le> ee_max_retries env + 1"
  using reached_typed [OF assms(1,2), of i] view_record [OF assms(3)] assms(3) by (simp add: typed_view_def)

definition flaky :: answers where
  \<comment> \<open>the executor times out\<close>
  "flaky = fine\<lparr> oc_outcome := Returned (plain_result 0 False ''timeout'' [] 124) \<rparr>"

definition retried_run :: "(int \<times> answers \<times> act) list" where
  "retried_run = submits ''t'' @ replicate 10 (0, flaky, Run ''t'')"

lemma retried_run_record: "map_option (\<lambda>r. (tr_status r, tr_attempts r)) (map_of (en_records (after tiny_env retried_run tiny_start)) ''t'') =
    Some (''RETRYING'', 2)"
  by code_simp

theorem records_well_typed_witness:
  "\<exists>r. map_of (en_records (after tiny_env retried_run tiny_start)) ''t'' = Some r \<and> tr_attempts r \<le> 2"
proof -
  have allowed: "acts_allowed tiny_env any_step retried_run tiny_start" by code_simp
  obtain r where r: "map_of (en_records (after tiny_env retried_run tiny_start)) ''t'' = Some r"
    using retried_run_record unfolding map_option_eq_Some by blast
  have "tr_attempts r \<le> ee_max_retries tiny_env + 1"
    using records_well_typed [OF tiny_reached [OF allowed] tiny_start_fresh(1) r] by blast
  then show ?thesis using r by (simp add: tiny_env_def)
qed

lemma calm_result:
  assumes "reached env (undisturbed i) e0 e" and "fresh_engine e0" and "logged_statuses i e0 = []"
    and "map_of (en_records e) i = Some r" and "en_threads e i = Some th"
  shows "results_of i e = (if tr_finished r = None then 0 else 1) \<and>
    (th_phase th = Done \<longrightarrow> tr_status r \<in> {''RETURNED'', ''FAILED'', ''CANCELED''} \<and> results_of i e = 1)"
proof -
  have calm: "calm_phase (task_view i e)" using reached_calm [OF assms(1-3)] assms(4) by simp
  have ph: "vw_phase (task_view i e) = th_phase th" using assms(5) by (simp add: task_view_def Let_def)
  have "results_of i e = (if tr_finished r = None then 0 else 1)"
    using calm_sides(1) [OF calm] view_record(4,5) [OF assms(4)] by (simp split: if_splits)
  moreover have "tr_status r \<in> {''RETURNED'', ''FAILED'', ''CANCELED''} \<and> results_of i e = 1" if "th_phase th = Done"
    using calm_sides(2) [OF calm] ph view_record(1,5) [OF assms(4)] that unfolding over_view_def by metis
  ultimately show ?thesis by blast
qed

definition canceled_retry :: "(int \<times> answers \<times> act) list" where
  \<comment> \<open>canceled while the first attempt runs\<close>
  "canceled_retry = submits ''t'' @ replicate 7 (0, flaky, Run ''t'') @ [(0, fine, Cancel ''t'')] @ replicate 3 (0, flaky, Run ''t'')"

lemma canceled_retry_allowed: "acts_allowed tiny_env (undisturbed ''t'') canceled_retry tiny_start"
  by code_simp

lemma canceled_retry_done:
  "map_option th_phase (en_threads (after tiny_env canceled_retry tiny_start) ''t'') = Some Done"
  by code_simp

lemma canceled_retry_status:
  "map_option tr_status (map_of (en_records (after tiny_env canceled_retry tiny_start)) ''t'') = Some ''CANCELED''"
  by code_simp

text \<open>C30: The event log tells the life of a task that is not disturbed: as long as the channel raises on no
  message of it and no cancel of it arrives in a window where the engine has looked at the record
  and not yet written it, the statuses logged for the task follow the abstract life cycle (received,
  validated, queued, perhaps waiting, running, perhaps retrying, and one final status with nothing
  after it), and the last of them is the status of the record in memory. A disturbed task can leave
  the cycle, as the runs below show.\<close>

theorem log_tells_life:
  assumes "reached env (undisturbed i) e0 e" and "fresh_engine e0" and "logged_statuses i e0 = []"
    and "map_of (en_records e) i = Some r" and "en_threads e i = Some th"
  shows "status_path [] (logged_statuses i e) \<and>
    (th_phase th \<noteq> Received \<longrightarrow> logged_statuses i e \<noteq> [] \<and> last (logged_statuses i e) = tr_status r)"
proof -
  have log: "calm_log (task_view i e)" using reached_calm [OF assms(1-3)] assms(4) by simp
  have ph: "vw_phase (task_view i e) = th_phase th" using assms(5) by (simp add: task_view_def Let_def)
  show ?thesis using log ph view_record [OF assms(4)] by (auto simp: calm_log_def)
qed

theorem log_tells_life_witness:
  "status_path [] (logged_statuses ''t'' (after tiny_env canceled_retry tiny_start)) \<and>
    logged_statuses ''t'' (after tiny_env canceled_retry tiny_start) = [''RECEIVED'', ''VALIDATED'', ''QUEUED'', ''RUNNING'', ''CANCELED'']"
proof -
  obtain r th where "map_of (en_records (after tiny_env canceled_retry tiny_start)) ''t'' = Some r"
    "en_threads (after tiny_env canceled_retry tiny_start) ''t'' = Some th"
    using canceled_retry_done canceled_retry_status unfolding map_option_eq_Some by blast
  then have "status_path [] (logged_statuses ''t'' (after tiny_env canceled_retry tiny_start))"
    using log_tells_life [OF tiny_reached [OF canceled_retry_allowed] tiny_start_fresh] by blast
  moreover have "logged_statuses ''t'' (after tiny_env canceled_retry tiny_start) =
      [''RECEIVED'', ''VALIDATED'', ''QUEUED'', ''RUNNING'', ''CANCELED'']" by code_simp
  ultimately show ?thesis by simp
qed

section \<open>Disturbed runs\<close>

definition to_entering :: "(int \<times> answers \<times> act) list" where
  \<comment> \<open>the workspace is locked, the run counted, and the record still says \<open>QUEUED\<close>\<close>
  "to_entering = submits ''t'' @ runs 5 ''t''"

definition mute :: answers where
  \<comment> \<open>the channel raises\<close>
  "mute = fine\<lparr> oc_ok := False \<rparr>"

text \<open>A cancel that arrives between the last look at the record and the writing of \<open>RUNNING\<close> is
  answered with success and a result of the canceled task, and yet the executor is launched and the
  channel gets a second result.\<close>

lemma cancel_at_start_lost:
  "let e1 = after tiny_env to_entering tiny_start; c = cancel_task tiny_env 0 fine ''t'' e1; e3 = after tiny_env (runs 5 ''t'') (fst c) in
   snd c = (True, ''task canceled'') \<and> results_of ''t'' (fst c) = 1 \<and>
   map_option (\<lambda>r. (tr_status r, tr_attempts r)) (map_of (en_records (fst c)) ''t'') = Some (''CANCELED'', 0) \<and>
   map_option (\<lambda>r. (tr_status r, tr_attempts r)) (map_of (en_records e3) ''t'') = Some (''CANCELED'', 1) \<and> results_of ''t'' e3 = 2"
  by code_simp

end
