(* ===== verification/EngineLocks.thy ===== *)
theory EngineLocks
  imports EngineFacts
begin

text \<open>
  What the threads of the engine share: the workspace locks, the pool of workers and the count of
  running tasks.
\<close>

section \<open>Phases\<close>

fun run_phase :: "phase \<Rightarrow> bool" where
  \<comment> \<open>between the counting of the run and the end of its \<open>finally\<close>\<close>
  "run_phase Entering = True"
| "run_phase (Attempt n) = True"
| "run_phase (Executing n) = True"
| "run_phase (Retrying n r) = True"
| "run_phase (Finishing r) = True"
| "run_phase (Closing r) = True"
| "run_phase (Failing m) = True"
| "run_phase (Canceling p b) = b"
| "run_phase Leaving = True"
| "run_phase _ = False"

fun lock_phase :: "phase \<Rightarrow> bool" where
  \<comment> \<open>where a writing task holds the lock of its workspace\<close>
  "lock_phase (FileLock dl) = True"
| "lock_phase (FileBlocked dl h) = True"
| "lock_phase Holding = True"
| "lock_phase ph = run_phase ph"

fun lock_waiting :: "phase \<Rightarrow> bool" where
  "lock_waiting (ThreadLock dl) = True"
| "lock_waiting (ThreadBlocked dl) = True"
| "lock_waiting (FileLock dl) = True"
| "lock_waiting (FileBlocked dl h) = True"
| "lock_waiting _ = False"

fun worker_phase :: "phase \<Rightarrow> bool" where
  \<comment> \<open>a worker is at it\<close>
  "worker_phase Taken = True"
| "worker_phase (ThreadLock dl) = True"
| "worker_phase (ThreadBlocked dl) = True"
| "worker_phase (Busy m) = True"
| "worker_phase (Refused m) = True"
| "worker_phase (Canceling p b) = True"
| "worker_phase ph = lock_phase ph"

definition wants_lock :: "engine_env \<Rightarrow> task \<Rightarrow> bool" where
  "wants_lock env t \<longleftrightarrow> needs_workspace_write_lock env t \<and> lock_key env t \<noteq> None"

definition phase_of :: "string \<Rightarrow> engine \<Rightarrow> phase" where
  "phase_of i e = (case en_threads e i of None \<Rightarrow> Done | Some th \<Rightarrow> th_phase th)"

definition unlocked :: "engine_env \<Rightarrow> task \<Rightarrow> (path \<Rightarrow> string option) \<Rightarrow> path \<Rightarrow> string option" where
  "unlocked env t l = (if needs_workspace_write_lock env t \<and> lock_key env t \<noteq> None then l(the (lock_key env t) := None) else l)"

lemma release_lock_locks: "en_locks (release_lock env t e) = unlocked env t (en_locks e)"
  by (auto simp: release_lock_def unlocked_def split: option.splits)

section \<open>What a step does to the shared state\<close>

definition acquires :: "phase \<Rightarrow> phase \<Rightarrow> bool" where
  "acquires ph ph' \<longleftrightarrow> (\<exists>dl. ph = ThreadLock dl \<and> ph' = FileLock dl)"

definition lock_effect :: "engine_env \<Rightarrow> string \<Rightarrow> task \<Rightarrow> phase \<Rightarrow> phase \<Rightarrow> (path \<Rightarrow> string option) \<Rightarrow> (path \<Rightarrow> string option) \<Rightarrow> bool" where
  "lock_effect env i t ph ph' l l' \<longleftrightarrow>
     (if acquires ph ph' then (\<exists>ws. lock_key env t = Some ws \<and> l ws = None \<and> l' = l(ws \<mapsto> i))
      else if lock_phase ph \<and> \<not> lock_phase ph' \<and> \<not> (ph = Entering \<and> ph' = Crashed) then l' = unlocked env t l
      else l' = l) \<and>
     (lock_phase ph' \<and> \<not> lock_phase ph \<and> \<not> acquires ph ph' \<longrightarrow> \<not> needs_workspace_write_lock env t) \<and>
     (lock_waiting ph' \<and> \<not> lock_waiting ph \<longrightarrow> wants_lock env t)"

definition pool_effect :: "phase \<Rightarrow> phase \<Rightarrow> engine \<Rightarrow> engine \<Rightarrow> bool" where
  "pool_effect ph ph' e e' \<longleftrightarrow>
     en_idle e' + (if worker_phase ph' then 1 else 0) = en_idle e + (if worker_phase ph then 1 else 0) \<and>
     en_running e' = (if run_phase ph' \<and> \<not> run_phase ph then en_running e + 1
       else if ph = Leaving then max 0 (en_running e - 1) else en_running e) \<and>
     (run_phase ph \<and> \<not> run_phase ph' \<longrightarrow> ph = Leaving \<or> ph' = Crashed) \<and> (ph = Leaving \<longrightarrow> ph' = Done)"

lemma attach_delta_shared:
  assumes "attach_delta env now oc t th s r e = (r', e')"
  shows "en_locks e' = en_locks e" "en_idle e' = en_idle e" "en_running e' = en_running e"
  using assms by (auto simp: attach_delta_def split: prod.splits)

lemma prim_shared [simp]:
  "en_locks (goto i th ph e) = en_locks e" "en_idle (goto i th ph e) = en_idle e" "en_running (goto i th ph e) = en_running e"
  "en_locks (leave i th ph e) = en_locks e" "en_idle (leave i th ph e) = en_idle e + 1" "en_running (leave i th ph e) = en_running e"
  "en_locks (say ok m e) = en_locks e" "en_idle (say ok m e) = en_idle e" "en_running (say ok m e) = en_running e"
  "en_locks (send_deltas i ds e) = en_locks e" "en_idle (send_deltas i ds e) = en_idle e" "en_running (send_deltas i ds e) = en_running e"
  "en_locks (log_status env now t s x e) = en_locks e" "en_idle (log_status env now t s x e) = en_idle e"
  "en_running (log_status env now t s x e) = en_running e"
  "en_locks (update_record now i a b c fin z e) = en_locks e" "en_idle (update_record now i a b c fin z e) = en_idle e"
  "en_running (update_record now i a b c fin z e) = en_running e"
  "en_locks (set_record_status now i s e) = en_locks e" "en_idle (set_record_status now i s e) = en_idle e"
  "en_running (set_record_status now i s e) = en_running e"
  "phase_of i (goto i th ph e) = ph" "phase_of i (leave i th ph e) = ph"
  by (simp_all add: engine_defs phase_of_def)

lemmas shared_defs = lock_effect_def pool_effect_def acquires_def

lemma thread_step_shared:
  assumes "thread_step env now oc i th t e = Some e'" "en_threads e i = Some th"
  shows "lock_effect env i t (th_phase th) (phase_of i e') (en_locks e) (en_locks e') \<and> pool_effect (th_phase th) (phase_of i e') e e'"
proof (cases "th_phase th")
  case (FileLock dl)
  then obtain ws where e': "e' = worker_file_lock env now oc i t th dl ws e" using assms by (auto simp: thread_step_def)
  show ?thesis
  proof (cases "oc_file oc")
    case (Held h)
    then show ?thesis using e' FileLock
      by (cases "cancel_requested i e"; cases "now \<ge> dl") (simp_all add: worker_file_lock_def shared_defs release_lock_locks)
  qed (use e' FileLock in \<open>simp_all add: worker_file_lock_def shared_defs release_lock_locks\<close>)
next
  case (Executing n)
  then show ?thesis using assms executing_effect [of env oc i t th n e]
    by (auto simp: thread_step_def lock_effect_def pool_effect_def acquires_def executed_def
      split: if_splits)
next
  case (Canceling p b)
  then show ?thesis using assms finalize_canceled_frame
    by (cases b) (auto simp: thread_step_def worker_canceling_def lock_effect_def pool_effect_def acquires_def
      split: prod.splits if_splits)
next
  case Waiting
  then show ?thesis using assms
    by (auto simp: thread_step_def worker_take_def Let_def lock_effect_def pool_effect_def acquires_def split: if_splits)
next
  case (Finishing x)
  let ?r = "attach_model_resolution env t (refreshed env th t x)"
  obtain r1 e1 where a: "attach_delta env now oc t th (final_status x) ?r e = (r1, e1)" by fastforce
  have "e' = (if oc_ok oc then goto i th (Closing r1) e1 else goto i th (Failing (oc_error oc)) e)"
    using assms(1) Finishing a by (auto simp: thread_step_def worker_finishing_def)
  then show ?thesis using Finishing attach_delta_shared [OF a] by (simp add: shared_defs)
next
  case (Failing m)
  let ?r = "plain_result now False (internal_error m) (ee_traceback env m) 1"
  obtain r1 e1 where a: "attach_delta env now oc t th ''FAILED'' ?r e = (r1, e1)" by fastforce
  have "e' = goto i th Leaving (say (oc_ok oc) (SentResult i r1) (log_status env now t ''FAILED'' (result_extra r1)
      (update_record now i (Some ''FAILED'') None (Some (rs_summary r1)) (Some now) None e1)))"
    using assms(1) Failing a by (auto simp: thread_step_def worker_failing_def)
  then show ?thesis using Failing attach_delta_shared [OF a] by (simp add: shared_defs)
next
  case Entering
  then show ?thesis using assms
    by (cases "select_executor_with_name env t"; cases "oc_ok oc")
      (auto simp: thread_step_def worker_entering_def Let_def shared_defs)
next
  case Taken
  then show ?thesis using assms
    by (cases "lock_key env t") (auto simp: thread_step_def worker_lock_def shared_defs wants_lock_def split: if_splits)
next
  case (ThreadLock dl)
  then obtain ws where "lock_key env t = Some ws" "e' = worker_thread_lock env now i th dl ws e" using assms by (auto simp: thread_step_def)
  then show ?thesis using ThreadLock by (auto simp: worker_thread_lock_def shared_defs split: if_splits)
next
  case Holding
  then show ?thesis using assms
    by (auto simp: thread_step_def worker_holding_def shared_defs release_lock_locks split: if_splits)
next
  case Leaving
  then show ?thesis using assms
    by (auto simp: thread_step_def worker_leaving_def shared_defs release_lock_locks)
next
  case (Retrying n x)
  then show ?thesis using assms
    by (auto simp: thread_step_def worker_retrying_def Let_def shared_defs split: if_splits)
next
  case (Attempt n)
  then show ?thesis using assms by (auto simp: thread_step_def worker_attempt_def shared_defs split: if_splits)
next
  case (Busy m)
  then show ?thesis using assms by (auto simp: thread_step_def worker_busy_def shared_defs split: if_splits)
next
  case (Refused m)
  then show ?thesis using assms by (auto simp: thread_step_def worker_refused_def Let_def shared_defs split: if_splits)
next
  case (Closing x)
  then show ?thesis using assms by (auto simp: thread_step_def worker_closing_def Let_def shared_defs split: if_splits)
next
  case Received
  then show ?thesis using assms by (cases "oc_ok oc") (auto simp: thread_step_def submit_received_def shared_defs)
next
  case Registered
  then show ?thesis using assms by (auto simp: thread_step_def submit_validated_def shared_defs)
next
  case Validated
  then show ?thesis using assms by (auto simp: thread_step_def submit_queued_def shared_defs)
next
  case Enqueuing
  then show ?thesis using assms by (cases "oc_ok oc") (auto simp: thread_step_def submit_enqueue_def shared_defs)
next
  case (ThreadBlocked dl)
  then obtain ws where "e' = worker_thread_blocked env now oc i t th dl ws e" using assms by (auto simp: thread_step_def)
  then show ?thesis using ThreadBlocked by (simp add: worker_thread_blocked_def shared_defs)
next
  case (FileBlocked dl h)
  then obtain ws where "e' = worker_file_blocked env now oc i t th dl h ws e" using assms by (auto simp: thread_step_def)
  then show ?thesis using FileBlocked by (simp add: worker_file_blocked_def shared_defs)
qed (use assms in \<open>simp_all add: thread_step_def\<close>)

section \<open>Who holds which lock\<close>

definition locks_ok :: "engine_env \<Rightarrow> engine \<Rightarrow> bool" where
  "locks_ok env e \<longleftrightarrow>
     (\<forall>i t. task_at i e = Some t \<longrightarrow> lock_phase (phase_of i e) \<longrightarrow> needs_workspace_write_lock env t \<longrightarrow>
        (\<exists>ws. lock_key env t = Some ws \<and> en_locks e ws = Some i)) \<and>
     (\<forall>i t. task_at i e = Some t \<longrightarrow> lock_waiting (phase_of i e) \<longrightarrow> wants_lock env t) \<and>
     (\<forall>ws i. en_locks e ws = Some i \<longrightarrow> (\<exists>t. task_at i e = Some t \<and> needs_workspace_write_lock env t \<and> lock_key env t = Some ws \<and>
        (lock_phase (phase_of i e) \<or> phase_of i e = Crashed)))"

lemma locks_okD:
  assumes "locks_ok env e"
  shows "task_at i e = Some t \<Longrightarrow> lock_phase (phase_of i e) \<Longrightarrow> needs_workspace_write_lock env t \<Longrightarrow>
      \<exists>ws. lock_key env t = Some ws \<and> en_locks e ws = Some i"
    and "task_at i e = Some t \<Longrightarrow> lock_waiting (phase_of i e) \<Longrightarrow> wants_lock env t"
    and "en_locks e ws = Some i \<Longrightarrow> \<exists>t. task_at i e = Some t \<and> needs_workspace_write_lock env t \<and> lock_key env t = Some ws \<and>
        (lock_phase (phase_of i e) \<or> phase_of i e = Crashed)"
  using assms unfolding locks_ok_def by blast+

lemma locks_ok_keeps:
  assumes ok: "locks_ok env e" and others: "\<And>j. j \<noteq> i \<Longrightarrow> keeps j e e'" and own: "keeps_task env i e e'"
    and same: "phase_of i e' = phase_of i e" "en_locks e' = en_locks e"
  shows "locks_ok env e'"
proof -
  have pre: "\<exists>t. task_at j e = Some t \<and> same_lock env t t' \<and> phase_of j e' = phase_of j e" if "task_at j e' = Some t'" for j t'
  proof (cases "j = i")
    case True
    then show ?thesis using own that same by (cases "task_at i e") (auto simp: keeps_task_def)
  next
    case False
    then show ?thesis using others [OF False] that by (auto simp: keeps_def task_at_def phase_of_def)
  qed
  have post: "\<exists>t'. task_at j e' = Some t' \<and> same_lock env t t' \<and> phase_of j e' = phase_of j e" if "task_at j e = Some t" for j t
  proof (cases "j = i")
    case True
    then show ?thesis using own that same by (cases "task_at i e'") (auto simp: keeps_task_def)
  next
    case False
    then show ?thesis using others [OF False] that by (auto simp: keeps_def task_at_def phase_of_def)
  qed
  show ?thesis
    unfolding locks_ok_def
  proof (intro conjI allI impI)
    fix j t' assume j: "task_at j e' = Some t'"
    obtain t where t: "task_at j e = Some t" "same_lock env t t'" "phase_of j e' = phase_of j e" using pre [OF j] by blast
    { assume "lock_phase (phase_of j e')" "needs_workspace_write_lock env t'"
      then show "\<exists>ws. lock_key env t' = Some ws \<and> en_locks e' ws = Some j"
        using locks_okD(1) [OF ok t(1)] t same by (simp add: same_lock_def) }
    { assume "lock_waiting (phase_of j e')"
      then show "wants_lock env t'" using locks_okD(2) [OF ok t(1)] t by (simp add: same_lock_def wants_lock_def) }
  next
    fix ws j assume "en_locks e' ws = Some j"
    then obtain t where t: "task_at j e = Some t" "needs_workspace_write_lock env t" "lock_key env t = Some ws"
      "lock_phase (phase_of j e) \<or> phase_of j e = Crashed" using locks_okD(3) [OF ok, of ws j] same by auto
    then show "\<exists>t. task_at j e' = Some t \<and> needs_workspace_write_lock env t \<and> lock_key env t = Some ws \<and>
        (lock_phase (phase_of j e') \<or> phase_of j e' = Crashed)" using post [OF t(1)] by (auto simp: same_lock_def)
  qed
qed

lemma run_step_locks:
  assumes wf: "engine_wf e0 e" and ok: "locks_ok env e" and step: "run_step env now oc i e = Some e'"
  shows "locks_ok env e'"
proof -
  obtain th r where tr: "en_threads e i = Some th" "map_of (en_records e) i = Some r"
    "thread_step env now oc i th (tr_task r) e = Some e'" using step by (rule run_stepE)
  define t where "t = tr_task r"
  define ph where "ph = phase_of i e"
  define ph' where "ph' = phase_of i e'"
  have ph: "th_phase th = ph" using tr(1) by (simp add: ph_def phase_of_def)
  have t: "task_at i e = Some t" using tr(2) by (simp add: task_at_def t_def)
  have eff: "lock_effect env i t ph ph' (en_locks e) (en_locks e')"
    using thread_step_shared [OF tr(3,1)] ph by (simp add: t_def ph'_def)
  have live: "ph \<noteq> Crashed" using tr(3) ph by (auto simp: thread_step_def)
  obtain t' where t': "task_at i e' = Some t'" "same_lock env t t'"
    using run_step_effect(3) [OF wf step] t by (cases "task_at i e'") (auto simp: keeps_task_def)
  have oth: "task_at j e' = task_at j e" "phase_of j e' = phase_of j e" if "j \<noteq> i" for j
    using run_step_effect(2) [OF wf step that] by (simp_all add: keeps_def task_at_def phase_of_def)
  have nw: "needs_workspace_write_lock env t' = needs_workspace_write_lock env t" "lock_key env t' = lock_key env t"
    using t'(2) by (simp_all add: same_lock_def)
  have waits: "wants_lock env t" if "lock_waiting ph'"
    using eff that locks_okD(2) [OF ok t] ph_def by (auto simp: lock_effect_def)
  have held: "\<exists>ws. lock_key env t = Some ws \<and> en_locks e ws = Some i" if "lock_phase ph" "needs_workspace_write_lock env t"
    using locks_okD(1) [OF ok t] that ph_def by simp
  consider (acq) ws where "acquires ph ph'" "lock_key env t = Some ws" "en_locks e ws = None" "en_locks e' = (en_locks e)(ws \<mapsto> i)"
    | (rel) "lock_phase ph" "\<not> lock_phase ph'" "en_locks e' = unlocked env t (en_locks e)"
    | (same) "\<not> acquires ph ph'" "en_locks e' = en_locks e" "lock_phase ph \<longrightarrow> lock_phase ph' \<or> ph' = Crashed"
    using eff by (auto simp: lock_effect_def split: if_splits)
  note cs = this
  have kept: "en_locks e' ws = Some j" if j: "j \<noteq> i" "en_locks e ws = Some j" for ws j
    using cs
  proof cases
    case rel
    then show ?thesis using j held by (auto simp: unlocked_def)
  qed (use j in auto)
  have gone: "en_locks e ws = Some j \<and> (j = i \<longrightarrow> lock_phase ph' \<or> ph' = Crashed)" if j: "en_locks e' ws = Some j" "\<not> acquires ph ph'" for ws j
    using cs
  proof cases
    case rel
    have "en_locks e ws = Some j" using rel(3) j(1) by (auto simp: unlocked_def split: if_splits)
    moreover have "j \<noteq> i"
    proof
      assume "j = i"
      then have "needs_workspace_write_lock env t" "lock_key env t = Some ws" using locks_okD(3) [OF ok, of ws i] calculation t by auto
      then show False using rel(3) j(1) by (simp add: unlocked_def)
    qed
    ultimately show ?thesis by simp
  next
    case same
    then show ?thesis using j locks_okD(3) [OF ok, of ws i] t live ph_def by auto
  qed (use j in auto)
  show ?thesis
    unfolding locks_ok_def
  proof (intro conjI allI impI)
    fix j u assume j: "task_at j e' = Some u"
    { assume "lock_phase (phase_of j e')" "needs_workspace_write_lock env u"
      show "\<exists>ws. lock_key env u = Some ws \<and> en_locks e' ws = Some j"
      proof (cases "j = i")
        case False
        then show ?thesis using locks_okD(1) [OF ok, of j u] oth [OF False] j kept [OF False] \<open>lock_phase (phase_of j e')\<close>
          \<open>needs_workspace_write_lock env u\<close> by auto
      next
        case True
        then have u: "u = t'" "lock_phase ph'" "needs_workspace_write_lock env t"
          using j t'(1) nw \<open>lock_phase (phase_of j e')\<close> \<open>needs_workspace_write_lock env u\<close> ph'_def by auto
        show ?thesis using cs
        proof cases
          case same
          then have "lock_phase ph" using eff u by (auto simp: lock_effect_def)
          then show ?thesis using held u same nw True by simp
        qed (use u nw True in auto)
      qed }
    { assume "lock_waiting (phase_of j e')"
      then show "wants_lock env u"
        using waits nw j t'(1) oth [of j] wants_lock_def locks_okD(2) [OF ok, of j u] ph'_def by (cases "j = i") auto }
  next
    fix ws j assume l: "en_locks e' ws = Some j"
    show "\<exists>t. task_at j e' = Some t \<and> needs_workspace_write_lock env t \<and> lock_key env t = Some ws \<and>
        (lock_phase (phase_of j e') \<or> phase_of j e' = Crashed)"
    proof (cases "acquires ph ph' \<and> j = i")
      case True
      then obtain ws' where a: "lock_key env t = Some ws'" "en_locks e' = (en_locks e)(ws' \<mapsto> i)"
        using eff by (auto simp: lock_effect_def)
      have "en_locks e ws \<noteq> Some i"
        using locks_okD(3) [OF ok, of ws i] True t live ph_def by (auto simp: acquires_def)
      then have "ws = ws'" using a(2) l True by (simp split: if_splits)
      moreover have "needs_workspace_write_lock env t" using waits True by (auto simp: acquires_def wants_lock_def)
      moreover have "lock_phase ph'" using True by (auto simp: acquires_def)
      ultimately show ?thesis using t'(1) nw a True ph'_def by auto
    next
      case False
      show ?thesis
      proof (cases "j = i")
        case True
        then have "en_locks e ws = Some i" "lock_phase ph' \<or> ph' = Crashed" using gone [OF l] False by auto
        then show ?thesis using locks_okD(3) [OF ok, of ws i] t t'(1) nw True ph'_def by auto
      next
        case ji: False
        have "en_locks e ws = Some j" using cs l ji by cases (auto simp: unlocked_def split: if_splits)
        then show ?thesis using locks_okD(3) [OF ok, of ws j] oth [OF ji] by auto
      qed
    qed
  qed
qed

lemma keeps_shared: "keeps i e e' \<Longrightarrow> phase_of i e' = phase_of i e" "keeps i e e' \<Longrightarrow> task_at i e' = task_at i e"
  by (simp_all add: keeps_def phase_of_def task_at_def)

lemma keeps_keeps_task: "keeps i e e' \<Longrightarrow> keeps_task env i e e'"
  by (simp add: keeps_def keeps_task_def task_at_def option.rel_refl)

lemma admitted_phase: "admit_task env now t e = (e', Admitted) \<Longrightarrow> phase_of (tk_id t) e' = Received"
  using prepare_task_id
  by (auto simp: admit_task_def Let_def goto_def phase_of_def split: prod.splits sum.splits if_splits)

lemma submit_locks:
  assumes wf: "engine_wf e0 e" and ok: "locks_ok env e" and fresh: "map_of (en_records e) (tk_id t) = None"
    and a: "admit_task env now t e = (e', ans)"
  shows "locks_ok env e'"
proof (cases "ans = Admitted")
  case False
  have k: "keeps j e e'" for j using admit_task_effect(2) [OF a False] by blast
  show ?thesis
    by (rule locks_ok_keeps [OF ok _ keeps_keeps_task [OF k] keeps_shared(1) [OF k] admit_task_effect(5) [OF a]]) (rule k)
next
  case True
  let ?i = "tk_id t"
  have none: "task_at ?i e = None" using fresh by (simp add: task_at_def)
  have ph: "phase_of ?i e' = Received" using a True admitted_phase by blast
  have oth: "phase_of j e' = phase_of j e \<and> task_at j e' = task_at j e" if "j \<noteq> ?i" for j
    using admit_task_effect(1) [OF a that] keeps_shared by blast
  have l: "en_locks e' = en_locks e" by (rule admit_task_effect(5) [OF a])
  show ?thesis
    unfolding locks_ok_def
  proof (intro conjI allI impI)
    fix j u assume j: "task_at j e' = Some u"
    { assume "lock_phase (phase_of j e')" "needs_workspace_write_lock env u"
      then show "\<exists>ws. lock_key env u = Some ws \<and> en_locks e' ws = Some j"
        using j ph oth [of j] l locks_okD(1) [OF ok, of j u] by (cases "j = ?i") auto }
    { assume "lock_waiting (phase_of j e')"
      then show "wants_lock env u"
        using j ph oth [of j] locks_okD(2) [OF ok, of j u] by (cases "j = ?i") auto }
  next
    fix ws j assume "en_locks e' ws = Some j"
    then have h: "en_locks e ws = Some j" using l by simp
    then have "j \<noteq> ?i" using locks_okD(3) [OF ok, of ws j] none by auto
    then show "\<exists>t. task_at j e' = Some t \<and> needs_workspace_write_lock env t \<and> lock_key env t = Some ws \<and>
        (lock_phase (phase_of j e') \<or> phase_of j e' = Crashed)"
      using locks_okD(3) [OF ok h] oth [of j] by simp
  qed
qed

lemma cancel_locks:
  assumes wf: "engine_wf e0 e" and ok: "locks_ok env e" and c: "cancel_task env now oc i e = (e', ans)"
  shows "locks_ok env e'"
proof -
  have idt: "\<forall>r. map_of (en_records e) i = Some r \<longrightarrow> tk_id (tr_task r) = i" using engine_wfD(2) [OF wf] by blast
  note ce = cancel_task_effect [OF c idt]
  have "phase_of i e' = phase_of i e" using ce(5) by (simp add: phase_of_def)
  from locks_ok_keeps [OF ok ce(1) ce(4) this ce(8)] show ?thesis .
qed

text \<open>The three kinds of steps, for invariants that speak of the whole engine.\<close>

lemma reached_cases [consumes 2, case_names start submit cancel run]:
  assumes "reached env allowed e0 e" and "fresh_engine e0" and "P e0"
    and "\<And>e t now e' ans. engine_wf e0 e \<Longrightarrow> P e \<Longrightarrow> map_of (en_records e) (tk_id t) = None \<Longrightarrow>
      admit_task env now t e = (e', ans) \<Longrightarrow> P e'"
    and "\<And>e i now oc e' ans. engine_wf e0 e \<Longrightarrow> P e \<Longrightarrow> cancel_task env now oc i e = (e', ans) \<Longrightarrow> P e'"
    and "\<And>e i now oc e'. engine_wf e0 e \<Longrightarrow> P e \<Longrightarrow> run_step env now oc i e = Some e' \<Longrightarrow> P e'"
  shows "P e"
  using assms(1)
proof (induction rule: reached.induct)
  case reached_start
  show ?case by (rule assms(3))
next
  case (reached_step e oc a now e')
  have wf: "engine_wf e0 e" by (rule reached_wf [OF reached_step.hyps(1) assms(2)])
  show ?case
  proof (cases a)
    case (Submit t)
    then have fresh: "map_of (en_records e) (tk_id t) = None" and e': "e' = fst (admit_task env now t e)"
      using reached_step.hyps(3) by (auto simp: engine_step_def split: if_splits)
    show ?thesis using assms(4) [OF wf reached_step.IH fresh, of now e' "snd (admit_task env now t e)"] e' by simp
  next
    case (Cancel i)
    then have e': "e' = fst (cancel_task env now oc i e)" using reached_step.hyps(3) by (simp add: engine_step_def)
    show ?thesis using assms(5) [OF wf reached_step.IH, of now oc i e' "snd (cancel_task env now oc i e)"] e' by simp
  next
    case (Run i)
    then show ?thesis using assms(6) [OF wf reached_step.IH] reached_step.hyps(3) by (simp add: engine_step_def)
  qed
qed

lemma fresh_locks: "fresh_engine e \<Longrightarrow> locks_ok env e"
  by (auto simp: fresh_engine_def locks_ok_def task_at_def)

lemma reached_locks:
  assumes "reached env allowed e0 e" "fresh_engine e0"
  shows "locks_ok env e"
proof (rule reached_cases [where P = "locks_ok env", OF assms fresh_locks [OF assms(2)]])
  show "\<And>e t now e' ans. engine_wf e0 e \<Longrightarrow> locks_ok env e \<Longrightarrow> map_of (en_records e) (tk_id t) = None \<Longrightarrow>
    admit_task env now t e = (e', ans) \<Longrightarrow> locks_ok env e'" by (rule submit_locks)
  show "\<And>e i now oc e' ans. engine_wf e0 e \<Longrightarrow> locks_ok env e \<Longrightarrow> cancel_task env now oc i e = (e', ans) \<Longrightarrow> locks_ok env e'"
    by (rule cancel_locks)
  show "\<And>e i now oc e'. engine_wf e0 e \<Longrightarrow> locks_ok env e \<Longrightarrow> run_step env now oc i e = Some e' \<Longrightarrow> locks_ok env e'"
    by (rule run_step_locks)
qed

section \<open>The pool of workers and the count of running tasks\<close>

definition at_work :: "(phase \<Rightarrow> bool) \<Rightarrow> engine \<Rightarrow> string set" where
  "at_work P e = {i. en_threads e i \<noteq> None \<and> P (phase_of i e)}"

definition pool_ok :: "engine_env \<Rightarrow> engine \<Rightarrow> bool" where
  "pool_ok env e \<longleftrightarrow> finite (dom (en_threads e)) \<and> en_idle e + card (at_work worker_phase e) = ee_workers env \<and>
     int (card (at_work run_phase e)) \<le> en_running e \<and>
     ((\<forall>i. phase_of i e \<noteq> Crashed) \<longrightarrow> en_running e = int (card (at_work run_phase e)))"

lemma finite_at_work: "finite (dom (en_threads e)) \<Longrightarrow> finite (at_work P e)"
  by (rule finite_subset [of _ "dom (en_threads e)"]) (auto simp: at_work_def)

text \<open>How one thread's step changes such a set.\<close>

lemma at_work_step:
  assumes oth: "\<And>j. j \<noteq> i \<Longrightarrow> en_threads e' j = en_threads e j" and "en_threads e' i \<noteq> None" and fin: "finite (dom (en_threads e))"
  shows "finite (dom (en_threads e'))"
    and "card (at_work P e') + (if en_threads e i \<noteq> None \<and> P (phase_of i e) then 1 else 0) =
      card (at_work P e) + (if P (phase_of i e') then 1 else 0)"
proof -
  have "dom (en_threads e') \<subseteq> insert i (dom (en_threads e))" using oth by (auto simp: dom_def)
  then show "finite (dom (en_threads e'))" using fin by (meson finite.insertI finite_subset)
  define rest where "rest = at_work P e - {i}"
  have fr: "finite rest" "i \<notin> rest" using finite_at_work [OF fin] by (simp_all add: rest_def)
  have rest': "at_work P e' - {i} = rest" using oth by (auto simp: at_work_def rest_def phase_of_def)
  have a: "at_work P e = (if en_threads e i \<noteq> None \<and> P (phase_of i e) then insert i rest else rest)"
    by (auto simp: rest_def at_work_def)
  have b: "at_work P e' = (if P (phase_of i e') then insert i rest else rest)"
    using rest' assms(2) by (auto simp: at_work_def)
  show "card (at_work P e') + (if en_threads e i \<noteq> None \<and> P (phase_of i e) then 1 else 0) =
      card (at_work P e) + (if P (phase_of i e') then 1 else 0)"
    unfolding a b using fr by simp
qed

lemma run_step_pool:
  assumes wf: "engine_wf e0 e" and ok: "pool_ok env e" and step: "run_step env now oc i e = Some e'"
  shows "pool_ok env e'"
proof -
  obtain th r where tr: "en_threads e i = Some th" "map_of (en_records e) i = Some r"
    "thread_step env now oc i th (tr_task r) e = Some e'" using step by (rule run_stepE)
  let ?ph = "phase_of i e" and ?ph' = "phase_of i e'"
  have ph: "th_phase th = ?ph" using tr(1) by (simp add: phase_of_def)
  have eff: "pool_effect ?ph ?ph' e e'" using thread_step_shared [OF tr(3,1)] ph by simp
  have live: "?ph \<noteq> Crashed" using tr(3) ph by (auto simp: thread_step_def)
  have oth: "en_threads e' j = en_threads e j" if "j \<noteq> i" for j
    using run_step_effect(2) [OF wf step that] by (simp add: keeps_def)
  have fin: "finite (dom (en_threads e))" using ok by (simp add: pool_ok_def)
  have th': "en_threads e' i \<noteq> None" by (rule run_step_thread [OF tr(3,1)])
  note st = at_work_step [OF oth th' fin]
  have w: "card (at_work worker_phase e') + (if worker_phase ?ph then 1 else 0) =
      card (at_work worker_phase e) + (if worker_phase ?ph' then 1 else 0)" using st(2) [of worker_phase] tr(1) by simp
  have u: "card (at_work run_phase e') + (if run_phase ?ph then 1 else 0) =
      card (at_work run_phase e) + (if run_phase ?ph' then 1 else 0)" using st(2) [of run_phase] tr(1) by simp
  have idle: "en_idle e' + card (at_work worker_phase e') = ee_workers env"
    using w eff ok by (auto simp: pool_effect_def pool_ok_def split: if_splits)
  have run: "int (card (at_work run_phase e')) \<le> en_running e' \<and>
      (?ph' \<noteq> Crashed \<and> en_running e = int (card (at_work run_phase e)) \<longrightarrow> en_running e' = int (card (at_work run_phase e')))"
    using u eff ok by (cases "?ph = Leaving") (auto simp: pool_effect_def pool_ok_def split: if_splits)
  have "\<forall>j. phase_of j e \<noteq> Crashed" if "\<forall>j. phase_of j e' \<noteq> Crashed"
    using that live oth by (metis phase_of_def)
  then show ?thesis using st(1) idle run ok by (auto simp: pool_ok_def)
qed

lemma submit_pool:
  assumes wf: "engine_wf e0 e" and ok: "pool_ok env e" and fresh: "map_of (en_records e) (tk_id t) = None"
    and a: "admit_task env now t e = (e', ans)"
  shows "pool_ok env e'"
proof -
  note eff = admit_task_effect [OF a]
  have none: "en_threads e (tk_id t) = None" using engine_wfD(1) [OF wf] fresh by simp
  have same: "at_work P e' = at_work P e" if "\<not> P Received" for P
  proof (cases "ans = Admitted")
    case True
    then have "phase_of (tk_id t) e' = Received" using a admitted_phase by blast
    then have i: "tk_id t \<notin> at_work P e" "tk_id t \<notin> at_work P e'" using none that by (simp_all add: at_work_def)
    have "j \<in> at_work P e' \<longleftrightarrow> j \<in> at_work P e" for j
      using eff(1) [of j] i by (cases "j = tk_id t") (auto simp: at_work_def keeps_def phase_of_def)
    then show ?thesis by blast
  next
    case False
    then show ?thesis using eff(2) by (auto simp: at_work_def phase_of_def)
  qed
  have fin: "finite (dom (en_threads e'))"
  proof -
    have "dom (en_threads e') \<subseteq> insert (tk_id t) (dom (en_threads e))" using eff(1) by (auto simp: keeps_def dom_def)
    then show ?thesis using ok by (meson finite.insertI finite_subset pool_ok_def)
  qed
  have "\<forall>j. phase_of j e \<noteq> Crashed" if "\<forall>j. phase_of j e' \<noteq> Crashed"
  proof
    fix j show "phase_of j e \<noteq> Crashed"
    proof (cases "j = tk_id t")
      case True
      then show ?thesis using none by (simp add: phase_of_def)
    next
      case False
      then show ?thesis using that keeps_shared(1) [OF eff(1) [OF False]] by metis
    qed
  qed
  then show ?thesis using ok fin same [of worker_phase] same [of run_phase] eff(4,6) by (simp add: pool_ok_def)
qed

lemma reached_pool:
  assumes "reached env allowed e0 e" "fresh_engine e0" "en_idle e0 = ee_workers env"
  shows "pool_ok env e"
proof (rule reached_cases [where P = "pool_ok env", OF assms(1,2)])
  show "pool_ok env e0" using assms(2,3) by (simp add: pool_ok_def fresh_engine_def at_work_def)
  show "\<And>e t now e' ans. engine_wf e0 e \<Longrightarrow> pool_ok env e \<Longrightarrow> map_of (en_records e) (tk_id t) = None \<Longrightarrow>
    admit_task env now t e = (e', ans) \<Longrightarrow> pool_ok env e'" by (rule submit_pool)
  show "pool_ok env e'" if "engine_wf e0 e" "pool_ok env e" "cancel_task env now oc i e = (e', ans)" for e i now oc e' ans
  proof -
    have idt: "\<forall>r. map_of (en_records e) i = Some r \<longrightarrow> tk_id (tr_task r) = i" using engine_wfD(2) [OF that(1)] by blast
    show ?thesis using that(2) cancel_task_effect(5,7,9) [OF that(3) idt] by (simp add: pool_ok_def at_work_def phase_of_def)
  qed
  show "\<And>e i now oc e'. engine_wf e0 e \<Longrightarrow> pool_ok env e \<Longrightarrow> run_step env now oc i e = Some e' \<Longrightarrow> pool_ok env e'"
    by (rule run_step_pool)
qed

end
