(* ===== verification/EngineSafety.thy ===== *)
theory EngineSafety
  imports EngineProps EngineLocks
begin

text \<open>
  Properties of the engine as a whole: writing runs exclude each other, the pool of workers bounds
  the runs, a worker past the deadline of its wait comes to an end, and what an exception of the
  channel at the start of a run leaves behind.
\<close>

section \<open>Exclusion\<close>

lemma phase_at [simp]: "en_threads e i = Some th \<Longrightarrow> phase_of i e = th_phase th"
  by (simp add: phase_of_def)

lemma tiny_idle [simp]: "en_idle tiny_start = ee_workers tiny_env"
  by (simp add: tiny_start_def start_engine_def)

text \<open>C31: Runs that write to one workspace exclude each other. In every state the engine reaches, however
  the steps of submitters, workers and cancels interleave and whatever the channels and other
  processes answer, no two tasks in workspace-write mode whose workspaces resolve to the same path
  are between the taking and the release of the lock.\<close>

theorem write_runs_exclude:
  assumes "reached env any_step e0 e" and "fresh_engine e0"
    and "map_of (en_records e) i = Some r" and "map_of (en_records e) j = Some s"
    and "needs_workspace_write_lock env (tr_task r)" and "needs_workspace_write_lock env (tr_task s)"
    and "lock_key env (tr_task r) = lock_key env (tr_task s)"
    and "lock_phase (phase_of i e)" and "lock_phase (phase_of j e)"
  shows "i = j"
proof -
  have ok: "locks_ok env e" by (rule reached_locks [OF assms(1,2)])
  have "task_at i e = Some (tr_task r)" "task_at j e = Some (tr_task s)" using assms(3,4) by (simp_all add: task_at_def)
  then show ?thesis using locks_okD(1) [OF ok _ assms(8,5)] locks_okD(1) [OF ok _ assms(9,6)] assms(7) by auto
qed

definition two_writers :: "(int \<times> answers \<times> act) list" where
  \<comment> \<open>the second one waits\<close>
  "two_writers = submits ''t'' @ submits ''s'' @ runs 7 ''t'' @ runs 5 ''s''"

lemma two_writers_first:
  "map_option th_phase (en_threads (after tiny_env two_writers tiny_start) ''t'') = Some (Executing 1)"
  by code_simp

lemma two_writers_second:
  "map_option th_phase (en_threads (after tiny_env two_writers tiny_start) ''s'') = Some (ThreadBlocked (60 * usec_per_sec))"
  by code_simp

lemma two_writers_records:
  "map_option (\<lambda>r. (needs_workspace_write_lock tiny_env (tr_task r), lock_key tiny_env (tr_task r)))
    (map_of (en_records (after tiny_env two_writers tiny_start)) ''t'') = Some (True, Some [''w''])"
  by code_simp

lemma two_writers_records2:
  "map_option (\<lambda>r. (needs_workspace_write_lock tiny_env (tr_task r), lock_key tiny_env (tr_task r)))
    (map_of (en_records (after tiny_env two_writers tiny_start)) ''s'') = Some (True, Some [''w''])"
  by code_simp

lemma two_writers_allowed: "acts_allowed tiny_env any_step two_writers tiny_start"
  by code_simp

theorem write_runs_exclude_witness:
  "lock_phase (phase_of ''t'' (after tiny_env two_writers tiny_start)) \<and> \<not> lock_phase (phase_of ''s'' (after tiny_env two_writers tiny_start))"
proof -
  let ?e = "after tiny_env two_writers tiny_start"
  have t: "phase_of ''t'' ?e = Executing 1" using two_writers_first unfolding phase_of_def map_option_eq_Some by force
  obtain r where r: "map_of (en_records ?e) ''t'' = Some r" "needs_workspace_write_lock tiny_env (tr_task r)"
    "lock_key tiny_env (tr_task r) = Some [''w'']" using two_writers_records unfolding map_option_eq_Some by blast
  obtain s where s: "map_of (en_records ?e) ''s'' = Some s" "needs_workspace_write_lock tiny_env (tr_task s)"
    "lock_key tiny_env (tr_task s) = Some [''w'']" using two_writers_records2 unfolding map_option_eq_Some by blast
  have "lock_key tiny_env (tr_task r) = lock_key tiny_env (tr_task s)" using r(3) s(3) by simp
  from write_runs_exclude [OF tiny_reached [OF two_writers_allowed] tiny_start_fresh(1) r(1) s(1) r(2) s(2) this]
  show ?thesis unfolding t by force
qed

section \<open>The pool\<close>

text \<open>C32: At most as many tasks as there are workers are being worked on, and the \<open>running_tasks\<close> of the
  status report is never lower than the number of the tasks in a run. It is exactly that number as
  long as no thread has died of an exception; after that it may stay too high.\<close>

theorem workers_bounded:
  assumes "reached env any_step e0 e" and "fresh_engine e0" and "en_idle e0 = ee_workers env"
  shows "card (at_work worker_phase e) \<le> ee_workers env \<and> int (card (at_work run_phase e)) \<le> en_running e \<and>
    ((\<forall>i. phase_of i e \<noteq> Crashed) \<longrightarrow> en_running e = int (card (at_work run_phase e)))"
  using reached_pool [OF assms] by (simp add: pool_ok_def)

theorem workers_bounded_witness:
  "card (at_work worker_phase (after tiny_env two_writers tiny_start)) \<le> 2"
  using workers_bounded [OF tiny_reached [OF two_writers_allowed] tiny_start_fresh(1) tiny_idle]
  by (simp add: tiny_env_def)

section \<open>Every worker comes to an end\<close>

definition steps_left :: "nat \<Rightarrow> phase \<Rightarrow> nat" where
  "steps_left n ph = (case ph of
       Received \<Rightarrow> 3 * n + 22 | Registered \<Rightarrow> 3 * n + 21 | Validated \<Rightarrow> 3 * n + 20 | Enqueuing \<Rightarrow> 3 * n + 19
     | Waiting \<Rightarrow> 3 * n + 18 | Taken \<Rightarrow> 3 * n + 17
     | ThreadBlocked dl \<Rightarrow> 3 * n + 16 | ThreadLock dl \<Rightarrow> 3 * n + 15 | FileBlocked dl h \<Rightarrow> 3 * n + 14 | FileLock dl \<Rightarrow> 3 * n + 13
     | Holding \<Rightarrow> 3 * n + 12 | Entering \<Rightarrow> 3 * n + 11
     | Attempt k \<Rightarrow> 3 * (n - k) + 10 | Executing k \<Rightarrow> 3 * (n - k) + 9 | Retrying k r \<Rightarrow> 3 * (n - k) + 8
     | Finishing r \<Rightarrow> 7 | Closing r \<Rightarrow> 6 | Canceling p b \<Rightarrow> 5 | Failing m \<Rightarrow> 4 | Leaving \<Rightarrow> 3
     | Busy m \<Rightarrow> 7 | Refused m \<Rightarrow> 6 | Done \<Rightarrow> 0 | Crashed \<Rightarrow> 0)"

definition polls :: "phase \<Rightarrow> phase \<Rightarrow> bool" where
  \<comment> \<open>the lock was not to be had, and the wait goes on\<close>
  "polls ph ph' \<longleftrightarrow> (case ph of ThreadLock dl \<Rightarrow> ph' = ThreadBlocked dl | FileLock dl \<Rightarrow> (\<exists>h. ph' = FileBlocked dl h) | _ \<Rightarrow> False)"

lemma move_rank:
  assumes "task_move n ok ok2 v v'" "round_ok n (vw_phase v)"
  shows "steps_left n (vw_phase v') < steps_left n (vw_phase v) \<or> polls (vw_phase v) (vw_phase v')"
  using assms
  by (cases rule: task_move.cases)
    (auto simp: steps_left_def polls_def vw_to_def vw_note_def vw_set_def vw_end_def round_ok_def split: if_splits)

definition due :: "int \<Rightarrow> phase \<Rightarrow> bool" where
  \<comment> \<open>at work, and past the deadline if it waits for the workspace\<close>
  "due T ph \<longleftrightarrow> (case ph of ThreadLock dl \<Rightarrow> dl \<le> T | ThreadBlocked dl \<Rightarrow> dl \<le> T | FileLock dl \<Rightarrow> dl \<le> T
     | FileBlocked dl h \<Rightarrow> dl \<le> T | Received \<Rightarrow> False | Registered \<Rightarrow> False | Validated \<Rightarrow> False | Enqueuing \<Rightarrow> False
     | Waiting \<Rightarrow> False | Taken \<Rightarrow> False | _ \<Rightarrow> True)"

fun drive :: "engine_env \<Rightarrow> string \<Rightarrow> (nat \<Rightarrow> int \<times> answers) \<Rightarrow> nat \<Rightarrow> engine \<Rightarrow> engine" where
  \<comment> \<open>up to \<open>k\<close> steps of task \<open>i\<close>, with the times and answers of \<open>f\<close>\<close>
  "drive env i f 0 e = e"
| "drive env i f (Suc k) e = (case run_step env (fst (f k)) (snd (f k)) i e of None \<Rightarrow> e | Some e' \<Rightarrow> drive env i f k e')"

lemma move_due:
  assumes "task_move n ok ok2 v v'" "due T (vw_phase v)"
  shows "due T (vw_phase v')"
  using assms
  by (cases rule: task_move.cases)
    (auto simp: due_def vw_to_def vw_note_def vw_set_def vw_end_def split: if_splits)

lemma no_poll_when_due:
  assumes "thread_step env now oc i th t e = Some e'" "due T (th_phase th)" "T \<le> now"
  shows "\<not> polls (th_phase th) (phase_of i e')"
proof (cases "th_phase th")
  case (ThreadLock dl)
  then obtain ws where "e' = worker_thread_lock env now i th dl ws e" "dl \<le> now" using assms by (auto simp: thread_step_def due_def)
  then show ?thesis using ThreadLock by (auto simp: worker_thread_lock_def polls_def)
next
  case (FileLock dl)
  then obtain ws where "e' = worker_file_lock env now oc i t th dl ws e" "dl \<le> now" using assms by (auto simp: thread_step_def due_def)
  then show ?thesis using FileLock by (cases "oc_file oc") (auto simp: worker_file_lock_def polls_def)
qed (simp_all add: polls_def)

lemma view_phase: "en_threads e i = Some th \<Longrightarrow> vw_phase (task_view i e) = th_phase th"
  by (simp add: task_view_def Let_def)

lemma view_phase_of: "en_threads e i \<noteq> None \<Longrightarrow> vw_phase (task_view i e) = phase_of i e"
  by (auto simp: task_view_def Let_def phase_of_def)

lemma due_step:
  assumes reached: "reached env any_step e0 e" "fresh_engine e0" and due: "due T (phase_of i e)" and now: "T \<le> now"
    and at: "en_threads e i \<noteq> None" and active: "phase_of i e \<notin> {Done, Crashed}"
  shows "\<exists>e'. run_step env now oc i e = Some e' \<and> reached env any_step e0 e' \<and> en_threads e' i \<noteq> None \<and>
    due T (phase_of i e') \<and> steps_left (ee_max_retries env + 1) (phase_of i e') < steps_left (ee_max_retries env + 1) (phase_of i e)"
proof -
  let ?n = "ee_max_retries env + 1"
  have wf: "engine_wf e0 e" by (rule reached_wf [OF reached])
  obtain th where th: "en_threads e i = Some th" using at by auto
  obtain r where r: "map_of (en_records e) i = Some r" using engine_wfD(1) [OF wf, of i] th by fastforce
  have key: "lock_waiting (th_phase th) \<Longrightarrow> lock_key env (tr_task r) \<noteq> None"
    using locks_okD(2) [OF reached_locks [OF reached], of i "tr_task r"] th r by (simp add: task_at_def wants_lock_def)
  have "thread_step env now oc i th (tr_task r) e \<noteq> None"
    using due active key th by (cases "th_phase th") (auto simp: thread_step_def due_def)
  then obtain e' where e': "thread_step env now oc i th (tr_task r) e = Some e'" by blast
  have step: "run_step env now oc i e = Some e'" using e' th r by (simp add: run_step_def)
  have th': "en_threads e' i \<noteq> None" by (rule run_step_thread [OF e' th])
  note mv = run_step_effect(1) [OF wf step]
  have nn: "map_of (en_records e) i \<noteq> None" using r by simp
  have round_i: "round_ok ?n (vw_phase (task_view i e))" using reached_typed [OF reached nn] by (simp add: typed_view_def)
  have "\<not> polls (vw_phase (task_view i e)) (vw_phase (task_view i e'))"
    using no_poll_when_due [OF e' _ now] due th view_phase [OF th] view_phase_of [OF th'] by simp
  then have "steps_left ?n (phase_of i e') < steps_left ?n (phase_of i e)"
    using move_rank [OF mv round_i] view_phase_of [OF th'] view_phase_of [OF at] by simp
  moreover have "due T (phase_of i e')" using move_due [OF mv] due view_phase_of [OF th'] view_phase_of [OF at] by simp
  moreover have "reached env any_step e0 e'"
    by (rule reached_step [where oc = oc and a = "Run i" and now = now, OF reached(1)]) (simp_all add: engine_step_def step)
  ultimately show ?thesis using step th' by blast
qed

lemma drive_ends:
  assumes "reached env any_step e0 e" "fresh_engine e0" "due T (phase_of i e)" "en_threads e i \<noteq> None" "\<And>k. T \<le> fst (f k)"
    "steps_left (ee_max_retries env + 1) (phase_of i e) \<le> k"
  shows "phase_of i (drive env i f k e) \<in> {Done, Crashed}"
  using assms(1,3,4,6)
proof (induction k arbitrary: e)
  case 0
  then show ?case by (cases "phase_of i e") (auto simp: steps_left_def)
next
  case (Suc k)
  show ?case
  proof (cases "phase_of i e \<in> {Done, Crashed}")
    case True
    have "run_step env now oc i e = None" for now oc
      using True by (auto simp: run_step_def thread_step_def phase_of_def split: option.splits)
    then show ?thesis using True by simp
  next
    case False
    obtain e' where e': "run_step env (fst (f k)) (snd (f k)) i e = Some e'" "reached env any_step e0 e'" "en_threads e' i \<noteq> None"
      "due T (phase_of i e')" "steps_left (ee_max_retries env + 1) (phase_of i e') < steps_left (ee_max_retries env + 1) (phase_of i e)"
      using due_step [OF Suc.prems(1) assms(2) Suc.prems(2) assms(5) Suc.prems(3) False] by blast
    then show ?thesis using Suc.IH [OF e'(2,4,3)] Suc.prems(4) by simp
  qed
qed

text \<open>C33: Every worker comes to an end. A task whose worker is past the wait for its workspace, or past
  the deadline of that wait, is finished within a number of its own steps that the phase and the
  number of retries fix, whatever the channel, the executor and the other processes answer: no
  retry, cancellation or failure path runs in circles.\<close>

theorem worker_ends:
  assumes "reached env any_step e0 e" and "fresh_engine e0" and "en_threads e i = Some th"
    and "due T (th_phase th)" and "\<And>k. T \<le> fst (f k)"
  shows "phase_of i (drive env i f (steps_left (ee_max_retries env + 1) (th_phase th)) e) \<in> {Done, Crashed}"
  using drive_ends [OF assms(1,2) _ _ assms(5), of i] assms(3,4) by simp

theorem worker_ends_witness:
  "phase_of ''s'' (drive tiny_env ''s'' (\<lambda>k. (60 * usec_per_sec, flaky)) 22 (after tiny_env two_writers tiny_start)) \<in> {Done, Crashed}"
proof -
  obtain th where th: "en_threads (after tiny_env two_writers tiny_start) ''s'' = Some th" "th_phase th = ThreadBlocked (60 * usec_per_sec)"
    using two_writers_second unfolding map_option_eq_Some by blast
  have "due (60 * usec_per_sec) (th_phase th)" using th(2) by (simp add: due_def)
  from worker_ends [OF tiny_reached [OF two_writers_allowed] tiny_start_fresh(1) th(1) this, of "\<lambda>k. (60 * usec_per_sec, flaky)"]
  show ?thesis using th(2) by (simp add: steps_left_def tiny_env_def)
qed

section \<open>Every task is answered\<close>

text \<open>Without a channel error a worker dies only of the locks: when the workspace does not resolve, or when
  the lock file cannot be opened or locked.\<close>

definition locks_work :: "engine_env \<Rightarrow> string \<Rightarrow> answers \<Rightarrow> act \<Rightarrow> engine \<Rightarrow> bool" where
  "locks_work env i oc a e \<longleftrightarrow> (a = Run i \<longrightarrow> oc_file oc \<noteq> LockError \<and>
     (case map_of (en_records e) i of None \<Rightarrow> True | Some r \<Rightarrow> phase_of i e = Taken \<longrightarrow> lock_key env (tr_task r) \<noteq> None))"

definition untroubled :: "engine_env \<Rightarrow> string \<Rightarrow> answers \<Rightarrow> act \<Rightarrow> engine \<Rightarrow> bool" where
  "untroubled env i oc a e \<longleftrightarrow> undisturbed i oc a e \<and> locks_work env i oc a e"

lemma crash_phase:
  assumes "task_move n True True v v'" and "vw_phase v' = Crashed"
  shows "vw_phase v = Taken \<or> (\<exists>dl. vw_phase v = FileLock dl)"
  using assms by (cases rule: task_move.cases) (auto simp: vw_simps split: if_splits)

lemma crash_cause:
  assumes step: "thread_step env now oc i th (tr_task r) e = Some e'" and th: "en_threads e i = Some th"
    and r: "map_of (en_records e) i = Some r" "tk_id (tr_task r) = i"
    and ok: "oc_ok oc" "oc_ok2 oc" and crash: "phase_of i e' = Crashed"
  shows "oc_file oc = LockError \<or> (th_phase th = Taken \<and> lock_key env (tr_task r) = None)"
proof -
  have "en_threads e' i \<noteq> None" by (rule run_step_thread [OF step th])
  then have "vw_phase (task_view i e') = Crashed" using crash view_phase_of by metis
  moreover have "task_move (ee_max_retries env + 1) True True (task_view i e) (task_view i e')"
    using thread_step_move [OF step th r] ok by simp
  ultimately consider "th_phase th = Taken" | dl where "th_phase th = FileLock dl"
    using crash_phase view_phase [OF th] by metis
  then show ?thesis
  proof cases
    case 1
    then show ?thesis using step crash
      by (auto simp: thread_step_def worker_lock_def engine_defs phase_of_def split: if_splits option.splits)
  next
    case 2
    then show ?thesis using step crash
      by (cases "oc_file oc")
        (auto simp: thread_step_def worker_file_lock_def release_lock_def engine_defs phase_of_def split: if_splits option.splits)
  qed
qed

lemma reached_weaken:
  "reached env allowed e0 e \<Longrightarrow> (\<And>oc a x. allowed oc a x \<Longrightarrow> allowed' oc a x) \<Longrightarrow> reached env allowed' e0 e"
  by (induction rule: reached.induct) (auto intro: reached.intros)

lemma never_crashed:
  assumes "reached env (untroubled env i) e0 e" and "fresh_engine e0" and "en_threads e i \<noteq> None"
  shows "phase_of i e \<noteq> Crashed"
  using assms(1,3)
proof (induction rule: reached.induct)
  case reached_start
  then show ?case using assms(2) by (simp add: fresh_engine_def)
next
  case (reached_step e oc a now e')
  have any: "reached env any_step e0 e" by (rule reached_weaken [OF reached_step.hyps(1)]) simp
  have wf: "engine_wf e0 e" by (rule reached_wf [OF any assms(2)])
  have u: "undisturbed i oc a e" "locks_work env i oc a e" using reached_step.hyps(2) by (simp_all add: untroubled_def)
  have kept: "phase_of i e' \<noteq> Crashed" if k: "keeps i e e'"
    using k reached_step.IH reached_step.prems by (simp add: keeps_def phase_of_def)
  show ?case
  proof (cases a)
    case (Submit t)
    have fresh: "map_of (en_records e) (tk_id t) = None" and e': "e' = fst (admit_task env now t e)"
      using reached_step.hyps(3) Submit by (auto simp: engine_step_def split: if_splits)
    obtain ans where ad: "admit_task env now t e = (e', ans)" using e' by (cases "admit_task env now t e") auto
    show ?thesis
    proof (cases "ans = Admitted \<and> i = tk_id t")
      case True
      then show ?thesis using admitted_phase ad by simp
    next
      case False
      then show ?thesis using kept admit_task_effect(1,2) [OF ad] by blast
    qed
  next
    case (Cancel j)
    obtain ans where c: "cancel_task env now oc j e = (e', ans)"
      using reached_step.hyps(3) Cancel by (cases "cancel_task env now oc j e") (auto simp: engine_step_def)
    have idt: "\<forall>r. map_of (en_records e) j = Some r \<longrightarrow> tk_id (tr_task r) = j" using engine_wfD(2) [OF wf] by blast
    note ce = cancel_task_effect [OF c idt]
    have "en_threads e' = en_threads e" by (rule ce(5))
    then show ?thesis using reached_step.IH reached_step.prems by (simp add: phase_of_def)
  next
    case (Run j)
    have st: "run_step env now oc j e = Some e'" using reached_step.hyps(3) Run by (simp add: engine_step_def)
    show ?thesis
    proof (cases "i = j")
      case True
      obtain th r where tr: "en_threads e i = Some th" "map_of (en_records e) i = Some r"
        "thread_step env now oc i th (tr_task r) e = Some e'" using st True by (auto elim: run_stepE)
      have ok: "oc_ok oc" "oc_ok2 oc" using u(1) Run True by (simp_all add: undisturbed_def)
      show ?thesis
        using crash_cause [OF tr(3,1,2) engine_wfD(2) [OF wf tr(2)] ok] u(2) Run True tr(1,2)
        by (auto simp: locks_work_def phase_of_def)
    qed (use kept run_step_effect(2) [OF wf st] in blast)
  qed
qed

definition all_well :: "answers \<Rightarrow> bool" where
  \<comment> \<open>the channel takes what the step sends, and the lock file can be opened and locked\<close>
  "all_well oc \<longleftrightarrow> oc_ok oc \<and> oc_ok2 oc \<and> oc_file oc \<noteq> LockError"

lemma drive_untroubled:
  assumes "reached env (untroubled env i) e0 e" "fresh_engine e0" "due T (phase_of i e)" "en_threads e i \<noteq> None"
    and "\<And>k. T \<le> fst (f k) \<and> all_well (snd (f k))"
  shows "reached env (untroubled env i) e0 (drive env i f k e) \<and> en_threads (drive env i f k e) i \<noteq> None"
  using assms(1,3,4)
proof (induction k arbitrary: e)
  case (Suc k)
  have any: "reached env any_step e0 e" by (rule reached_weaken [OF Suc.prems(1)]) simp
  show ?case
  proof (cases "phase_of i e \<in> {Done, Crashed}")
    case True
    then have "run_step env now oc i e = None" for now oc
      by (auto simp: run_step_def thread_step_def phase_of_def split: option.splits)
    then show ?thesis using Suc.prems by simp
  next
    case False
    obtain e' where e': "run_step env (fst (f k)) (snd (f k)) i e = Some e'" "en_threads e' i \<noteq> None" "due T (phase_of i e')"
      using due_step [OF any assms(2) Suc.prems(2) conjunct1 [OF assms(5)] Suc.prems(3) False] by blast
    have "untroubled env i (snd (f k)) (Run i) e"
      using assms(5) [of k] Suc.prems(2) by (auto simp: untroubled_def undisturbed_def locks_work_def all_well_def due_def split: option.splits)
    then have "reached env (untroubled env i) e0 e'"
      by (rule reached_step [OF Suc.prems(1), where now = "fst (f k)"]) (simp add: engine_step_def e'(1))
    then show ?thesis using Suc.IH [OF _ e'(3,2)] e'(1) by simp
  qed
qed simp

lemma answered_once:
  assumes "reached env (untroubled env i) e0 e" and "fresh_engine e0" and "logged_statuses i e0 = []"
    and "due T (phase_of i e)" and "en_threads e i \<noteq> None" and "\<And>k. T \<le> fst (f k) \<and> all_well (snd (f k))"
  shows "results_of i (drive env i f (steps_left (ee_max_retries env + 1) (phase_of i e)) e) = 1"
proof -
  let ?e = "drive env i f (steps_left (ee_max_retries env + 1) (phase_of i e)) e"
  have any: "reached env any_step e0 e" by (rule reached_weaken [OF assms(1)]) simp
  have r: "reached env (untroubled env i) e0 ?e" and th: "en_threads ?e i \<noteq> None"
    using drive_untroubled [where f = f, OF assms(1,2,4,5,6)] by blast+
  have "phase_of i ?e \<in> {Done, Crashed}" by (rule drive_ends [OF any assms(2,4,5) conjunct1 [OF assms(6)] order_refl])
  then have over: "phase_of i ?e = Done" using never_crashed [OF r assms(2) th] by simp
  have calm: "reached env (undisturbed i) e0 ?e" by (rule reached_weaken [OF r]) (simp add: untroubled_def)
  have wf: "engine_wf e0 ?e" by (rule reached_wf [OF reached_weaken [OF r] assms(2)]) simp
  obtain t rec where t: "en_threads ?e i = Some t" "map_of (en_records ?e) i = Some rec"
    using th engine_wfD(1) [OF wf, of i] by fastforce
  have "th_phase t = Done" using over t(1) by (simp add: phase_of_def)
  then show ?thesis using calm_result [OF calm assms(2,3) t(2,1)] by simp
qed

text \<open>C29: A task is answered exactly once. As long as the channel raises on no message of the task and no
  cancel of it arrives in one of the windows where the engine has looked at the record and not yet
  written it, the channel gets no result before the task is over and exactly one from then on,
  however cancels, lock waits, retries and executor failures fall; a task whose thread is through
  has that result and a final status. If besides the workspace resolves and its lock file can
  always be opened and locked, a task whose worker is past the wait for the workspace, or past its
  deadline, does get that one result within a fixed number of its own steps.\<close>

theorem one_result:
  assumes "reached env (undisturbed i) e0 e" and "fresh_engine e0" and "logged_statuses i e0 = []"
    and "map_of (en_records e) i = Some r" and "en_threads e i = Some th"
  shows "results_of i e = (if tr_finished r = None then 0 else 1) \<and>
    (th_phase th = Done \<longrightarrow> tr_status r \<in> {''RETURNED'', ''FAILED'', ''CANCELED''} \<and> results_of i e = 1) \<and>
    (reached env (untroubled env i) e0 e \<and> due T (th_phase th) \<and> (\<forall>k. T \<le> fst (f k) \<and> all_well (snd (f k))) \<longrightarrow>
      results_of i (drive env i f (steps_left (ee_max_retries env + 1) (th_phase th)) e) = 1)"
proof -
  have ph: "phase_of i e = th_phase th" "en_threads e i \<noteq> None" using assms(5) by (simp_all add: phase_of_def)
  have "results_of i (drive env i f (steps_left (ee_max_retries env + 1) (th_phase th)) e) = 1"
    if "reached env (untroubled env i) e0 e \<and> due T (th_phase th) \<and> (\<forall>k. T \<le> fst (f k) \<and> all_well (snd (f k)))"
    using answered_once [of env i e0 e T f] that assms(2,3) ph by simp
  then show ?thesis using calm_result [OF assms] by blast
qed

definition to_attempt :: "(int \<times> answers \<times> act) list" where
  "to_attempt = submits ''t'' @ runs 6 ''t''"

lemma to_attempt_allowed: "acts_allowed tiny_env (undisturbed ''t'') to_attempt tiny_start"
    "acts_allowed tiny_env (untroubled tiny_env ''t'') to_attempt tiny_start"
  by code_simp+

lemma to_attempt_phase: "map_option th_phase (en_threads (after tiny_env to_attempt tiny_start) ''t'') = Some (Attempt 1)"
    "map_of (en_records (after tiny_env to_attempt tiny_start)) ''t'' \<noteq> None"
  by code_simp+

theorem one_result_witness:
  "results_of ''t'' (drive tiny_env ''t'' (\<lambda>k. (0, flaky)) 13 (after tiny_env to_attempt tiny_start)) = 1"
proof -
  obtain r th where s: "map_of (en_records (after tiny_env to_attempt tiny_start)) ''t'' = Some r"
    "en_threads (after tiny_env to_attempt tiny_start) ''t'' = Some th" "th_phase th = Attempt 1"
    using to_attempt_phase unfolding map_option_eq_Some by blast
  have "due 0 (th_phase th)" "steps_left (ee_max_retries tiny_env + 1) (th_phase th) = 13" "all_well flaky"
    using s(3) by (simp_all add: due_def steps_left_def tiny_env_def all_well_def flaky_def fine_def)
  with one_result [OF tiny_reached [OF to_attempt_allowed(1)] tiny_start_fresh s(1,2), of 0 "\<lambda>k. (0, flaky)"]
    tiny_reached [OF to_attempt_allowed(2)]
  show ?thesis by simp
qed

text \<open>When the lock file cannot be opened, the task is never answered: its worker is gone, the record says
  \<open>QUEUED\<close> and no step is left.\<close>

definition broken_lock :: answers where
  "broken_lock = fine\<lparr> oc_file := LockError \<rparr>"

lemma lock_error_unanswered:
  "let e = after tiny_env (submits ''t'' @ runs 3 ''t'' @ [(0, broken_lock, Run ''t'')]) tiny_start in
   phase_of ''t'' e = Crashed \<and> results_of ''t'' e = 0 \<and> map_option tr_status (map_of (en_records e) ''t'') = Some ''QUEUED'' \<and>
   run_step tiny_env 0 fine ''t'' e = None"
  by code_simp

section \<open>An exception of the channel at the start of a run\<close>

lemma run_step_keeps_lock:
  assumes wf: "engine_wf e0 e" and ok: "locks_ok env e" and step: "run_step env now oc i e = Some e'"
    and j: "j \<noteq> i" "en_locks e ws = Some j"
  shows "en_locks e' ws = Some j"
proof -
  obtain th r where tr: "en_threads e i = Some th" "map_of (en_records e) i = Some r"
    "thread_step env now oc i th (tr_task r) e = Some e'" using step by (rule run_stepE)
  have eff: "lock_effect env i (tr_task r) (th_phase th) (phase_of i e') (en_locks e) (en_locks e')"
    using thread_step_shared [OF tr(3,1)] by simp
  have held: "\<exists>ws. lock_key env (tr_task r) = Some ws \<and> en_locks e ws = Some i"
    if "lock_phase (th_phase th)" "needs_workspace_write_lock env (tr_task r)"
    using locks_okD(1) [OF ok, of i "tr_task r"] that tr(1,2) by (simp add: task_at_def)
  show ?thesis using eff held j by (auto simp: lock_effect_def unlocked_def split: if_splits)
qed

lemma crashed_stays:
  assumes "reached env any_step e e'" and "reached env any_step e0 e" and "fresh_engine e0"
    and "en_locks e ws = Some i" and "en_threads e i = Some th" and "th_phase th = Crashed"
    and "vw_status (task_view i e) = ''RUNNING''"
  shows "reached env any_step e0 e' \<and> en_locks e' ws = Some i \<and> en_threads e' i = Some th \<and> vw_status (task_view i e') = ''RUNNING''"
  using assms(1)
proof (induction rule: reached.induct)
  case reached_start
  then show ?case using assms by simp
next
  case (reached_step e1 oc a now e2)
  have r1: "reached env any_step e0 e1" and l: "en_locks e1 ws = Some i" and t: "en_threads e1 i = Some th"
    and s: "vw_status (task_view i e1) = ''RUNNING''" using reached_step.IH by blast+
  have wf: "engine_wf e0 e1" by (rule reached_wf [OF r1 assms(3)])
  have r2: "reached env any_step e0 e2" by (rule reached.reached_step [OF r1 _ reached_step.hyps(3)]) simp
  have kept: "en_threads e2 i = Some th \<and> vw_status (task_view i e2) = ''RUNNING''" if k: "keeps i e1 e2"
    using k keeps_view [OF k] t s by (simp add: keeps_def)
  show ?case
  proof (cases a)
    case (Submit u)
    then obtain ans where ad: "admit_task env now u e1 = (e2, ans)" and fresh: "map_of (en_records e1) (tk_id u) = None"
      using reached_step.hyps(3) by (cases "admit_task env now u e1") (auto simp: engine_step_def split: if_splits)
    have "tk_id u \<noteq> i" using engine_wfD(1) [OF wf, of i] t fresh by auto
    then show ?thesis using kept admit_task_effect(1,5) [OF ad] l r2 by metis
  next
    case (Cancel j)
    then obtain ans where c: "cancel_task env now oc j e1 = (e2, ans)"
      using reached_step.hyps(3) by (cases "cancel_task env now oc j e1") (auto simp: engine_step_def)
    have idt: "\<forall>r. map_of (en_records e1) j = Some r \<longrightarrow> tk_id (tr_task r) = j" using engine_wfD(2) [OF wf] by blast
    note ce = cancel_task_effect [OF c idt]
    show ?thesis
    proof (cases "j = i")
      case True
      have nn: "map_of (en_records e1) j \<noteq> None" using engine_wfD(1) [OF wf, of i] t True by auto
      have "vw_status (task_view i e2) = ''RUNNING''" using ce(3) [OF nn] s True by (simp add: vw_cancel_task_def terminal_statuses_def)
      then show ?thesis using ce(5,8) t l r2 by simp
    next
      case False
      then show ?thesis using kept ce(1) [of i] ce(8) l r2 by simp
    qed
  next
    case (Run j)
    then have st: "run_step env now oc j e1 = Some e2" using reached_step.hyps(3) by (simp add: engine_step_def)
    have ji: "j \<noteq> i"
    proof
      assume "j = i"
      then show False using st t assms(6) by (auto simp: run_step_def thread_step_def split: option.splits)
    qed
    then have "en_locks e2 ws = Some i" by (intro run_step_keeps_lock [OF wf reached_locks [OF r1 assms(3)] st _ l]) simp
    then show ?thesis using kept run_step_effect(2) [OF wf st, of i] ji r2 by simp
  qed
qed

text \<open>C34: An exception of the channel when the start of a run is announced is outside the \<open>try\<close> of
  \<open>_execute_task\<close>. The worker goes on, but in every later state the task is still reported as
  running and its workspace lock is still taken, so no task that writes to this workspace will ever
  run again in this process.\<close>

theorem lost_start_locks_workspace:
  assumes "reached env any_step e0 e" and "fresh_engine e0" and "en_threads e i = Some th" and "th_phase th = Entering"
    and "map_of (en_records e) i = Some r" and "needs_workspace_write_lock env (tr_task r)"
    and "\<not> oc_ok oc" and "run_step env now oc i e = Some e'" and "reached env any_step e' e''"
  shows "\<exists>ws. lock_key env (tr_task r) = Some ws \<and> en_locks e'' ws = Some i \<and> vw_status (task_view i e'') = ''RUNNING'' \<and>
    (\<forall>j s. map_of (en_records e'') j = Some s \<and> needs_workspace_write_lock env (tr_task s) \<and> lock_key env (tr_task s) = Some ws \<longrightarrow>
       \<not> lock_phase (phase_of j e''))"
proof -
  have wf: "engine_wf e0 e" by (rule reached_wf [OF assms(1,2)])
  obtain ws where ws: "lock_key env (tr_task r) = Some ws" "en_locks e ws = Some i"
    using locks_okD(1) [OF reached_locks [OF assms(1,2)], of i "tr_task r"] assms(3-6) by (auto simp: task_at_def)
  have st: "e' = worker_entering env now oc i (tr_task r) th e"
    using assms(3-5,8) by (simp add: run_step_def thread_step_def)
  then have e': "en_locks e' ws = Some i" "en_threads e' i = Some (th\<lparr> th_phase := Crashed \<rparr>)" "vw_status (task_view i e') = ''RUNNING''"
    using assms(5,7) ws(2) by (simp_all add: worker_entering_def Let_def engine_defs task_view_def)
  have r': "reached env any_step e0 e'"
    by (rule reached_step [where oc = oc and a = "Run i" and now = now, OF assms(1)]) (simp_all add: engine_step_def assms(8))
  note late = crashed_stays [OF assms(9) r' assms(2) e'(1,2) _ e'(3)]
  have r'': "reached env any_step e0 e''" and l: "en_locks e'' ws = Some i" and t: "en_threads e'' i = Some (th\<lparr> th_phase := Crashed \<rparr>)"
    and s: "vw_status (task_view i e'') = ''RUNNING''" using late by simp_all
  have "\<not> lock_phase (phase_of j e'')"
    if s: "map_of (en_records e'') j = Some s" "needs_workspace_write_lock env (tr_task s)" "lock_key env (tr_task s) = Some ws" for j s
  proof
    assume p: "lock_phase (phase_of j e'')"
    have "task_at j e'' = Some (tr_task s)" using s(1) by (simp add: task_at_def)
    then have "en_locks e'' ws = Some j" using locks_okD(1) [OF reached_locks [OF r'' assms(2)] _ p s(2)] s(3) by auto
    then have "j = i" using l by simp
    then show False using p t by simp
  qed
  then show ?thesis using ws(1) l s by blast
qed

lemma to_entering_phase: "map_option th_phase (en_threads (after tiny_env to_entering tiny_start) ''t'') = Some Entering"
  by code_simp

lemma to_entering_record:
  "map_option (\<lambda>r. (needs_workspace_write_lock tiny_env (tr_task r), lock_key tiny_env (tr_task r)))
    (map_of (en_records (after tiny_env to_entering tiny_start)) ''t'') = Some (True, Some [''w''])"
  by code_simp

lemma to_entering_allowed: "acts_allowed tiny_env any_step to_entering tiny_start"
  by code_simp

lemma to_entering_mute: "run_step tiny_env 0 mute ''t'' (after tiny_env to_entering tiny_start) \<noteq> None"
proof -
  obtain th r where "en_threads (after tiny_env to_entering tiny_start) ''t'' = Some th" "th_phase th = Entering"
    "map_of (en_records (after tiny_env to_entering tiny_start)) ''t'' = Some r"
    using to_entering_phase to_entering_record unfolding map_option_eq_Some by blast
  then show ?thesis by (simp add: run_step_def thread_step_def)
qed

theorem lost_start_locks_workspace_witness:
  "\<exists>e. run_step tiny_env 0 mute ''t'' (after tiny_env to_entering tiny_start) = Some e \<and> en_locks e [''w''] = Some ''t''"
proof -
  let ?e = "after tiny_env to_entering tiny_start"
  obtain e' where e': "run_step tiny_env 0 mute ''t'' ?e = Some e'" using to_entering_mute by blast
  obtain th where th: "en_threads ?e ''t'' = Some th" "th_phase th = Entering"
    using to_entering_phase unfolding map_option_eq_Some by blast
  obtain r where r: "map_of (en_records ?e) ''t'' = Some r" "needs_workspace_write_lock tiny_env (tr_task r)"
    "lock_key tiny_env (tr_task r) = Some [''w'']" using to_entering_record unfolding map_option_eq_Some by blast
  have "\<not> oc_ok mute" by (simp add: mute_def)
  from lost_start_locks_workspace [OF tiny_reached [OF to_entering_allowed] tiny_start_fresh(1) th r(1,2) this e' reached_start]
  show ?thesis using e' r(3) by simp
qed

end
