(* ===== verification/ModelTargets.thy ===== *)
theory ModelTargets
  imports IsoTime JsonLines
begin

text \<open>
  From a requested model and effort to what an agent is launched with
  (\<open>executors/model_resolution.py\<close>): the catalog of an agent, the lookup in it, its errors with
  their payloads, and the model agy reports in its log.
\<close>

section \<open>Catalogs\<close>

record model_option =
  mo_family :: string
  mo_label :: string
  mo_efforts :: "string list"
  mo_default :: string
  mo_variants :: "(string \<times> string) list"

record model_catalog =
  mc_agent :: string
  mc_options :: "model_option list"
  mc_encodes :: bool
  mc_status :: string
  mc_error :: string

record model_target =
  mt_model :: string
  mt_effort :: string
  mt_source :: string

text \<open>A \<open>ModelResolutionError\<close> is its payload.\<close>

type_synonym resolution = "dict + model_target"

definition launch_target :: "string \<Rightarrow> string \<Rightarrow> string \<Rightarrow> model_target" where
  "launch_target m e s = \<lparr> mt_model = m, mt_effort = e, mt_source = s \<rparr>"

section \<open>Matching\<close>

definition by_family :: "string \<Rightarrow> model_option list \<Rightarrow> model_option option" where
  "by_family low opts = find (\<lambda>x. lower (mo_family x) = low) opts"

definition variant_named :: "string \<Rightarrow> model_option \<Rightarrow> (string \<times> string) option" where
  "variant_named low x = find (\<lambda>(e, m). lower m = low) (mo_variants x)"

fun by_variant :: "string \<Rightarrow> model_option list \<Rightarrow> (model_option \<times> string) option" where
  "by_variant low [] = None"
| "by_variant low (x # xs) = (case variant_named low x of None \<Rightarrow> by_variant low xs | Some (e, m) \<Rightarrow> Some (x, e))"

definition match_option :: "model_catalog \<Rightarrow> string \<Rightarrow> model_option option \<times> string option" where
  "match_option c requested =
     (if requested = [] then (None, None)
      else (let low = lower (strip requested) in
        case by_family low (mc_options c) of
          Some x \<Rightarrow> (Some x, None)
        | None \<Rightarrow> (case by_variant low (mc_options c) of Some (x, e) \<Rightarrow> (Some x, Some e) | None \<Rightarrow> (None, None))))"

section \<open>Errors\<close>

definition next_tools :: "string \<times> json" where
  "next_tools = (''next_tools'', JList [JStr ''list_agent_models''])"

definition json_strings :: "string list \<Rightarrow> json" where
  "json_strings xs = JList (map JStr xs)"

definition model_required :: "model_catalog \<Rightarrow> string \<Rightarrow> dict" where
  "model_required c effort = [(''reason'', JStr ''model-required''), (''agent'', JStr (mc_agent c)),
     (''requested_reasoning_effort'', JStr effort),
     (''next_action'', JStr (''reasoning_effort needs a model to apply to. Name one from '' @
        ''list_agent_models, or drop reasoning_effort to use the agent default.'')), next_tools]"

definition model_unknown :: "model_catalog \<Rightarrow> string \<Rightarrow> string \<Rightarrow> dict" where
  "model_unknown c model effort = [(''reason'', JStr ''model-unknown''), (''agent'', JStr (mc_agent c)),
     (''requested_model'', JStr model), (''requested_reasoning_effort'', JStr effort),
     (''catalog_status'', JStr (mc_status c)), (''available_models'', json_strings (map mo_family (mc_options c))),
     (''next_action'', JStr (mc_agent c @ '' encodes reasoning effort in the model id, so '' @
        [CHR 0x27] @ model @ [CHR 0x27] @ '' has to be a published model. Use one of '' @
        ''available_models, or pass an exact model id without reasoning_effort.'')), next_tools]"

definition no_effort_axis :: "model_catalog \<Rightarrow> model_option \<Rightarrow> string \<Rightarrow> string \<Rightarrow> dict" where
  "no_effort_axis c x model effort = [(''reason'', JStr ''no-effort-axis''), (''agent'', JStr (mc_agent c)),
     (''requested_model'', JStr model), (''requested_reasoning_effort'', JStr effort),
     (''available_reasoning_efforts'', JList []),
     (''next_action'', JStr (mo_family x @ '' is published as a single model with no reasoning '' @
        ''effort to choose. Drop reasoning_effort, or pick a model whose '' @
        ''supported_reasoning_efforts is non-empty.'')), next_tools]"

definition effort_unavailable :: "model_catalog \<Rightarrow> string \<Rightarrow> string \<Rightarrow> string list \<Rightarrow> string \<Rightarrow> dict" where
  "effort_unavailable c model effort available action = [(''reason'', JStr ''effort-unavailable''), (''agent'', JStr (mc_agent c)),
     (''requested_model'', JStr model), (''requested_reasoning_effort'', JStr effort),
     (''available_reasoning_efforts'', json_strings available), (''next_action'', JStr action), next_tools]"

definition listed_action :: "model_option \<Rightarrow> string" where
  "listed_action x = mo_family x @ '' is only published at '' @ join_with '', '' (mo_efforts x) @
     ''. Retry with one of those, or pass an '' @ ''exact model id without reasoning_effort.''"

definition variant_action :: "model_option \<Rightarrow> string \<Rightarrow> string list \<Rightarrow> string" where
  "variant_action x effort published = mo_family x @ '' publishes no id for effort '' @ [CHR 0x27] @ effort @ [CHR 0x27] @
     ''. Retry with '' @ ''one of '' @ str_or (join_with '', '' published) ''the listed efforts'' @ ''.''"

section \<open>Resolution\<close>

definition variant_target :: "model_catalog \<Rightarrow> model_option \<Rightarrow> string \<Rightarrow> string \<Rightarrow> string \<Rightarrow> resolution" where
  "variant_target c x model effort source = (case map_of (mo_variants x) effort of
       Some (m # ms) \<Rightarrow> Inr (launch_target (m # ms) [] source)
     | _ \<Rightarrow> (let published = filter (\<lambda>e. e \<noteq> []) (map fst (mo_variants x)) in
         Inl (effort_unavailable c model effort published (variant_action x effort published))))"

definition without_effort :: "model_catalog \<Rightarrow> string \<Rightarrow> resolution" where
  "without_effort c model = (case match_option c model of
       (Some x, None) \<Rightarrow>
         (if mo_efforts x \<noteq> [] \<and> mc_encodes c then variant_target c x model (mo_default x) ''family+default_effort''
          else Inr (launch_target model [] ''requested_override''))
     | _ \<Rightarrow> Inr (launch_target model [] ''requested_override''))"

definition with_effort :: "model_catalog \<Rightarrow> string \<Rightarrow> string \<Rightarrow> resolution" where
  "with_effort c model effort =
     (if model = [] then Inl (model_required c effort)
      else (case fst (match_option c model) of
          None \<Rightarrow> (if mc_encodes c then Inl (model_unknown c model effort) else Inr (launch_target model effort ''family+effort''))
        | Some x \<Rightarrow>
            (if mc_encodes c \<and> mo_efforts x = [] then Inl (no_effort_axis c x model effort)
             else if mo_efforts x \<noteq> [] \<and> effort \<notin> set (mo_efforts x)
               then Inl (effort_unavailable c model effort (mo_efforts x) (listed_action x))
             else if \<not> mc_encodes c then Inr (launch_target (mo_family x) effort ''family+effort'')
             else variant_target c x model effort ''family+effort'')))"

definition resolve_model_target :: "model_catalog \<Rightarrow> string \<Rightarrow> string \<Rightarrow> resolution" where
  "resolve_model_target c model reasoning_effort =
     (let requested = strip model; effort = lower (strip reasoning_effort) in
      if requested = [] \<and> effort = [] then Inr (launch_target [] [] ''executor_runtime'')
      else if effort = [] then without_effort c requested
      else with_effort c requested effort)"

section \<open>Reading a catalog\<close>

definition view_text :: "(json \<Rightarrow> string) \<Rightarrow> dict \<Rightarrow> string \<Rightarrow> string" where
  \<comment> \<open>\<open>str(d.get(key) or "")\<close>\<close>
  "view_text rp d k = py_str rp (py_or (dget d k) (JStr []))"

definition option_of :: "(json \<Rightarrow> string) \<Rightarrow> dict \<Rightarrow> model_option option" where
  "option_of rp d =
     (let family = strip (view_text rp d ''id'') in
      if family = [] then None
      else Some \<lparr> mo_family = family, mo_label = py_str rp (py_or (dget d ''label'') (JStr family)),
        mo_efforts = (case dget d ''supported_reasoning_efforts'' of JList xs \<Rightarrow> map (py_str rp) xs | _ \<Rightarrow> []),
        mo_default = view_text rp d ''default_reasoning_effort'',
        mo_variants = (case dget d ''variants'' of JDict vs \<Rightarrow> map (\<lambda>(k, v). (k, py_str rp v)) vs | _ \<Rightarrow> []) \<rparr>)"

definition model_catalog_from_view :: "(json \<Rightarrow> string) \<Rightarrow> dict \<Rightarrow> model_catalog" where
  "model_catalog_from_view rp view = \<lparr> mc_agent = view_text rp view ''agent'',
     mc_options = List.map_filter (option_of rp) (case dget view ''models'' of JList xs \<Rightarrow> dicts_of xs | _ \<Rightarrow> []),
     mc_encodes = (view_text rp view ''effort_encoding'' = ''model_id_suffix''),
     mc_status = py_str rp (py_or (dget view ''catalog_status'') (JStr ''fresh'')), mc_error = [] \<rparr>"

section \<open>The model agy reports\<close>

definition id_char :: "char \<Rightarrow> bool" where
  \<comment> \<open>\<open>[a-z0-9.]\<close>\<close>
  "id_char c \<longleftrightarrow> code CHR ''a'' \<le> code c \<and> code c \<le> code CHR ''z'' \<or> digit_of c \<noteq> None \<or> c = CHR ''.''"

fun dash_runs :: "string \<Rightarrow> string" where
  \<comment> \<open>\<open>re.sub(r"[^a-z0-9.]+", "-", value)\<close>\<close>
  "dash_runs [] = []"
| "dash_runs (c # cs) =
     (if id_char c then c # dash_runs cs
      else if cs \<noteq> [] \<and> \<not> id_char (hd cs) then dash_runs cs
      else CHR ''-'' # dash_runs cs)"

definition strip_dashes :: "string \<Rightarrow> string" where
  "strip_dashes s = rev (dropWhile (\<lambda>c. c = CHR ''-'') (rev (dropWhile (\<lambda>c. c = CHR ''-'') s)))"

definition antigravity_label_to_model_id :: "string \<Rightarrow> string" where
  "antigravity_label_to_model_id label =
     (let v = lower (strip label);
          v1 = map (\<lambda>c. if c = CHR ''('' \<or> c = CHR '')'' then CHR '' '' else c) v;
          v2 = strip_dashes (dash_runs v1) in
      if prefix ''claude-'' v2 then map (\<lambda>c. if c = CHR ''.'' then CHR ''-'' else c) v2 else v2)"

definition quote :: char where
  "quote = CHR 0x22"

definition backslash :: char where
  "backslash = CHR 0x5C"

definition label_here :: "string \<Rightarrow> (string \<times> string) option" where
  \<comment> \<open>the regular expression at this position: the label and what follows the match\<close>
  "label_here s =
     (let intro = ''Propagating selected model override to backend:'' in
      if \<not> prefix intro s then None
      else (let r = dropWhile is_space (drop (length intro) s) in
        if prefix (''label='' @ [backslash, quote]) r
        then (let q = drop 8 r; body = takeWhile (\<lambda>c. c \<noteq> quote) q; rest = dropWhile (\<lambda>c. c \<noteq> quote) q in
              if rest \<noteq> [] \<and> length body > 1 \<and> last body = backslash then Some (butlast body, tl rest) else None)
        else if prefix (''label='' @ [quote]) r
        then (let q = drop 7 r; body = takeWhile (\<lambda>c. c \<noteq> quote) q; rest = dropWhile (\<lambda>c. c \<noteq> quote) q in
              if rest \<noteq> [] \<and> body \<noteq> [] then Some (body, tl rest) else None)
        else None))"

fun labels_in :: "nat \<Rightarrow> string \<Rightarrow> string list" where
  \<comment> \<open>\<open>finditer\<close>; every round moves on by one character at least\<close>
  "labels_in 0 s = []"
| "labels_in (Suc n) s = (case s of [] \<Rightarrow> []
     | c # cs \<Rightarrow> (case label_here s of None \<Rightarrow> labels_in n cs | Some (l, rest) \<Rightarrow> l # labels_in n rest))"

definition extract_antigravity_resolved_model :: "string list \<Rightarrow> string" where
  \<comment> \<open>the sources as their texts, \<open>""\<close> for a file that cannot be read\<close>
  "extract_antigravity_resolved_model sources =
     fold (\<lambda>l selected. antigravity_label_to_model_id l) (concat (map (\<lambda>s. labels_in (length s) s) sources)) []"

section \<open>What a launch carries\<close>

text \<open>The catalog of an agent that publishes effort in the id, as its probe builds it: every effort
  offered is written as a request is, and has its own id.\<close>

definition coherent :: "model_catalog \<Rightarrow> bool" where
  "coherent c \<longleftrightarrow> (\<forall>x\<in>set (mc_options c).
     (\<forall>e\<in>set (mo_efforts x). e \<noteq> [] \<and> lower (strip e) = e \<and>
        (mc_encodes c \<longrightarrow> or_default (map_of (mo_variants x) e) [] \<noteq> [])) \<and>
     (mc_encodes c \<longrightarrow> (\<forall>p\<in>set (mo_variants x). fst p \<in> set (mo_efforts x))))"

lemma by_variant_found:
  assumes "by_variant low xs = Some (x, e)"
  shows "x \<in> set xs \<and> (\<exists>m. (e, m) \<in> set (mo_variants x) \<and> lower m = low)"
  using assms
proof (induction xs)
  case (Cons y ys)
  show ?case
  proof (cases "variant_named low y")
    case None
    with Cons show ?thesis by simp
  next
    case (Some p)
    then obtain m where "p = (e, m)" and "y = x" using Cons.prems by (cases p) simp
    with Some have "(e, m) \<in> set (mo_variants x) \<and> lower m = low"
      by (auto simp: variant_named_def find_Some_iff in_set_conv_nth)
    with \<open>y = x\<close> show ?thesis by auto

  qed
qed simp

lemma match_option_found:
  assumes "match_option c q = (Some x, carried)"
  shows "x \<in> set (mc_options c)"
    and "lower (mo_family x) = lower (strip q) \<or> (\<exists>e m. (e, m) \<in> set (mo_variants x) \<and> lower m = lower (strip q))"
proof -
  have "x \<in> set (mc_options c) \<and>
    (lower (mo_family x) = lower (strip q) \<or> (\<exists>e m. (e, m) \<in> set (mo_variants x) \<and> lower m = lower (strip q)))"
  proof (cases "by_family (lower (strip q)) (mc_options c)")
    case None
    with assms have "\<exists>e. by_variant (lower (strip q)) (mc_options c) = Some (x, e)"
      by (auto simp: match_option_def Let_def split: if_splits option.splits)
    then show ?thesis using by_variant_found by blast
  next
    case (Some y)
    with assms have "y = x" by (auto simp: match_option_def Let_def split: if_splits)
    with Some show ?thesis unfolding by_family_def find_Some_iff by (auto simp: set_conv_nth)
  qed
  then show "x \<in> set (mc_options c)"
    and "lower (mo_family x) = lower (strip q) \<or> (\<exists>e m. (e, m) \<in> set (mo_variants x) \<and> lower m = lower (strip q))"
    by blast+
qed

lemma match_option_strip: "match_option c (strip q) = (if strip q = [] then (None, None) else match_option c q)"
  by (auto simp: match_option_def)

lemma variant_target_found:
  "variant_target c x model effort src = Inr t \<Longrightarrow>
     map_of (mo_variants x) effort = Some (mt_model t) \<and> mt_model t \<noteq> [] \<and> mt_effort t = []"
  by (auto simp: variant_target_def launch_target_def Let_def split: option.splits list.splits)

lemma variant_target_works:
  "map_of (mo_variants x) effort = Some m \<Longrightarrow> m \<noteq> [] \<Longrightarrow> \<exists>t. variant_target c x model effort src = Inr t"
  by (auto simp: variant_target_def neq_Nil_conv)

lemma variant_target_offers:
  "variant_target c x model effort src = Inl err \<Longrightarrow>
     dget err ''available_reasoning_efforts'' = json_strings (filter (\<lambda>e. e \<noteq> []) (map fst (mo_variants x)))"
  by (auto simp: variant_target_def effort_unavailable_def Let_def split: option.splits list.splits)

lemma with_effort_works:
  assumes "coherent c" "fst (match_option c model) = Some x" "model \<noteq> []" "e \<in> set (mo_efforts x)"
  shows "\<exists>t. with_effort c model e = Inr t"
proof -
  from assms(2) have "x \<in> set (mc_options c)"
    using match_option_found(1) by (metis prod.collapse)
  with assms(1,4) have "mc_encodes c \<Longrightarrow> \<exists>m. map_of (mo_variants x) e = Some m \<and> m \<noteq> []"
    by (fastforce simp: coherent_def or_default_def split: option.splits)
  moreover have "mo_efforts x \<noteq> []" using assms(4) by auto
  ultimately show ?thesis
    using assms(2-4) variant_target_works by (cases "mc_encodes c") (auto simp: with_effort_def)
qed

lemma resolve_error_cases:
  assumes "resolve_model_target c model effort = Inl err" "dget err ''reason'' = JStr ''effort-unavailable''"
    and offered: "dget err ''available_reasoning_efforts'' = json_strings es"
  obtains x where "fst (match_option c (strip model)) = Some x" "strip model \<noteq> []"
    "es = mo_efforts x \<or> mc_encodes c \<and> es = filter (\<lambda>e. e \<noteq> []) (map fst (mo_variants x))"
proof (cases "lower (strip effort) = []")
  case True
  with assms(1) have w: "without_effort c (strip model) = Inl err"
    by (auto simp: resolve_model_target_def Let_def split: if_splits)
  then obtain x where x: "match_option c (strip model) = (Some x, None)" "mc_encodes c"
      "variant_target c x (strip model) (mo_default x) ''family+default_effort'' = Inl err"
    by (auto simp: without_effort_def split: prod.splits option.splits if_splits)
  have "strip model \<noteq> []" using x(1) by (auto simp: match_option_def)
  moreover have "es = filter (\<lambda>e. e \<noteq> []) (map fst (mo_variants x))"
    using variant_target_offers [OF x(3)] offered by (simp add: json_strings_def inj_map_eq_map inj_def)
  ultimately show ?thesis using that x(1,2) by simp
next
  case False
  with assms(1) have w: "with_effort c (strip model) (lower (strip effort)) = Inl err"
    by (auto simp: resolve_model_target_def Let_def split: if_splits)
  have m: "strip model \<noteq> []"
    using w assms(2) by (auto simp: with_effort_def model_required_def)
  then obtain x where x: "fst (match_option c (strip model)) = Some x"
    using w assms(2) by (auto simp: with_effort_def model_unknown_def split: option.splits if_splits)
  show ?thesis
  proof (cases "mo_efforts x \<noteq> [] \<and> lower (strip effort) \<notin> set (mo_efforts x)")
    case True
    with w x m offered have "es = mo_efforts x"
      by (auto simp: with_effort_def effort_unavailable_def json_strings_def inj_map_eq_map inj_def)
    with that x m show ?thesis by blast
  next
    case no: False
    with w x m assms(2) have v: "mc_encodes c" "variant_target c x (strip model) (lower (strip effort)) ''family+effort'' = Inl err"
      by (auto simp: with_effort_def no_effort_axis_def split: if_splits)
    then have "es = filter (\<lambda>e. e \<noteq> []) (map fst (mo_variants x))"
      using variant_target_offers [OF v(2)] offered by (simp add: json_strings_def inj_map_eq_map inj_def)
    with that x m v(1) show ?thesis by blast
  qed
qed

text \<open>C35: A launch never carries an effort nobody published: where effort is part of the model id, a
  request with an effort that is answered is launched with the very id the catalog publishes for
  that effort, of an option the request names by its family or by one of its ids, and with no
  effort flag.\<close>
theorem launched_id_is_published:
  assumes "mc_encodes c" "lower (strip effort) \<noteq> []" "resolve_model_target c model effort = Inr t"
  shows "mt_effort t = [] \<and> (\<exists>x\<in>set (mc_options c).
    map_of (mo_variants x) (lower (strip effort)) = Some (mt_model t) \<and> mt_model t \<noteq> [] \<and>
    lower (strip effort) \<in> set (mo_efforts x) \<and>
    (lower (mo_family x) = lower (strip model) \<or>
     (\<exists>e m. (e, m) \<in> set (mo_variants x) \<and> lower m = lower (strip model))))"
proof -
  from assms have w: "with_effort c (strip model) (lower (strip effort)) = Inr t"
    by (auto simp: resolve_model_target_def Let_def split: if_splits)
  then obtain x where x: "fst (match_option c (strip model)) = Some x"
    using assms(1) by (auto simp: with_effort_def split: if_splits option.splits)
  from w x assms(1) have v: "variant_target c x (strip model) (lower (strip effort)) ''family+effort'' = Inr t"
      "lower (strip effort) \<in> set (mo_efforts x)"
    by (auto simp: with_effort_def split: if_splits)
  obtain carried where m: "match_option c (strip model) = (Some x, carried)" using x by (metis prod.collapse)
  show ?thesis
    using variant_target_found [OF v(1)] v(2) match_option_found [OF m] by auto
qed

definition agy :: model_catalog where
  "agy = \<lparr> mc_agent = ''agy'', mc_options = [\<lparr> mo_family = ''gemini-3'', mo_label = ''Gemini 3'',
     mo_efforts = [''high'', ''low''], mo_default = ''high'',
     mo_variants = [(''high'', ''gemini-3-high''), (''low'', ''gemini-3-low'')] \<rparr>], mc_encodes = True,
     mc_status = ''fresh'', mc_error = [] \<rparr>"

lemma agy_high: "resolve_model_target agy ''Gemini-3-LOW'' '' High '' = Inr (launch_target ''gemini-3-high'' [] ''family+effort'')"
  by code_simp

theorem launched_id_is_published_witness:
  "\<exists>x\<in>set (mc_options agy). map_of (mo_variants x) (lower (strip '' High '')) = Some ''gemini-3-high''"
proof -
  have "mc_encodes agy" by code_simp
  moreover have "lower (strip '' High '') \<noteq> []" by code_simp
  ultimately show ?thesis
    using launched_id_is_published [OF _ _ agy_high] by (auto simp: launch_target_def)
qed

text \<open>A refused effort comes with a way out: whatever effort the refusal lists as available, the
  same model is resolved with it.\<close>
lemma offered_effort_is_accepted:
  assumes "coherent c" "resolve_model_target c model effort = Inl err"
    and "dget err ''reason'' = JStr ''effort-unavailable''"
    and "dget err ''available_reasoning_efforts'' = json_strings es" "e \<in> set es"
  shows "\<exists>t. resolve_model_target c model e = Inr t"
proof -
  obtain x where x: "fst (match_option c (strip model)) = Some x" "strip model \<noteq> []"
    "es = mo_efforts x \<or> mc_encodes c \<and> es = filter (\<lambda>e. e \<noteq> []) (map fst (mo_variants x))"
    using resolve_error_cases [OF assms(2-4)] by metis
  then have x_in: "x \<in> set (mc_options c)" using match_option_found(1) by (metis prod.collapse)
  have "e \<in> set (mo_efforts x)"
    using x(3) assms(1,5) x_in by (fastforce simp: coherent_def)
  moreover from this have "e \<noteq> []" "lower (strip e) = e" using assms(1) x_in by (auto simp: coherent_def)
  ultimately show ?thesis
    using with_effort_works [OF assms(1) x(1,2)] by (auto simp: resolve_model_target_def Let_def)
qed

definition refused :: dict where
  "refused = (case resolve_model_target agy ''gemini-3'' ''medium'' of Inl d \<Rightarrow> d | Inr t \<Rightarrow> [])"

lemma agy_medium: "resolve_model_target agy ''gemini-3'' ''medium'' = Inl refused"
  by code_simp

lemma agy_coherent: "coherent agy"
  by code_simp

end
