(* ===== verification/ControlCommands.thy ===== *)
theory ControlCommands
  imports EngineFacts
begin

text \<open>
  The control commands of the task engine (\<open>handle_control_command\<close> in \<open>core/engine.py\<close>): the texts
  of a chat that are answered by the engine itself, and what they change. A command reads the
  engine and, apart from \<open>cancel\<close>, writes only the conversations. The arrow that marks the active
  entry of a list lies beyond the characters of this development and is a parameter, and so are
  the listing of an agent's models and the rendering of a rate.
\<close>

section \<open>Surroundings and answers\<close>

datatype quota_file = NoQuota | BrokenQuota string | Quota json

record control_env =
  ct_engine :: engine_env
  ct_settings :: bool
  ct_chat_default :: string
  ct_view :: "json \<Rightarrow> string + dict"
  ct_rate :: "rat \<Rightarrow> string"
  ct_arrow :: string
  ct_quota :: quota_file
  ct_loads :: "string \<Rightarrow> json option"
  ct_started :: int

record control_response =
  cr_kind :: string
  cr_text :: string
  cr_data :: "dict option"

datatype control_outcome = Handled control_response | NotHandled | ControlRaised

definition reply :: "string \<Rightarrow> string \<Rightarrow> control_outcome" where
  "reply kind text = Handled \<lparr> cr_kind = kind, cr_text = text, cr_data = None \<rparr>"

definition control_repr :: "control_env \<Rightarrow> json \<Rightarrow> string" where
  "control_repr ce v = py_str (ee_repr (ct_engine ce)) v"

definition lines_text :: "string list \<Rightarrow> string" where
  "lines_text ls = join_with [LF] ls"

fun split_max :: "nat \<Rightarrow> string \<Rightarrow> string list" where
  \<comment> \<open>\<open>s.split(maxsplit=n)\<close>\<close>
  "split_max 0 s = (if lstrip s = [] then [] else [lstrip s])"
| "split_max (Suc n) s =
     (if lstrip s = [] then []
      else takeWhile (\<lambda>c. \<not> is_space c) (lstrip s) # split_max n (dropWhile (\<lambda>c. \<not> is_space c) (lstrip s)))"

definition second_part :: "string \<Rightarrow> string" where
  \<comment> \<open>\<open>cleaned.split(maxsplit=1)[1].strip()\<close> on a stripped text that has a space\<close>
  "second_part cleaned = strip (or_default (map_option id (case split_max 1 cleaned of [a, b] \<Rightarrow> Some b | _ \<Rightarrow> None)) [])"

definition either :: "string \<Rightarrow> string list" where
  \<comment> \<open>a command with and without its slash\<close>
  "either name = [name, CHR ''/'' # name]"

section \<open>Quota\<close>

fun py_type :: "json \<Rightarrow> string" where
  "py_type JNull = ''NoneType''"
| "py_type (JBool b) = ''bool''"
| "py_type (JInt n) = ''int''"
| "py_type (JFloat q) = ''float''"
| "py_type (JStr s) = ''str''"
| "py_type (JList xs) = ''list''"
| "py_type (JDict d) = ''dict''"

definition quota_error :: "string \<Rightarrow> dict" where
  "quota_error msg = [(''error'', JStr msg)]"

definition get_quota_payload :: "quota_file \<Rightarrow> dict" where
  "get_quota_payload f = (case f of
       NoQuota \<Rightarrow> quota_error ''Quota cache file not found.''
     | BrokenQuota msg \<Rightarrow> quota_error (''Error loading quota summary: '' @ msg)
     | Quota (JDict d) \<Rightarrow> (if truthy (dget d ''providers'') then d else quota_error ''No quota data found in cache.'')
     | Quota v \<Rightarrow> quota_error (''Error loading quota summary: '' @ [CHR 0x27] @ py_type v @ [CHR 0x27] @
                   '' object has no attribute '' @ [CHR 0x27] @ ''get'' @ [CHR 0x27]))"

section \<open>Models of an agent\<close>

definition active_executor_name :: "control_env \<Rightarrow> int \<Rightarrow> conversation \<Rightarrow> session_manager \<Rightarrow> json \<times> session_manager" where
  "active_executor_name ce now cv m = (case get_executor_override now cv m of
       (v, m') \<Rightarrow> (py_or v (JStr (ee_default (ct_engine ce))), m'))"

definition listed_ids :: "control_env \<Rightarrow> json list \<Rightarrow> string list" where
  "listed_ids ce xs = filter (\<lambda>s. s \<noteq> [])
     (map (\<lambda>d. strip (control_repr ce (py_or (dget d ''id'') (JStr [])))) (dicts_of xs))"

definition unavailable :: "control_env \<Rightarrow> json \<Rightarrow> dict \<Rightarrow> string" where
  "unavailable ce agent view = ''Model list unavailable for '' @ control_repr ce agent @ '': '' @
     control_repr ce (py_or (dget view ''summary'') (JStr ''unknown agent''))"

definition none_selectable :: "control_env \<Rightarrow> json \<Rightarrow> string" where
  "none_selectable ce agent = ''No selectable models found for '' @ control_repr ce agent @ ''.''"

definition loading_failed :: "control_env \<Rightarrow> json \<Rightarrow> string \<Rightarrow> string" where
  "loading_failed ce agent msg = ''Error loading models for '' @ control_repr ce agent @ '': '' @ msg"

definition selectable_model_ids :: "control_env \<Rightarrow> json \<Rightarrow> string + string list" where
  "selectable_model_ids ce agent =
     (if \<not> ct_settings ce then Inl ''Model switching is unavailable: gateway settings are not attached.''
      else (case ct_view ce agent of
          Inl msg \<Rightarrow> Inl (loading_failed ce agent msg)
        | Inr view \<Rightarrow>
            (if \<not> truthy (dget_or view ''found'' (JBool False)) then Inl (unavailable ce agent view)
             else (case dget view ''models'' of
                 JList xs \<Rightarrow> (if listed_ids ce xs = [] then Inl (none_selectable ce agent) else Inr (listed_ids ce xs))
               | _ \<Rightarrow> Inl (none_selectable ce agent)))))"

definition rate_text :: "control_env \<Rightarrow> json \<Rightarrow> string option" where
  "rate_text ce v = (case v of
       JInt n \<Rightarrow> Some (ct_rate ce (of_int n))
     | JFloat q \<Rightarrow> Some (ct_rate ce q)
     | JBool b \<Rightarrow> Some (ct_rate ce (if b then 1 else 0))
     | _ \<Rightarrow> None)"

definition rate_part :: "control_env \<Rightarrow> string \<Rightarrow> json \<Rightarrow> string list" where
  "rate_part ce label v = (case rate_text ce v of None \<Rightarrow> [] | Some s \<Rightarrow> [label @ s @ ''/1M''])"

definition model_price_detail :: "control_env \<Rightarrow> dict \<Rightarrow> string" where
  "model_price_detail ce item =
     (let ds = rate_part ce ''in=$'' (dget item ''input_per_1m'') @ rate_part ce ''out=$'' (dget item ''output_per_1m'') in
      if ds = [] then [] else '' ('' @ join_with '', '' ds @ '')'')"

definition model_line :: "control_env \<Rightarrow> string \<Rightarrow> string \<Rightarrow> dict \<Rightarrow> string option" where
  "model_line ce active standard item =
     (let i = strip (control_repr ce (py_or (dget item ''id'') (JStr [])));
          detail = model_price_detail ce item @ (case dget item ''supported_reasoning_efforts'' of
              JList (e # es) \<Rightarrow> ''; efforts='' @ join_with '','' (map (control_repr ce) (e # es))
            | _ \<Rightarrow> []);
          markers = (if active \<noteq> [] \<and> i = active then [''active''] else []) @
                    (if standard \<noteq> [] \<and> i = standard then [''default''] else []) in
      if i = [] then None
      else Some (''- '' @ i @ detail @ (if markers = [] then [] else '' '' @ ct_arrow ce @ '' '' @ join_with '', '' markers)))"

definition model_lines :: "control_env \<Rightarrow> string \<Rightarrow> string \<Rightarrow> dict \<Rightarrow> string list" where
  "model_lines ce active standard view = (case dget view ''models'' of
       JList (x # xs) \<Rightarrow> List.map_filter (model_line ce active standard) (dicts_of (x # xs))
     | _ \<Rightarrow> [''- no selectable models reported''])"

definition list_notes :: "control_env \<Rightarrow> dict \<Rightarrow> string list" where
  "list_notes ce view =
     (case dget view ''price_references'' of JList (x # xs) \<Rightarrow> [''Note: pricing references are omitted from this chat list.''] | _ \<Rightarrow> []) @
     (if control_repr ce (py_or (dget view ''source'') (JStr ''unknown'')) = ''executor_aliases+local_prices''
      then [''Note: Claude models are CLI aliases passed to --model.'']
      else (case dget view ''warnings'' of
          JList (x # xs) \<Rightarrow> [''Note: model catalog returned warnings; use listed ids only.'']
        | _ \<Rightarrow> []))"

definition listed_active :: "int \<Rightarrow> conversation option \<Rightarrow> string \<Rightarrow> session_manager \<Rightarrow> string \<times> session_manager" where
  "listed_active now cv resolved m = (case cv of
       None \<Rightarrow> ([], m)
     | Some c \<Rightarrow> (case get_model_override now c resolved m of (v, m') \<Rightarrow> (or_default v [], m')))"

definition format_model_list_response ::
    "control_env \<Rightarrow> int \<Rightarrow> json \<Rightarrow> conversation option \<Rightarrow> session_manager \<Rightarrow> string \<times> session_manager" where
  "format_model_list_response ce now agent cv m =
     (if \<not> ct_settings ce then (''Model listing is unavailable: gateway settings are not attached.'', m)
      else (case ct_view ce agent of
          Inl msg \<Rightarrow> (loading_failed ce agent msg, m)
        | Inr view \<Rightarrow>
            (if \<not> truthy (dget_or view ''found'' (JBool False)) then (unavailable ce agent view, m)
             else (let resolved = control_repr ce (py_or (dget view ''agent'') agent);
                       standard = control_repr ce (py_or (dget view ''default_model'') (JStr []));
                       (active, m') = listed_active now cv resolved m;
                       shown = (if active = [] \<and> standard \<noteq> [] then ''executor default ('' @ standard @ '')''
                                else str_or active ''executor default'') in
                   (lines_text ([''Models for '' @ resolved @ '':'', ''- active: '' @ shown] @
                      model_lines ce active standard view @
                      [''Use `use model <id>` to switch, `use model default` to clear.''] @ list_notes ce view), m')))))"

section \<open>Switching\<close>

definition clear_words :: "string list" where
  "clear_words = [''default'', ''clear'', ''reset'']"

definition executor_names :: "control_env \<Rightarrow> string list" where
  "executor_names ce = map ex_name (ee_executors (ct_engine ce))"

definition set_executor_override_command ::
    "control_env \<Rightarrow> int \<Rightarrow> conversation \<Rightarrow> string \<Rightarrow> session_manager \<Rightarrow> string \<times> session_manager" where
  "set_executor_override_command ce now cv wanted m =
     (let fl = ee_float (ct_engine ce); name = lower (strip wanted) in
      if name = [] then (''Usage: use executor <executor>'', m)
      else if name \<in> set clear_words
        then (''Cleared executor override. Reverted to default ('' @ ee_default (ct_engine ce) @ '').'',
              set_executor_override fl now cv None m)
      else if name \<notin> set (executor_names ce)
        then (''Unknown executor: '' @ wanted @ ''. Supported: '' @ join_with '', '' (executor_names ce), m)
      else (''Executor switched to '' @ name @ ''.'', set_executor_override fl now cv (Some name) m))"

definition set_model_override_command ::
    "control_env \<Rightarrow> int \<Rightarrow> conversation \<Rightarrow> string \<Rightarrow> session_manager \<Rightarrow> string option \<times> session_manager" where
  \<comment> \<open>\<open>None\<close>: an executor override that is not a text raises in the session manager\<close>
  "set_model_override_command ce now cv wanted m =
     (let fl = ee_float (ct_engine ce); model = strip wanted; (active, m1) = active_executor_name ce now cv m in
      if model = [] then (Some ''Usage: use model <model-id>'', m1)
      else if lower model \<in> set clear_words
        then (case active of
            JStr a \<Rightarrow> (Some (''Cleared model override for '' @ a @ ''.''), set_model_override fl now cv a None m1)
          | _ \<Rightarrow> (None, m1))
      else (case selectable_model_ids ce active of
          Inl err \<Rightarrow> (Some err, m1)
        | Inr ids \<Rightarrow>
            (if model \<notin> set ids
             then (Some (''Unknown model for '' @ control_repr ce active @ '': '' @ model @
                     ''. Use `models` to list selectable model IDs.''), m1)
             else (case active of
                 JStr a \<Rightarrow> (Some (''Model for '' @ a @ '' switched to '' @ model @ ''.''), set_model_override fl now cv a (Some model) m1)
               | _ \<Rightarrow> (None, m1)))))"

definition use_usage :: string where
  "use_usage = ''Usage: use executor <executor> | use model <model-id>''"

definition handle_use_command ::
    "control_env \<Rightarrow> int \<Rightarrow> conversation \<Rightarrow> string \<Rightarrow> session_manager \<Rightarrow> string option \<times> session_manager" where
  "handle_use_command ce now cv cleaned m = (case split_max 2 cleaned of
       [head, scope, wanted] \<Rightarrow>
         (if lower (strip scope) = ''executor''
          then (case set_executor_override_command ce now cv (strip wanted) m of (text, m') \<Rightarrow> (Some text, m'))
          else if lower (strip scope) = ''model'' then set_model_override_command ce now cv (strip wanted) m
          else (Some use_usage, m))
     | _ \<Rightarrow> (Some use_usage, m))"

section \<open>Lists and reports\<close>

definition executor_line :: "control_env \<Rightarrow> json \<Rightarrow> string \<Rightarrow> string" where
  "executor_line ce override name =
     (let is_default = (name = ee_default (ct_engine ce));
          is_active = (if truthy override then JStr name = override else is_default) in
      ''- '' @ name @ (if is_active then '' '' @ ct_arrow ce @ '' active'' else []) @ (if is_default then '' (default)'' else []))"

definition executors_text :: "control_env \<Rightarrow> json \<Rightarrow> string" where
  "executors_text ce override = lines_text (''Supported Executors:'' # map (executor_line ce override) (executor_names ce))"

definition parse_model_list_command :: "string \<Rightarrow> string option" where
  "parse_model_list_command cleaned = (case split_ws cleaned of
       head # arg # rest \<Rightarrow> (if lower head \<in> set (either ''models'') then Some (lower arg) else None)
     | _ \<Rightarrow> None)"

definition status_text :: "control_env \<Rightarrow> int \<Rightarrow> engine \<Rightarrow> string" where
  "status_text ce now e = lines_text (''Runtime status:'' #
     map (\<lambda>(k, v). ''- '' @ k @ '': '' @ show_int v) (get_runtime_status (ct_engine ce) (ct_started ce) now e))"

definition field_text :: "control_env \<Rightarrow> dict \<Rightarrow> string \<Rightarrow> string" where
  "field_text ce d k = control_repr ce (dget d k)"

definition tasks_text :: "control_env \<Rightarrow> engine \<Rightarrow> string" where
  "tasks_text ce e = (if list_recent_tasks 8 e = [] then ''No tasks yet.''
     else lines_text (''Recent tasks:'' # map (\<lambda>d. ''- '' @ field_text ce d ''task_id'' @ '' | '' @
       field_text ce d ''status'' @ '' | attempts='' @ field_text ce d ''attempts'') (list_recent_tasks 8 e)))"

definition history_text :: "control_env \<Rightarrow> dict list \<Rightarrow> string" where
  "history_text ce items = (if items = [] then ''No task history in storage.''
     else lines_text (''Recent task history:'' # map (\<lambda>d. ''- '' @ field_text ce d ''task_id'' @ '' | '' @
       field_text ce d ''status'' @ '' | '' @ field_text ce d ''timestamp'') items))"

definition stored_history :: "control_env \<Rightarrow> engine \<Rightarrow> dict list" where
  "stored_history ce e = list_recent_task_summaries (ee_repr (ct_engine ce)) (ct_loads ce) 8
     (log_text (ee_float (ct_engine ce)) (en_events e))"

definition detail_text :: "control_env \<Rightarrow> string \<Rightarrow> engine \<Rightarrow> string" where
  "detail_text ce i e = (case get_task_overview (ct_engine ce) i e of
       None \<Rightarrow> ''Task not found: '' @ i
     | Some d \<Rightarrow> lines_text [''Task detail:'', ''- task_id: '' @ field_text ce d ''task_id'', ''- status: '' @ field_text ce d ''status'',
         ''- attempts: '' @ field_text ce d ''attempts'', ''- cancel_requested: '' @ field_text ce d ''cancel_requested'',
         ''- workspace: '' @ field_text ce d ''workspace'',
         ''- summary: '' @ control_repr ce (py_or (dget d ''summary'') (JStr ''(none)''))])"

definition cancel_raises :: "answers \<Rightarrow> bool \<times> string \<Rightarrow> bool" where
  \<comment> \<open>the task was canceled before execution and the channel did not take the news\<close>
  "cancel_raises oc r \<longleftrightarrow> snd r = ''task canceled'' \<and> \<not> (oc_ok oc \<and> oc_ok2 oc)"

definition help_text :: string where
  "help_text = lines_text [''Commands:'', ''- help: show this help'', ''- ping: health check'',
     ''- usage / quota: show current subscription remaining quota'', ''- status: show gateway runtime status'',
     ''- tasks: show recent task list'', ''- history: show recent task statuses from storage'',
     ''- task <task_id>: show task detail'', ''- cancel <task_id>: cancel queued/running task'',
     ''- reset: reset conversation memory and thread overrides'',
     ''- executors: list supported executors & active override'',
     ''- models: list selectable models for the active executor'',
     ''- models <executor>: list selectable models for an executor'',
     ''- use executor <executor>: switch executor for this session/thread'',
     ''- use executor default: clear executor override'',
     ''- use model <model-id>: switch model for the active executor'',
     ''- use model default: clear model override for the active executor'',
     ''- workspace=/path <task>: run task under specific workspace'',
     ''All workspaces must be inside FLUXION_ALLOWED_WORKSPACES.'']"

section \<open>The commands\<close>

definition reset_conversation :: "control_env \<Rightarrow> int \<Rightarrow> conversation \<Rightarrow> session_manager \<Rightarrow> bool \<times> session_manager" where
  "reset_conversation ce now cv m = reset_session (ee_float (ct_engine ce)) now cv m"

definition session_command ::
    "control_env \<Rightarrow> int \<Rightarrow> conversation \<Rightarrow> string \<Rightarrow> session_manager \<Rightarrow> (control_outcome \<times> session_manager) option" where
  \<comment> \<open>the first half of the chain, up to \<open>use\<close>; \<open>None\<close> when no command of it applies\<close>
  "session_command ce now cv cleaned m =
     (let command = lower cleaned in
      if command \<in> {''help'', ''/help'', ''/start''} then Some (reply ''help'' help_text, m)
      else if command \<in> set (either ''ping'') then Some (reply ''ping'' ''pong'', m)
      else if command \<in> set (either ''usage'' @ either ''quota'')
        then Some (Handled \<lparr> cr_kind = ''usage'', cr_text = [], cr_data = Some (get_quota_payload (ct_quota ce)) \<rparr>, m)
      else if command \<in> set (either ''reset'')
        then (case reset_conversation ce now cv m of (cleared, m') \<Rightarrow>
          Some (reply ''reset'' (if cleared then ''Conversation memory and thread overrides cleared.''
                               else ''No conversation memory to clear for this session.''), m'))
      else if command \<in> set (either ''executors'')
        then (case get_executor_override now cv m of (v, m') \<Rightarrow> Some (reply ''executors'' (executors_text ce v), m'))
      else if command \<in> set (either ''models'')
        then (case active_executor_name ce now cv m of (a, m1) \<Rightarrow>
          (case format_model_list_response ce now a (Some cv) m1 of (text, m2) \<Rightarrow> Some (reply ''models'' text, m2)))
      else (case parse_model_list_command cleaned of
          Some agent \<Rightarrow> (case format_model_list_response ce now (JStr agent) None m of (text, m') \<Rightarrow>
            Some (reply ''models'' text, m'))
        | None \<Rightarrow>
            if command \<in> set (either ''use'') then Some (reply ''usage_error'' use_usage, m)
            else if prefix ''use '' command \<or> prefix ''/use '' command
              then (case handle_use_command ce now cv cleaned m of
                  (Some text, m') \<Rightarrow> Some (reply ''use'' text, m')
                | (None, m') \<Rightarrow> Some (ControlRaised, m'))
            else None))"

definition task_command ::
    "control_env \<Rightarrow> int \<Rightarrow> answers \<Rightarrow> string \<Rightarrow> engine \<Rightarrow> control_outcome \<times> engine" where
  \<comment> \<open>the second half: reports and \<open>cancel\<close>\<close>
  "task_command ce now oc cleaned e =
     (let command = lower cleaned in
      if command \<in> set (either ''status'') then (reply ''status'' (status_text ce now e), e)
      else if command \<in> set (either ''tasks'') then (reply ''tasks'' (tasks_text ce e), e)
      else if command \<in> set (either ''history'') then (reply ''history'' (history_text ce (stored_history ce e)), e)
      else if prefix ''task '' cleaned \<or> prefix ''/task '' cleaned
        then (reply ''task'' (detail_text ce (second_part cleaned) e), e)
      else if command \<in> set (either ''task'') then (reply ''usage_error'' ''Usage: task <task_id>'', e)
      else if prefix ''cancel '' cleaned \<or> prefix ''/cancel '' cleaned
        then (case cancel_task (ct_engine ce) now oc (second_part cleaned) e of (e', r) \<Rightarrow>
          (if cancel_raises oc r then ControlRaised
           else reply ''cancel'' ((if fst r then ''Canceled'' else ''Cancel not completed'') @ '': '' @ snd r), e'))
      else if command \<in> set (either ''cancel'') then (reply ''usage_error'' ''Usage: cancel <task_id>'', e)
      else (NotHandled, e))"

definition handle_control_command ::
    "control_env \<Rightarrow> int \<Rightarrow> answers \<Rightarrow> conversation \<Rightarrow> string \<Rightarrow> engine \<Rightarrow> control_outcome \<times> engine" where
  "handle_control_command ce now oc cv text e =
     (case session_command ce now cv (strip text) (en_sessions e) of
        Some (out, m) \<Rightarrow> (out, e\<lparr> en_sessions := m \<rparr>)
      | None \<Rightarrow> task_command ce now oc (strip text) e)"

definition inbound_metadata :: "control_env \<Rightarrow> int \<Rightarrow> conversation \<Rightarrow> session_manager \<Rightarrow> dict \<times> session_manager" where
  \<comment> \<open>what a chat adapter asks for when a text is no command\<close>
  "inbound_metadata ce now cv m = (case get_executor_override now cv m of
       (v, m') \<Rightarrow> ([(''executor'', py_or v (JStr (ct_chat_default ce))), (''conversation_key'', JStr (cv_key cv))], m'))"

end
