(* ===== verification/ControlFacts.thy ===== *)
theory ControlFacts
  imports ControlCommands SessionFacts EngineProps
begin

text \<open>
  What the control commands promise: a text that is no command changes nothing, a command changes
  conversations only or is a cancel, and an executor or a model chosen in a chat is the one its
  next task is launched with, whatever the engine does in between.
\<close>

section \<open>The choices of a conversation\<close>

definition choices_at :: "string \<Rightarrow> session_manager \<Rightarrow> json \<times> (string \<times> string) list" where
  "choices_at k m = (case map_of (sm_sessions m) k of None \<Rightarrow> (JNull, []) | Some s \<Rightarrow> (se_override s, se_overrides s))"

definition same_choices :: "session_manager \<Rightarrow> session_manager \<Rightarrow> bool" where
  "same_choices m m' \<longleftrightarrow> (\<forall>k. choices_at k m' = choices_at k m)"

lemma same_choices_refl [simp]: "same_choices m m"
  by (simp add: same_choices_def)

lemma same_choices_trans: "same_choices a b \<Longrightarrow> same_choices b c \<Longrightarrow> same_choices a c"
  by (simp add: same_choices_def)

lemma touched_choices [simp]:
  "se_override (touched now cv m) = fst (choices_at (cv_key cv) m)"
  "se_overrides (touched now cv m) = snd (choices_at (cv_key cv) m)"
  by (simp_all add: touched_def choices_at_def or_default_def new_session_def split: option.split)

lemma choices_put:
  "choices_at k (put_session cv s m) = (if k = cv_key cv then (se_override s, se_overrides s) else choices_at k m)"
  by (simp add: choices_at_def put_session_at)

lemma choices_write:
  "choices_at k (write_session fl now cv f m) =
     (if k = cv_key cv then (let s = f (touched now cv m) in (se_override s, se_overrides s)) else choices_at k m)"
  by (simp add: choices_at_def write_session_at Let_def)

lemma same_choices_write:
  "(\<And>s. se_override (f s) = se_override s \<and> se_overrides (f s) = se_overrides s) \<Longrightarrow>
     same_choices m (write_session fl now cv f m)"
  by (simp add: same_choices_def choices_write Let_def)

lemma same_choices_touch [simp]:
  "same_choices m (snd (touch_session now cv m))" "same_choices m (put_session cv (touched now cv m) m)"
  by (simp_all add: same_choices_def touch_session_def choices_put)

lemma same_choices_methods [simp]:
  "same_choices m (set_active_task now cv i m)"
  "same_choices m (snd (get_executor_session_id now cv name m))"
  "same_choices m (snd (get_model_override now cv name m))"
  "same_choices m (snd (get_executor_override now cv m))"
  "same_choices m (snd (get_trajectory_idx now cv sid m))"
  "same_choices m (set_executor_session_id fl now cv name v m)"
  "same_choices m (set_trajectory_idx fl now cv sid n m)"
  "same_choices m (set_session_model fl now cv sid model m)"
  by (auto simp: set_active_task_def get_executor_session_id_def get_model_override_def get_executor_override_def
      get_trajectory_idx_def set_executor_session_id_def set_trajectory_idx_def set_session_model_def same_choices_def
      touch_session_def choices_put choices_write Let_def)

lemma same_choices_get:
  "get_executor_session_id now cv name m = (v, m1) \<Longrightarrow> same_choices m m1"
  "get_model_override now cv name m = (w, m1) \<Longrightarrow> same_choices m m1"
  "get_executor_override now cv m = (x, m1) \<Longrightarrow> same_choices m m1"
  "get_trajectory_idx now cv sid m = (n, m1) \<Longrightarrow> same_choices m m1"
  by (metis same_choices_methods(2) snd_conv) (metis same_choices_methods(3) snd_conv,
      metis same_choices_methods(4) snd_conv, metis same_choices_methods(5) snd_conv)

lemma same_choices_prepare:
  assumes "prepare_task env now t m = (m', r)"
  shows "same_choices m m'"
proof (cases "select_executor_with_name env t")
  case (Inl e)
  then show ?thesis using assms by (simp add: prepare_task_def)
next
  case (Inr x)
  obtain v m1 where g1: "get_executor_session_id now (conversation_of env t) (ex_name x) m = (v, m1)" by fastforce
  obtain w m2 where g2: "get_model_override now (conversation_of env t) (ex_name x) m1 = (w, m2)" by fastforce
  have "m' = m2" using assms Inr g1 g2 by (simp add: prepare_task_def Let_def)
  then show ?thesis using same_choices_trans [OF same_choices_get(1) [OF g1] same_choices_get(2) [OF g2]] by simp
qed

lemma same_choices_trajectory:
  assumes "capture_trajectory env now t r s m = (c, m')"
  shows "same_choices m m'"
proof (cases "strip (meta_text env t ''executor'') \<noteq> ''antigravity'' \<or> strip (rs_session_id r) = []")
  case True
  then have "m' = m" using assms unfolding capture_trajectory_def Let_def by (simp split: if_splits)
  then show ?thesis by simp
next
  case False
  obtain n m1 where g: "get_trajectory_idx now (conversation_of env t) (strip (rs_session_id r)) m = (n, m1)" by fastforce
  have "\<exists>k. m' = set_trajectory_idx (ee_float env) now (conversation_of env t) (strip (rs_session_id r)) k m1"
    using assms False g by (auto simp: capture_trajectory_def Let_def)
  then show ?thesis using same_choices_trans [OF same_choices_get(4) [OF g] same_choices_methods(7)] by auto
qed

lemma same_choices_delta: "attach_workspace_delta env now t s b c d r sm = (r', st, m') \<Longrightarrow> same_choices (snd sm) m'"
  unfolding attach_workspace_delta_def
  using same_choices_trajectory by (auto simp: Let_def split: prod.splits)

lemma same_choices_attach: "attach_delta env now oc t th s r e = (r', e') \<Longrightarrow> same_choices (en_sessions e) (en_sessions e')"
  unfolding attach_delta_def using same_choices_delta by (fastforce split: prod.splits)

lemma same_choices_store: "same_choices m (store_session env now th t r m)"
  unfolding store_session_def by (auto intro: same_choices_trans [OF same_choices_methods(6) same_choices_methods(8)])

section \<open>No step of the engine changes a choice\<close>

lemma sessions_frame [simp]:
  "en_sessions (goto i th ph e) = en_sessions e" "en_sessions (leave i th ph e) = en_sessions e"
  "en_sessions (say ok msg e) = en_sessions e" "en_sessions (send_deltas i ds e) = en_sessions e"
  "en_sessions (log_status env now t s x e) = en_sessions e" "en_sessions (change_record i f e) = en_sessions e"
  "en_sessions (update_record now i a b c d z e) = en_sessions e" "en_sessions (set_record_status now i s e) = en_sessions e"
  "en_sessions (release_lock env t e) = en_sessions e"
  by (simp_all add: engine_defs release_lock_def change_record_def split: option.split)

lemma sessions_note_blocked [simp]: "en_sessions (note_blocked env now oc i t ws h e) = en_sessions e"
  by (auto simp: note_blocked_def Let_def split: option.split)

lemma same_choices_finalize:
  assumes "finalize_canceled env now oc i t th p e = (e', b)"
  shows "same_choices (en_sessions e) (en_sessions e')"
  using assms same_choices_attach
  by (fastforce simp: finalize_canceled_def Let_def split: option.splits if_splits prod.splits)

lemma same_choices_executing: "en_sessions (worker_executing env oc i t th n e) = en_sessions e"
  by (auto simp: worker_executing_def Let_def split: prod.splits outcome.splits)

lemma same_choices_thread:
  assumes "thread_step env now oc i th t e = Some e'"
  shows "same_choices (en_sessions e) (en_sessions e')"
proof (cases "th_phase th")
  case (Canceling p b)
  then show ?thesis using assms same_choices_finalize
    by (fastforce simp: thread_step_def worker_canceling_def split: prod.splits if_splits)
next
  case (Executing n)
  then show ?thesis using assms same_choices_executing by (auto simp: thread_step_def)
next
  case (FileLock dl)
  then show ?thesis using assms
    by (cases "oc_file oc") (auto simp: thread_step_def worker_file_lock_def split: if_splits)
next
  case (Closing r)
  then show ?thesis using assms same_choices_store by (auto simp: thread_step_def worker_closing_def Let_def)
next
  case (Finishing r)
  then show ?thesis using assms same_choices_attach
    by (fastforce simp: thread_step_def worker_finishing_def Let_def split: if_splits prod.splits)
next
  case (Failing msg)
  then show ?thesis using assms same_choices_attach
    by (fastforce simp: thread_step_def worker_failing_def Let_def split: prod.splits)
qed (use assms in \<open>auto simp: thread_step_def step_defs Let_def
   split: if_splits option.splits prod.splits sum.splits\<close>)

lemma same_choices_step:
  assumes "engine_step env now oc a e = Some e'"
  shows "same_choices (en_sessions e) (en_sessions e')"
proof (cases a)
  case (Submit t)
  then show ?thesis using assms same_choices_prepare
    by (fastforce simp: engine_step_def admit_task_def Let_def split: if_splits prod.splits sum.splits)
next
  case (Cancel i)
  then have "en_sessions e' = en_sessions e"
    using assms by (auto simp: engine_step_def cancel_task_def Let_def split: if_splits option.splits)
  then show ?thesis by simp
next
  case (Run i)
  then show ?thesis using assms same_choices_thread
    by (auto simp: engine_step_def run_step_def split: option.splits)
qed

lemma same_choices_reached: "reached env allowed e0 e \<Longrightarrow> same_choices (en_sessions e0) (en_sessions e)"
  by (induction rule: reached.induct) (auto intro: same_choices_step same_choices_trans)


section \<open>What a command changes\<close>

text \<open>A text that is no command leaves the engine as it is; a command changes conversations only, or it
  is a cancel.\<close>

lemma session_command_handled: "session_command ce now cv text m = Some (out, m') \<Longrightarrow> out \<noteq> NotHandled"
  by (auto simp: session_command_def reply_def Let_def split: if_splits option.splits prod.splits)

lemma task_command_effect:
  "task_command ce now oc text e = (out, e') \<Longrightarrow>
     (e' = e \<or> (\<exists>i. e' = fst (cancel_task (ct_engine ce) now oc i e))) \<and> (out = NotHandled \<longrightarrow> e' = e)"
  by (auto simp: task_command_def reply_def Let_def split: if_splits prod.splits) (metis fst_conv)+

lemma command_effect:
  assumes "handle_control_command ce now oc cv text e = (out, e')"
  shows "(\<exists>m. e' = e\<lparr> en_sessions := m \<rparr>) \<or> (\<exists>i. e' = fst (cancel_task (ct_engine ce) now oc i e))"
    and "out = NotHandled \<Longrightarrow> e' = e"
proof -
  have "((\<exists>m. e' = e\<lparr> en_sessions := m \<rparr>) \<or> (\<exists>i. e' = fst (cancel_task (ct_engine ce) now oc i e))) \<and>
    (out = NotHandled \<longrightarrow> e' = e)"
  proof (cases "session_command ce now cv (strip text) (en_sessions e)")
    case None
    then have t: "task_command ce now oc (strip text) e = (out, e')" using assms by (simp add: handle_control_command_def)
    have "e = e\<lparr> en_sessions := en_sessions e \<rparr>" by simp
    then show ?thesis using task_command_effect [OF t] by metis
  next
    case (Some p)
    then show ?thesis using assms session_command_handled by (cases p) (auto simp: handle_control_command_def)
  qed
  then show "(\<exists>m. e' = e\<lparr> en_sessions := m \<rparr>) \<or> (\<exists>i. e' = fst (cancel_task (ct_engine ce) now oc i e))"
    and "out = NotHandled \<Longrightarrow> e' = e" by auto
qed

section \<open>Switching the model\<close>

lemma lower_append [simp]: "lower (a @ b) = lower a @ lower b"
  by (simp add: lower_def)

lemma strip_ends: "s \<noteq> [] \<Longrightarrow> strip s = s \<Longrightarrow> \<not> is_space (hd s) \<and> \<not> is_space (last s)"
proof -
  assume s: "s \<noteq> []" "strip s = s"
  define l where "l = lstrip s"
  have len: "length (rev (dropWhile is_space (rev l))) \<le> length l" by (metis length_dropWhile_le length_rev)
  have "length l \<le> length s" by (simp add: l_def lstrip_def length_dropWhile_le)
  moreover have e: "rev (dropWhile is_space (rev l)) = s" using s(2) by (simp add: strip_def l_def lstrip_def)
  ultimately have ll: "length l = length s" using len by simp
  then have "l = s" unfolding l_def lstrip_def by (metis append_eq_append_conv append_self_conv2 length_0_conv takeWhile_dropWhile_id)
  then have h: "\<not> is_space (hd s)" using s(1) unfolding l_def lstrip_def by (metis hd_dropWhile)
  have "dropWhile is_space (rev s) = rev s" using e \<open>l = s\<close> by (metis rev_rev_ident)
  then have "\<not> is_space (hd (rev s))" using s(1) by (metis hd_dropWhile rev_is_Nil_conv)
  then show ?thesis using h s(1) by (simp add: hd_rev)
qed

lemma strip_id: "s \<noteq> [] \<Longrightarrow> \<not> is_space (hd s) \<Longrightarrow> \<not> is_space (last s) \<Longrightarrow> strip s = s"
proof -
  assume s: "s \<noteq> []" "\<not> is_space (hd s)" "\<not> is_space (last s)"
  then have "lstrip s = s" by (cases s) (simp_all add: lstrip_def)
  moreover have "dropWhile is_space (rev s) = rev s" using s by (cases "rev s") (auto simp: hd_rev [symmetric])
  ultimately show ?thesis by (simp add: strip_def lstrip_def)
qed

definition use_model :: "string \<Rightarrow> string" where
  "use_model model = ''use model '' @ model"

lemma use_model_stripped: "model \<noteq> [] \<Longrightarrow> strip model = model \<Longrightarrow> strip (use_model model) = use_model model"
  using strip_ends [of model] by (intro strip_id) (auto simp: use_model_def is_space_def code_def)

lemma space_chars [simp]:
  "is_space CHR '' ''" "\<not> is_space CHR ''u''" "\<not> is_space CHR ''s''" "\<not> is_space CHR ''e''" "\<not> is_space CHR ''m''"
  "\<not> is_space CHR ''o''" "\<not> is_space CHR ''d''" "\<not> is_space CHR ''l''"
  by code_simp+

lemma use_model_parts:
  assumes "model \<noteq> []" "strip model = model"
  shows "split_max 2 (use_model model) = [''use'', ''model'', model]"
proof -
  obtain c cs where m: "model = c # cs" "\<not> is_space c" using strip_ends assms by (metis list.exhaust list.sel(1))
  then show ?thesis by (simp add: use_model_def numeral_2_eq_2 lstrip_def)
qed

lemma use_model_command:
  assumes "model \<noteq> []" "strip model = model"
  shows "session_command ce now cv (use_model model) m =
    (case set_model_override_command ce now cv model m of
       (Some text, m') \<Rightarrow> Some (reply ''use'' text, m')
     | (None, m') \<Rightarrow> Some (ControlRaised, m'))"
proof -
  have l: "lower (use_model model) = ''use model '' @ lower model"
    by (simp add: use_model_def) code_simp
  have "split_ws (use_model model) = ''use'' # words_acc [] (''model '' @ model)"
    by (simp add: use_model_def split_ws_def)
  moreover obtain w ws where "words_acc [] (''model '' @ model) = w # ws" by simp
  moreover have "lower ''use'' \<notin> set (either ''models'')" by code_simp
  ultimately have p: "parse_model_list_command (use_model model) = None"
    by (simp add: parse_model_list_command_def)
  have "lower (strip ''model'') = ''model''" by code_simp
  then have h: "handle_use_command ce now cv (use_model model) m = set_model_override_command ce now cv model m"
    by (simp add: handle_use_command_def use_model_parts [OF assms] assms(2))
  show ?thesis
    unfolding session_command_def l Let_def
    using p h by (simp add: either_def)
qed

definition chooses :: "control_env \<Rightarrow> conversation \<Rightarrow> string \<Rightarrow> string \<Rightarrow> session_manager \<Rightarrow> bool" where
  \<comment> \<open>the executor \<open>a\<close> is active in the conversation and \<open>model\<close> is chosen for it\<close>
  "chooses ce cv a model m \<longleftrightarrow> py_or (fst (choices_at (cv_key cv) m)) (JStr (ee_default (ct_engine ce))) = JStr a \<and>
     map_of (snd (choices_at (cv_key cv) m)) (norm_name a) = Some model"

lemma executor_override_value: "fst (get_executor_override now cv m) = fst (choices_at (cv_key cv) m)"
  by (simp add: get_executor_override_def touch_session_def)

lemma model_override_value:
  "norm_name a \<noteq> [] \<Longrightarrow> fst (get_model_override now cv a m) = map_of (snd (choices_at (cv_key cv) m)) (norm_name a)"
  by (simp add: get_model_override_def touch_session_def)

lemma set_model_override_chosen:
  assumes "model \<noteq> []" "strip model = model" "lower model \<notin> set clear_words" "norm_name a \<noteq> []"
    and active: "fst (active_executor_name ce now cv m) = JStr a"
    and ids: "selectable_model_ids ce (JStr a) = Inr ids" "model \<in> set ids"
  shows "\<exists>m'. set_model_override_command ce now cv model m =
      (Some (''Model for '' @ a @ '' switched to '' @ model @ ''.''), m') \<and> chooses ce cv a model m'"
proof -
  obtain m1 where m1: "active_executor_name ce now cv m = (JStr a, m1)" using active by (metis prod.collapse)
  have o1: "same_choices m m1"
    using m1 same_choices_get(3) by (fastforce simp: active_executor_name_def split: prod.splits)
  have "py_or (fst (choices_at (cv_key cv) m1)) (JStr (ee_default (ct_engine ce))) = JStr a"
    using o1 active by (simp add: same_choices_def active_executor_name_def executor_override_value split: prod.splits)
      (metis executor_override_value fst_conv)
  then have "chooses ce cv a model (set_model_override (ee_float (ct_engine ce)) now cv a (Some model) m1)"
    using assms(1,2,4)
    by (simp add: chooses_def set_model_override_def choices_write Let_def set_or_pop_def opt_strip_def or_default_def update_conv')
  then show ?thesis
    using assms(1-3) ids m1 by (simp add: set_model_override_command_def Let_def)
qed

lemma chosen_model_prepared:
  assumes c: "chooses ce cv a model m" and m: "strip model = model" "model \<noteq> []"
    and a: "strip a = a" "norm_name a \<noteq> []" "executor_named (ct_engine ce) a = Some x" "ex_supports x t"
    and t: "tk_metadata t = [(''executor'', JStr a), (''conversation_key'', JStr (cv_key cv))]"
      "tk_channel t = cv_channel cv" "tk_user t = cv_user cv" "strip (cv_key cv) = cv_key cv" "cv_key cv \<noteq> []"
  shows "\<exists>m' t'. prepare_task (ct_engine ce) now t m = (m', Inr t') \<and> dget (tk_metadata t') ''executor'' = JStr a \<and>
     dget (tk_metadata t') ''model'' = JStr model \<and> dget (tk_metadata t') ''effective_model'' = JStr model \<and>
     dget (tk_metadata t') ''model_resolution_source'' = JStr ''conversation_override''"
proof -
  let ?env = "ct_engine ce"
  have "a \<noteq> []" using a(2) by (auto simp: norm_name_def)
  then have sel: "select_executor_with_name ?env t = Inr x"
    using a t(1) by (simp add: select_executor_with_name_def py_or_def)
  have xa: "ex_name x = a" using a(3) by (auto simp: executor_named_def find_Some_iff)
  have cv: "conversation_of ?env t = cv"
    using t by (simp add: conversation_of_def conversation_key_def dget_or_def)
  obtain sid m1 where g1: "get_executor_session_id now cv a m = (sid, m1)" by fastforce
  obtain ov m2 where g2: "get_model_override now cv a m1 = (ov, m2)" by fastforce
  have "choices_at (cv_key cv) m1 = choices_at (cv_key cv) m"
    using same_choices_get(1) [OF g1] by (simp add: same_choices_def)
  then have "ov = Some model"
    using c a(2) g2 model_override_value [of a now cv m1] by (simp add: chooses_def)
  then have "prepare_task ?env now t m = (m2, Inr (resolve_model ?env x (with_override ?env (Some model)
      (set_meta ''executor_session_id'' (or_default sid []) (set_meta ''executor'' a t)))))"
    using sel xa cv g1 g2 by (simp add: prepare_task_def Let_def)
  moreover have "strip ''conversation_override'' = ''conversation_override''" by code_simp
  ultimately show ?thesis
    using m \<open>a \<noteq> []\<close>
    by (simp add: resolve_model_def with_override_def set_meta_def meta_text_def t(1) py_or_def or_default_def Let_def)
qed

text \<open>C36: A model chosen in a chat takes effect: after \<open>use model\<close> with a model the active agent offers, the next
  message of the conversation is launched on that agent with that model, whatever tasks the engine has
  admitted, run, canceled and finished in the meantime, in this conversation or in others.\<close>
theorem chosen_model_is_launched:
  assumes cmd: "model \<noteq> []" "strip model = model" "lower model \<notin> set clear_words"
    and active: "fst (active_executor_name ce now cv (en_sessions e)) = JStr a"
    and ids: "selectable_model_ids ce (JStr a) = Inr ids" "model \<in> set ids"
    and handled: "handle_control_command ce now oc cv (use_model model) e = (out, e1)"
    and later: "reached (ct_engine ce) allowed e1 e2"
    and a: "strip a = a" "norm_name a \<noteq> []" "executor_named (ct_engine ce) a = Some x" "ex_supports x t"
    and defaults: "ct_chat_default ce = ee_default (ct_engine ce)"
    and msg: "inbound_metadata ce t1 cv (en_sessions e2) = (tk_metadata t, m3)"
      "tk_channel t = cv_channel cv" "tk_user t = cv_user cv" "strip (cv_key cv) = cv_key cv" "cv_key cv \<noteq> []"
  shows "out = reply ''use'' (''Model for '' @ a @ '' switched to '' @ model @ ''.'') \<and>
    (\<exists>m' t'. prepare_task (ct_engine ce) t2 t m3 = (m', Inr t') \<and> dget (tk_metadata t') ''executor'' = JStr a \<and>
       dget (tk_metadata t') ''model'' = JStr model \<and> dget (tk_metadata t') ''effective_model'' = JStr model \<and>
       dget (tk_metadata t') ''model_resolution_source'' = JStr ''conversation_override'')"
proof -
  obtain m' where m': "set_model_override_command ce now cv model (en_sessions e) =
      (Some (''Model for '' @ a @ '' switched to '' @ model @ ''.''), m')" "chooses ce cv a model m'"
    using set_model_override_chosen [OF cmd a(2) active ids] by blast
  have h: "out = reply ''use'' (''Model for '' @ a @ '' switched to '' @ model @ ''.'')" "e1 = e\<lparr> en_sessions := m' \<rparr>"
    using handled m'(1)
    unfolding handle_control_command_def use_model_stripped [OF cmd(1,2)] use_model_command [OF cmd(1,2)] by simp_all
  obtain v where g: "get_executor_override t1 cv (en_sessions e2) = (v, m3)"
      "tk_metadata t = [(''executor'', py_or v (JStr (ct_chat_default ce))), (''conversation_key'', JStr (cv_key cv))]"
    using msg(1) by (auto simp: inbound_metadata_def split: prod.splits)
  have "same_choices m' m3"
    using same_choices_reached [OF later] h(2) same_choices_get(3) [OF g(1)] same_choices_trans by simp
  then have c: "chooses ce cv a model m3" using m'(2) by (simp add: chooses_def same_choices_def)
  have "v = fst (choices_at (cv_key cv) (en_sessions e2))" using executor_override_value [of t1 cv "en_sessions e2"] g(1) by simp
  also have "\<dots> = fst (choices_at (cv_key cv) m3)" using same_choices_get(3) [OF g(1)] by (simp add: same_choices_def)
  finally have "tk_metadata t = [(''executor'', JStr a), (''conversation_key'', JStr (cv_key cv))]"
    using c g(2) defaults by (simp add: chooses_def)
  from chosen_model_prepared [OF c cmd(2,1) a this msg(2-5)] h(1) show ?thesis by simp
qed

section \<open>A chat in which the model is switched\<close>

definition chat_env :: control_env where
  "chat_env = \<lparr> ct_engine = tiny_env, ct_settings = True, ct_chat_default = ''x'',
     ct_view = (\<lambda>a. Inr [(''found'', JBool True), (''models'', JList [JDict [(''id'', JStr ''m1'')], JDict [(''id'', JStr ''m2'')]])]),
     ct_rate = (\<lambda>q. []), ct_arrow = ''<-'', ct_quota = NoQuota, ct_loads = (\<lambda>s. None), ct_started = 0 \<rparr>"

definition chat :: conversation where
  "chat = \<lparr> cv_key = ''telegram:7'', cv_channel = ''telegram'', cv_user = ''7'' \<rparr>"

definition switched :: "control_outcome \<times> engine" where
  "switched = handle_control_command chat_env 0 fine chat (use_model ''m2'') tiny_start"

definition switched_later :: engine where
  \<comment> \<open>another task has run from its submission to its end\<close>
  "switched_later = after tiny_env (submits ''t'' @ runs 11 ''t'') (snd switched)"

definition next_message :: task where
  "next_message = \<lparr> tk_id = ''n'', tk_channel = ''telegram'', tk_user = ''7'', tk_text = ''do'', tk_workspace = [''w''], tk_created = 0,
     tk_metadata = fst (inbound_metadata chat_env 9 chat (en_sessions switched_later)), tk_attachments = [], tk_images = [] \<rparr>"

lemma switched_later_reached: "reached tiny_env any_step (snd switched) switched_later"
proof -
  have "acts_allowed tiny_env any_step (submits ''t'' @ runs 11 ''t'') (snd switched)" by code_simp
  then show ?thesis unfolding switched_later_def by (rule acts_reached [OF _ reached_start])
qed

theorem chosen_model_is_launched_witness:
  "\<exists>m' t'. prepare_task tiny_env 9 next_message (snd (inbound_metadata chat_env 9 chat (en_sessions switched_later))) = (m', Inr t') \<and>
     dget (tk_metadata t') ''effective_model'' = JStr ''m2''"
proof -
  have 1: "''m2'' \<noteq> []" "strip ''m2'' = ''m2''" "lower ''m2'' \<notin> set clear_words" by code_simp+
  have 2: "fst (active_executor_name chat_env 0 chat (en_sessions tiny_start)) = JStr ''x''" by code_simp
  have 3: "selectable_model_ids chat_env (JStr ''x'') = Inr [''m1'', ''m2'']" "''m2'' \<in> set [''m1'', ''m2'']" by code_simp simp
  have 4: "handle_control_command chat_env 0 fine chat (use_model ''m2'') tiny_start = (fst switched, snd switched)"
    by (simp add: switched_def)
  have 5: "reached (ct_engine chat_env) any_step (snd switched) switched_later"
    using switched_later_reached by (simp add: chat_env_def)
  have 6: "strip ''x'' = ''x''" "norm_name ''x'' \<noteq> []" by code_simp+
  have 7: "executor_named (ct_engine chat_env) ''x'' = Some (hd (ee_executors tiny_env))" "ex_supports (hd (ee_executors tiny_env)) next_message"
    by (simp_all add: chat_env_def tiny_env_def executor_named_def)
  have 8: "ct_chat_default chat_env = ee_default (ct_engine chat_env)" by (simp add: chat_env_def tiny_env_def)
  have 9: "inbound_metadata chat_env 9 chat (en_sessions switched_later) =
      (tk_metadata next_message, snd (inbound_metadata chat_env 9 chat (en_sessions switched_later)))"
    by (simp add: next_message_def)
  have 10: "tk_channel next_message = cv_channel chat" "tk_user next_message = cv_user chat" "cv_key chat \<noteq> []"
    by (simp_all add: next_message_def chat_def)
  have 11: "strip (cv_key chat) = cv_key chat" by code_simp
  show ?thesis
    using chosen_model_is_launched [OF 1 2 3 4 5 6 7 8 9 10(1,2) 11 10(3), of 9] by (auto simp: chat_env_def)
qed

section \<open>Resetting\<close>

text \<open>After \<open>reset\<close> the next message starts afresh: no session to resume, no override.\<close>

lemma reset_forgets:
  assumes "reset_conversation ce now cv m = (b, m')"
  shows "fst (get_executor_session_id t cv a m') = None" "fst (get_model_override t cv a m') = None"
    "fst (get_executor_override t cv m') = JNull"
proof -
  have "map_of (sm_sessions m') (cv_key cv) = Some ((touched now cv m)\<lparr> se_active := None, se_exec := [], se_traj := [],
      se_models := [], se_override := JNull, se_overrides := [] \<rparr>)"
    using assms by (auto simp: reset_conversation_def reset_session_def write_session_at)
  then show "fst (get_executor_session_id t cv a m') = None" "fst (get_model_override t cv a m') = None"
    "fst (get_executor_override t cv m') = JNull"
    by (simp_all add: get_executor_session_id_def get_model_override_def get_executor_override_def touch_session_def touched_def
        or_default_def)
qed

text \<open>But a task that was running then puts its session back when it ends: the message after that
  resumes the conversation that was reset.\<close>

lemma running_task_undoes_reset:
  assumes "strip (rs_session_id r) \<noteq> []" "norm_name (th_exec th) \<noteq> []"
  shows "fst (get_executor_session_id t' (conversation_of env t) (th_exec th)
    (en_sessions (worker_closing env now oc i t th r e))) = Some (strip (rs_session_id r))"
proof -
  have n: "rs_session_id r \<noteq> []" using assms(1) by auto
  let ?m = "set_executor_session_id (ee_float env) now (conversation_of env t) (th_exec th) (Some (rs_session_id r)) (en_sessions e)"
  have "\<exists>s. map_of (sm_sessions ?m) (cv_key (conversation_of env t)) = Some s \<and>
      map_of (se_exec s) (norm_name (th_exec th)) = Some (strip (rs_session_id r))"
    using assms by (simp add: set_executor_session_id_def write_session_at set_or_pop_def opt_strip_def or_default_def update_conv' Let_def)
  then have "\<exists>s. map_of (sm_sessions (set_session_model (ee_float env) now (conversation_of env t) (rs_session_id r)
        (meta_text env t ''model'') ?m)) (cv_key (conversation_of env t)) = Some s \<and>
      map_of (se_exec s) (norm_name (th_exec th)) = Some (strip (rs_session_id r))"
    by (auto simp: set_session_model_def write_session_at put_session_at touch_session_def touched_def or_default_def Let_def)
  then show ?thesis
    using assms(2) n
    by (auto simp: worker_closing_def store_session_def Let_def get_executor_session_id_def touch_session_def touched_def or_default_def)
qed

text \<open>\<open>cancel\<close> and \<open>task\<close> are the two commands whose case counts: with a capital letter, as a phone writes the
  first word of a message, the text is no command and becomes a task.\<close>

lemma capital_cancel_ignored: "handle_control_command ce now oc cv ''Cancel 12'' e = (NotHandled, e)"
proof -
  have "parse_model_list_command ''Cancel 12'' = None" by code_simp
  moreover have "strip ''Cancel 12'' = ''Cancel 12''" "lower ''Cancel 12'' = ''cancel 12''" by code_simp+
  ultimately show ?thesis
    by (simp add: handle_control_command_def session_command_def task_command_def either_def)
qed

lemma capital_use_accepted:
  "fst (handle_control_command chat_env 0 fine chat ''Use Model m2'' tiny_start) = fst switched"
  by code_simp

end
