(* ===== verification/LockFiles.thy ===== *)
theory LockFiles
  imports EngineTasks
begin

text \<open>
  The lock files that keep writing runs of different processes apart: taking, stamping and releasing
  one (\<open>_acquire_workspace_file_lock\<close> in \<open>core/engine.py\<close>), and their listing and pruning
  (\<open>workspace/lock_state.py\<close>). A lock is held on the file that was opened, not on its name; so a
  world has names, the files (inodes) they lead to, the holder of each file and its text, and the
  open handles of runs and pruners. Every system call is a step. The digest of a workspace is a
  parameter.
\<close>

section \<open>The lock directory\<close>

datatype handle =
    Opened string nat
  | Granted string nat
  | Stamped string nat "dict option"
  | PruneOpened string nat
  | PruneHolds string nat
  | PruneDone nat

record lock_world =
  lw_names :: "(string \<times> nat) list"
  lw_holder :: "nat \<Rightarrow> string option"
  lw_text :: "nat \<Rightarrow> string"
  lw_fresh :: nat
  lw_handles :: "(string \<times> handle) list"

record lock_env =
  le_dir :: string
  le_digest :: "string \<Rightarrow> string"
  le_float :: "rat \<Rightarrow> string"
  le_loads :: "string \<Rightarrow> json option"

definition no_locks :: lock_world where
  "no_locks = \<lparr> lw_names = [], lw_holder = (\<lambda>i. None), lw_text = (\<lambda>i. []), lw_fresh = 0, lw_handles = [] \<rparr>"

definition lock_file :: "lock_env \<Rightarrow> string \<Rightarrow> string" where
  "lock_file le workspace = le_digest le workspace @ ''.lock''"

definition open_file :: "string \<Rightarrow> lock_world \<Rightarrow> nat \<times> lock_world" where
  \<comment> \<open>\<open>open(path, "a+")\<close> makes the file when the name is free\<close>
  "open_file n w = (case map_of (lw_names w) n of
       Some i \<Rightarrow> (i, w)
     | None \<Rightarrow> (lw_fresh w, w\<lparr> lw_names := AList.update n (lw_fresh w) (lw_names w), lw_fresh := lw_fresh w + 1 \<rparr>))"

definition put_handle :: "string \<Rightarrow> handle \<Rightarrow> lock_world \<Rightarrow> lock_world" where
  "put_handle p h w = w\<lparr> lw_handles := AList.update p h (lw_handles w) \<rparr>"

definition close_handle :: "string \<Rightarrow> lock_world \<Rightarrow> lock_world" where
  "close_handle p w = w\<lparr> lw_handles := AList.delete p (lw_handles w) \<rparr>"

definition take_flock :: "string \<Rightarrow> nat \<Rightarrow> lock_world \<Rightarrow> lock_world" where
  "take_flock p i w = w\<lparr> lw_holder := (lw_holder w)(i \<mapsto> p) \<rparr>"

definition unlock :: "nat \<Rightarrow> lock_world \<Rightarrow> lock_world" where
  "unlock i w = w\<lparr> lw_holder := (lw_holder w)(i := None) \<rparr>"

definition lock_stamp :: "int \<Rightarrow> task \<Rightarrow> owner \<Rightarrow> dict" where
  \<comment> \<open>\<open>_write_lock_holder\<close>\<close>
  "lock_stamp now t me = [(''task_id'', JStr (tk_id t)), (''workspace'', JStr (str_path (tk_workspace t))),
     (''acquired_at'', JStr (isoformat now))] @ owner_payload me"

definition read_lock_holder :: "lock_env \<Rightarrow> string \<Rightarrow> dict option" where
  "read_lock_holder le text = (if strip text = [] then None
     else (case le_loads le (strip text) of Some (JDict d) \<Rightarrow> Some d | _ \<Rightarrow> None))"

section \<open>A run\<close>

definition run_open :: "lock_env \<Rightarrow> string \<Rightarrow> string \<Rightarrow> lock_world \<Rightarrow> lock_world" where
  "run_open le p workspace w = (case open_file (lock_file le workspace) w of
       (i, w') \<Rightarrow> put_handle p (Opened (lock_file le workspace) i) w')"

definition run_try :: "string \<Rightarrow> bool \<Rightarrow> lock_world \<Rightarrow> lock_world option" where
  \<comment> \<open>one round of the loop; a run that is canceled or out of time gives up\<close>
  "run_try p gives_up w = (case map_of (lw_handles w) p of
       Some (Opened n i) \<Rightarrow>
         (if lw_holder w i = None then Some (put_handle p (Granted n i) (take_flock p i w))
          else if gives_up then Some (close_handle p w) else Some w)
     | _ \<Rightarrow> None)"

definition run_stamp :: "lock_env \<Rightarrow> string \<Rightarrow> dict option \<Rightarrow> lock_world \<Rightarrow> lock_world option" where
  \<comment> \<open>\<open>None\<close>: writing failed, which is logged only\<close>
  "run_stamp le p d w = (case map_of (lw_handles w) p of
       Some (Granted n i) \<Rightarrow> Some (put_handle p (Stamped n i d) (case d of
            None \<Rightarrow> w
          | Some x \<Rightarrow> w\<lparr> lw_text := (lw_text w)(i := dumps (le_float le) (JDict x)) \<rparr>))
     | _ \<Rightarrow> None)"

definition run_release :: "string \<Rightarrow> lock_world \<Rightarrow> lock_world option" where
  "run_release p w = (case map_of (lw_handles w) p of
       Some (Granted n i) \<Rightarrow> Some (close_handle p (unlock i w))
     | Some (Stamped n i d) \<Rightarrow> Some (close_handle p (unlock i w))
     | _ \<Rightarrow> None)"

section \<open>Pruning\<close>

definition prune_open :: "string \<Rightarrow> string \<Rightarrow> lock_world \<Rightarrow> lock_world" where
  \<comment> \<open>a name of the listing; it may be gone by now, and is made again\<close>
  "prune_open p n w = (case open_file n w of (i, w') \<Rightarrow> put_handle p (PruneOpened n i) w')"

definition prune_try :: "string \<Rightarrow> lock_world \<Rightarrow> lock_world option" where
  "prune_try p w = (case map_of (lw_handles w) p of
       Some (PruneOpened n i) \<Rightarrow>
         (if lw_holder w i = None then Some (put_handle p (PruneHolds n i) (take_flock p i w)) else Some (close_handle p w))
     | _ \<Rightarrow> None)"

definition prune_unlink :: "string \<Rightarrow> lock_world \<Rightarrow> lock_world option" where
  \<comment> \<open>\<open>path.unlink\<close> removes the name, whatever file it leads to now\<close>
  "prune_unlink p w = (case map_of (lw_handles w) p of
       Some (PruneHolds n i) \<Rightarrow> Some (put_handle p (PruneDone i) (w\<lparr> lw_names := AList.delete n (lw_names w) \<rparr>))
     | _ \<Rightarrow> None)"

definition prune_close :: "string \<Rightarrow> lock_world \<Rightarrow> lock_world option" where
  "prune_close p w = (case map_of (lw_handles w) p of
       Some (PruneDone i) \<Rightarrow> Some (close_handle p (unlock i w))
     | _ \<Rightarrow> None)"

definition prune_file :: "string \<Rightarrow> string \<Rightarrow> lock_world \<Rightarrow> bool \<times> lock_world" where
  \<comment> \<open>one round of the loop of \<open>prune_released_locks\<close>, with nobody in between\<close>
  "prune_file p n w = (let w1 = prune_open p n w; w2 = or_default (prune_try p w1) w1 in
     case prune_unlink p w2 of
       None \<Rightarrow> (False, w2)
     | Some w3 \<Rightarrow> (True, or_default (prune_close p w3) w3))"

fun prune_files :: "string \<Rightarrow> string list \<Rightarrow> lock_world \<Rightarrow> nat \<times> lock_world" where
  "prune_files p [] w = (0, w)"
| "prune_files p (n # ns) w = (case prune_file p n w of (removed, w1) \<Rightarrow>
     (case prune_files p ns w1 of (k, w2) \<Rightarrow> ((if removed then 1 else 0) + k, w2)))"

definition prune_released_locks :: "string \<Rightarrow> lock_world \<Rightarrow> nat \<times> lock_world" where
  "prune_released_locks p w = prune_files p (sort (map fst (lw_names w))) w"

section \<open>Listing\<close>

definition is_held :: "lock_world \<Rightarrow> string \<Rightarrow> bool" where
  "is_held w n = (case map_of (lw_names w) n of None \<Rightarrow> False | Some i \<Rightarrow> lw_holder w i \<noteq> None)"

definition holder_row :: "lock_env \<Rightarrow> owner_env \<Rightarrow> lock_world \<Rightarrow> string \<Rightarrow> dict" where
  "holder_row le oenv w n =
     (let holder = (case map_of (lw_names w) n of None \<Rightarrow> None | Some i \<Rightarrow> read_lock_holder le (lw_text w i)) in
      [(''lock_file'', JStr (le_dir le @ CHR ''/'' # n)), (''workspace'', dget (or_default holder []) ''workspace''),
       (''holder'', case holder of None \<Rightarrow> JNull | Some d \<Rightarrow> JDict d),
       (''holder_alive'', case int_value (dget (or_default holder []) ''pid'') of
            None \<Rightarrow> JNull | Some pid \<Rightarrow> JBool (pid_alive oenv pid))])"

definition list_workspace_locks :: "lock_env \<Rightarrow> owner_env \<Rightarrow> lock_world \<Rightarrow> dict list \<times> nat" where
  "list_workspace_locks le oenv w =
     (let ns = sort (map fst (lw_names w)) in
      (map (holder_row le oenv w) (filter (is_held w) ns), length (filter (\<lambda>n. \<not> is_held w n) ns)))"

section \<open>Runs and pruners together\<close>

datatype lock_act =
    RunOpen string string
  | RunTry string bool
  | RunStamp string "dict option"
  | RunRelease string
  | PruneOpen string string
  | PruneTry string
  | PruneUnlink string
  | PruneClose string

definition lock_step :: "lock_env \<Rightarrow> lock_act \<Rightarrow> lock_world \<Rightarrow> lock_world option" where
  "lock_step le a w = (case a of
       RunOpen p workspace \<Rightarrow> (if map_of (lw_handles w) p = None then Some (run_open le p workspace w) else None)
     | RunTry p g \<Rightarrow> run_try p g w
     | RunStamp p d \<Rightarrow> run_stamp le p d w
     | RunRelease p \<Rightarrow> run_release p w
     | PruneOpen p n \<Rightarrow> (if map_of (lw_handles w) p = None then Some (prune_open p n w) else None)
     | PruneTry p \<Rightarrow> prune_try p w
     | PruneUnlink p \<Rightarrow> prune_unlink p w
     | PruneClose p \<Rightarrow> prune_close p w)"

inductive lock_reached :: "lock_env \<Rightarrow> (lock_act \<Rightarrow> lock_world \<Rightarrow> bool) \<Rightarrow> lock_world \<Rightarrow> bool" for le allowed where
  lock_start: "lock_reached le allowed no_locks"
| lock_next: "lock_reached le allowed w \<Longrightarrow> allowed a w \<Longrightarrow> lock_step le a w = Some w' \<Longrightarrow> lock_reached le allowed w'"

inductive_cases lock_reachedE: "lock_reached le allowed w"

fun lock_acts :: "lock_env \<Rightarrow> lock_act list \<Rightarrow> lock_world \<Rightarrow> lock_world option" where
  "lock_acts le [] w = Some w"
| "lock_acts le (a # as) w = (case lock_step le a w of None \<Rightarrow> None | Some w' \<Rightarrow> lock_acts le as w')"

fun acts_within :: "lock_env \<Rightarrow> (lock_act \<Rightarrow> lock_world \<Rightarrow> bool) \<Rightarrow> lock_act list \<Rightarrow> lock_world \<Rightarrow> bool" where
  "acts_within le allowed [] w = True"
| "acts_within le allowed (a # as) w = (allowed a w \<and> (case lock_step le a w of None \<Rightarrow> False | Some w' \<Rightarrow> acts_within le allowed as w'))"

lemma lock_acts_reached:
  "lock_reached le allowed w \<Longrightarrow> acts_within le allowed as w \<Longrightarrow> lock_acts le as w = Some w' \<Longrightarrow> lock_reached le allowed w'"
  by (induction as arbitrary: w) (auto split: option.splits intro: lock_next)

definition holds_file :: "lock_env \<Rightarrow> string \<Rightarrow> string \<Rightarrow> lock_world \<Rightarrow> bool" where
  \<comment> \<open>the run has the lock of the workspace\<close>
  "holds_file le p workspace w = (case map_of (lw_handles w) p of
       Some (Granted n i) \<Rightarrow> n = lock_file le workspace
     | Some (Stamped n i d) \<Rightarrow> n = lock_file le workspace
     | _ \<Rightarrow> False)"

definition run_name :: "handle \<Rightarrow> string option" where
  "run_name h = (case h of Opened n i \<Rightarrow> Some n | Granted n i \<Rightarrow> Some n | Stamped n i d \<Rightarrow> Some n | _ \<Rightarrow> None)"

definition unlinks_unused :: "lock_act \<Rightarrow> lock_world \<Rightarrow> bool" where
  \<comment> \<open>a pruner removes a name only while no run has it open\<close>
  "unlinks_unused a w = (case a of
       PruneUnlink p \<Rightarrow> (case map_of (lw_handles w) p of
           Some (PruneHolds n i) \<Rightarrow> list_all (\<lambda>(q, h). run_name h \<noteq> Some n) (lw_handles w)
         | _ \<Rightarrow> True)
     | _ \<Rightarrow> True)"

section \<open>Who holds what\<close>

definition handle_file :: "handle \<Rightarrow> nat" where
  "handle_file h = (case h of Opened n i \<Rightarrow> i | Granted n i \<Rightarrow> i | Stamped n i d \<Rightarrow> i | PruneOpened n i \<Rightarrow> i
     | PruneHolds n i \<Rightarrow> i | PruneDone i \<Rightarrow> i)"

definition holding :: "handle \<Rightarrow> bool" where
  "holding h = (case h of Opened n i \<Rightarrow> False | PruneOpened n i \<Rightarrow> False | _ \<Rightarrow> True)"

definition stamp_kept :: "lock_env \<Rightarrow> lock_world \<Rightarrow> handle \<Rightarrow> bool" where
  "stamp_kept le w h = (case h of Stamped n i (Some d) \<Rightarrow> lw_text w i = dumps (le_float le) (JDict d) | _ \<Rightarrow> True)"

definition lock_inv :: "lock_env \<Rightarrow> lock_world \<Rightarrow> bool" where
  "lock_inv le w \<longleftrightarrow>
     (\<forall>n i. map_of (lw_names w) n = Some i \<longrightarrow> i < lw_fresh w) \<and>
     (\<forall>p h. map_of (lw_handles w) p = Some h \<longrightarrow> handle_file h < lw_fresh w \<and>
        (holding h \<longrightarrow> lw_holder w (handle_file h) = Some p) \<and> stamp_kept le w h \<and>
        (\<forall>n. run_name h = Some n \<longrightarrow> map_of (lw_names w) n = Some (handle_file h)))"

lemmas handle_defs = handle_file_def holding_def run_name_def stamp_kept_def
lemmas lock_defs = lock_step_def run_open_def run_try_def run_stamp_def run_release_def prune_open_def prune_try_def
  prune_unlink_def prune_close_def open_file_def put_handle_def close_handle_def take_flock_def unlock_def

end
