(* ===== verification/LockFacts.thy ===== *)
theory LockFacts
  imports LockFiles
begin

text \<open>
  What the lock files guarantee: as long as no lock file is removed while a run has it open, two runs
  never have the lock of one workspace, and the listing names every holder. The pruning of released
  lock files does not keep to that, and two runs write to one workspace at once.
\<close>

section \<open>The invariant\<close>

lemma lock_invD:
  assumes "lock_inv le w" "map_of (lw_handles w) p = Some h"
  shows "handle_file h < lw_fresh w" "holding h \<Longrightarrow> lw_holder w (handle_file h) = Some p" "stamp_kept le w h"
    "run_name h = Some n \<Longrightarrow> map_of (lw_names w) n = Some (handle_file h)"
  using assms unfolding lock_inv_def by blast+

lemma lock_invI:
  assumes "\<And>n i. map_of (lw_names w) n = Some i \<Longrightarrow> i < lw_fresh w"
    and "\<And>p h. map_of (lw_handles w) p = Some h \<Longrightarrow> handle_file h < lw_fresh w"
    and "\<And>p h. map_of (lw_handles w) p = Some h \<Longrightarrow> holding h \<Longrightarrow> lw_holder w (handle_file h) = Some p"
    and "\<And>p h. map_of (lw_handles w) p = Some h \<Longrightarrow> stamp_kept le w h"
    and "\<And>p h n. map_of (lw_handles w) p = Some h \<Longrightarrow> run_name h = Some n \<Longrightarrow> map_of (lw_names w) n = Some (handle_file h)"
  shows "lock_inv le w"
  using assms unfolding lock_inv_def by blast

lemma lock_inv_names: "lock_inv le w \<Longrightarrow> map_of (lw_names w) n = Some i \<Longrightarrow> i < lw_fresh w"
  unfolding lock_inv_def by blast

lemma stamp_kept_text: "lw_text w' = lw_text w \<Longrightarrow> stamp_kept le w' h = stamp_kept le w h"
  by (simp add: stamp_kept_def split: handle.split option.split)

lemma stamp_kept_frame [simp]:
  "stamp_kept le (w\<lparr> lw_names := a \<rparr>) h = stamp_kept le w h" "stamp_kept le (w\<lparr> lw_fresh := b \<rparr>) h = stamp_kept le w h"
  "stamp_kept le (w\<lparr> lw_holder := c \<rparr>) h = stamp_kept le w h" "stamp_kept le (w\<lparr> lw_handles := d \<rparr>) h = stamp_kept le w h"
  by (rule stamp_kept_text; simp)+

lemma inv_start: "lock_inv le no_locks"
  by (simp add: lock_inv_def no_locks_def)

lemma inv_open:
  assumes "lock_inv le w" "open_file n w = (i, w')"
  shows "lock_inv le w' \<and> i < lw_fresh w' \<and> map_of (lw_names w') n = Some i \<and> lw_handles w' = lw_handles w"
proof (cases "map_of (lw_names w) n")
  case None
  then have w': "w' = w\<lparr> lw_names := AList.update n (lw_fresh w) (lw_names w), lw_fresh := lw_fresh w + 1 \<rparr>" "i = lw_fresh w"
    using assms(2) by (auto simp: open_file_def)
  have "run_name h \<noteq> Some n" if "map_of (lw_handles w) p = Some h" for p h
    using lock_invD(4) [OF assms(1) that, of n] None by auto
  then have "lock_inv le w'"
    using lock_inv_names [OF assms(1)] lock_invD [OF assms(1)] None
    by (intro lock_invI) (auto simp: w' update_conv' less_Suc_eq split: if_splits)
  then show ?thesis by (simp add: w' update_conv')
next
  case (Some j)
  then show ?thesis using assms lock_inv_names by (auto simp: open_file_def)
qed

lemma inv_new_handle:
  assumes "lock_inv le w" "handle_file h < lw_fresh w" "holding h \<Longrightarrow> lw_holder w (handle_file h) = Some p" "stamp_kept le w h"
    "\<And>n. run_name h = Some n \<Longrightarrow> map_of (lw_names w) n = Some (handle_file h)"
  shows "lock_inv le (put_handle p h w)"
  using lock_inv_names [OF assms(1)] lock_invD [OF assms(1)] assms(2-5)
  by (intro lock_invI) (auto simp: put_handle_def update_conv' split: if_splits)

lemma inv_close:
  assumes "lock_inv le w"
  shows "lock_inv le (close_handle p w)"
  using lock_inv_names [OF assms] lock_invD [OF assms]
  by (intro lock_invI) (auto simp: close_handle_def delete_conv' split: if_splits)

lemma inv_take:
  assumes "lock_inv le w" "lw_holder w i = None"
  shows "lock_inv le (take_flock p i w)"
proof -
  have "i \<noteq> handle_file h" if "map_of (lw_handles w) q = Some h" "holding h" for q h
    using lock_invD(2) [OF assms(1) that] assms(2) by auto
  then show ?thesis
    using lock_inv_names [OF assms(1)] lock_invD [OF assms(1)]
    by (intro lock_invI) (auto simp: take_flock_def split: if_splits)
qed

lemma inv_release:
  assumes "lock_inv le w" "map_of (lw_handles w) p = Some h" "holding h"
  shows "lock_inv le (close_handle p (unlock (handle_file h) w))"
proof -
  have "handle_file g \<noteq> handle_file h" if "map_of (lw_handles w) q = Some g" "holding g" "q \<noteq> p" for q g
    using lock_invD(2) [OF assms(1) that(1,2)] lock_invD(2) [OF assms] that(3) by auto
  then show ?thesis
    using lock_inv_names [OF assms(1)] lock_invD [OF assms(1)]
    by (intro lock_invI) (auto simp: close_handle_def unlock_def delete_conv' split: if_splits)
qed

lemma inv_stamp:
  assumes "lock_inv le w" "map_of (lw_handles w) p = Some (Granted n i)"
  shows "lock_inv le (put_handle p (Stamped n i (Some x)) (w\<lparr> lw_text := (lw_text w)(i := dumps (le_float le) (JDict x)) \<rparr>))"
proof -
  have hold: "lw_holder w i = Some p" "i < lw_fresh w" "map_of (lw_names w) n = Some i"
    using lock_invD [OF assms] by (auto simp: handle_defs)
  have other: "stamp_kept le (w\<lparr> lw_text := (lw_text w)(i := dumps (le_float le) (JDict x)) \<rparr>) h"
    if "map_of (lw_handles w) q = Some h" "q \<noteq> p" for q h
  proof -
    have "i \<noteq> handle_file h" if "holding h"
      using lock_invD(2) [OF assms(1) \<open>map_of (lw_handles w) q = Some h\<close> that] \<open>q \<noteq> p\<close> hold(1) by auto
    then show ?thesis
      using lock_invD(3) [OF assms(1) \<open>map_of (lw_handles w) q = Some h\<close>]
      by (cases h) (auto simp: handle_defs simp del: dumps.simps split: option.split)
  qed
  have new: "stamp_kept le (w\<lparr> lw_text := (lw_text w)(i := dumps (le_float le) (JDict x)) \<rparr>) (Stamped n i (Some x))"
    by (simp add: stamp_kept_def del: dumps.simps)
  have at_i: "handle_file (Stamped n i (Some x)) = i" "run_name (Stamped n i (Some x)) = Some n"
    by (simp_all add: handle_defs)
  show ?thesis
    using lock_inv_names [OF assms(1)] lock_invD(1,2,4) [OF assms(1)] hold other new
    by (intro lock_invI) (auto simp: put_handle_def update_conv' at_i simp del: dumps.simps split: if_splits)
qed

lemma inv_unlink:
  assumes "lock_inv le w" "map_of (lw_handles w) p = Some (PruneHolds n i)"
    and "list_all (\<lambda>(q, h). run_name h \<noteq> Some n) (lw_handles w)"
  shows "lock_inv le (put_handle p (PruneDone i) (w\<lparr> lw_names := AList.delete n (lw_names w) \<rparr>))"
proof -
  have hold: "lw_holder w i = Some p" "i < lw_fresh w"
    using lock_invD [OF assms(1,2)] by (auto simp: handle_defs)
  have other: "run_name h \<noteq> Some n" if "map_of (lw_handles w) q = Some h" for q h
    using assms(3) map_of_SomeD [OF that] by (auto simp: list_all_iff)
  have "lock_inv le (w\<lparr> lw_names := AList.delete n (lw_names w) \<rparr>)"
    using lock_inv_names [OF assms(1)] lock_invD [OF assms(1)] other
    by (intro lock_invI) (auto simp: delete_conv' split: if_splits)
  then show ?thesis using hold by (intro inv_new_handle) (simp_all add: handle_defs)
qed

lemma inv_step:
  assumes "lock_inv le w" "lock_step le a w = Some w'" "unlinks_unused a w"
  shows "lock_inv le w'"
proof (cases a)
  case (RunOpen p ws)
  obtain i w1 where o: "open_file (lock_file le ws) w = (i, w1)" by fastforce
  then have "w' = put_handle p (Opened (lock_file le ws) i) w1"
    using assms(2) RunOpen by (simp add: lock_step_def run_open_def split: if_splits)
  then show ?thesis using inv_open [OF assms(1) o] by (auto intro!: inv_new_handle simp: handle_defs)
next
  case (PruneOpen p n)
  obtain i w1 where o: "open_file n w = (i, w1)" by fastforce
  then have "w' = put_handle p (PruneOpened n i) w1"
    using assms(2) PruneOpen by (simp add: lock_step_def prune_open_def split: if_splits)
  then show ?thesis using inv_open [OF assms(1) o] by (auto intro!: inv_new_handle simp: handle_defs)
next
  case (RunTry p g)
  then obtain n i where h: "map_of (lw_handles w) p = Some (Opened n i)"
    and w': "w' = (if lw_holder w i = None then put_handle p (Granted n i) (take_flock p i w) else if g then close_handle p w else w)"
    using assms(2) by (auto simp: lock_step_def run_try_def split: option.splits handle.splits if_splits)
  have "lw_holder w i = None \<Longrightarrow> lock_inv le (put_handle p (Granted n i) (take_flock p i w))"
    using inv_take [OF assms(1)] lock_invD [OF assms(1) h]
    by (intro inv_new_handle) (auto simp: handle_defs take_flock_def)
  then show ?thesis using w' assms(1) inv_close by auto
next
  case (PruneTry p)
  then obtain n i where h: "map_of (lw_handles w) p = Some (PruneOpened n i)"
    and w': "w' = (if lw_holder w i = None then put_handle p (PruneHolds n i) (take_flock p i w) else close_handle p w)"
    using assms(2) by (auto simp: lock_step_def prune_try_def split: option.splits handle.splits if_splits)
  have "lw_holder w i = None \<Longrightarrow> lock_inv le (put_handle p (PruneHolds n i) (take_flock p i w))"
    using inv_take [OF assms(1)] lock_invD [OF assms(1) h]
    by (intro inv_new_handle) (auto simp: handle_defs take_flock_def)
  then show ?thesis using w' assms(1) inv_close by auto
next
  case (RunStamp p d)
  then obtain n i where h: "map_of (lw_handles w) p = Some (Granted n i)"
    and w': "w' = put_handle p (Stamped n i d) (case d of None \<Rightarrow> w
          | Some x \<Rightarrow> w\<lparr> lw_text := (lw_text w)(i := dumps (le_float le) (JDict x)) \<rparr>)"
    using assms(2) by (auto simp: lock_step_def run_stamp_def split: option.splits handle.splits)
  have "lock_inv le (put_handle p (Stamped n i None) w)"
    using lock_invD [OF assms(1) h] assms(1) by (intro inv_new_handle) (auto simp: handle_defs)
  then show ?thesis using w' inv_stamp [OF assms(1) h] by (cases d) auto
next
  case (RunRelease p)
  then obtain h where h: "map_of (lw_handles w) p = Some h" "holding h" "w' = close_handle p (unlock (handle_file h) w)"
    using assms(2) by (auto simp: lock_step_def run_release_def handle_defs split: option.splits handle.splits)
  then show ?thesis using inv_release [OF assms(1)] by simp
next
  case (PruneUnlink p)
  then obtain n i where h: "map_of (lw_handles w) p = Some (PruneHolds n i)"
    and w': "w' = put_handle p (PruneDone i) (w\<lparr> lw_names := AList.delete n (lw_names w) \<rparr>)"
    using assms(2) by (auto simp: lock_step_def prune_unlink_def split: option.splits handle.splits)
  then show ?thesis using inv_unlink [OF assms(1) h] assms(3) PruneUnlink by (simp add: unlinks_unused_def)
next
  case (PruneClose p)
  then obtain i where h: "map_of (lw_handles w) p = Some (PruneDone i)" "w' = close_handle p (unlock i w)"
    using assms(2) by (auto simp: lock_step_def prune_close_def split: option.splits handle.splits)
  then show ?thesis using inv_release [OF assms(1) h(1)] by (simp add: handle_defs)
qed

lemma reached_inv: "lock_reached le unlinks_unused w \<Longrightarrow> lock_inv le w"
  by (induction rule: lock_reached.induct) (auto intro: inv_start inv_step)

lemma holds_fileD:
  assumes "holds_file le p ws w"
  obtains h where "map_of (lw_handles w) p = Some h" "holding h" "run_name h = Some (lock_file le ws)"
  using assms by (auto simp: holds_file_def handle_defs split: option.splits handle.splits)

section \<open>Mutual exclusion\<close>

text \<open>C37: The lock of a workspace keeps the writing runs of all processes apart: in every interleaving of their
  system calls with those of pruners in which no lock file is removed while a run has it open, two
  runs that have the lock of one workspace are the same run.\<close>
theorem file_lock_excludes:
  assumes "lock_reached le unlinks_unused w" "holds_file le p ws w" "holds_file le q ws w"
  shows "p = q"
proof -
  have inv: "lock_inv le w" by (rule reached_inv [OF assms(1)])
  obtain h where h: "map_of (lw_handles w) p = Some h" "holding h" "run_name h = Some (lock_file le ws)"
    using assms(2) by (rule holds_fileD)
  obtain g where g: "map_of (lw_handles w) q = Some g" "holding g" "run_name g = Some (lock_file le ws)"
    using assms(3) by (rule holds_fileD)
  have "handle_file h = handle_file g"
    using lock_invD(4) [OF inv h(1,3)] lock_invD(4) [OF inv g(1,3)] by simp
  then show ?thesis using lock_invD(2) [OF inv h(1,2)] lock_invD(2) [OF inv g(1,2)] by simp
qed

definition lock_demo :: lock_env where
  "lock_demo = \<lparr> le_dir = ''/tmp/fluxion-locks'', le_digest = (\<lambda>s. s), le_float = (\<lambda>q. []), le_loads = (\<lambda>s. None) \<rparr>"

definition polite :: "lock_act list" where
  "polite = [RunOpen ''a'' ''w'', RunTry ''a'' False, RunStamp ''a'' None, RunOpen ''b'' ''w'', RunTry ''b'' False, RunRelease ''a'',
     RunTry ''b'' False]"

definition polite_end :: lock_world where
  "polite_end = the (lock_acts lock_demo polite no_locks)"

lemma polite_reached: "lock_reached lock_demo unlinks_unused polite_end"
proof -
  have "acts_within lock_demo unlinks_unused polite no_locks" by code_simp
  moreover have "lock_acts lock_demo polite no_locks \<noteq> None" by code_simp
  then have "lock_acts lock_demo polite no_locks = Some polite_end" by (auto simp: polite_end_def)
  ultimately show ?thesis by (rule lock_acts_reached [OF lock_start])
qed

theorem file_lock_excludes_witness: "holds_file lock_demo ''b'' ''w'' polite_end \<and> \<not> holds_file lock_demo ''a'' ''w'' polite_end"
proof -
  have "holds_file lock_demo ''b'' ''w'' polite_end" by code_simp
  then show ?thesis using file_lock_excludes [OF polite_reached, of "''a''" "''w''" "''b''"] by auto
qed

section \<open>Pruning while a run waits\<close>

definition pruned_under :: "lock_act list" where
  \<comment> \<open>run a opens the file, the pruner locks and removes it, a gets the lock of the removed file, b makes a new one\<close>
  "pruned_under = [RunOpen ''a'' ''w'', PruneOpen ''p'' ''w.lock'', PruneTry ''p'', RunTry ''a'' False, PruneUnlink ''p'',
     PruneClose ''p'', RunTry ''a'' False, RunOpen ''b'' ''w'', RunTry ''b'' False]"

definition pruned_end :: lock_world where
  "pruned_end = the (lock_acts lock_demo pruned_under no_locks)"

text \<open>Pruning released lock files breaks the lock: the pruner holds the lock of the file while it removes
  the name, but a run that opened the file before gets the lock of the removed file afterwards, the
  next run makes a new file and gets the lock of that, and both write to the workspace.\<close>
lemma prune_breaks_lock:
  "lock_reached lock_demo (\<lambda>a w. True) pruned_end \<and> holds_file lock_demo ''a'' ''w'' pruned_end \<and>
   holds_file lock_demo ''b'' ''w'' pruned_end"
proof -
  have "acts_within lock_demo (\<lambda>a w. True) pruned_under no_locks" by code_simp
  moreover have "lock_acts lock_demo pruned_under no_locks \<noteq> None" by code_simp
  then have "lock_acts lock_demo pruned_under no_locks = Some pruned_end" by (auto simp: pruned_end_def)
  ultimately have "lock_reached lock_demo (\<lambda>a w. True) pruned_end" by (rule lock_acts_reached [OF lock_start])
  moreover have "holds_file lock_demo ''a'' ''w'' pruned_end" by code_simp
  moreover have "holds_file lock_demo ''b'' ''w'' pruned_end" by code_simp
  ultimately show ?thesis by blast
qed

section \<open>The listing\<close>

text \<open>A run that has stamped its lock is listed with its stamp.\<close>

lemma listing_names_holder:
  assumes "lock_reached le unlinks_unused w" "map_of (lw_handles w) p = Some (Stamped n i (Some d))"
    and json: "le_loads le (dumps (le_float le) (JDict d)) = Some (JDict d)"
      "strip (dumps (le_float le) (JDict d)) = dumps (le_float le) (JDict d)"
  shows "\<exists>row\<in>set (fst (list_workspace_locks le oenv w)). dget row ''lock_file'' = JStr (le_dir le @ CHR ''/'' # n) \<and>
    dget row ''holder'' = JDict d"
proof -
  have inv: "lock_inv le w" by (rule reached_inv [OF assms(1)])
  have n: "map_of (lw_names w) n = Some i" "lw_holder w i = Some p" "lw_text w i = dumps (le_float le) (JDict d)"
    using lock_invD [OF inv assms(2)] by (auto simp: handle_defs)
  have "n \<in> set (map fst (lw_names w))" using map_of_SomeD [OF n(1)] by force
  moreover have "is_held w n" using n by (simp add: is_held_def)
  moreover have "dumps (le_float le) (JDict d) \<noteq> []" by simp
  then have "read_lock_holder le (lw_text w i) = Some d"
    unfolding n(3) read_lock_holder_def json(2) using json(1) by simp
  then have "dget (holder_row le oenv w n) ''lock_file'' = JStr (le_dir le @ CHR ''/'' # n) \<and> dget (holder_row le oenv w n) ''holder'' = JDict d"
    using n(1) by (simp add: holder_row_def Let_def)
  ultimately show ?thesis by (auto simp: list_workspace_locks_def Let_def)
qed

end
