(* ===== verification/UsageEntries.thy ===== *)
theory UsageEntries
  imports IsoTime JsonLines
begin

text \<open>
  One turn of an agent with its token usage (\<open>usage/history/entry.py\<close>), its row in the scan cache,
  and the price table it is costed against (\<open>usage/model_identity.py\<close>, \<open>usage/model_rates.py\<close>,
  \<open>usage/history/pricing.py\<close>). Prices are rationals; \<open>today\<close> is the local date where no date is given.
\<close>

section \<open>Entries\<close>

record usage_entry =
  ue_provider :: string
  ue_ts :: int
  ue_model :: string
  ue_session :: string
  ue_input :: int
  ue_output :: int
  ue_cache_write :: int
  ue_cache_read :: int
  ue_key :: string
  ue_cache_write_1h :: int
  ue_fast :: bool
  ue_billed :: int

definition total_tokens :: "usage_entry \<Rightarrow> int" where
  "total_tokens e = ue_input e + ue_output e + ue_cache_write e + ue_cache_read e"

definition parse_ts :: "json \<Rightarrow> int option" where
  "parse_ts v = (case v of JStr s \<Rightarrow> parse_iso (Some s) | _ \<Rightarrow> None)"

definition token_int :: "json \<Rightarrow> int" where
  \<comment> \<open>\<open>_int\<close>\<close>
  "token_int v = (case v of JInt n \<Rightarrow> n | JFloat x \<Rightarrow> (if x < 0 then \<lceil>x\<rceil> else \<lfloor>x\<rfloor>) | _ \<Rightarrow> 0)"

definition entry_to_cache :: "usage_entry \<Rightarrow> dict" where
  "entry_to_cache e =
     [(''t'', JStr (isoformat (ue_ts e))), (''m'', JStr (ue_model e)), (''s'', JStr (ue_session e)),
      (''i'', JInt (ue_input e)), (''o'', JInt (ue_output e)), (''cc'', JInt (ue_cache_write e)),
      (''cc1h'', JInt (ue_cache_write_1h e)), (''cr'', JInt (ue_cache_read e)), (''k'', JStr (ue_key e))] @
     (if ue_billed e \<noteq> 0 then [(''bi'', JInt (ue_billed e))] else []) @
     (if ue_fast e then [(''f'', JInt 1)] else [])"

definition cell_text :: "(json \<Rightarrow> string) \<Rightarrow> dict \<Rightarrow> string \<Rightarrow> string \<Rightarrow> string" where
  \<comment> \<open>\<open>str(d.get(key) or default)\<close>\<close>
  "cell_text rp d k v = py_str rp (py_or (dget d k) (JStr v))"

definition entry_from_cache :: "(json \<Rightarrow> string) \<Rightarrow> string \<Rightarrow> dict \<Rightarrow> usage_entry option" where
  "entry_from_cache rp provider d = (case parse_ts (dget d ''t'') of
       None \<Rightarrow> None
     | Some ts \<Rightarrow> Some \<lparr> ue_provider = provider, ue_ts = ts, ue_model = cell_text rp d ''m'' ''unknown'',
         ue_session = cell_text rp d ''s'' [], ue_input = token_int (dget d ''i''), ue_output = token_int (dget d ''o''),
         ue_cache_write = token_int (dget d ''cc''), ue_cache_read = token_int (dget d ''cr''), ue_key = cell_text rp d ''k'' [],
         ue_cache_write_1h = token_int (dget d ''cc1h''), ue_fast = truthy (dget d ''f''), ue_billed = token_int (dget d ''bi'') \<rparr>)"

lemma entry_cache_roundtrip:
  assumes "valid_instant (ue_ts e)" "ue_model e \<noteq> []"
  shows "entry_from_cache rp (ue_provider e) (entry_to_cache e) = Some e"
proof -
  have "parse_iso (Some (isoformat (ue_ts e))) = Some (ue_ts e)" by (rule iso.parse_render [OF assms(1)])
  then show ?thesis
    using assms(2)
    by (simp add: entry_from_cache_def entry_to_cache_def parse_ts_def cell_text_def token_int_def py_or_def)
qed

section \<open>The identity a price is looked up by\<close>

definition efforts :: "string list" where
  "efforts = [''low'', ''medium'', ''high'', ''xhigh'', ''max'', ''ultra'']"

definition drop_colon_effort :: "string \<Rightarrow> string" where
  \<comment> \<open>\<open>_COLON_EFFORT_RE.sub("", low)\<close>\<close>
  "drop_colon_effort s = (case find (\<lambda>x. suffix (CHR '':'' # x) s) efforts of
       None \<Rightarrow> s
     | Some x \<Rightarrow> take (length s - length x - 1) s)"

text \<open>A version \<open>\d+(\.\d+)*\<close> at the head of a text, the longest one, and what follows it.\<close>

fun version_rest :: "bool \<Rightarrow> string \<Rightarrow> string \<times> string" where
  \<comment> \<open>\<open>True\<close>: a digit has just been read\<close>
  "version_rest b [] = ([], [])"
| "version_rest b (c # cs) =
     (if is_digit c then (case version_rest True cs of (v, r) \<Rightarrow> (c # v, r))
      else if c = CHR ''.'' \<and> b \<and> cs \<noteq> [] \<and> is_digit (hd cs) then (case version_rest False cs of (v, r) \<Rightarrow> (c # v, r))
      else ([], c # cs))"

definition tier_here :: "(string \<times> string) list \<Rightarrow> string \<Rightarrow> (string \<times> string) option" where
  \<comment> \<open>the first spelling at the head of the text: its canonical form and the rest\<close>
  "tier_here tiers s = map_option (\<lambda>(t, c). (c, drop (length t) s)) (find (\<lambda>(t, c). prefix t s) tiers)"

definition display_tiers :: "(string \<times> string) list" where
  "display_tiers = [(''flash-lite'', ''flash-lite''), (''flash'', ''flash''), (''pro'', ''pro'')]"

definition effort_group :: "string \<Rightarrow> bool" where
  \<comment> \<open>\<open>(?:\s*\((?P<effort>[^()]*)\))?$\<close>\<close>
  "effort_group s \<longleftrightarrow> s = [] \<or> (let r = lstrip s in
     r \<noteq> [] \<and> hd r = CHR ''('' \<and> last r = CHR '')'' \<and> length r \<ge> 2 \<and>
     list_all (\<lambda>c. c \<noteq> CHR ''('' \<and> c \<noteq> CHR '')'') (butlast (tl r)))"

definition one_space_tier :: "string \<Rightarrow> (string \<times> string) option" where
  \<comment> \<open>\<open>flash(?:[-\s]lite)?|pro\<close>, \<open>\s+\<close> in it written as a dash; the longer spelling is tried first\<close>
  "one_space_tier s =
     (if prefix ''flash'' s \<and> length s > 5 \<and> (s ! 5 = CHR ''-'' \<or> is_space (s ! 5)) \<and> prefix ''lite'' (drop 6 s)
      then Some (''flash-lite'', drop 10 s)
      else tier_here [(''flash'', ''flash''), (''pro'', ''pro'')] s)"

definition gemini_display :: "string \<Rightarrow> string option" where
  "gemini_display low =
     (if \<not> prefix ''gemini'' low then None
      else (let a = drop 6 low; b = lstrip a; (ver, c) = version_rest False b; d = lstrip c in
        if a = b \<or> ver = [] \<or> c = d then None
        else (case one_space_tier d of
            Some (tier, r) \<Rightarrow> (if effort_group r then Some (''gemini-'' @ ver @ ''-'' @ tier) else None)
          | None \<Rightarrow> None)))"

definition slug_efforts :: "string list" where
  "slug_efforts = [''low'', ''medium'', ''high'', ''xhigh'', ''max'']"

definition slug_end :: "string \<Rightarrow> bool" where
  "slug_end s \<longleftrightarrow> s = [] \<or> (hd s = CHR ''-'' \<and> tl s \<in> set slug_efforts)"

definition gemini_slug :: "string \<Rightarrow> string option" where
  "gemini_slug low =
     (if \<not> prefix ''gemini-'' low then None
      else (let (ver, a) = version_rest False (drop 7 low) in
        if ver = [] \<or> \<not> prefix ''-'' a then None
        else (case find (\<lambda>(t, c). prefix t (tl a) \<and> slug_end (drop (length t) (tl a))) display_tiers of
            Some (t, c) \<Rightarrow> Some (''gemini-'' @ ver @ ''-'' @ t)
          | None \<Rightarrow> None)))"

definition billing_model_id :: "string \<Rightarrow> string" where
  \<comment> \<open>the provider does not matter for it\<close>
  "billing_model_id model =
     (let low = lower (strip model) in
      case gemini_display low of
        Some i \<Rightarrow> i
      | None \<Rightarrow> (case gemini_slug low of Some i \<Rightarrow> i | None \<Rightarrow> drop_colon_effort low))"

section \<open>Rates\<close>

text \<open>A rate is the dict of the price table.\<close>

definition rate_date :: "(json \<Rightarrow> string) \<Rightarrow> dict \<Rightarrow> string" where
  "rate_date rp r = py_str rp (dget_or r ''effective_date'' (JStr []))"

definition pick_rate :: "(json \<Rightarrow> string) \<Rightarrow> string \<Rightarrow> json \<Rightarrow> string option \<Rightarrow> dict option" where
  "pick_rate rp today v at_date = (case v of
       JList xs \<Rightarrow>
         (let ordered = sort_key (rate_date rp) (dicts_of xs); cutoff = or_default at_date today;
              eligible = filter (\<lambda>r. rate_date rp r \<le> cutoff) ordered in
          if ordered = [] then None else if eligible \<noteq> [] then Some (last eligible) else Some (hd ordered))
     | _ \<Rightarrow> None)"

definition is_alpha :: "char \<Rightarrow> bool" where
  "is_alpha c \<longleftrightarrow> (let n = code c in (65 \<le> n \<and> n \<le> 90) \<or> (97 \<le> n \<and> n \<le> 122) \<or> n = 170 \<or> n = 181 \<or> n = 186 \<or>
     (192 \<le> n \<and> n \<noteq> 215 \<and> n \<noteq> 247))"

fun family_at :: "bool \<Rightarrow> string \<Rightarrow> string \<Rightarrow> bool" where
  \<comment> \<open>\<open>True\<close>: no letter stands before this place\<close>
  "family_at b f [] = (f = [] \<and> b)"
| "family_at b f (c # cs) = ((b \<and> prefix f (c # cs)) \<or> family_at (\<not> is_alpha c) f cs)"

definition family_match :: "string \<Rightarrow> string \<Rightarrow> bool" where
  "family_match family model = family_at True family model"

definition sub_table :: "dict \<Rightarrow> string \<Rightarrow> dict" where
  \<comment> \<open>\<open>prices.get(key) or {}\<close>\<close>
  "sub_table prices k = (case dget prices k of JDict d \<Rightarrow> d | _ \<Rightarrow> [])"

definition entry_rate :: "(json \<Rightarrow> string) \<Rightarrow> string \<Rightarrow> json \<Rightarrow> string option \<Rightarrow> dict option" where
  "entry_rate rp today v at_date = (case v of JDict d \<Rightarrow> pick_rate rp today (dget d ''rates'') at_date | _ \<Rightarrow> None)"

fun family_rate :: "(json \<Rightarrow> string) \<Rightarrow> string \<Rightarrow> (json \<Rightarrow> bool) \<Rightarrow> dict \<Rightarrow> string \<Rightarrow> string option \<Rightarrow> dict option" where
  "family_rate rp today ok [] low at_date = None"
| "family_rate rp today ok ((f, v) # rest) low at_date =
     (if ok v \<and> family_match f low
      then (case pick_rate rp today v at_date of Some r \<Rightarrow> Some r | None \<Rightarrow> family_rate rp today ok rest low at_date)
      else family_rate rp today ok rest low at_date)"

definition resolve_standard_rate ::
    "(json \<Rightarrow> string) \<Rightarrow> string \<Rightarrow> dict \<Rightarrow> string \<Rightarrow> string \<Rightarrow> string option \<Rightarrow> dict option" where
  "resolve_standard_rate rp today prices provider model at_date =
     (let canonical = billing_model_id model; models = sub_table prices ''models'' in
      case entry_rate rp today (py_or (dget models (strip model)) (dget models canonical)) at_date of
        Some r \<Rightarrow> Some r
      | None \<Rightarrow> (case family_rate rp today (\<lambda>v. True) (sub_table prices ''families'') canonical at_date of
          Some r \<Rightarrow> Some r
        | None \<Rightarrow> pick_rate rp today (dget (sub_table prices ''providers'') provider) at_date))"

definition is_list :: "json \<Rightarrow> bool" where
  "is_list v = (case v of JList xs \<Rightarrow> True | _ \<Rightarrow> False)"

definition resolve_fast ::
    "(json \<Rightarrow> string) \<Rightarrow> string \<Rightarrow> dict \<Rightarrow> string \<Rightarrow> string \<Rightarrow> string option \<Rightarrow> dict option" where
  "resolve_fast rp today prices model low at_date =
     (let fast = sub_table prices ''fast'' in
      case entry_rate rp today (py_or (dget fast model) (dget fast low)) at_date of
        Some r \<Rightarrow> Some r
      | None \<Rightarrow> family_rate rp today is_list fast low at_date)"

definition rates_for ::
    "(json \<Rightarrow> string) \<Rightarrow> string \<Rightarrow> dict \<Rightarrow> string \<Rightarrow> string \<Rightarrow> string option \<Rightarrow> bool \<Rightarrow> dict option" where
  "rates_for rp today prices provider model at_date fast =
     (case (if fast then resolve_fast rp today prices model (billing_model_id model) at_date else None) of
        Some r \<Rightarrow> Some r
      | None \<Rightarrow> resolve_standard_rate rp today prices provider model at_date)"

section \<open>The cost of a turn\<close>

definition billed_input :: "usage_entry \<Rightarrow> int" where
  "billed_input e = (if ue_billed e \<noteq> 0 then ue_billed e else ue_input e + ue_cache_write e + ue_cache_read e)"

definition input_metric :: "(json \<Rightarrow> string) \<Rightarrow> dict \<Rightarrow> bool" where
  "input_metric rp context \<longleftrightarrow> py_str rp (py_or (dget context ''metric'') (JStr ''input_tokens_total'')) = ''input_tokens_total''"

definition short_max :: "dict \<Rightarrow> int" where
  \<comment> \<open>\<open>int(context.get("short_max") or 0)\<close> of a number\<close>
  "short_max context = (case py_to_int (py_or (dget context ''short_max'') (JInt 0)) of Inr n \<Rightarrow> n | Inl e \<Rightarrow> 0)"

definition rate_for_entry :: "(json \<Rightarrow> string) \<Rightarrow> usage_entry \<Rightarrow> dict option \<Rightarrow> dict option" where
  "rate_for_entry rp e rate = (case rate of
       None \<Rightarrow> None
     | Some r \<Rightarrow> (case dget r ''context_pricing'' of
         JDict context \<Rightarrow>
           (if \<not> input_metric rp context then Some r
            else (case (dget context ''short'', dget context ''long'') of
                (JDict short, JDict long) \<Rightarrow>
                  (if short_max context \<le> 0 then Some r
                   else if billed_input e \<le> short_max context then Some short else Some long)
              | _ \<Rightarrow> Some r))
       | _ \<Rightarrow> Some r))"

definition context_tier :: "(json \<Rightarrow> string) \<Rightarrow> usage_entry \<Rightarrow> dict option \<Rightarrow> string option" where
  "context_tier rp e rate = (case rate of
       None \<Rightarrow> None
     | Some r \<Rightarrow> (case dget r ''context_pricing'' of
         JDict context \<Rightarrow>
           (if \<not> input_metric rp context \<or> short_max context \<le> 0 then None
            else Some (if billed_input e \<le> short_max context then ''short'' else ''long''))
       | _ \<Rightarrow> None))"

definition price :: "dict \<Rightarrow> string \<Rightarrow> rat" where
  \<comment> \<open>a number of the table\<close>
  "price r k = (case dget r k of JInt n \<Rightarrow> of_int n | JFloat x \<Rightarrow> x | _ \<Rightarrow> 0)"

definition entry_cost :: "(json \<Rightarrow> string) \<Rightarrow> usage_entry \<Rightarrow> dict option \<Rightarrow> rat" where
  "entry_cost rp e rate = (case rate_for_entry rp e rate of
       None \<Rightarrow> 0
     | Some r \<Rightarrow>
         (let cw1h = (if map_of r ''cw1h'' = None then price r ''cw'' else price r ''cw1h'');
              cc_1h = min (ue_cache_write_1h e) (ue_cache_write e); cc_5m = ue_cache_write e - cc_1h in
          (of_int (ue_input e) * price r ''in'' + of_int (ue_output e) * price r ''out'' + of_int cc_5m * price r ''cw'' +
           of_int cc_1h * cw1h + of_int (ue_cache_read e) * price r ''cr'') / 1000000))"

end
