(* ===== verification/UsageTotals.thy ===== *)
theory UsageTotals
  imports UsageEntries
begin

text \<open>
  Rolling entries into the console payload (\<open>usage/history/aggregate.py\<close>): the choice among the copies
  of a turn, the window, the buckets by day, hour, model and provider, the streaks and the cost.
  \<open>ag_offset\<close> is the local UTC offset at an instant; days are counted from 0001-01-01 and rendered as
  ISO dates where the payload carries them. Rounding is a parameter.
\<close>

section \<open>Buckets\<close>

record bucket =
  bk_input :: int
  bk_output :: int
  bk_cache_write :: int
  bk_cache_read :: int
  bk_messages :: int
  bk_sessions :: "string list"

definition empty_bucket :: bucket where
  "empty_bucket = \<lparr> bk_input = 0, bk_output = 0, bk_cache_write = 0, bk_cache_read = 0, bk_messages = 0, bk_sessions = [] \<rparr>"

definition add_entry :: "usage_entry \<Rightarrow> bucket \<Rightarrow> bucket" where
  "add_entry e b = \<lparr> bk_input = bk_input b + ue_input e, bk_output = bk_output b + ue_output e,
     bk_cache_write = bk_cache_write b + ue_cache_write e, bk_cache_read = bk_cache_read b + ue_cache_read e,
     bk_messages = bk_messages b + 1,
     bk_sessions = (if ue_session e \<noteq> [] then List.insert (ue_session e) (bk_sessions b) else bk_sessions b) \<rparr>"

definition bucket_total :: "bucket \<Rightarrow> int" where
  "bucket_total b = bk_input b + bk_output b + bk_cache_write b + bk_cache_read b"

definition generated_tokens :: "bucket \<Rightarrow> int" where
  "generated_tokens b = bk_input b + bk_output b + bk_cache_write b"

definition cache_hit :: "(nat \<Rightarrow> rat \<Rightarrow> rat) \<Rightarrow> bucket \<Rightarrow> rat" where
  "cache_hit rnd b = (let denom = bk_cache_read b + bk_input b + bk_cache_write b in
     if denom \<noteq> 0 then rnd 4 (of_int (bk_cache_read b) / of_int denom) else 0)"

definition token_dict :: "bucket \<Rightarrow> dict" where
  "token_dict b = [(''input_tokens'', JInt (bk_input b)), (''output_tokens'', JInt (bk_output b)),
     (''cache_creation_tokens'', JInt (bk_cache_write b)), (''cache_read_tokens'', JInt (bk_cache_read b)),
     (''total_tokens'', JInt (bucket_total b)), (''generated_tokens'', JInt (generated_tokens b))]"

definition add_at :: "'k \<Rightarrow> usage_entry \<Rightarrow> ('k \<times> bucket) list \<Rightarrow> ('k \<times> bucket) list" where
  \<comment> \<open>\<open>d.setdefault(key, _Bucket()).add(e)\<close>\<close>
  "add_at k e d = AList.update k (add_entry e (or_default (map_of d k) empty_bucket)) d"

definition add_cost :: "'k \<Rightarrow> rat \<Rightarrow> ('k \<times> rat) list \<Rightarrow> ('k \<times> rat) list" where
  "add_cost k c d = AList.update k (or_default (map_of d k) 0 + c) d"

section \<open>Streaks\<close>

fun longest_run :: "int list \<Rightarrow> nat \<Rightarrow> nat \<Rightarrow> nat" where
  \<comment> \<open>the loop over neighbours of the sorted days: the run so far and the longest\<close>
  "longest_run (p # c # ds) run longest =
     (let run' = (if c - p = 1 then run + 1 else 1) in longest_run (c # ds) run' (max longest run'))"
| "longest_run ds run longest = longest"

lemma card_below:
  "(c::int) \<in> set days \<Longrightarrow> card {d \<in> set days. d < c} < card {d \<in> set days. d < c + 1}"
  by (rule psubset_card_mono) auto

function run_back :: "int list \<Rightarrow> int \<Rightarrow> nat" where
  \<comment> \<open>the \<open>while\<close> loop: the days of the run that ends with the cursor\<close>
  "run_back days cursor = (if cursor - 1 \<in> set days then Suc (run_back days (cursor - 1)) else 1)"
  by pat_completeness auto

termination
proof (relation "measure (\<lambda>(days, cursor). card {d \<in> set days. d < cursor})")
  fix days :: "int list" and cursor :: int
  assume "cursor - 1 \<in> set days"
  then show "((days, cursor - 1), days, cursor) \<in> measure (\<lambda>(days, cursor). card {d \<in> set days. d < cursor})"
    using card_below [of "cursor - 1" days] by (simp del: Collect_conj_eq)
qed (rule wf_measure)

declare run_back.simps [simp del]

definition streaks :: "int list \<Rightarrow> int \<Rightarrow> nat \<times> nat" where
  "streaks days today = (case sort (remdups days) of
       [] \<Rightarrow> (0, 0)
     | d # ds \<Rightarrow>
         (let ordered = d # ds; longest = longest_run ordered 1 1; latest = last ordered in
          if today - latest > 1 then (0, longest) else (run_back days latest, longest)))"

section \<open>One window\<close>

record usage_view =
  ag_offset :: "int \<Rightarrow> int"
  ag_now :: int
  ag_window :: string
  ag_prices :: dict
  ag_round :: "nat \<Rightarrow> rat \<Rightarrow> rat"
  ag_repr :: "json \<Rightarrow> string"

definition local_day :: "usage_view \<Rightarrow> int \<Rightarrow> int" where
  "local_day v t = (t + ag_offset v t) div usec_per_day"

definition local_hour :: "usage_view \<Rightarrow> int \<Rightarrow> nat" where
  "local_hour v t = nat ((t + ag_offset v t) mod usec_per_day div usec_per_hour)"

definition day_text :: "int \<Rightarrow> string" where
  "day_text day = date_text (day * usec_per_day)"

definition window_days :: "string \<Rightarrow> int option" where
  "window_days w = (if w = ''30d'' then Some 30 else if w = ''7d'' then Some 7 else if w = ''1d'' then Some 1 else None)"

definition today_of :: "usage_view \<Rightarrow> int" where
  "today_of v = local_day v (ag_now v)"

definition in_window :: "usage_view \<Rightarrow> usage_entry \<Rightarrow> bool" where
  "in_window v e = (case window_days (ag_window v) of
       None \<Rightarrow> True
     | Some n \<Rightarrow> local_day v (ue_ts e) \<ge> today_of v - (n - 1))"

section \<open>Copies of a turn\<close>

definition better_copy :: "usage_entry \<Rightarrow> usage_entry option \<Rightarrow> bool" where
  "better_copy e cur = (case cur of
       None \<Rightarrow> True
     | Some c \<Rightarrow> total_tokens e > total_tokens c \<or> (total_tokens e = total_tokens c \<and> ue_ts e < ue_ts c))"

fun unique_entries :: "usage_entry list \<Rightarrow> (string \<times> usage_entry) list \<Rightarrow> (string \<times> usage_entry) list" where
  "unique_entries [] acc = acc"
| "unique_entries (e # es) acc =
     unique_entries es (if better_copy e (map_of acc (ue_key e)) then AList.update (ue_key e) e acc else acc)"

definition chosen :: "usage_entry list \<Rightarrow> usage_entry list" where
  "chosen es = map snd (unique_entries es [])"

section \<open>The tally\<close>

record tally =
  ty_day :: "(int \<times> bucket) list"
  ty_provider_day :: "((int \<times> string) \<times> bucket) list"
  ty_provider_hour :: "((string \<times> nat) \<times> bucket) list"
  ty_day_cost :: "((int \<times> string) \<times> rat) list"
  ty_total :: bucket
  ty_provider :: "(string \<times> bucket) list"
  ty_hours :: "bucket list"
  ty_model :: "(string \<times> bucket) list"
  ty_model_provider :: "(string \<times> string) list"
  ty_cost :: rat
  ty_model_cost :: "(string \<times> rat) list"
  ty_short :: int
  ty_long :: int
  ty_model_tiers :: "(string \<times> int \<times> int) list"
  ty_uncosted :: int

definition empty_tally :: tally where
  "empty_tally = \<lparr> ty_day = [], ty_provider_day = [], ty_provider_hour = [], ty_day_cost = [], ty_total = empty_bucket,
     ty_provider = [], ty_hours = replicate 24 empty_bucket, ty_model = [], ty_model_provider = [], ty_cost = 0,
     ty_model_cost = [], ty_short = 0, ty_long = 0, ty_model_tiers = [], ty_uncosted = 0 \<rparr>"

definition entry_rates :: "usage_view \<Rightarrow> usage_entry \<Rightarrow> dict option" where
  \<comment> \<open>the rate in effect on the day of the turn\<close>
  "entry_rates v e = rates_for (ag_repr v) [] (ag_prices v) (ue_provider e) (ue_model e)
     (Some (day_text (local_day v (ue_ts e)))) (ue_fast e)"

definition cost_of :: "usage_view \<Rightarrow> usage_entry \<Rightarrow> rat" where
  "cost_of v e = entry_cost (ag_repr v) e (entry_rates v e)"

definition tally_days :: "usage_view \<Rightarrow> usage_entry \<Rightarrow> tally \<Rightarrow> tally" where
  \<comment> \<open>the series over the whole history and over the last days, whatever the window\<close>
  "tally_days v e t =
     (let day = local_day v (ue_ts e) in
      t\<lparr> ty_day := add_at day e (ty_day t),
         ty_provider_day := (if day \<ge> today_of v - 13 then add_at (day, ue_provider e) e (ty_provider_day t) else ty_provider_day t),
         ty_provider_hour := (if day \<ge> today_of v - 6
            then add_at (ue_provider e, local_hour v (ue_ts e)) e (ty_provider_hour t) else ty_provider_hour t),
         ty_day_cost := (if day \<ge> today_of v - 13 then add_cost (day, ue_provider e) (cost_of v e) (ty_day_cost t)
            else ty_day_cost t) \<rparr>)"

definition tally_tier :: "string option \<Rightarrow> string \<Rightarrow> tally \<Rightarrow> tally" where
  "tally_tier tier model t = (case tier of
       None \<Rightarrow> t
     | Some x \<Rightarrow>
         (let ds = (if x = ''short'' then 1 else 0); dl = 1 - ds; (s, l) = or_default (map_of (ty_model_tiers t) model) (0, 0) in
          t\<lparr> ty_short := ty_short t + ds, ty_long := ty_long t + dl,
             ty_model_tiers := AList.update model (s + ds, l + dl) (ty_model_tiers t) \<rparr>))"

definition tally_window :: "usage_view \<Rightarrow> usage_entry \<Rightarrow> tally \<Rightarrow> tally" where
  "tally_window v e t =
     (let rate = entry_rates v e; cost = cost_of v e; h = local_hour v (ue_ts e) in
      tally_tier (context_tier (ag_repr v) e rate) (ue_model e)
        (t\<lparr> ty_total := add_entry e (ty_total t), ty_provider := add_at (ue_provider e) e (ty_provider t),
            ty_hours := (ty_hours t)[h := add_entry e (ty_hours t ! h)],
            ty_model := add_at (ue_model e) e (ty_model t),
            ty_model_provider := (if map_of (ty_model_provider t) (ue_model e) = None
               then AList.update (ue_model e) (ue_provider e) (ty_model_provider t) else ty_model_provider t),
            ty_cost := ty_cost t + cost, ty_model_cost := add_cost (ue_model e) cost (ty_model_cost t),
            ty_uncosted := (if rate = None then ty_uncosted t + total_tokens e else ty_uncosted t) \<rparr>))"

definition tally_entry :: "usage_view \<Rightarrow> usage_entry \<Rightarrow> tally \<Rightarrow> tally" where
  "tally_entry v e t = (let t1 = tally_days v e t in if in_window v e then tally_window v e t1 else t1)"

definition tally_of :: "usage_view \<Rightarrow> usage_entry list \<Rightarrow> tally" where
  "tally_of v es = fold (tally_entry v) (chosen es) empty_tally"

section \<open>The payload\<close>

fun first_max :: "('a \<Rightarrow> int) \<Rightarrow> 'a list \<Rightarrow> 'a option" where
  \<comment> \<open>\<open>max(xs, key=f)\<close>, the first of several\<close>
  "first_max f [] = None"
| "first_max f (x # xs) = (case first_max f xs of None \<Rightarrow> Some x | Some y \<Rightarrow> if f y > f x then Some y else Some x)"

definition maybe_json :: "('a \<Rightarrow> json) \<Rightarrow> 'a option \<Rightarrow> json" where
  "maybe_json f x = (case x of None \<Rightarrow> JNull | Some y \<Rightarrow> f y)"

definition tiers_json :: "int \<times> int \<Rightarrow> json" where
  "tiers_json p = JDict [(''short'', JInt (fst p)), (''long'', JInt (snd p))]"

definition model_row :: "usage_view \<Rightarrow> tally \<Rightarrow> string \<times> bucket \<Rightarrow> dict" where
  "model_row v t p = (case p of (m, b) \<Rightarrow>
     [(''model'', JStr m), (''provider'', JStr (or_default (map_of (ty_model_provider t) m) [])),
      (''messages'', JInt (bk_messages b)), (''sessions'', JInt (int (length (bk_sessions b)))),
      (''cost'', JFloat (ag_round v 4 (or_default (map_of (ty_model_cost t) m) 0))),
      (''context_tier_breakdown'', tiers_json (or_default (map_of (ty_model_tiers t) m) (0, 0)))] @ token_dict b)"

definition peak_hour :: "tally \<Rightarrow> nat option" where
  "peak_hour t = (case first_max (\<lambda>h. bk_messages (ty_hours t ! h)) [0..<24] of
       None \<Rightarrow> None
     | Some h \<Rightarrow> if bk_messages (ty_hours t ! h) = 0 then None else Some h)"

definition span_days :: "usage_view \<Rightarrow> int list \<Rightarrow> int \<times> int" where
  \<comment> \<open>active days and days spanned\<close>
  "span_days v days = (case window_days (ag_window v) of
       Some n \<Rightarrow> (int (length (filter (\<lambda>d. today_of v - d < n) days)), n)
     | None \<Rightarrow> (int (length days), if days = [] then 0 else today_of v - Min (set days) + 1))"

definition totals_json :: "usage_view \<Rightarrow> tally \<Rightarrow> dict" where
  "totals_json v t =
     (let days = map fst (ty_day t); (current, longest) = streaks days (today_of v); (active, span) = span_days v days in
      [(''sessions'', JInt (int (length (bk_sessions (ty_total t))))), (''messages'', JInt (bk_messages (ty_total t))),
       (''active_days'', JInt active), (''span_days'', JInt span),
       (''current_streak'', JInt (int current)), (''longest_streak'', JInt (int longest)),
       (''peak_hour'', maybe_json (\<lambda>h. JInt (int h)) (peak_hour t)),
       (''top_model'', maybe_json (JStr \<circ> fst) (first_max (bucket_total \<circ> snd) (ty_model t))),
       (''cache_hit'', JFloat (cache_hit (ag_round v) (ty_total t))), (''cost'', JFloat (ag_round v 2 (ty_cost t))),
       (''uncosted_tokens'', JInt (ty_uncosted t)), (''context_tier_breakdown'', tiers_json (ty_short t, ty_long t)),
       (''first_day'', if days = [] then JNull else JStr (day_text (Min (set days)))),
       (''last_day'', if days = [] then JNull else JStr (day_text (Max (set days))))] @ token_dict (ty_total t))"

definition aggregate :: "usage_view \<Rightarrow> usage_entry list \<Rightarrow> dict" where
  "aggregate v es =
     (let t = tally_of v es in
      [(''window'', JStr (ag_window v)), (''providers'', JList (map JStr (sort (map fst (ty_provider t))))),
       (''prices_updated_at'', dget (ag_prices v) ''updated_at''), (''totals'', JDict (totals_json v t)),
       (''by_day'', JList (map (\<lambda>(d, b). JDict [(''date'', JStr (day_text d)), (''messages'', JInt (bk_messages b)),
          (''total_tokens'', JInt (bucket_total b))]) (sort_key fst (ty_day t)))),
       (''by_provider_day'', JList (map (\<lambda>((d, p), b). JDict [(''date'', JStr (day_text d)), (''provider'', JStr p),
          (''total_tokens'', JInt (bucket_total b)), (''generated_tokens'', JInt (generated_tokens b)),
          (''cost'', JFloat (ag_round v 4 (or_default (map_of (ty_day_cost t) (d, p)) 0)))])
          (sort_key (fst \<circ> fst) (sort_key (snd \<circ> fst) (ty_provider_day t))))),
       (''by_provider_hour'', JList (map (\<lambda>((p, h), b). JDict [(''provider'', JStr p), (''hour'', JInt (int h)),
          (''messages'', JInt (bk_messages b)), (''total_tokens'', JInt (bucket_total b))])
          (sort_key (fst \<circ> fst) (sort_key (snd \<circ> fst) (ty_provider_hour t))))),
       (''by_hour'', JList (map (\<lambda>h. JDict [(''hour'', JInt (int h)), (''messages'', JInt (bk_messages (ty_hours t ! h))),
          (''total_tokens'', JInt (bucket_total (ty_hours t ! h)))]) [0..<24])),
       (''by_model'', JList (map JDict (map (model_row v t) (rev (sort_key (bucket_total \<circ> snd) (rev (ty_model t))))))),
       (''by_provider'', JList (map (\<lambda>(p, b). JDict ((''provider'', JStr p) # token_dict b)) (sort_key fst (ty_provider t))))])"

end
