(* ===== verification/UsageFacts.thy ===== *)
theory UsageFacts
  imports UsageTotals
begin

text \<open>
  What the totals guarantee: every turn is counted once, by its largest and then earliest copy; the
  totals are the sums of every breakdown; the streaks are what they say.
\<close>

section \<open>One copy of every turn\<close>

definition copy_beats :: "usage_entry \<Rightarrow> usage_entry \<Rightarrow> bool" where
  \<comment> \<open>the first is not worse than the second\<close>
  "copy_beats e c \<longleftrightarrow> total_tokens e > total_tokens c \<or> (total_tokens e = total_tokens c \<and> ue_ts e \<le> ue_ts c)"

lemma copy_beats_refl [simp]: "copy_beats e e"
  by (simp add: copy_beats_def)

lemma copy_beats_trans: "copy_beats a b \<Longrightarrow> copy_beats b c \<Longrightarrow> copy_beats a c"
  by (auto simp: copy_beats_def)

lemma better_copy_total: "better_copy e (Some c) \<longleftrightarrow> \<not> copy_beats c e"
  by (auto simp: better_copy_def copy_beats_def)

lemma not_beats: "\<not> copy_beats c e \<Longrightarrow> copy_beats e c"
  by (auto simp: copy_beats_def)

text \<open>What the dictionary of turns holds for a key once \<open>es\<close> have been read.\<close>

definition best_for :: "usage_entry list \<Rightarrow> string \<Rightarrow> usage_entry option \<Rightarrow> bool" where
  "best_for es k v = (case v of
      None \<Rightarrow> \<forall>e\<in>set es. ue_key e \<noteq> k
    | Some c \<Rightarrow> c \<in> set es \<and> ue_key c = k \<and> (\<forall>e\<in>set es. ue_key e = k \<longrightarrow> copy_beats c e))"

definition after_copy :: "usage_entry \<Rightarrow> (string \<times> usage_entry) list \<Rightarrow> (string \<times> usage_entry) list" where
  "after_copy e acc = (if better_copy e (map_of acc (ue_key e)) then AList.update (ue_key e) e acc else acc)"

lemma best_for_other: "best_for es k v \<Longrightarrow> ue_key e \<noteq> k \<Longrightarrow> best_for (es @ [e]) k v"
  by (auto simp: best_for_def split: option.splits)

lemma best_for_key:
  assumes "best_for es (ue_key e) v"
  shows "best_for (es @ [e]) (ue_key e) (if better_copy e v then Some e else v)"
proof (cases v)
  case None
  then show ?thesis using assms by (auto simp: best_for_def better_copy_def)
next
  case (Some c)
  show ?thesis
  proof (cases "copy_beats c e")
    case True
    then show ?thesis using assms Some by (auto simp: best_for_def better_copy_total)
  next
    case False
    then have "copy_beats e x" if "copy_beats c x" for x using not_beats copy_beats_trans that by blast
    then show ?thesis using assms Some False by (auto simp: best_for_def better_copy_total)
  qed
qed

lemma best_for_step:
  assumes "best_for es k (map_of acc k)"
  shows "best_for (es @ [e]) k (map_of (after_copy e acc) k)"
proof (cases "ue_key e = k")
  case True
  then show ?thesis using best_for_key [of es e "map_of acc k"] assms by (auto simp: after_copy_def update_conv')
next
  case False
  then show ?thesis using best_for_other [OF assms] by (simp add: after_copy_def update_conv')
qed

lemma best_for_unique: "best_for xs k (map_of acc k) \<Longrightarrow> best_for (xs @ es) k (map_of (unique_entries es acc) k)"
proof (induction es arbitrary: xs acc)
  case (Cons e es)
  show ?case using Cons.IH [OF best_for_step [OF Cons.prems, of e]] by (simp add: after_copy_def)
qed simp

lemma best_for_all: "best_for es k (map_of (unique_entries es []) k)"
  using best_for_unique [of "[]" k "[]" es] by (simp add: best_for_def)

lemma distinct_unique: "distinct (map fst acc) \<Longrightarrow> distinct (map fst (unique_entries es acc))"
  by (induction es arbitrary: acc) (simp_all add: distinct_update)

lemma chosen_best:
  assumes "(k, c) \<in> set (unique_entries es [])"
  shows "c \<in> set es \<and> ue_key c = k \<and> (\<forall>e\<in>set es. ue_key e = k \<longrightarrow> copy_beats c e)"
proof -
  have "map_of (unique_entries es []) k = Some c"
    using assms distinct_unique [of "[]" es] by (simp add: map_of_is_SomeI)
  then show ?thesis using best_for_all [of es k] by (simp add: best_for_def)
qed

lemma chosen_keys: "map ue_key (chosen es) = map fst (unique_entries es [])"
  using chosen_best by (fastforce simp: chosen_def intro!: map_cong)

lemma key_chosen:
  assumes "e \<in> set es"
  shows "ue_key e \<in> set (map ue_key (chosen es))"
proof -
  have "map_of (unique_entries es []) (ue_key e) \<noteq> None"
    using best_for_all [of es "ue_key e"] assms by (cases "map_of (unique_entries es []) (ue_key e)") (auto simp: best_for_def)
  then show ?thesis unfolding chosen_keys by (auto simp: map_of_eq_None_iff)
qed

text \<open>C38: Every turn is counted exactly once however many copies of it the transcripts hold, in partial
  snapshots, forks and archives: one copy of each key is kept, it is one that was read, and no other
  copy of its key has more tokens, nor as many and an earlier time.\<close>
theorem each_turn_once:
  "distinct (map ue_key (chosen es)) \<and> ue_key ` set (chosen es) = ue_key ` set es \<and> set (chosen es) \<subseteq> set es \<and>
   list_all (\<lambda>c. list_all (copy_beats c) (filter (\<lambda>e. ue_key e = ue_key c) es)) (chosen es)"
proof -
  have c: "c \<in> set es \<and> (\<forall>e\<in>set es. ue_key e = ue_key c \<longrightarrow> copy_beats c e)" if "c \<in> set (chosen es)" for c
    using that chosen_best by (fastforce simp: chosen_def)
  then have "set (chosen es) \<subseteq> set es" by blast
  moreover have "ue_key ` set es \<subseteq> ue_key ` set (chosen es)" using key_chosen by force
  moreover have "distinct (map ue_key (chosen es))"
    unfolding chosen_keys by (rule distinct_unique) simp
  moreover have "list_all (\<lambda>c. list_all (copy_beats c) (filter (\<lambda>e. ue_key e = ue_key c) es)) (chosen es)"
    using c unfolding list_all_iff by auto
  ultimately show ?thesis by blast
qed

section \<open>Totals and breakdowns\<close>

lemma local_hour_bound: "local_hour v t < 24"
proof -
  have "(t + ag_offset v t) mod usec_per_day < usec_per_day" by (simp add: usec_per_day_def)
  then show ?thesis unfolding local_hour_def usec_per_day_def usec_per_hour_def by simp
qed

lemma sum_update:
  fixes g :: "'a \<Rightarrow> 'b::ab_group_add"
  assumes "g z = 0"
  shows "sum_list (map (\<lambda>x. g (snd x)) (AList.update k v d)) =
    sum_list (map (\<lambda>x. g (snd x)) d) + g v - g (or_default (map_of d k) z)"
  using assms by (induction d) (auto simp: or_default_def algebra_simps split: if_splits)

lemma tally_tier_frame [simp]:
  "ty_total (tally_tier a m t) = ty_total t" "ty_model (tally_tier a m t) = ty_model t"
  "ty_provider (tally_tier a m t) = ty_provider t" "ty_hours (tally_tier a m t) = ty_hours t"
  "ty_day (tally_tier a m t) = ty_day t" "ty_cost (tally_tier a m t) = ty_cost t"
  "ty_model_cost (tally_tier a m t) = ty_model_cost t" "ty_provider_day (tally_tier a m t) = ty_provider_day t"
  "ty_provider_hour (tally_tier a m t) = ty_provider_hour t" "ty_day_cost (tally_tier a m t) = ty_day_cost t"
  by (simp_all add: tally_tier_def Let_def split: option.split prod.split)

definition last_days :: "usage_view \<Rightarrow> int \<Rightarrow> usage_entry \<Rightarrow> bool" where
  \<comment> \<open>the turn is of today or one of the \<open>n - 1\<close> days before\<close>
  "last_days v n e \<longleftrightarrow> today_of v - n < local_day v (ue_ts e)"

lemma tally_entry_fields:
  "ty_total (tally_entry v e t) = (if in_window v e then add_entry e (ty_total t) else ty_total t)"
  "ty_model (tally_entry v e t) = (if in_window v e then add_at (ue_model e) e (ty_model t) else ty_model t)"
  "ty_provider (tally_entry v e t) = (if in_window v e then add_at (ue_provider e) e (ty_provider t) else ty_provider t)"
  "ty_hours (tally_entry v e t) = (if in_window v e then (ty_hours t)[local_hour v (ue_ts e) :=
     add_entry e (ty_hours t ! local_hour v (ue_ts e))] else ty_hours t)"
  "ty_day (tally_entry v e t) = add_at (local_day v (ue_ts e)) e (ty_day t)"
  "ty_cost (tally_entry v e t) = (if in_window v e then ty_cost t + cost_of v e else ty_cost t)"
  "ty_model_cost (tally_entry v e t) = (if in_window v e then add_cost (ue_model e) (cost_of v e) (ty_model_cost t) else ty_model_cost t)"
  "ty_provider_day (tally_entry v e t) = (if last_days v 14 e
     then add_at (local_day v (ue_ts e), ue_provider e) e (ty_provider_day t) else ty_provider_day t)"
  "ty_provider_hour (tally_entry v e t) = (if last_days v 7 e
     then add_at (ue_provider e, local_hour v (ue_ts e)) e (ty_provider_hour t) else ty_provider_hour t)"
  "ty_day_cost (tally_entry v e t) = (if last_days v 14 e
     then add_cost (local_day v (ue_ts e), ue_provider e) (cost_of v e) (ty_day_cost t) else ty_day_cost t)"
  by (auto simp: tally_entry_def tally_days_def tally_window_def last_days_def Let_def)

text \<open>A measure of buckets that counts what an entry has of it.\<close>

locale additive =
  fixes g :: "bucket \<Rightarrow> int" and h :: "usage_entry \<Rightarrow> int"
  assumes empty: "g empty_bucket = 0" and add: "g (add_entry e b) = g b + h e"
begin

lemma at: "sum_list (map (\<lambda>x. g (snd x)) (add_at k e d)) = sum_list (map (\<lambda>x. g (snd x)) d) + h e"
  using sum_update [of g empty_bucket k "add_entry e (or_default (map_of d k) empty_bucket)" d, OF empty] by (simp add: add_at_def add)

lemma nth: "i < length bs \<Longrightarrow> sum_list (map g (bs[i := add_entry e (bs ! i)])) = sum_list (map g bs) + h e"
  by (induction bs arbitrary: i) (auto simp: add split: nat.split)

text \<open>The breakdowns agree with the total.\<close>

definition balanced :: "tally \<Rightarrow> bool" where
  "balanced t \<longleftrightarrow> length (ty_hours t) = 24 \<and> g (ty_total t) = sum_list (map (\<lambda>x. g (snd x)) (ty_model t)) \<and>
     g (ty_total t) = sum_list (map (\<lambda>x. g (snd x)) (ty_provider t)) \<and> g (ty_total t) = sum_list (map g (ty_hours t))"

lemma balanced_entry:
  assumes "balanced t"
  shows "balanced (tally_entry v e t) \<and>
    g (ty_total (tally_entry v e t)) = g (ty_total t) + (if in_window v e then h e else 0) \<and>
    sum_list (map (\<lambda>x. g (snd x)) (ty_day (tally_entry v e t))) = sum_list (map (\<lambda>x. g (snd x)) (ty_day t)) + h e"
proof -
  have "local_hour v (ue_ts e) < 24" by (rule local_hour_bound)
  then show ?thesis
    using assms by (simp add: balanced_def tally_entry_fields at nth add)
qed

lemma balanced_fold:
  assumes "balanced t"
  shows "balanced (fold (tally_entry v) es t) \<and>
    g (ty_total (fold (tally_entry v) es t)) = g (ty_total t) + sum_list (map h (filter (in_window v) es)) \<and>
    sum_list (map (\<lambda>x. g (snd x)) (ty_day (fold (tally_entry v) es t))) = sum_list (map (\<lambda>x. g (snd x)) (ty_day t)) + sum_list (map h es)"
  using assms
proof (induction es arbitrary: t)
  case (Cons e es)
  show ?case using balanced_entry [OF Cons.prems, of v e] Cons.IH [of "tally_entry v e t"] by (simp add: comp_def split: if_splits)
qed simp

lemma series_fold:
  "sum_list (map (\<lambda>x. g (snd x)) (ty_provider_day (fold (tally_entry v) es t))) =
     sum_list (map (\<lambda>x. g (snd x)) (ty_provider_day t)) + sum_list (map h (filter (last_days v 14) es))"
  "sum_list (map (\<lambda>x. g (snd x)) (ty_provider_hour (fold (tally_entry v) es t))) =
     sum_list (map (\<lambda>x. g (snd x)) (ty_provider_hour t)) + sum_list (map h (filter (last_days v 7) es))"
  by (induction es arbitrary: t) (simp_all add: tally_entry_fields at)

lemma balanced_empty: "balanced empty_tally"
  by (simp add: balanced_def empty_tally_def empty sum_list_replicate)

lemma tally_balanced:
  "balanced (tally_of v es) \<and> g (ty_total (tally_of v es)) = sum_list (map h (filter (in_window v) (chosen es))) \<and>
   sum_list (map (\<lambda>x. g (snd x)) (ty_day (tally_of v es))) = sum_list (map h (chosen es))"
  "sum_list (map (\<lambda>x. g (snd x)) (ty_provider_day (tally_of v es))) = sum_list (map h (filter (last_days v 14) (chosen es)))"
  "sum_list (map (\<lambda>x. g (snd x)) (ty_provider_hour (tally_of v es))) = sum_list (map h (filter (last_days v 7) (chosen es)))"
  using balanced_fold [OF balanced_empty, of v "chosen es"] series_fold [of v "chosen es" empty_tally]
  by (simp_all add: tally_of_def empty_tally_def empty)

end

interpretation tokens: additive bucket_total total_tokens
  by unfold_locales (simp_all add: bucket_total_def total_tokens_def empty_bucket_def add_entry_def)

interpretation messages: additive bk_messages "\<lambda>e. 1"
  by unfold_locales (simp_all add: empty_bucket_def add_entry_def)

interpretation inputs: additive bk_input ue_input
  by unfold_locales (simp_all add: empty_bucket_def add_entry_def)

interpretation outputs: additive bk_output ue_output
  by unfold_locales (simp_all add: empty_bucket_def add_entry_def)

lemma cost_entry:
  "ty_cost t = sum_list (map snd (ty_model_cost t)) \<Longrightarrow>
     ty_cost (tally_entry v e t) = sum_list (map snd (ty_model_cost (tally_entry v e t))) \<and>
     ty_cost (tally_entry v e t) = ty_cost t + (if in_window v e then cost_of v e else 0)"
  using sum_update [of "\<lambda>x::rat. x" 0 "ue_model e" "or_default (map_of (ty_model_cost t) (ue_model e)) 0 + cost_of v e" "ty_model_cost t"]
  by (simp add: tally_entry_fields add_cost_def comp_def)

lemma cost_fold:
  "ty_cost t = sum_list (map snd (ty_model_cost t)) \<Longrightarrow>
     ty_cost (fold (tally_entry v) es t) = sum_list (map snd (ty_model_cost (fold (tally_entry v) es t))) \<and>
     ty_cost (fold (tally_entry v) es t) = ty_cost t + sum_list (map (cost_of v) (filter (in_window v) es))"
proof (induction es arbitrary: t)
  case (Cons e es)
  show ?case using cost_entry [OF Cons.prems, of v e] Cons.IH [of "tally_entry v e t"] by (auto split: if_splits)
qed simp

lemma day_cost_fold:
  "sum_list (map snd (ty_day_cost (fold (tally_entry v) es t))) =
     sum_list (map snd (ty_day_cost t)) + sum_list (map (cost_of v) (filter (last_days v 14) es))"
proof -
  have u: "sum_list (map snd (AList.update k v d)) = sum_list (map snd d) + v - or_default (map_of d k) 0" for k v and d :: "('k \<times> rat) list"
    using sum_update [of "\<lambda>x::rat. x" 0 k v d] by simp
  show ?thesis by (induction es arbitrary: t) (simp_all add: tally_entry_fields add_cost_def u)
qed

text \<open>C39: Nothing is lost or counted twice in the tally that the payload is made from. Tokens and messages:
  the totals are the sums over the models, over the providers and over the hours of the day, and
  the sum over the kept turns of the window; the days, which ignore the window, add up to all kept
  turns, the days of the providers to the kept turns of the last 14 days, and their hours to those
  of the last 7 days. Cost, before the payload rounds it: the total is the sum over the models and
  over the turns of the window, the days of the providers add up to the last 14 days, each turn at
  the rate of its own day.\<close>
theorem totals_balance:
  "let t = tally_of v es; turns = filter (in_window v) (chosen es);
      fortnight = filter (last_days v 14) (chosen es); week = filter (last_days v 7) (chosen es) in
   bucket_total (ty_total t) = sum_list (map total_tokens turns) \<and>
   bucket_total (ty_total t) = sum_list (map (\<lambda>x. bucket_total (snd x)) (ty_model t)) \<and>
   bucket_total (ty_total t) = sum_list (map (\<lambda>x. bucket_total (snd x)) (ty_provider t)) \<and>
   bucket_total (ty_total t) = sum_list (map bucket_total (ty_hours t)) \<and>
   bk_messages (ty_total t) = int (length turns) \<and>
   bk_messages (ty_total t) = sum_list (map (\<lambda>x. bk_messages (snd x)) (ty_model t)) \<and>
   bk_messages (ty_total t) = sum_list (map (\<lambda>x. bk_messages (snd x)) (ty_provider t)) \<and>
   bk_messages (ty_total t) = sum_list (map bk_messages (ty_hours t)) \<and>
   sum_list (map (\<lambda>x. bucket_total (snd x)) (ty_day t)) = sum_list (map total_tokens (chosen es)) \<and>
   sum_list (map (\<lambda>x. bk_messages (snd x)) (ty_day t)) = int (length (chosen es)) \<and>
   sum_list (map (\<lambda>x. bucket_total (snd x)) (ty_provider_day t)) = sum_list (map total_tokens fortnight) \<and>
   sum_list (map (\<lambda>x. bucket_total (snd x)) (ty_provider_hour t)) = sum_list (map total_tokens week) \<and>
   sum_list (map (\<lambda>x. bk_messages (snd x)) (ty_provider_hour t)) = int (length week) \<and>
   ty_cost t = sum_list (map (cost_of v) turns) \<and> ty_cost t = sum_list (map snd (ty_model_cost t)) \<and>
   sum_list (map snd (ty_day_cost t)) = sum_list (map (cost_of v) fortnight)"
proof -
  have one: "sum_list (map (\<lambda>e. 1) xs) = int (length xs)" for xs :: "usage_entry list" by (induction xs) simp_all
  note tk = tokens.tally_balanced [of v es, unfolded tokens.balanced_def] and
    ms = messages.tally_balanced [of v es, unfolded messages.balanced_def one]
  have "ty_cost (tally_of v es) = sum_list (map (cost_of v) (filter (in_window v) (chosen es)))"
    "ty_cost (tally_of v es) = sum_list (map snd (ty_model_cost (tally_of v es)))"
    "sum_list (map snd (ty_day_cost (tally_of v es))) = sum_list (map (cost_of v) (filter (last_days v 14) (chosen es)))"
    using cost_fold [of empty_tally v "chosen es"] day_cost_fold [of v "chosen es" empty_tally]
    by (simp_all add: tally_of_def empty_tally_def)
  with tk ms show ?thesis unfolding Let_def by blast
qed

section \<open>Streaks\<close>

text \<open>The run that ends with a day is a run, and the day before it is not active.\<close>

lemma run_back_run: "0 < i \<Longrightarrow> i < run_back days c \<Longrightarrow> c - int i \<in> set days"
proof (induction days c arbitrary: i rule: run_back.induct)
  case (1 days c)
  show ?case
  proof (cases "c - 1 \<in> set days")
    case True
    then have r: "run_back days c = Suc (run_back days (c - 1))" by (simp add: run_back.simps)
    show ?thesis
    proof (cases "i = 1")
      case False
      then have "c - 1 - int (i - 1) \<in> set days" using 1 True r by (intro "1.IH") auto
      moreover have "c - 1 - int (i - 1) = c - int i" using 1 False by simp
      ultimately show ?thesis by simp
    qed (simp add: True)
  next
    case False
    then show ?thesis using 1 by (simp add: run_back.simps)
  qed
qed

lemma run_back_end: "c - int (run_back days c) \<notin> set days"
proof (induction days c rule: run_back.induct)
  case (1 days c)
  then show ?case by (cases "c - 1 \<in> set days") (simp_all add: run_back.simps [of days c] algebra_simps)
qed

lemma longest_run_max:
  assumes "sorted_wrt (<) (p # ds)" "p \<in> set days" "set ds \<subseteq> set days" "\<forall>d\<in>set days. d \<le> p \<or> d \<in> set ds"
  shows "longest_run (p # ds) (run_back days p) m = fold max (map (run_back days) ds) m"
  using assms
proof (induction ds arbitrary: p m)
  case (Cons c ds)
  have "c - 1 \<in> set days \<longleftrightarrow> c - p = 1"
  proof
    assume "c - 1 \<in> set days"
    then have "c - 1 \<le> p \<or> c - 1 = c \<or> c - 1 \<in> set ds" using Cons.prems(4) by auto
    then show "c - p = 1" using Cons.prems(1) by auto
  next
    assume "c - p = 1"
    then have "c - 1 = p" by simp
    then show "c - 1 \<in> set days" using Cons.prems(2) by simp
  qed
  moreover have below: "\<forall>d\<in>set days. d \<le> c \<or> d \<in> set ds" using Cons.prems(1,4) by force
  ultimately have "run_back days c = (if c - p = 1 then run_back days p + 1 else 1)"
    by (auto simp: run_back.simps [of days c] algebra_simps)
  then show ?case
    using Cons.IH [of c "max m (run_back days c)", OF _ _ _ below] Cons.prems by (auto simp: Let_def max.commute)
qed simp

lemma last_is_Max: "sorted_wrt (<) xs \<Longrightarrow> xs \<noteq> [] \<Longrightarrow> last xs = Max (set (xs :: int list))"
proof (induction xs)
  case (Cons x xs)
  show ?case
  proof (cases "xs = []")
    case False
    then have "last xs = Max (set xs)" using Cons by simp
    moreover have "x < last xs" using Cons.prems(1) False by simp
    ultimately show ?thesis using False by (simp add: max_def)
  qed simp
qed simp

text \<open>The longest streak is the longest run of all active days, and the current one, which is none of more than a
  day ago, is at most that.\<close>

lemma streaks_exact:
  assumes "days \<noteq> []"
  shows "streaks days today = (if today - Max (set days) > 1 then 0 else run_back days (Max (set days)),
      Max (run_back days ` set days))"
proof -
  obtain p ds where s: "sort (remdups days) = p # ds"
    using assms by (metis list.exhaust remdups_eq_nil_iff set_sort sort_key_simps(1) set_empty)
  have set_days: "set days = set (p # ds)" using s by (metis set_remdups set_sort)
  have lt: "sorted_wrt (<) (p # ds)"
    using s by (metis distinct_remdups distinct_sort sorted_sort strict_sorted_iff)
  have first: "run_back days p = 1"
  proof -
    have "p - 1 \<notin> set (p # ds)" using lt by auto
    then show ?thesis using set_days by (simp add: run_back.simps [of days p])
  qed
  have "longest_run (p # ds) 1 1 = fold max (map (run_back days) ds) (run_back days p)"
    using longest_run_max [OF lt, of days 1] set_days first by auto
  also have "\<dots> = Max (run_back days ` set days)"
    unfolding set_days using Max.set_eq_fold [of "run_back days p" "map (run_back days) ds"] by simp
  finally have longest: "longest_run (p # ds) 1 1 = Max (run_back days ` set days)" .
  have "last (p # ds) = Max (set days)"
    unfolding set_days by (rule last_is_Max [OF lt]) simp
  then show ?thesis unfolding streaks_def s by (simp add: Let_def longest [unfolded One_nat_def])
qed

lemma current_streak_bound:
  assumes "streaks days today = (current, longest)"
  shows "current \<le> longest"
proof (cases "days = []")
  case False
  then have "run_back days (Max (set days)) \<le> Max (run_back days ` set days)" by (intro Max_ge) simp_all
  then show ?thesis using assms unfolding streaks_exact [OF False] by (auto split: if_splits)
qed (use assms in \<open>simp add: streaks_def\<close>)

end
