(* ===== verification/UsageScan.thy ===== *)
theory UsageScan
  imports UsageEntries KeyedStore
begin

text \<open>
  Reading the local histories (\<open>usage/history/parsing.py\<close>): the parsers of a Claude transcript and of
  a Codex rollout, and the scan of files with its cache, which reads only what was appended to a
  file since the last scan. A file is its bytes; decoding UTF-8, \<open>json.loads\<close> and SHA-1 are
  parameters, and so is the address Python names an event by that carries no identifier.
\<close>

section \<open>Surroundings\<close>

record scan_env =
  sc_loads :: "string \<Rightarrow> json option"
  sc_repr :: "json \<Rightarrow> string"
  sc_decode :: "string \<Rightarrow> string"
  sc_sha1 :: "string \<Rightarrow> string"
  sc_address :: "dict \<Rightarrow> int"

section \<open>Claude transcripts\<close>

definition claude_key :: "scan_env \<Rightarrow> dict \<Rightarrow> dict \<Rightarrow> string" where
  "claude_key env event message =
     (if truthy (dget message ''id'') \<or> truthy (dget event ''requestId'')
      then py_str (sc_repr env) (dget event ''requestId'') @ '':'' @ py_str (sc_repr env) (dget message ''id'')
      else py_str (sc_repr env) (py_or (dget event ''uuid'') (JInt (sc_address env event))))"

definition model_or_unknown :: "json \<Rightarrow> string" where
  "model_or_unknown v = (case v of JStr s \<Rightarrow> if s = [] then ''unknown'' else s | _ \<Rightarrow> ''unknown'')"

definition claude_usage :: "scan_env \<Rightarrow> dict \<Rightarrow> dict \<Rightarrow> dict \<Rightarrow> int \<Rightarrow> usage_entry" where
  "claude_usage env event message usage ts =
     (let i = token_int (dget usage ''input_tokens''); cc = token_int (dget usage ''cache_creation_input_tokens'');
          cr = token_int (dget usage ''cache_read_input_tokens'') in
      \<lparr> ue_provider = ''claude'', ue_ts = ts, ue_model = model_or_unknown (dget message ''model''),
        ue_session = cell_text (sc_repr env) event ''sessionId'' [], ue_input = i,
        ue_output = token_int (dget usage ''output_tokens''), ue_cache_write = cc, ue_cache_read = cr,
        ue_key = claude_key env event message,
        ue_cache_write_1h = (case dget usage ''cache_creation'' of JDict d \<Rightarrow> token_int (dget d ''ephemeral_1h_input_tokens'') | _ \<Rightarrow> 0),
        ue_fast = (case dget usage ''speed'' of JStr s \<Rightarrow> lower s \<noteq> [] \<and> lower s \<noteq> ''standard'' | _ \<Rightarrow> False),
        ue_billed = i + cc + cr \<rparr>)"

definition claude_entry_from_line :: "scan_env \<Rightarrow> string \<Rightarrow> usage_entry option" where
  "claude_entry_from_line env text =
     (let line = strip text in
      if line = [] \<or> \<not> contains (CHR 0x22 # ''usage'' @ [CHR 0x22]) line then None
      else (case sc_loads env line of
          Some (JDict event) \<Rightarrow>
            (if dget event ''type'' \<noteq> JStr ''assistant'' then None
             else (case dget event ''message'' of
                 JDict message \<Rightarrow> (case dget message ''usage'' of
                     JDict usage \<Rightarrow>
                       (if dget message ''model'' = JStr ''<synthetic>'' then None
                        else map_option (claude_usage env event message usage) (parse_ts (dget event ''timestamp'')))
                   | _ \<Rightarrow> None)
               | _ \<Rightarrow> None))
        | _ \<Rightarrow> None))"

definition claude_line_parser :: "scan_env \<Rightarrow> string list \<Rightarrow> unit \<Rightarrow> usage_entry list \<times> unit" where
  "claude_line_parser env ls s = (List.map_filter (claude_entry_from_line env) ls, s)"

section \<open>Codex rollouts\<close>

record codex_state =
  cs_session :: string
  cs_lineage :: string
  cs_model :: string
  cs_provider :: string
  cs_known :: bool
  cs_seq :: int
  cs_prev :: "string option"
  cs_compaction :: bool

definition codex_start :: codex_state where
  "codex_start = \<lparr> cs_session = [], cs_lineage = [], cs_model = ''unknown'', cs_provider = ''openai'', cs_known = False,
     cs_seq = 0, cs_prev = None, cs_compaction = False \<rparr>"

definition codex_usage_fields :: "string list" where
  "codex_usage_fields = [''input_tokens'', ''cached_input_tokens'', ''cache_write_input_tokens'', ''output_tokens'',
     ''reasoning_output_tokens'', ''total_tokens'']"

definition codex_usage_signature :: "dict \<Rightarrow> string" where
  "codex_usage_signature usage = join_with '','' (map (\<lambda>k. show_int (token_int (dget usage k))) codex_usage_fields)"

definition nonempty_text :: "json \<Rightarrow> string option" where
  \<comment> \<open>\<open>isinstance(v, str) and v\<close>\<close>
  "nonempty_text v = (case v of JStr s \<Rightarrow> if s = [] then None else Some s | _ \<Rightarrow> None)"

definition codex_meta :: "dict \<Rightarrow> dict \<Rightarrow> codex_state \<Rightarrow> codex_state" where
  "codex_meta event payload s =
     (let session = or_default (nonempty_text (py_or (dget payload ''id'') (dget event ''id''))) (cs_session s);
          s1 = s\<lparr> cs_session := session,
                  cs_lineage := or_default (nonempty_text (dget payload ''forked_from_id'')) session \<rparr> in
      if cs_known s1 then s1
      else s1\<lparr> cs_known := True, cs_provider := or_default (nonempty_text (dget payload ''model_provider'')) (cs_provider s1) \<rparr>)"

definition codex_key :: "scan_env \<Rightarrow> string \<Rightarrow> codex_state \<Rightarrow> string option \<Rightarrow> dict \<Rightarrow> string" where
  "codex_key env file s total_sig last_usage = (case total_sig of
       Some sig \<Rightarrow> (if cs_lineage s \<noteq> []
         then ''codex:'' @ cs_lineage s @ '':'' @ take 20 (sc_sha1 env (sig @ ''|'' @ codex_usage_signature last_usage))
         else ''codex:'' @ file @ '':'' @ show_int (cs_seq s))
     | None \<Rightarrow> ''codex:'' @ file @ '':'' @ show_int (cs_seq s))"

definition codex_turn :: "scan_env \<Rightarrow> string \<Rightarrow> string \<Rightarrow> codex_state \<Rightarrow> int \<Rightarrow> string option \<Rightarrow> dict \<Rightarrow> usage_entry" where
  "codex_turn env file stem s ts total_sig last_usage =
     (let reported = token_int (dget last_usage ''input_tokens''); cached = token_int (dget last_usage ''cached_input_tokens'');
          write = min (token_int (dget last_usage ''cache_write_input_tokens'')) (max 0 (reported - cached));
          output = token_int (dget last_usage ''output_tokens''); total = token_int (dget last_usage ''total_tokens'');
          input = (if cs_compaction s \<and> reported = 0 \<and> cached = 0 \<and> output = 0 \<and> total > 0 then total else reported) in
      \<lparr> ue_provider = ''codex'', ue_ts = ts, ue_model = cs_model s, ue_session = str_or (cs_session s) stem,
        ue_input = max 0 (input - cached - write), ue_output = output, ue_cache_write = write, ue_cache_read = cached,
        ue_key = codex_key env file s total_sig last_usage, ue_cache_write_1h = 0, ue_fast = False, ue_billed = input \<rparr>)"

definition codex_count ::
    "scan_env \<Rightarrow> string \<Rightarrow> string \<Rightarrow> dict \<Rightarrow> dict \<Rightarrow> codex_state \<Rightarrow> usage_entry option \<times> codex_state" where
  \<comment> \<open>a \<open>token_count\<close> event\<close>
  "codex_count env file stem event payload s = (case dget payload ''info'' of
       JDict info \<Rightarrow> (case dget info ''last_token_usage'' of
           JDict last_usage \<Rightarrow>
             (let total_sig = (case dget info ''total_token_usage'' of JDict d \<Rightarrow> Some (codex_usage_signature d) | _ \<Rightarrow> None) in
              if total_sig \<noteq> None \<and> total_sig = cs_prev s then (None, s)
              else (case parse_ts (dget event ''timestamp'') of
                  None \<Rightarrow> (None, s)
                | Some ts \<Rightarrow>
                    (if cs_provider s = ''openai'' then Some (codex_turn env file stem s ts total_sig last_usage) else None,
                     s\<lparr> cs_prev := total_sig, cs_seq := cs_seq s + 1, cs_compaction := False \<rparr>)))
         | _ \<Rightarrow> (None, s))
     | _ \<Rightarrow> (None, s))"

definition codex_marks :: "string list" where
  "codex_marks = map (\<lambda>w. CHR 0x22 # w @ [CHR 0x22])
     [''token_count'', ''turn_context'', ''session_meta'', ''compacted'', ''context_compacted'']"

definition codex_line ::
    "scan_env \<Rightarrow> string \<Rightarrow> string \<Rightarrow> string \<Rightarrow> codex_state \<Rightarrow> usage_entry option \<times> codex_state" where
  "codex_line env file stem line s =
     (if \<not> list_ex (\<lambda>m. contains m line) codex_marks then (None, s)
      else (case sc_loads env line of
          Some (JDict event) \<Rightarrow>
            (let payload = (case dget event ''payload'' of JDict d \<Rightarrow> d | _ \<Rightarrow> []);
                 ptype = py_or (dget payload ''type'') (dget event ''type'') in
             if ptype = JStr ''session_meta'' then (None, codex_meta event payload s)
             else if ptype = JStr ''turn_context''
               then (None, case nonempty_text (dget payload ''model'') of
                      None \<Rightarrow> s | Some m \<Rightarrow> s\<lparr> cs_model := billing_model_id m \<rparr>)
             else if ptype = JStr ''compacted'' \<or> dget event ''type'' = JStr ''compacted'' then (None, s\<lparr> cs_compaction := True \<rparr>)
             else if ptype = JStr ''context_compacted'' then (None, s\<lparr> cs_compaction := True \<rparr>)
             else if ptype = JStr ''token_count'' then codex_count env file stem event payload s
             else (None, s))
        | _ \<Rightarrow> (None, s)))"

fun codex_line_parser ::
    "scan_env \<Rightarrow> string \<Rightarrow> string \<Rightarrow> string list \<Rightarrow> codex_state \<Rightarrow> usage_entry list \<times> codex_state" where
  "codex_line_parser env file stem [] s = ([], s)"
| "codex_line_parser env file stem (l # ls) s = (case codex_line env file stem l s of (e, s1) \<Rightarrow>
     (case codex_line_parser env file stem ls s1 of (es, s2) \<Rightarrow> (case e of None \<Rightarrow> es | Some x \<Rightarrow> x # es, s2)))"

section \<open>Lines and offsets\<close>

fun lines_acc :: "string \<Rightarrow> string \<Rightarrow> string list \<times> string" where
  "lines_acc acc [] = ([], rev acc)"
| "lines_acc acc (c # cs) =
     (if c = LF then (case lines_acc [] cs of (ls, t) \<Rightarrow> (rev (LF # acc) # ls, t)) else lines_acc (c # acc) cs)"

definition complete_lines :: "string \<Rightarrow> string list \<times> string" where
  \<comment> \<open>\<open>_iter_complete_lines\<close>: the lines that end in a newline, and the tail that does not\<close>
  "complete_lines text = lines_acc [] text"

type_synonym 's line_parser = "string list \<Rightarrow> 's \<Rightarrow> usage_entry list \<times> 's"

definition parse_incremental ::
    "scan_env \<Rightarrow> 's line_parser \<Rightarrow> nat \<Rightarrow> 's \<Rightarrow> string \<Rightarrow> usage_entry list \<times> usage_entry list \<times> 's \<times> nat" where
  "parse_incremental env parser start state text =
     (let (ls, tl) = complete_lines (drop start text); (committed, state') = parser (map (sc_decode env) ls) state;
          tail_entries = (if tl = [] then [] else fst (parser [sc_decode env tl] state')) in
      (committed, tail_entries, state', start + length (concat ls)))"

definition anchor_bytes :: nat where
  "anchor_bytes = 4096"

definition offset_anchor :: "scan_env \<Rightarrow> string \<Rightarrow> nat \<Rightarrow> string option" where
  "offset_anchor env text offset =
     (if offset = 0 then Some []
      else if length text < offset then None
      else Some (sc_sha1 env (drop (offset - anchor_bytes) (take offset text))))"

section \<open>Scanning with the cache\<close>

record 's scan_row =
  sr_mtime :: int
  sr_size :: nat
  sr_offset :: nat
  sr_anchor :: "string option"
  sr_state :: 's
  sr_entries :: "dict list"
  sr_tail :: "dict list"

record history_file =
  hf_mtime :: int
  hf_text :: string

definition cached_entries :: "scan_env \<Rightarrow> string \<Rightarrow> dict list \<Rightarrow> usage_entry list" where
  "cached_entries env provider ds = List.map_filter (entry_from_cache (sc_repr env) provider) ds"

definition unchanged :: "'s scan_row \<Rightarrow> history_file \<Rightarrow> bool" where
  "unchanged row f \<longleftrightarrow> sr_mtime row = hf_mtime f \<and> sr_size row = length (hf_text f)"

definition appended :: "scan_env \<Rightarrow> 's scan_row \<Rightarrow> history_file \<Rightarrow> bool" where
  "appended env row f \<longleftrightarrow> length (hf_text f) > sr_size row \<and> sr_anchor row \<noteq> None \<and>
     sr_anchor row = offset_anchor env (hf_text f) (sr_offset row)"

definition resumed_from :: "scan_env \<Rightarrow> 's \<Rightarrow> 's scan_row option \<Rightarrow> history_file \<Rightarrow> nat \<times> 's \<times> dict list" where
  \<comment> \<open>where the parse starts, with which state, and the rows that are kept\<close>
  "resumed_from env init cached f = (case cached of
       None \<Rightarrow> (0, init, [])
     | Some row \<Rightarrow> (if appended env row f then (sr_offset row, sr_state row, sr_entries row) else (0, init, [])))"

definition scan_file ::
    "scan_env \<Rightarrow> 's line_parser \<Rightarrow> 's \<Rightarrow> string \<Rightarrow> 's scan_row option \<Rightarrow> history_file \<Rightarrow> usage_entry list \<times> 's scan_row" where
  "scan_file env parser init provider cached f =
     (let fresh = (let (start, state, kept) = resumed_from env init cached f;
              (committed, tail_entries, state', end_offset) = parse_incremental env parser start state (hf_text f) in
            (cached_entries env provider kept @ committed @ tail_entries,
             \<lparr> sr_mtime = hf_mtime f, sr_size = length (hf_text f), sr_offset = end_offset,
               sr_anchor = offset_anchor env (hf_text f) end_offset, sr_state = state',
               sr_entries = kept @ map entry_to_cache committed, sr_tail = map entry_to_cache tail_entries \<rparr>)) in
      case cached of
        None \<Rightarrow> fresh
      | Some row \<Rightarrow> (if unchanged row f then (cached_entries env provider (sr_entries row @ sr_tail row), row) else fresh))"

fun scan_files ::
    "scan_env \<Rightarrow> (string \<Rightarrow> 's line_parser) \<Rightarrow> 's \<Rightarrow> string \<Rightarrow> (string \<times> history_file) list \<Rightarrow> (string \<times> 's scan_row) list \<Rightarrow>
      usage_entry list \<times> (string \<times> 's scan_row) list" where
  "scan_files env parser init provider [] rows = ([], rows)"
| "scan_files env parser init provider ((p, f) # fs) rows =
     (case scan_file env (parser p) init provider (map_of rows p) f of (es, row) \<Rightarrow>
       (case scan_files env parser init provider fs (AList.update p row rows) of (es', rows') \<Rightarrow> (es @ es', rows')))"

definition collect_files ::
    "scan_env \<Rightarrow> (string \<Rightarrow> 's line_parser) \<Rightarrow> 's \<Rightarrow> string \<Rightarrow> (string \<times> history_file) list \<Rightarrow> (string \<times> 's scan_row) list \<Rightarrow>
      usage_entry list \<times> (string \<times> 's scan_row) list" where
  \<comment> \<open>the files that could be read, by path; rows of vanished files are dropped\<close>
  "collect_files env parser init provider files rows =
     (case scan_files env parser init provider files rows of (es, rows') \<Rightarrow>
       (es, filter (\<lambda>(p, r). p \<in> fst ` set files) rows'))"

definition collect_claude_entries ::
    "scan_env \<Rightarrow> (string \<times> history_file) list \<Rightarrow> (string \<times> unit scan_row) list \<Rightarrow> usage_entry list \<times> (string \<times> unit scan_row) list" where
  "collect_claude_entries env = collect_files env (\<lambda>p. claude_line_parser env) () ''claude''"

section \<open>One file for each rollout\<close>

definition base_name :: "string \<Rightarrow> string" where
  \<comment> \<open>\<open>path.name\<close>\<close>
  "base_name p = last (split_on CHR ''/'' p)"

definition stem_name :: "string \<Rightarrow> string" where
  \<comment> \<open>\<open>path.stem\<close> of a \<open>.jsonl\<close> file\<close>
  "stem_name p = take (length (base_name p) - 6) (base_name p)"

definition rollout_beats :: "string \<Rightarrow> string \<times> history_file \<Rightarrow> string \<times> history_file \<Rightarrow> bool" where
  \<comment> \<open>\<open>rank\<close>: the larger copy, then the one below the active directory\<close>
  "rollout_beats sessions_dir a b \<longleftrightarrow>
     (let sa = length (hf_text (snd a)); sb = length (hf_text (snd b));
          aa = prefix (sessions_dir @ ''/'') (fst a); ab = prefix (sessions_dir @ ''/'') (fst b) in
      sa > sb \<or> (sa = sb \<and> aa \<and> \<not> ab))"

fun best_rollout :: "string \<Rightarrow> (string \<times> history_file) list \<Rightarrow> string \<times> history_file \<Rightarrow> string \<times> history_file" where
  "best_rollout dir [] best = best"
| "best_rollout dir (f # fs) best = best_rollout dir fs (if rollout_beats dir f best then f else best)"

definition dedupe_codex_paths :: "string \<Rightarrow> (string \<times> history_file) list \<Rightarrow> (string \<times> history_file) list" where
  "dedupe_codex_paths dir fs = map (\<lambda>n. (let same = filter (\<lambda>f. base_name (fst f) = n) fs in best_rollout dir (tl same) (hd same)))
     (rev (remdups (rev (map (base_name \<circ> fst) fs))))"

fun move_rows :: "string \<Rightarrow> string list \<Rightarrow> (string \<times> 's scan_row) list \<Rightarrow> (string \<times> 's scan_row) list" where
  \<comment> \<open>the cached row of another copy of the rollout goes to the chosen one, unless that has its own\<close>
  "move_rows key [] rows = rows"
| "move_rows key (old # olds) rows =
     move_rows key olds (case map_of rows old of
         None \<Rightarrow> rows
       | Some r \<Rightarrow> (let rows1 = AList.delete old rows in if map_of rows1 key = None then AList.update key r rows1 else rows1))"

definition move_all :: "string list \<Rightarrow> (string \<times> 's scan_row) list \<Rightarrow> (string \<times> 's scan_row) list" where
  "move_all keys rows = fold (\<lambda>key rs. move_rows key
     (filter (\<lambda>old. old \<noteq> key \<and> base_name old = base_name key) (map fst rows)) rs) keys rows"

definition collect_codex_entries ::
    "scan_env \<Rightarrow> string \<Rightarrow> (string \<times> history_file) list \<Rightarrow> (string \<times> codex_state scan_row) list \<Rightarrow>
      usage_entry list \<times> (string \<times> codex_state scan_row) list" where
  "collect_codex_entries env sessions_dir files rows =
     (let chosen_files = dedupe_codex_paths sessions_dir files in
      collect_files env (\<lambda>p. codex_line_parser env (base_name p) (stem_name p)) codex_start ''codex''
        chosen_files (move_all (map fst chosen_files) rows))"

end
