(* ===== verification/UsageScanFacts.thy ===== *)
theory UsageScanFacts
  imports UsageScan
begin

text \<open>
  An incremental scan finds what a full one finds: the contract of a line parser, its
  interpretations on the parsers of Claude and Codex, and the chain of scans of a growing file.
\<close>

section \<open>Lines\<close>

definition terminated :: "string \<Rightarrow> bool" where
  "terminated l \<longleftrightarrow> l \<noteq> [] \<and> last l = LF \<and> LF \<notin> set (butlast l)"

lemma lines_acc_append:
  "LF \<notin> set b \<Longrightarrow> lines_acc acc (b @ LF # r) = ((rev acc @ b @ [LF]) # fst (lines_acc [] r), snd (lines_acc [] r))"
  by (induction b arbitrary: acc) (auto split: prod.split)

lemma lines_acc_text: "concat (fst (lines_acc acc s)) @ snd (lines_acc acc s) = rev acc @ s"
proof (induction acc s rule: lines_acc.induct)
  case (2 acc c cs)
  then show ?case by (cases "c = LF") (auto split: prod.splits)
qed simp

lemma lines_acc_terminated: "LF \<notin> set acc \<Longrightarrow> \<forall>l\<in>set (fst (lines_acc acc s)). terminated l"
proof (induction acc s rule: lines_acc.induct)
  case (2 acc c cs)
  then show ?case by (cases "c = LF") (auto simp: terminated_def split: prod.splits)
qed simp

lemma complete_lines_concat:
  "\<forall>l\<in>set ls. terminated l \<Longrightarrow>
     complete_lines (concat ls @ r) = (ls @ fst (complete_lines r), snd (complete_lines r))"
proof (induction ls)
  case (Cons l ls)
  then have l: "l = butlast l @ [LF]" "LF \<notin> set (butlast l)"
    unfolding terminated_def by (metis append_butlast_last_id list.set_intros(1))+
  have "complete_lines (concat (l # ls) @ r) = lines_acc [] (butlast l @ LF # (concat ls @ r))"
    using l(1) unfolding complete_lines_def by (metis append.assoc append_Cons append_Nil concat.simps(2))
  also have "\<dots> = (l # fst (lines_acc [] (concat ls @ r)), snd (lines_acc [] (concat ls @ r)))"
    using lines_acc_append [OF l(2), of "[]"] l(1) by simp
  finally show ?case using Cons by (simp add: complete_lines_def)
qed simp

lemma complete_lines_text: "concat (fst (complete_lines s)) @ snd (complete_lines s) = s"
  using lines_acc_text [of "[]" s] by (simp add: complete_lines_def)

lemma complete_lines_terminated: "\<forall>l\<in>set (fst (complete_lines s)). terminated l"
  using lines_acc_terminated [of "[]" s] by (simp add: complete_lines_def)

text \<open>A text that begins with the complete lines of another.\<close>

definition committed_length :: "string \<Rightarrow> nat" where
  "committed_length s = length (concat (fst (complete_lines s)))"

lemma complete_lines_resume:
  assumes "take (committed_length s) s' = take (committed_length s) s"
  shows "complete_lines s' = (fst (complete_lines s) @ fst (complete_lines (drop (committed_length s) s')),
     snd (complete_lines (drop (committed_length s) s')))"
proof -
  have "take (committed_length s) s = concat (fst (complete_lines s))"
    using complete_lines_text [of s] unfolding committed_length_def by (metis append_eq_conv_conj)
  then have "s' = concat (fst (complete_lines s)) @ drop (committed_length s) s'"
    using assms by (metis append_take_drop_id)
  then show ?thesis using complete_lines_concat [OF complete_lines_terminated] by metis
qed

section \<open>The contract of a line parser\<close>

definition storable_entry :: "usage_entry \<Rightarrow> bool" where
  "storable_entry e \<longleftrightarrow> valid_instant (ue_ts e) \<and> ue_model e \<noteq> []"

definition full_parse :: "scan_env \<Rightarrow> 's line_parser \<Rightarrow> 's \<Rightarrow> string \<Rightarrow> usage_entry list" where
  \<comment> \<open>\<open>_parse_claude_file\<close>, \<open>_parse_codex_file\<close>\<close>
  "full_parse env parser init text = (case parse_incremental env parser 0 init text of (c, t, s, n) \<Rightarrow> c @ t)"

definition row_for :: "scan_env \<Rightarrow> 's line_parser \<Rightarrow> 's \<Rightarrow> int \<Rightarrow> string \<Rightarrow> 's scan_row" where
  \<comment> \<open>the row a full parse of the file leaves\<close>
  "row_for env parser init mtime text = (case parse_incremental env parser 0 init text of (c, t, s, n) \<Rightarrow>
     \<lparr> sr_mtime = mtime, sr_size = length text, sr_offset = n, sr_anchor = offset_anchor env text n, sr_state = s,
       sr_entries = map entry_to_cache c, sr_tail = map entry_to_cache t \<rparr>)"

definition change_seen :: "scan_env \<Rightarrow> history_file \<Rightarrow> history_file \<Rightarrow> bool" where
  \<comment> \<open>a rewritten file shows it in its time, its size or the bytes before the offset\<close>
  "change_seen env f g \<longleftrightarrow>
     (hf_mtime f \<noteq> hf_mtime g \<or> length (hf_text f) \<noteq> length (hf_text g) \<or> hf_text f = hf_text g) \<and>
     (length (hf_text g) \<le> length (hf_text f) \<or>
      offset_anchor env (hf_text f) (committed_length (hf_text f)) \<noteq> offset_anchor env (hf_text g) (committed_length (hf_text f)) \<or>
      take (committed_length (hf_text f)) (hf_text g) = take (committed_length (hf_text f)) (hf_text f))"

locale transcript_parser =
  fixes parser :: "'s line_parser" and provider :: string
  assumes parse_append: "parser (xs @ ys) s = (case parser xs s of (a, s1) \<Rightarrow> case parser ys s1 of (b, s2) \<Rightarrow> (a @ b, s2))"
    and parse_provider: "e \<in> set (fst (parser xs s)) \<Longrightarrow> ue_provider e = provider"
begin

lemma cached_back:
  assumes "\<forall>e\<in>set es. storable_entry e" "\<forall>e\<in>set es. ue_provider e = provider"
  shows "cached_entries env provider (map entry_to_cache es) = es"
  using assms
proof (induction es)
  case (Cons e es)
  have "entry_from_cache (sc_repr env) (ue_provider e) (entry_to_cache e) = Some e"
    using Cons.prems(1) by (intro entry_cache_roundtrip) (simp_all add: storable_entry_def)
  then show ?case using Cons by (simp add: cached_entries_def map_filter_simps)
qed (simp add: cached_entries_def map_filter_simps)

lemma cached_append: "cached_entries env provider (xs @ ys) = cached_entries env provider xs @ cached_entries env provider ys"
  by (simp add: cached_entries_def List.map_filter_def)

lemma resume_parse:
  assumes "take (committed_length s) s' = take (committed_length s) s"
    and p0: "parse_incremental env parser 0 init s = (c0, t0, st0, n0)"
    and p1: "parse_incremental env parser n0 st0 s' = (c1, t1, st1, n1)"
  shows "parse_incremental env parser 0 init s' = (c0 @ c1, t1, st1, n1) \<and> n0 = committed_length s"
proof -
  define d where "d = drop (committed_length s) s'"
  have n0: "n0 = committed_length s" and c0: "parser (map (sc_decode env) (fst (complete_lines s))) init = (c0, st0)"
    using p0 by (auto simp: parse_incremental_def committed_length_def Let_def split: prod.splits)
  have c: "complete_lines s' = (fst (complete_lines s) @ fst (complete_lines d), snd (complete_lines d))"
    unfolding d_def by (rule complete_lines_resume [OF assms(1)])
  have p: "parser (map (sc_decode env) (fst (complete_lines d))) st0 = (c1, st1)"
      "t1 = (if snd (complete_lines d) = [] then [] else fst (parser [sc_decode env (snd (complete_lines d))] st1))"
      "n1 = n0 + length (concat (fst (complete_lines d)))"
    using p1 unfolding n0 d_def by (auto simp: parse_incremental_def Let_def split: prod.splits)
  have "parser (map (sc_decode env) (fst (complete_lines s) @ fst (complete_lines d))) init = (c0 @ c1, st1)"
    using c0 p(1) by (simp add: parse_append)
  then show ?thesis
    using c p(2,3) n0 by (simp add: parse_incremental_def Let_def committed_length_def)
qed

lemma parsed_provider:
  assumes "parse_incremental env parser n st s = (c, t, st', n')" "e \<in> set c \<union> set t"
  shows "ue_provider e = provider"
proof -
  obtain ls tl where l: "complete_lines (drop n s) = (ls, tl)" by fastforce
  have c: "c = fst (parser (map (sc_decode env) ls) st)"
    and "t = (if tl = [] then [] else fst (parser [sc_decode env tl] (snd (parser (map (sc_decode env) ls) st))))"
    using assms(1) l by (auto simp: parse_incremental_def Let_def split: prod.splits)
  then have "t = [] \<or> (\<exists>x s1. t = fst (parser [x] s1))" by (cases "tl = []") auto
  with c show ?thesis using assms(2) parse_provider by auto
qed

lemma scan_first:
  "scan_file env parser init provider None f =
     (full_parse env parser init (hf_text f), row_for env parser init (hf_mtime f) (hf_text f))"
  by (auto simp: scan_file_def resumed_from_def full_parse_def row_for_def cached_entries_def map_filter_simps Let_def
      split: prod.splits)

text \<open>One scan after another.\<close>

lemma scan_next:
  assumes seen: "change_seen env f g" and ok: "\<forall>e\<in>set (full_parse env parser init (hf_text f)). storable_entry e"
  shows "scan_file env parser init provider (Some (row_for env parser init (hf_mtime f) (hf_text f))) g =
      (full_parse env parser init (hf_text g), row_for env parser init (hf_mtime g) (hf_text g))"
proof -
  let ?row = "row_for env parser init (hf_mtime f) (hf_text f)"
  obtain c0 t0 st0 n0 where p0: "parse_incremental env parser 0 init (hf_text f) = (c0, t0, st0, n0)" by (metis prod_cases4)
  have full0: "full_parse env parser init (hf_text f) = c0 @ t0" by (simp add: full_parse_def p0)
  have stored: "cached_entries env provider (map entry_to_cache c0) = c0" "cached_entries env provider (map entry_to_cache t0) = t0"
    using ok full0 parsed_provider [OF p0] by (auto intro!: cached_back)
  have n0: "n0 = committed_length (hf_text f)"
    using p0 by (auto simp: parse_incremental_def committed_length_def Let_def split: prod.splits)
  show ?thesis
  proof (cases "unchanged ?row g")
    case True
    then have same: "hf_text g = hf_text f" "hf_mtime g = hf_mtime f"
      using seen by (auto simp: unchanged_def change_seen_def row_for_def p0)
    then show ?thesis using True stored by (simp add: scan_file_def full0 cached_append) (simp add: row_for_def p0 stored cached_append)
  next
    case changed: False
    show ?thesis
    proof (cases "appended env ?row g")
      case True
      then have "take (committed_length (hf_text f)) (hf_text g) = take (committed_length (hf_text f)) (hf_text f)"
        using seen by (auto simp: appended_def change_seen_def row_for_def p0 n0)
      moreover obtain c1 t1 st1 n1 where p1: "parse_incremental env parser n0 st0 (hf_text g) = (c1, t1, st1, n1)" by (metis prod_cases4)
      ultimately have p: "parse_incremental env parser 0 init (hf_text g) = (c0 @ c1, t1, st1, n1)"
        using resume_parse p0 by blast
      have r: "resumed_from env init (Some ?row) g = (n0, st0, map entry_to_cache c0)"
        using True by (simp add: resumed_from_def row_for_def p0)
      show ?thesis
        using changed by (simp add: scan_file_def r p1 stored) (simp add: full_parse_def row_for_def p)
    next
      case False
      then have r: "resumed_from env init (Some ?row) g = (0, init, [])" by (simp add: resumed_from_def)
      obtain c1 t1 st1 n1 where p1: "parse_incremental env parser 0 init (hf_text g) = (c1, t1, st1, n1)" by (metis prod_cases4)
      show ?thesis
        using changed by (simp add: scan_file_def r p1 cached_entries_def map_filter_simps) (simp add: full_parse_def row_for_def p1)
    qed
  qed
qed

end

section \<open>The parsers of the program\<close>

interpretation claude: transcript_parser "claude_line_parser env" "''claude''" for env
proof
  show "claude_line_parser env (xs @ ys) s =
      (case claude_line_parser env xs s of (a, s1) \<Rightarrow> case claude_line_parser env ys s1 of (b, s2) \<Rightarrow> (a @ b, s2))" for xs ys s
    by (simp add: claude_line_parser_def List.map_filter_def)
  have "claude_entry_from_line env l = Some e \<Longrightarrow> ue_provider e = ''claude''" for l e
    by (auto simp: claude_entry_from_line_def claude_usage_def Let_def split: if_splits option.splits json.splits)
  then show "e \<in> set (fst (claude_line_parser env xs s)) \<Longrightarrow> ue_provider e = ''claude''" for e xs s
    by (auto simp: claude_line_parser_def List.map_filter_def)
qed

lemma codex_turn_provider [simp]: "ue_provider (codex_turn env fname stem s ts sig u) = ''codex''"
  by (simp add: codex_turn_def Let_def)

lemma codex_count_provider:
  assumes "codex_count env fname stem ev p s = (Some e, s')"
  shows "ue_provider e = ''codex''"
proof (cases "dget p ''info''")
  case (JDict info)
  then show ?thesis
    using assms by (cases "dget info ''last_token_usage''")
      (auto simp: codex_count_def Let_def split: if_split_asm option.split_asm)
qed (use assms in \<open>simp_all add: codex_count_def\<close>)

lemma codex_line_provider:
  assumes "codex_line env fname stem l s = (Some e, s')"
  shows "ue_provider e = ''codex''"
proof (cases "sc_loads env l")
  case (Some v)
  then obtain ev where v: "v = JDict ev" using assms by (cases v) (simp_all add: codex_line_def split: if_splits)
  have "\<exists>p. codex_count env fname stem ev p s = (Some e, s')"
    using assms unfolding codex_line_def Some v option.case json.case Let_def
    by (cases "list_ex (\<lambda>m. contains m l) codex_marks") (auto split: if_split_asm)
  then show ?thesis using codex_count_provider by blast
qed (use assms in \<open>simp add: codex_line_def split: if_splits\<close>)

interpretation codex: transcript_parser "codex_line_parser env fname stem" "''codex''" for env fname stem
proof
  show "codex_line_parser env fname stem (xs @ ys) s = (case codex_line_parser env fname stem xs s of (a, s1) \<Rightarrow>
      case codex_line_parser env fname stem ys s1 of (b, s2) \<Rightarrow> (a @ b, s2))" for xs ys s
    by (induction xs arbitrary: s) (auto split: prod.split option.split)
  show "e \<in> set (fst (codex_line_parser env fname stem xs s)) \<Longrightarrow> ue_provider e = ''codex''" for e xs s
  proof (induction xs arbitrary: s)
    case (Cons l xs)
    obtain o1 s1 where l: "codex_line env fname stem l s = (o1, s1)" by fastforce
    then show ?case
      using Cons.IH [of s1] Cons.prems codex_line_provider by (cases o1) (auto split: prod.splits)
  qed simp
qed

section \<open>A file over time\<close>

fun scan_history ::
    "scan_env \<Rightarrow> 's line_parser \<Rightarrow> 's \<Rightarrow> string \<Rightarrow> history_file list \<Rightarrow> usage_entry list \<Rightarrow> 's scan_row option \<Rightarrow> usage_entry list" where
  \<comment> \<open>what the last scan finds, one scan for each state of the file\<close>
  "scan_history env parser init provider [] es row = es"
| "scan_history env parser init provider (f # fs) es row = (case scan_file env parser init provider row f of
     (es', row') \<Rightarrow> scan_history env parser init provider fs es' (Some row'))"

fun changes_seen :: "scan_env \<Rightarrow> history_file list \<Rightarrow> bool" where
  "changes_seen env (f # g # fs) = (change_seen env f g \<and> changes_seen env (g # fs))"
| "changes_seen env fs = True"

lemma append_only_seen: "prefix (hf_text f) (hf_text g) \<Longrightarrow> change_seen env f g"
proof -
  assume p: "prefix (hf_text f) (hf_text g)"
  have "committed_length (hf_text f) \<le> length (hf_text f)"
    using complete_lines_text [of "hf_text f"] unfolding committed_length_def by (metis length_append le_add1)
  then have "take (committed_length (hf_text f)) (hf_text g) = take (committed_length (hf_text f)) (hf_text f)"
    using p by (auto simp: prefix_def)
  moreover have "length (hf_text f) = length (hf_text g) \<Longrightarrow> hf_text f = hf_text g"
    using p by (auto simp: prefix_def)
  ultimately show ?thesis by (auto simp: change_seen_def)
qed

context transcript_parser begin

lemma history_exact:
  assumes "changes_seen env (f # fs)" "\<forall>g\<in>set (f # fs). \<forall>e\<in>set (full_parse env parser init (hf_text g)). storable_entry e"
  shows "scan_history env parser init provider fs (full_parse env parser init (hf_text f))
      (Some (row_for env parser init (hf_mtime f) (hf_text f))) = full_parse env parser init (hf_text (last (f # fs)))"
  using assms
proof (induction fs arbitrary: f)
  case (Cons g fs)
  have "scan_file env parser init provider (Some (row_for env parser init (hf_mtime f) (hf_text f))) g =
      (full_parse env parser init (hf_text g), row_for env parser init (hf_mtime g) (hf_text g))"
    using Cons.prems by (intro scan_next) simp_all
  then show ?case using Cons.IH [of g] Cons.prems by simp
qed simp

lemma scans_exact:
  assumes "fs \<noteq> []" "changes_seen env fs" "\<forall>g\<in>set fs. \<forall>e\<in>set (full_parse env parser init (hf_text g)). storable_entry e"
  shows "scan_history env parser init provider fs [] None = full_parse env parser init (hf_text (last fs))"
proof -
  obtain f gs where fs: "fs = f # gs" using assms(1) by (cases fs) auto
  show ?thesis using history_exact [of env f gs init] assms(2,3) by (simp add: fs scan_first)
qed

end

text \<open>C40: Reading only what was appended finds what reading everything does: after any number of scans of a Codex
  rollout, each with the cache the one before left, the last scan reports exactly the turns of a full
  parse of the file as it is, with their models, keys and counts, although lines were complete,
  half written and finished in between, and although the file may have been rewritten, as long as a
  rewrite shows in the time, the size or the bytes before the offset.\<close>
theorem incremental_scans_exact:
  assumes "fs \<noteq> []" "changes_seen env fs"
    and "\<forall>g\<in>set fs. \<forall>e\<in>set (full_parse env (codex_line_parser env fname stem) codex_start (hf_text g)). storable_entry e"
  shows "scan_history env (codex_line_parser env fname stem) codex_start ''codex'' fs [] None =
    full_parse env (codex_line_parser env fname stem) codex_start (hf_text (last fs))"
  by (rule codex.scans_exact [OF assms])

lemma incremental_claude_exact:
  assumes "fs \<noteq> []" "changes_seen env fs"
    and "\<forall>g\<in>set fs. \<forall>e\<in>set (full_parse env (claude_line_parser env) () (hf_text g)). storable_entry e"
  shows "scan_history env (claude_line_parser env) () ''claude'' fs [] None = full_parse env (claude_line_parser env) () (hf_text (last fs))"
  by (rule claude.scans_exact [OF assms])

section \<open>A rollout that grows\<close>

definition demo_count :: "int \<Rightarrow> int \<Rightarrow> json" where
  "demo_count sum_tokens last_tokens = JDict [(''timestamp'', JStr ''2026-01-02T03:04:05Z''),
     (''payload'', JDict [(''type'', JStr ''token_count''), (''info'', JDict [
       (''total_token_usage'', JDict [(''input_tokens'', JInt sum_tokens)]),
       (''last_token_usage'', JDict [(''input_tokens'', JInt last_tokens)])])])]"

definition demo_line :: "char \<Rightarrow> string" where
  "demo_line c = [CHR 0x22] @ ''token_count'' @ [CHR 0x22, c]"

definition demo_scan :: scan_env where
  "demo_scan = \<lparr> sc_loads = (\<lambda>s. if contains ''1'' s then Some (demo_count 5 5) else if contains ''2'' s then Some (demo_count 12 7) else None),
     sc_repr = (\<lambda>j. []), sc_decode = (\<lambda>s. s), sc_sha1 = (\<lambda>s. s), sc_address = (\<lambda>d. 0) \<rparr>"

definition demo_files :: "history_file list" where
  \<comment> \<open>one turn, a second one half written, the second one finished\<close>
  "demo_files = [\<lparr> hf_mtime = 1, hf_text = demo_line CHR ''1'' @ [LF] \<rparr>,
     \<lparr> hf_mtime = 2, hf_text = demo_line CHR ''1'' @ [LF] @ take 8 (demo_line CHR ''2'') \<rparr>,
     \<lparr> hf_mtime = 3, hf_text = demo_line CHR ''1'' @ [LF] @ demo_line CHR ''2'' \<rparr>,
     \<lparr> hf_mtime = 4, hf_text = demo_line CHR ''1'' @ [LF] @ demo_line CHR ''2'' @ [LF] \<rparr>]"

lemma demo_storable:
  "\<forall>g\<in>set demo_files. \<forall>e\<in>set (full_parse demo_scan (codex_line_parser demo_scan ''r'' ''r'') codex_start (hf_text g)). storable_entry e"
  by code_simp

lemma demo_seen: "changes_seen demo_scan demo_files"
  by code_simp

theorem incremental_scans_exact_witness:
  "map ue_input (scan_history demo_scan (codex_line_parser demo_scan ''r'' ''r'') codex_start ''codex'' demo_files [] None) = [5, 7]"
proof -
  have "demo_files \<noteq> []" by (simp add: demo_files_def)
  then have "scan_history demo_scan (codex_line_parser demo_scan ''r'' ''r'') codex_start ''codex'' demo_files [] None =
      full_parse demo_scan (codex_line_parser demo_scan ''r'' ''r'') codex_start (hf_text (last demo_files))"
    by (rule incremental_scans_exact [OF _ demo_seen demo_storable])
  moreover have "map ue_input (full_parse demo_scan (codex_line_parser demo_scan ''r'' ''r'') codex_start (hf_text (last demo_files))) = [5, 7]"
    by code_simp
  ultimately show ?thesis by simp
qed

end
