(* ===== verification/Spec2Isabelle.thy ===== *)
theory Spec2Isabelle
  imports SchedStore DaemonHistory GwConfig GwTurn GwStream AccessManage RevertProps SessionFacts TaskOwnerFacts EngineSafety ModelTargets ControlFacts LockFacts UsageFacts UsageScanFacts
begin

text \<open>
  Fluxion Bus: the verification development of \<open>src/src/fluxion\<close>, a Python program that lets a user
  run coding agents (Codex, Claude, Antigravity) from chat channels, from a schedule, from other
  agents and as a model provider. Paths below are relative to that directory.

  \<^bold>\<open>The parts of the program.\<close> A channel hands a message to the task engine (\<open>core/engine.py\<close>), which
  admits it, queues it, takes the lock of its workspace, launches an executor and answers the
  channel; it keeps conversations (\<open>core/session_manager.py\<close>) and the life of every task in
  append-only logs (\<open>core/storage.py\<close>), records what a run changed in the workspace so that it can
  be reverted (\<open>workspace/change_set.py\<close>), and closes the tasks of processes that died
  (\<open>core/runtime_registry.py\<close>). Which directories a run may use is decided by
  \<open>workspace/access.py\<close>. The scheduler (\<open>scheduler/\<close>) submits tasks on its own, from cron rules and
  from the quota windows of the providers. The provider gateway (\<open>provider_gateway/\<close>) chooses the
  agent and model that serves a request of another program and keeps a conversation on it.

  \<^bold>\<open>Prelude.\<close> \<open>FluxionBase\<close> (Python values, strings, dictionaries), \<open>JsonLines\<close> (the JSON-lines files),
  \<open>KeyedStore\<close> (the contract of every keyed store, interpreted by the rule file, the sticky routes and
  the session tables), \<open>IsoTime\<close> (instants, the calendar, ISO 8601, and the contract of a pair of
  timestamp writer and reader, interpreted by each module's own pair).

  \<^bold>\<open>Scheduler.\<close> \<open>Cron\<close> is \<open>scheduler/cron.py\<close>; the scan of a window for a matching minute equals its
  declarative meaning. \<open>SchedModels\<close> and \<open>SchedStore\<close> are \<open>models.py\<close>, \<open>store.py\<close> and \<open>autoping.py\<close>:
  a rule as JSON, the rule file as text, and which rules survive a write. \<open>SchedEngine\<close> is
  \<open>engine.py\<close>: the firing decision, its cooldown and daily cap, and the two-poll debounce of the
  quota trigger. \<open>Daemon\<close> is the tick of \<open>daemon.py\<close>; \<open>DaemonHistory\<close> follows one rule
  through any sequence of ticks: what a quota fire was confirmed by, and how the runs of a rule keep
  its cooldown and its cap.

  \<^bold>\<open>Gateway.\<close> \<open>GwRouting\<close> is \<open>capabilities.py\<close>, \<open>identity.py\<close> and \<open>routing.py\<close>: a selection is sound, best
  and fails only where it must. \<open>GwHealth\<close> is \<open>model_catalog.py\<close> and \<open>model_health.py\<close>, \<open>GwConfig\<close> the
  parser of \<open>config.py\<close>, \<open>GwSticky\<close> the routes table of \<open>sticky.py\<close>, \<open>GwTurn\<close> the part of \<open>app.py\<close>
  that composes them, and \<open>GwStream\<close> the codec of \<open>stream.py\<close>.

  \<^bold>\<open>Workspace permissions.\<close> \<open>AccessPaths\<close>, \<open>AccessStore\<close>, \<open>AccessGrants\<close>, \<open>AccessEntries\<close>,
  \<open>AccessRequests\<close> and \<open>AccessRun\<close> are \<open>workspace/access.py\<close> in the order of the file. \<open>AccessLifecycle\<close>
  is the abstract life of an approval request, and the refinement: every operation on the files
  makes only its changes. \<open>AccessSafety\<close>, \<open>AccessProps\<close> and \<open>AccessManage\<close> lift it to runs: deny roots
  win, an approval covers exactly its request and is used once, keys stay unique.

  \<^bold>\<open>Changes of a run.\<close> \<open>WorkspaceDisk\<close> is the disk, \<open>ChangeSets\<close> and \<open>Reverts\<close> are
  \<open>workspace/change_set.py\<close> and \<open>snapshot.py\<close>. \<open>SnapshotFacts\<close>, \<open>RevertFacts\<close>, \<open>RevertSucceeds\<close> and
  \<open>RevertProps\<close> show that a revert is blocked by any later change, that in a workspace without symbolic
  links it restores what it says and when it succeeds, and the runs whose revert does harm.

  \<^bold>\<open>Conversations and owners.\<close> \<open>EventLog\<close> is \<open>core/storage.py\<close>, \<open>Sessions\<close> and \<open>SessionFacts\<close>
  \<open>core/session_manager.py\<close> (a restart gives back every conversation in the
  5,000 lines it reads), \<open>TaskOwners\<close> and
  \<open>TaskOwnerFacts\<close> \<open>core/runtime_registry.py\<close> (exactly the orphaned tasks are closed).

  \<^bold>\<open>Task engine.\<close> \<open>Attachments\<close> is the redaction of attachment paths in \<open>core/models/attachment.py\<close>: what is
  streamed is the one-pass redaction of the whole output, however it is cut. \<open>EngineTasks\<close> holds the
  parts of \<open>core/engine.py\<close> and \<open>core/router.py\<close> that no other thread can come between; \<open>EngineRun\<close> the
  step relation of the threads. A step ends before the next place where the code takes the records
  lock or waits; every answer of the channel, the executor, the disk and the other processes is
  given to the step, and an answer that is an exception takes the branch of the code's handlers.
  \<open>EngineFacts\<close> holds the invariants of reached states by rule induction, \<open>EngineProps\<close> the life of
  a task, \<open>EngineLocks\<close> and \<open>EngineSafety\<close> what the threads share: locks, workers and their end.
  \<open>ModelTargets\<close> is \<open>executors/model_resolution.py\<close>: an accepted selection is launched as a published id.
  \<open>ControlCommands\<close> and \<open>ControlFacts\<close> are \<open>handle_control_command\<close> and the commands it answers, and that
  the model a conversation chose is the one its next task is launched with. \<open>LockFiles\<close> and \<open>LockFacts\<close>
  are \<open>workspace/lock_state.py\<close> and the lock files that processes share: no two hold one workspace as long
  as no lock file is unlinked while it is held, and what pruning does when one is.

  \<^bold>\<open>Usage.\<close> \<open>UsageEntries\<close> is \<open>usage/history/entry.py\<close>, \<open>pricing.py\<close>, \<open>model_identity.py\<close> and
  \<open>model_rates.py\<close>. \<open>UsageTotals\<close> is \<open>aggregate.py\<close>; \<open>UsageFacts\<close> shows that every turn is counted once,
  in its best copy, that each total is the sum of its parts, and what the streaks mean. \<open>UsageScan\<close> is
  \<open>parsing.py\<close>, the transcripts of Codex and Claude; \<open>UsageScanFacts\<close> shows that scans of a growing file,
  each resumed where the last one committed, read what one scan of the whole file reads. The contracts
  are the locales \<open>additive\<close> (a quantity a tally adds up) and \<open>transcript_parser\<close> (a fold over complete lines).

  \<^bold>\<open>Parameters.\<close> Definitions take as arguments what is not in the repository or is the world's:
  \<open>json.loads\<close>, \<open>repr\<close>, the text of a float, hashes, the time zone database, resolving paths and
  links, the clock, the answers of channels and executors, \<open>git\<close>, whether a process lives, the decoding of
  UTF-8, the local time offset, the rounding of a cost, and the order in which Python iterates over a set. Theorems that need more of one than its type name the need as a hypothesis.
  Floats are rationals, and a character is a code point below 256.

  \<^bold>\<open>Bounds and fuel.\<close> The redactor's loop gets the length of its buffer as fuel; each round
  either stops or shortens the buffer. The scan for labels of an agy log gets the length of the
  text; each round drops a character. The cron scan, the anchoring burst, the retry loop and the
  wait for a lock are recursions or steps with the bounds of the code, and the theorems on them
  say that they end. Dates are valid to the end of the year 9999.

  \<^bold>\<open>Granularity.\<close> An operation under a file lock is one step, since the lock and the atomic replacement
  of the file are the operating system's. \<open>authorize_run_workspace\<close> is one step too, although the code
  reads its snapshot outside the lock and then runs transactions that check again: requests of other
  processes that fall between them are not modelled. In the engine a cancel, and the closing of a task, is one
  step with the log line and the messages that follow it, which the code sends after giving back the records lock;
  exceptions of the disk while the changes of a run are collected are left out. Of the engine, task identifiers are UUIDs and taken to be
  new, writing a log is taken to succeed, and the heartbeat thread, which only sends, is left out.

  \<^bold>\<open>Not modelled.\<close> The channel adapters and their API clients, the executors' drivers, the usage probes, the
  SQLite store of the usage history and the databases of Antigravity, the web API, the MCP server, the settings loader, the setup commands of the
  gateway, the reader of agy's trajectories, \<open>git\<close> and the command line: they are calls of vendor
  interfaces, of subprocesses and of frameworks, and what little they decide is an input of the parts above.
  Also left out are the opening and migration of the SQLite file, the delivery of a notification, and
  texts that are only shown.
\<close>

end
